(* ===== verification/Prelude.thy ===== *)
theory Prelude
  imports Main "HOL-Library.Char_ord" "HOL-Library.List_Lexorder"
begin

text \<open>
  Shared vocabulary of the development.

  \<^item> Errors: every exception the modelled code raises is a constructor of \<open>py_error\<close>, and a
    function that may raise returns \<open>py_error + 'a\<close>.
  \<^item> Text: a Python \<open>str\<close> is a list of characters; the model ranges over the code points 0 to 255,
    for which \<open>length\<close> and slices count code points as Python does.
  \<^item> Time: an aware UTC \<open>datetime\<close> is its number of microseconds since the epoch. The code stores
    \<open>datetime.isoformat()\<close> and compares the stored text; for UTC values the text order is the order
    of the instants (fixed-width fields; a missing fraction sorts first because \<open>'+'\<close> is below \<open>'.'\<close>).
  \<^item> Tables: an SQLite table is the list of its rows in insertion order, and the statements the code
    issues are \<open>sql_update\<close>, \<open>sql_delete\<close>, \<open>sql_first\<close>, \<open>sql_count\<close>, \<open>sql_limit\<close> below.
  \<^item> Machines: \<open>run_ops\<close> iterates an operation over a list of events; the locales
    \<open>invariant_machine\<close> and \<open>lifecycle\<close> are the contracts that the stores share.
\<close>

named_theorems sql_simps \<open>how the table statements act on rows, keys and lookups\<close>
named_theorems py_simps \<open>evaluation rules of the text primitives\<close>


section \<open>Errors and results\<close>

datatype py_error =
    ValueError string
  | KeyError string
  | PermissionError string
  | RuntimeError string
  | IntegrityError string
  | AssertionError
  | CancelledError

type_synonym 'a result = "py_error + 'a"

fun is_ok :: "'a result \<Rightarrow> bool" where
  "is_ok (Inl e) = False"
| "is_ok (Inr x) = True"

lemma is_ok_iff: "is_ok r \<longleftrightarrow> (\<exists>x. r = Inr x)"
  by (cases r) auto


section \<open>Time\<close>

type_synonym instant = int

definition seconds :: "int \<Rightarrow> int" where
  "seconds n = n * 1000000"

definition minutes :: "int \<Rightarrow> int" where
  "minutes n = seconds (60 * n)"

definition hours :: "int \<Rightarrow> int" where
  "hours n = seconds (3600 * n)"

definition days :: "int \<Rightarrow> int" where
  "days n = seconds (86400 * n)"

text \<open>The UTC calendar day of an instant: what the first ten characters of its ISO text identify.\<close>

definition utc_day :: "instant \<Rightarrow> int" where
  "utc_day t = t div days 1"

lemmas time_defs = seconds_def minutes_def hours_def days_def utc_day_def


section \<open>Text\<close>

definition code :: "char \<Rightarrow> nat" where
  "code c = of_char c"

lemma code_less_256: "code c < 256"
  by (simp add: code_def)

lemma code_inj: "code c = code d \<longleftrightarrow> c = d"
  by (simp add: code_def)

text \<open>\<open>str.isspace\<close> and the class \<open>\s\<close> on the code points 0 to 255.\<close>

definition is_space :: "char \<Rightarrow> bool" where
  "is_space c = (let n = code c in (9 \<le> n \<and> n \<le> 13) \<or> (28 \<le> n \<and> n \<le> 32) \<or> n = 133 \<or> n = 160)"

definition is_digit :: "char \<Rightarrow> bool" where
  "is_digit c = (48 \<le> code c \<and> code c \<le> 57)"

text \<open>The class \<open>\w\<close>: \<open>str.isalnum\<close> or the underscore.\<close>

definition is_word :: "char \<Rightarrow> bool" where
  "is_word c = (let n = code c in
     (48 \<le> n \<and> n \<le> 57) \<or> (65 \<le> n \<and> n \<le> 90) \<or> n = 95 \<or> (97 \<le> n \<and> n \<le> 122)
     \<or> n \<in> {170, 178, 179, 181, 185, 186, 188, 189, 190}
     \<or> (192 \<le> n \<and> n \<noteq> 215 \<and> n \<noteq> 247))"

definition lower_char :: "char \<Rightarrow> char" where
  "lower_char c = (let n = code c in
     if (65 \<le> n \<and> n \<le> 90) \<or> (192 \<le> n \<and> n \<le> 222 \<and> n \<noteq> 215)
     then char_of (n + 32) else c)"

text \<open>Evaluation of the character classes on binary integers, and of the case shift on the bits.\<close>

lemma int_code: "int (code c) = of_char c"
  by (simp add: code_def of_nat_of_char)

lemma is_space_code [code]:
  "is_space c = (let n = (of_char c :: int) in (9 \<le> n \<and> n \<le> 13) \<or> (28 \<le> n \<and> n \<le> 32) \<or> n = 133 \<or> n = 160)"
  unfolding is_space_def Let_def int_code [symmetric] by auto

lemma is_digit_code [code]: "is_digit c = (let n = (of_char c :: int) in 48 \<le> n \<and> n \<le> 57)"
  unfolding is_digit_def Let_def int_code [symmetric] by auto

lemma is_word_code [code]:
  "is_word c = (let n = (of_char c :: int) in
     (48 \<le> n \<and> n \<le> 57) \<or> (65 \<le> n \<and> n \<le> 90) \<or> n = 95 \<or> (97 \<le> n \<and> n \<le> 122)
     \<or> n = 170 \<or> n = 178 \<or> n = 179 \<or> n = 181 \<or> n = 185 \<or> n = 186 \<or> n = 188 \<or> n = 189 \<or> n = 190
     \<or> (192 \<le> n \<and> n \<noteq> 215 \<and> n \<noteq> 247))"
  unfolding is_word_def Let_def int_code [symmetric] by auto

fun set_case_bit :: "char \<Rightarrow> char" where
  "set_case_bit (Char b0 b1 b2 b3 b4 b5 b6 b7) = Char b0 b1 b2 b3 b4 True b6 b7"

lemma lower_char_bits [code]:
  "lower_char c = (let n = (of_char c :: int) in
     if (65 \<le> n \<and> n \<le> 90) \<or> (192 \<le> n \<and> n \<le> 222 \<and> n \<noteq> 215) then set_case_bit c else c)"
proof (cases "(65 \<le> code c \<and> code c \<le> 90) \<or> (192 \<le> code c \<and> code c \<le> 222 \<and> code c \<noteq> 215)")
  case True
  obtain b0 b1 b2 b3 b4 b5 b6 b7 where c: "c = Char b0 b1 b2 b3 b4 b5 b6 b7" by (cases c)
  have "\<not> b5" using True by (cases b5; cases b6; cases b7) (auto simp: c code_def of_bool_def split: if_splits)
  then have "code c + 32 = code (set_case_bit c)" by (simp add: c code_def)
  then have "char_of (code c + 32) = set_case_bit c" by (simp add: code_def)
  with True show ?thesis unfolding lower_char_def Let_def int_code [symmetric] by auto
next
  case False
  then show ?thesis unfolding lower_char_def Let_def int_code [symmetric] by auto
qed

definition lower :: "string \<Rightarrow> string" where
  "lower s = map lower_char s"

definition lstrip :: "string \<Rightarrow> string" where
  "lstrip s = dropWhile is_space s"

definition rstrip :: "string \<Rightarrow> string" where
  "rstrip s = rev (dropWhile is_space (rev s))"

definition strip :: "string \<Rightarrow> string" where
  "strip s = rstrip (lstrip s)"

definition starts_with :: "string \<Rightarrow> string \<Rightarrow> bool" where
  "starts_with p s = (take (length p) s = p)"

definition ends_with :: "string \<Rightarrow> string \<Rightarrow> bool" where
  "ends_with p s = (drop (length s - length p) s = p)"

fun contains :: "string \<Rightarrow> string \<Rightarrow> bool" where
  "contains p [] = (p = [])"
| "contains p (c # s) = (starts_with p (c # s) \<or> contains p s)"

lemma contains_iff: "contains p s \<longleftrightarrow> (\<exists>u v. s = u @ p @ v)"
proof (induction s)
  case Nil
  then show ?case by auto
next
  case (Cons c s)
  have start: "starts_with p (c # s) \<longleftrightarrow> (\<exists>v. c # s = p @ v)"
    by (metis append_eq_conv_conj append_take_drop_id starts_with_def)
  show ?case
  proof
    assume "contains p (c # s)"
    then show "\<exists>u v. c # s = u @ p @ v"
      using start Cons.IH by (metis append_Cons append_Nil contains.simps(2))
  next
    assume "\<exists>u v. c # s = u @ p @ v"
    then obtain u v where uv: "c # s = u @ p @ v" by blast
    show "contains p (c # s)"
    proof (cases u)
      case Nil
      then show ?thesis using uv start by (metis append_Nil contains.simps(2))
    next
      case (Cons d w)
      then show ?thesis using uv Cons.IH by auto
    qed
  qed
qed

lemma dropWhile_rev_subset: "set (dropWhile P (rev xs)) \<subseteq> set xs"
  by (metis set_dropWhileD set_rev subsetI)

lemma set_strip: "set (strip s) \<subseteq> set s"
  using set_dropWhileD dropWhile_rev_subset
  by (fastforce simp: strip_def rstrip_def lstrip_def)

text \<open>What \<open>str.strip\<close> removes and what it leaves.\<close>

lemma strip_decomp: "\<exists>u v. s = u @ strip s @ v \<and> list_all is_space u \<and> list_all is_space v"
proof -
  let ?m = "lstrip s"
  have 1: "s = takeWhile is_space s @ ?m" by (simp add: lstrip_def)
  have 2: "?m = strip s @ rev (takeWhile is_space (rev ?m))"
    by (simp add: strip_def rstrip_def flip: rev_append)
  have "list_all is_space (takeWhile is_space x)" for x
    using set_takeWhileD by (fastforce simp: list_all_iff)
  with 1 2 show ?thesis by (metis list_all_rev)
qed

lemma strip_edges: "strip s \<noteq> [] \<Longrightarrow> \<not> is_space (hd (strip s)) \<and> \<not> is_space (last (strip s))"
proof -
  assume ne: "strip s \<noteq> []"
  let ?m = "lstrip s"
  have r: "strip s = rev (dropWhile is_space (rev ?m))" by (simp add: strip_def rstrip_def)
  with ne have last: "\<not> is_space (last (strip s))"
    by (metis hd_dropWhile last_rev rev_is_Nil_conv)
  obtain w where w: "?m = strip s @ w"
    by (metis r rev_append rev_rev_ident takeWhile_dropWhile_id)
  then have "?m \<noteq> []" "hd ?m = hd (strip s)" using ne by auto
  then have "\<not> is_space (hd (strip s))"
    by (metis hd_dropWhile lstrip_def)
  with last show ?thesis by simp
qed

lemma strip_id: "s = [] \<or> (\<not> is_space (hd s) \<and> \<not> is_space (last s)) \<Longrightarrow> strip s = s"
proof -
  assume a: "s = [] \<or> (\<not> is_space (hd s) \<and> \<not> is_space (last s))"
  show ?thesis
  proof (cases "s = []")
    case False
    with a have "lstrip s = s" by (cases s) (auto simp: lstrip_def)
    moreover have "dropWhile is_space (rev s) = rev s"
      using a False by (cases "rev s") (auto simp: last_rev [symmetric] hd_rev)
    ultimately show ?thesis by (simp add: strip_def rstrip_def)
  qed (simp add: strip_def rstrip_def lstrip_def)
qed

lemma strip_idem: "strip (strip s) = strip s"
  using strip_edges strip_id by blast

lemma takeWhile_span: "list_all p w \<Longrightarrow> v = [] \<or> \<not> p (hd v) \<Longrightarrow> takeWhile p (w @ v) = w \<and> dropWhile p (w @ v) = v"
  by (induction w) (auto, (cases v; simp)+)

lemma lower_word: "is_word (lower_char c) \<Longrightarrow> is_word c"
proof -
  have "is_word c" if "65 \<le> code c \<and> code c \<le> 90 \<or> 192 \<le> code c \<and> code c \<le> 222 \<and> code c \<noteq> 215"
    using that by (auto simp: is_word_def Let_def)
  then show "is_word (lower_char c) \<Longrightarrow> is_word c"
    by (simp add: lower_char_def Let_def split: if_splits)
qed

text \<open>\<open>str(n)\<close> for integers.\<close>

fun nat_text :: "nat \<Rightarrow> string" where
  "nat_text n = (if n < 10 then [char_of (48 + n)]
                 else nat_text (n div 10) @ [char_of (48 + n mod 10)])"

declare nat_text.simps [simp del]

definition int_text :: "int \<Rightarrow> string" where
  "int_text i = (if i < 0 then ''-'' @ nat_text (nat (- i)) else nat_text (nat i))"

text \<open>\<open>int(s)\<close> on a run of decimal digits.\<close>

definition digits_value :: "string \<Rightarrow> nat" where
  "digits_value ds = foldl (\<lambda>a c. 10 * a + (code c - 48)) 0 ds"


section \<open>SQLite tables as lists of rows\<close>

definition sql_update :: "('r \<Rightarrow> bool) \<Rightarrow> ('r \<Rightarrow> 'r) \<Rightarrow> 'r list \<Rightarrow> 'r list" where
  "sql_update p f rows = map (\<lambda>r. if p r then f r else r) rows"

definition sql_delete :: "('r \<Rightarrow> bool) \<Rightarrow> 'r list \<Rightarrow> 'r list" where
  "sql_delete p rows = filter (\<lambda>r. \<not> p r) rows"

text \<open>\<open>cursor.rowcount\<close> of an update or delete, and \<open>SELECT COUNT(*)\<close>.\<close>

definition sql_count :: "('r \<Rightarrow> bool) \<Rightarrow> 'r list \<Rightarrow> nat" where
  "sql_count p rows = length (filter p rows)"

text \<open>\<open>fetchone\<close>.\<close>

definition sql_first :: "('r \<Rightarrow> bool) \<Rightarrow> 'r list \<Rightarrow> 'r option" where
  "sql_first p rows = List.find p rows"

text \<open>\<open>LIMIT n\<close>: a negative bound is no bound.\<close>

definition sql_limit :: "int \<Rightarrow> 'r list \<Rightarrow> 'r list" where
  "sql_limit n rows = (if n < 0 then rows else take (nat n) rows)"

definition sql_max :: "('r \<Rightarrow> int) \<Rightarrow> 'r list \<Rightarrow> int" where
  "sql_max f rows = (if rows = [] then 0 else Max (set (map f rows)))"

lemma length_sql_update [sql_simps]: "length (sql_update p f rows) = length rows"
  by (simp add: sql_update_def)

lemma sql_update_Nil [sql_simps]: "sql_update p f [] = []"
  by (simp add: sql_update_def)

lemma set_sql_update: "set (sql_update p f rows) = (\<lambda>r. if p r then f r else r) ` set rows"
  by (simp add: sql_update_def)

lemma in_sql_update_cases:
  assumes "r \<in> set (sql_update p f rows)"
  obtains (same) "r \<in> set rows" "\<not> p r"
    | (changed) r0 where "r0 \<in> set rows" "p r0" "r = f r0"
  using assms by (auto simp: sql_update_def split: if_splits)

lemma map_sql_update [sql_simps]:
  "(\<And>r. p r \<Longrightarrow> key (f r) = key r) \<Longrightarrow> map key (sql_update p f rows) = map key rows"
  by (simp add: sql_update_def)

lemma set_sql_update_one:
  assumes "distinct (map key rows)" "r \<in> set rows" "key r = k"
  shows "set (sql_update (\<lambda>x. key x = k) f rows) = insert (f r) {x \<in> set rows. key x \<noteq> k}"
proof -
  have uniq: "key x = k \<longleftrightarrow> x = r" if "x \<in> set rows" for x
    using assms that by (auto simp: distinct_map dest: inj_onD)
  then have "(\<lambda>x. if key x = k then f x else x) ` set rows = (\<lambda>x. if x = r then f r else x) ` set rows"
    by (intro image_cong) simp_all
  also have "\<dots> = insert (f r) (set rows - {r})" using assms(2) by auto
  also have "set rows - {r} = {x \<in> set rows. key x \<noteq> k}" using uniq by blast
  finally show ?thesis by (simp only: set_sql_update)
qed

lemma in_sql_delete [sql_simps]: "r \<in> set (sql_delete p rows) \<longleftrightarrow> r \<in> set rows \<and> \<not> p r"
  by (auto simp: sql_delete_def)

lemma distinct_sql_delete:
  "distinct (map key rows) \<Longrightarrow> distinct (map key (sql_delete p rows))"
  by (simp add: sql_delete_def distinct_map_filter)

lemma sql_first_SomeD: "sql_first p rows = Some r \<Longrightarrow> r \<in> set rows \<and> p r"
  by (auto simp: sql_first_def find_Some_iff in_set_conv_nth)

lemma sql_first_None [sql_simps]: "sql_first p rows = None \<longleftrightarrow> (\<forall>r \<in> set rows. \<not> p r)"
  by (auto simp: sql_first_def find_None_iff)

lemma sql_first_append:
  "sql_first p (xs @ ys) = (case sql_first p xs of None \<Rightarrow> sql_first p ys | Some r \<Rightarrow> Some r)"
  by (induction xs) (auto simp: sql_first_def)

lemma sql_first_unique:
  assumes "distinct (map key rows)" "r \<in> set rows" "key r = k"
  shows "sql_first (\<lambda>x. key x = k) rows = Some r"
  using assms by (induction rows) (auto simp: sql_first_def)

lemma sql_first_key_iff:
  assumes "distinct (map key rows)"
  shows "sql_first (\<lambda>x. key x = k) rows = Some r \<longleftrightarrow> r \<in> set rows \<and> key r = k"
  using assms sql_first_unique sql_first_SomeD by fastforce

text \<open>An update that keeps keys maps the row that a key lookup finds.\<close>

lemma sql_first_update:
  assumes "\<And>r. p r \<Longrightarrow> key (f r) = key r"
  shows "sql_first (\<lambda>x. key x = k) (sql_update p f rows) =
    map_option (\<lambda>r. if p r then f r else r) (sql_first (\<lambda>x. key x = k) rows)"
  using assms by (induction rows) (auto simp: sql_first_def sql_update_def)

text \<open>\<open>INSERT ... ON CONFLICT(key) DO UPDATE\<close> and \<open>INSERT OR IGNORE\<close>, with the row a lookup then finds.\<close>

definition sql_upsert :: "('r \<Rightarrow> 'k) \<Rightarrow> 'r \<Rightarrow> ('r \<Rightarrow> 'r) \<Rightarrow> 'r list \<Rightarrow> 'r list" where
  "sql_upsert key row f rows = (if list_ex (\<lambda>r. key r = key row) rows
     then sql_update (\<lambda>r. key r = key row) f rows else rows @ [row])"

definition insert_or_ignore :: "('r \<Rightarrow> 'k) \<Rightarrow> 'r \<Rightarrow> 'r list \<Rightarrow> 'r list" where
  "insert_or_ignore key row rows = (if list_ex (\<lambda>r. key r = key row) rows then rows else rows @ [row])"

lemma sql_first_single [sql_simps]: "sql_first p [row] = (if p row then Some row else None)"
  by (simp add: sql_first_def)

lemma sql_first_ex: "list_ex p rows \<longleftrightarrow> sql_first p rows \<noteq> None"
  by (auto simp: sql_first_None list_ex_iff)

lemma upsert_lookup:
  assumes "\<And>r. key r = key row \<Longrightarrow> key (f r) = key row"
  shows "sql_first (\<lambda>r. key r = k) (sql_upsert key row f rows) =
    (if k = key row then (case sql_first (\<lambda>r. key r = k) rows of None \<Rightarrow> Some row | Some r \<Rightarrow> Some (f r))
     else sql_first (\<lambda>r. key r = k) rows)"
proof (cases "list_ex (\<lambda>r. key r = key row) rows")
  case True
  have keep: "key r = key row \<Longrightarrow> key (f r) = key r" for r using assms by simp
  have upd: "sql_first (\<lambda>r. key r = k) (sql_upsert key row f rows) =
      map_option (\<lambda>r. if key r = key row then f r else r) (sql_first (\<lambda>r. key r = k) rows)"
    using True sql_first_update [of "\<lambda>r. key r = key row" key f k rows, OF keep] by (simp add: sql_upsert_def)
  show ?thesis
  proof (cases "sql_first (\<lambda>r. key r = k) rows")
    case None
    with True have "k \<noteq> key row" by (auto simp: sql_first_ex)
    with None upd show ?thesis by simp
  next
    case (Some r)
    then have "key r = k" by (auto dest: sql_first_SomeD)
    with Some upd show ?thesis by auto
  qed
next
  case False
  then have none: "sql_first (\<lambda>r. key r = key row) rows = None" by (simp add: sql_first_ex)
  have app: "sql_upsert key row f rows = rows @ [row]" using False by (simp add: sql_upsert_def)
  show ?thesis
  proof (cases "k = key row")
    case True
    then show ?thesis using none by (simp add: app sql_first_append sql_first_single)
  next
    case ne: False
    then show ?thesis by (cases "sql_first (\<lambda>r. key r = k) rows")
        (auto simp: app sql_first_append sql_first_single)
  qed
qed

lemma ignore_lookup:
  "sql_first (\<lambda>r. key r = k) (insert_or_ignore key row rows) =
    (case sql_first (\<lambda>r. key r = k) rows of None \<Rightarrow> if k = key row then Some row else None | Some r \<Rightarrow> Some r)"
proof (cases "list_ex (\<lambda>r. key r = key row) rows")
  case True
  then have "sql_first (\<lambda>r. key r = key row) rows \<noteq> None" by (simp add: sql_first_ex)
  with True show ?thesis
    by (cases "sql_first (\<lambda>r. key r = k) rows") (auto simp: insert_or_ignore_def)
next
  case False
  then have "insert_or_ignore key row rows = rows @ [row]" by (simp add: insert_or_ignore_def)
  then show ?thesis
    by (cases "sql_first (\<lambda>r. key r = k) rows") (auto simp: sql_first_append sql_first_single)
qed

text \<open>Changing one keyed row changes a sum over the rows by that row's difference.\<close>

lemma sql_update_other:
  "\<forall>r \<in> set rows. \<not> p r \<Longrightarrow> sql_update p g rows = rows"
  by (simp add: sql_update_def map_idI)

lemma sum_sql_update:
  fixes f :: "'r \<Rightarrow> int"
  assumes "distinct (map key rows)" "x \<in> set rows" "key x = k"
  shows "sum_list (map f (sql_update (\<lambda>r. key r = k) g rows)) = sum_list (map f rows) - f x + f (g x)"
  using assms
proof (induction rows)
  case (Cons r rows)
  show ?case
  proof (cases "r = x")
    case True
    then have "\<forall>r' \<in> set rows. key r' \<noteq> k" using Cons.prems by (auto simp: image_iff)
    then show ?thesis using True Cons.prems
      by (simp add: sql_update_def map_idI cong: map_cong)
  next
    case False
    then have "key r \<noteq> k" "x \<in> set rows" using Cons.prems by (auto simp: image_iff)
    then show ?thesis using Cons by (simp add: sql_update_def)
  qed
qed simp

lemma sum_list_nonneg_le:
  fixes f :: "'r \<Rightarrow> int"
  shows "(\<And>r. r \<in> set rows \<Longrightarrow> 0 \<le> f r) \<Longrightarrow> 0 \<le> sum_list (map f rows)"
  by (induction rows) (auto intro: add_nonneg_nonneg)

lemma sum_list_mono_rows:
  fixes f g :: "'r \<Rightarrow> int"
  shows "(\<And>r. r \<in> set rows \<Longrightarrow> f r \<le> g r) \<Longrightarrow> sum_list (map f rows) \<le> sum_list (map g rows)"
  by (induction rows) (auto intro: add_mono)

lemma sum_list_filter_le:
  fixes f :: "'r \<Rightarrow> int"
  shows "(\<And>r. r \<in> set rows \<Longrightarrow> 0 \<le> f r) \<Longrightarrow> sum_list (map f (filter p rows)) \<le> sum_list (map f rows)"
  by (induction rows) (auto intro: add_increasing)

lemma sum_list_filter_if:
  fixes f :: "'r \<Rightarrow> int"
  shows "sum_list (map f (filter p rows)) = sum_list (map (\<lambda>r. if p r then f r else 0) rows)"
  by (induction rows) auto

lemma sql_count_0 [sql_simps]: "sql_count p rows = 0 \<longleftrightarrow> (\<forall>r \<in> set rows. \<not> p r)"
  by (auto simp: sql_count_def filter_empty_conv)

lemma sql_count_le: "sql_count p rows \<le> length rows"
  by (simp add: sql_count_def)

lemma sql_count_append [sql_simps]: "sql_count p (xs @ ys) = sql_count p xs + sql_count p ys"
  by (simp add: sql_count_def)

lemma sql_count_Cons [sql_simps]:
  "sql_count p (x # xs) = (if p x then Suc (sql_count p xs) else sql_count p xs)"
  by (simp add: sql_count_def)

lemma sql_count_Nil [sql_simps]: "sql_count p [] = 0"
  by (simp add: sql_count_def)

lemma sql_limit_subset: "set (sql_limit n rows) \<subseteq> set rows"
  by (auto simp: sql_limit_def dest: in_set_takeD)

lemma length_sql_limit: "0 \<le> n \<Longrightarrow> int (length (sql_limit n rows)) \<le> n"
  by (auto simp: sql_limit_def)


text \<open>\<open>ORDER BY key DESC\<close>; rows with equal keys keep their insertion order.\<close>

definition sql_order_desc :: "('r \<Rightarrow> int) \<Rightarrow> 'r list \<Rightarrow> 'r list" where
  "sql_order_desc f rows = sort_key (\<lambda>r. - f r) rows"

lemma set_sql_order_desc [sql_simps]: "set (sql_order_desc f rows) = set rows"
  by (simp add: sql_order_desc_def)

lemma length_sql_order_desc [sql_simps]: "length (sql_order_desc f rows) = length rows"
  by (simp add: sql_order_desc_def)

lemma distinct_sql_order_desc:
  "distinct (map key rows) \<Longrightarrow> distinct (map key (sql_order_desc f rows))"
  by (simp add: sql_order_desc_def distinct_map)

text \<open>The row an \<open>ORDER BY f DESC LIMIT 1\<close> returns has the largest key.\<close>

lemma hd_sql_order_desc:
  assumes "r \<in> set rows"
  shows "f r \<le> f (hd (sql_order_desc f rows))"
proof -
  have "sorted (map (\<lambda>r. - f r) (sql_order_desc f rows))"
    by (simp add: sql_order_desc_def)
  moreover have "r \<in> set (sql_order_desc f rows)"
    using assms by (simp add: sql_simps)
  ultimately show ?thesis
    by (cases "sql_order_desc f rows") auto
qed


text \<open>On strictly increasing keys the two orders are the insertion order and its reverse.\<close>

lemma insort_key_last: "\<forall>y \<in> set ys. f y < f x \<Longrightarrow> insort_key f x ys = ys @ [x]"
  by (induction ys) auto

lemma sql_order_desc_rev:
  "sorted_wrt (\<lambda>a b. f a < f b) rows \<Longrightarrow> sql_order_desc f rows = rev rows"
  by (induction rows) (auto simp: sql_order_desc_def insort_key_last)

lemma sort_key_increasing: "sorted_wrt (\<lambda>a b. f a < (f b :: int)) rows \<Longrightarrow> sort_key f rows = rows"
  by (rule sort_key_id_if_sorted)
    (auto simp: sorted_wrt_map intro: sorted_wrt_mono_rel [rotated])

lemma sql_max_increasing:
  "sorted_wrt (\<lambda>a b. f a < f b) rows \<Longrightarrow> sql_max f rows = (if rows = [] then 0 else f (last rows))"
proof (induction rows rule: rev_induct)
  case (snoc r rows)
  then have "Max (set (map f (rows @ [r]))) = f r"
    by (intro Max_eqI) (auto simp: sorted_wrt_append intro: less_imp_le)
  then show ?case by (simp add: sql_max_def)
qed (simp add: sql_max_def)


text \<open>\<open>ORDER BY column DESC\<close> on a text column; rows with equal texts keep their insertion order.\<close>

definition text_order_desc :: "('r \<Rightarrow> string) \<Rightarrow> 'r list \<Rightarrow> 'r list" where
  "text_order_desc f rows = rev (sort_key f (rev rows))"


section \<open>Machines and the contracts the stores share\<close>

fun run_ops :: "('op \<Rightarrow> 's \<Rightarrow> 's) \<Rightarrow> 's \<Rightarrow> 'op list \<Rightarrow> 's" where
  "run_ops step s [] = s"
| "run_ops step s (e # es) = run_ops step (step e s) es"

lemma run_ops_append: "run_ops step s (es @ fs) = run_ops step (run_ops step s es) fs"
  by (induction es arbitrary: s) auto

text \<open>A state machine with an invariant that every operation keeps.\<close>

locale invariant_machine =
  fixes step :: "'op \<Rightarrow> 's \<Rightarrow> 's"
    and inv :: "'s \<Rightarrow> bool"
  assumes inv_step: "inv s \<Longrightarrow> inv (step e s)"
begin

lemma inv_run: "inv s \<Longrightarrow> inv (run_ops step s es)"
  by (induction es arbitrary: s) (auto intro: inv_step)

end

text \<open>
  A durable table whose rows carry a status: no operation removes a row, and an operation moves the
  status of a row along \<open>allowed\<close> or leaves it.
\<close>

locale lifecycle = invariant_machine step inv
  for step :: "'op \<Rightarrow> 's \<Rightarrow> 's" and inv :: "'s \<Rightarrow> bool" +
  fixes status_of :: "'s \<Rightarrow> 'k \<Rightarrow> 'status option"
    and allowed :: "'status \<Rightarrow> 'status \<Rightarrow> bool"
  assumes move: "inv s \<Longrightarrow> status_of s k = Some a \<Longrightarrow>
    \<exists>b. status_of (step e s) k = Some b \<and> (b = a \<or> allowed a b)"
begin

lemma status_path:
  "inv s \<Longrightarrow> status_of s k = Some a \<Longrightarrow>
    \<exists>b. status_of (run_ops step s es) k = Some b \<and> allowed\<^sup>*\<^sup>* a b"
proof (induction es arbitrary: s a)
  case Nil
  then show ?case by auto
next
  case (Cons e es)
  obtain b where b: "status_of (step e s) k = Some b" "b = a \<or> allowed a b"
    using move [OF Cons.prems] by blast
  obtain c where c: "status_of (run_ops step (step e s) es) k = Some c" "allowed\<^sup>*\<^sup>* b c"
    using Cons.IH [OF inv_step [OF Cons.prems(1)] b(1)] by blast
  from b(2) c(2) have "allowed\<^sup>*\<^sup>* a c"
    by (meson converse_rtranclp_into_rtranclp)
  with c(1) show ?case by auto
qed

text \<open>A status with no way out is final: every later state still shows it.\<close>

lemma status_final:
  assumes "inv s" "status_of s k = Some a" "\<And>b. \<not> allowed a b"
  shows "status_of (run_ops step s es) k = Some a"
proof -
  obtain b where b: "status_of (run_ops step s es) k = Some b" "allowed\<^sup>*\<^sup>* a b"
    using status_path [OF assms(1,2)] by blast
  from b(2) assms(3) have "b = a"
    by (metis converse_rtranclpE)
  with b(1) show ?thesis by simp
qed

end

text \<open>A machine whose operations carry their time; the invariant may speak of the time of the last one.\<close>

locale timed_machine =
  fixes step :: "'op \<Rightarrow> 's \<Rightarrow> 's"
    and time :: "'op \<Rightarrow> instant"
    and inv :: "instant \<Rightarrow> 's \<Rightarrow> bool"
  assumes inv_at: "t \<le> time e \<Longrightarrow> inv t s \<Longrightarrow> inv (time e) (step e s)"
begin

lemma inv_timed_run:
  "sorted (t # map time es) \<Longrightarrow> inv t s \<Longrightarrow> inv (last (t # map time es)) (run_ops step s es)"
proof (induction es arbitrary: t s)
  case (Cons e es)
  then have "inv (time e) (step e s)" by (auto intro: inv_at)
  with Cons.IH [of "time e" "step e s"] Cons.prems show ?case by simp
qed simp

end

text \<open>
  A log read by cursor: a page holds the first entries after the cursor, in order. The client of the
  log may use any non-empty initial part of a page and move its cursor to the last entry used;
  \<open>page_split\<close> says that this neither skips nor repeats an entry.
\<close>

locale event_source =
  fixes wf :: "'s \<Rightarrow> bool"
    and entries :: "'s \<Rightarrow> 'e list"
    and seq :: "'e \<Rightarrow> int"
    and page :: "int \<Rightarrow> int \<Rightarrow> 's \<Rightarrow> 'e list"
  assumes ordered: "wf s \<Longrightarrow> sorted_wrt (\<lambda>a b. seq a < seq b) (entries s)"
    and page_first: "wf s \<Longrightarrow> 0 \<le> c \<Longrightarrow> \<exists>n. page c k s = take (Suc n) (filter (\<lambda>e. c < seq e) (entries s))"
begin

lemma page_empty: "wf s \<Longrightarrow> 0 \<le> c \<Longrightarrow> page c k s = [] \<longleftrightarrow> (\<forall>e \<in> set (entries s). seq e \<le> c)"
  using page_first [of s c k] by (auto simp: filter_empty_conv not_less)

lemma page_split:
  assumes "wf s" "0 \<le> c" "batch = take m (page c k s)" "batch \<noteq> []"
  shows "filter (\<lambda>e. c < seq e) (entries s) = batch @ filter (\<lambda>e. seq (last batch) < seq e) (entries s)
    \<and> c < seq (last batch)"
proof -
  let ?todo = "filter (\<lambda>e. c < seq e) (entries s)"
  obtain n where "page c k s = take (Suc n) ?todo" using page_first assms by blast
  then obtain rest where rest: "?todo = batch @ rest"
    using assms(3) by (metis append_take_drop_id take_take)
  have "sorted_wrt (\<lambda>a b. seq a < seq b) ?todo"
    using ordered [OF assms(1)] by (simp add: sorted_wrt_filter)
  then have order: "\<forall>a \<in> set batch. \<forall>b \<in> set rest. seq a < seq b"
    "sorted_wrt (\<lambda>a b. seq a < seq b) batch"
    unfolding rest sorted_wrt_append by auto
  obtain init where b: "batch = init @ [last batch]"
    using assms(4) by (metis append_butlast_last_id)
  then have init: "\<forall>a \<in> set init. seq a < seq (last batch)"
    using order(2) by (metis list.set_intros(1) sorted_wrt_append)
  have "last batch \<in> set ?todo" using assms(4) rest by simp
  then have c: "c < seq (last batch)" by simp
  have "filter (\<lambda>e. seq (last batch) < seq e) (entries s) = filter (\<lambda>e. seq (last batch) < seq e) ?todo"
    unfolding filter_filter by (rule filter_cong [OF refl]) (use c in auto)
  also have "\<dots> = filter (\<lambda>e. seq (last batch) < seq e) (init @ [last batch]) @
      filter (\<lambda>e. seq (last batch) < seq e) rest"
    unfolding rest using b by (metis filter_append)
  also have "filter (\<lambda>e. seq (last batch) < seq e) (init @ [last batch]) = []"
    using init by (fastforce simp: filter_empty_conv)
  also have "filter (\<lambda>e. seq (last batch) < seq e) rest = rest"
    using order(1) assms(4) by (simp add: filter_id_conv)
  finally show ?thesis using rest c by simp
qed

end

end
