(* ===== verification/Json_Text.thy ===== *)
theory Json_Text
  imports Prelude
begin

text \<open>
  JSON values and the text \<open>json.dumps(value, sort_keys=True, separators=(",", ":"))\<close> writes for them,
  with the default \<open>ensure_ascii\<close> escapes. \<open>json_norm\<close> sorts the members of every object, which is
  what \<open>sort_keys\<close> does before writing and what a later \<open>json.loads\<close> reads back. The main lemma,
  \<open>enc_unambiguous\<close>, says that the text determines the value, so that two different records never
  feed the same text to a digest.

  A float is kept as the number literal Python writes for it (\<open>JNum\<close>); \<open>json_wf\<close> says that such a
  literal looks like one (it has a point or an exponent, so it is not an integer literal).
\<close>


section \<open>Values\<close>

datatype json =
    JNull
  | JBool bool
  | JInt int
  | JNum string
  | JStr string
  | JArr "json list"
  | JObj "(string \<times> json) list"


section \<open>Text\<close>

definition hex_digit :: "nat \<Rightarrow> char" where
  "hex_digit n = (if n < 10 then char_of (48 + n) else char_of (87 + n))"

definition esc_char :: "char \<Rightarrow> string" where
  "esc_char c = (let n = code c in
     if n = 34 then [CHR 0x5C, CHR 0x22]
     else if n = 92 then [CHR 0x5C, CHR 0x5C]
     else if n = 10 then [CHR 0x5C, CHR ''n'']
     else if n = 13 then [CHR 0x5C, CHR ''r'']
     else if n = 9 then [CHR 0x5C, CHR ''t'']
     else if n = 12 then [CHR 0x5C, CHR ''f'']
     else if n = 8 then [CHR 0x5C, CHR ''b'']
     else if 32 \<le> n \<and> n \<le> 126 then [c]
     else [CHR 0x5C, CHR ''u'', CHR ''0'', CHR ''0'', hex_digit (n div 16), hex_digit (n mod 16)])"

definition quote :: "string \<Rightarrow> string" where
  "quote s = CHR 0x22 # concat (map esc_char s) @ [CHR 0x22]"

text \<open>\<open>enc_rest\<close> and \<open>enc_more\<close> write what follows the first element of an array or an object.\<close>

fun enc :: "json \<Rightarrow> string"
  and enc_rest :: "json list \<Rightarrow> string"
  and enc_more :: "(string \<times> json) list \<Rightarrow> string" where
  "enc JNull = ''null''"
| "enc (JBool b) = (if b then ''true'' else ''false'')"
| "enc (JInt i) = int_text i"
| "enc (JNum t) = t"
| "enc (JStr s) = quote s"
| "enc (JArr []) = ''[]''"
| "enc (JArr (x # xs)) = ''['' @ enc x @ enc_rest xs"
| "enc (JObj []) = ''{}''"
| "enc (JObj ((k, v) # kvs)) = ''{'' @ quote k @ '':'' @ enc v @ enc_more kvs"
| "enc_rest [] = '']''"
| "enc_rest (x # xs) = '','' @ enc x @ enc_rest xs"
| "enc_more [] = ''}''"
| "enc_more ((k, v) # kvs) = '','' @ quote k @ '':'' @ enc v @ enc_more kvs"

fun json_norm :: "json \<Rightarrow> json" where
  "json_norm (JArr xs) = JArr (map json_norm xs)"
| "json_norm (JObj kvs) = JObj (sort_key fst (map (\<lambda>(k, v). (k, json_norm v)) kvs))"
| "json_norm v = v"

definition json_text :: "json \<Rightarrow> string" where
  "json_text v = enc (json_norm v)"

section \<open>Unambiguity\<close>

definition num_char :: "char \<Rightarrow> bool" where
  "num_char c = (is_digit c \<or> c \<in> set ''+-.eE'')"

fun json_wf :: "json \<Rightarrow> bool" where
  "json_wf (JNum t) = (t \<noteq> [] \<and> (is_digit (hd t) \<or> hd t = CHR ''-'') \<and> list_all num_char t
     \<and> (CHR ''.'' \<in> set t \<or> CHR ''e'' \<in> set t))"
| "json_wf (JArr xs) = list_all json_wf xs"
| "json_wf (JObj kvs) = (list_all (\<lambda>(k, v). json_wf v) kvs)"
| "json_wf v = True"

text \<open>What may follow a value: the end of the text, or a character no number contains.\<close>

definition closes :: "string \<Rightarrow> bool" where
  "closes r = (r = [] \<or> \<not> num_char (hd r))"

lemma code_char_of [simp]: "n < 256 \<Longrightarrow> code (char_of n) = n"
  by (simp add: code_def of_char_of)

lemma code_lit [simp]:
  "code (CHR 0x22) = 34" "code (CHR 0x5C) = 92" "code (CHR ''-'') = 45" "code (CHR '','') = 44"
  "code (CHR '']'') = 93" "code (CHR ''}'') = 125" "code (CHR ''.'') = 46" "code (CHR ''e'') = 101"
  by (simp_all add: code_def)

definition hex_value :: "char \<Rightarrow> nat" where
  "hex_value c = (if code c < 58 then code c - 48 else code c - 87)"

lemma hex_value_digit: "n < 16 \<Longrightarrow> hex_value (hex_digit n) = n"
  by (simp add: hex_value_def hex_digit_def)

text \<open>The inverse of one escaped character, as a decoder reads it back.\<close>

definition unesc :: "string \<Rightarrow> (char \<times> string) option" where
  "unesc s = (case s of [] \<Rightarrow> None | a # r \<Rightarrow>
     if code a \<noteq> 92 then Some (a, r)
     else (case r of [] \<Rightarrow> None | b # r' \<Rightarrow>
       if b = CHR ''n'' then Some (char_of (10::nat), r')
       else if b = CHR ''r'' then Some (char_of (13::nat), r')
       else if b = CHR ''t'' then Some (char_of (9::nat), r')
       else if b = CHR ''f'' then Some (char_of (12::nat), r')
       else if b = CHR ''b'' then Some (char_of (8::nat), r')
       else if b = CHR ''u'' then
         Some (char_of (16 * hex_value (r' ! 2) + hex_value (r' ! 3)), drop 4 r')
       else Some (b, r')))"

lemma char_by_code: "code c = n \<Longrightarrow> c = char_of n"
  by (auto simp: code_def)

lemma char_of_lit: "char_of (34::nat) = CHR 0x22" "char_of (92::nat) = CHR 0x5C"
  using char_by_code [of "CHR 0x22" 34] char_by_code [of "CHR 0x5C" 92] by simp_all

lemma unesc_esc: "unesc (esc_char c @ x) = Some (c, x)"
proof -
  let ?n = "code c"
  consider "?n \<in> {34, 92, 10, 13, 9, 12, 8}"
    | "?n \<notin> {34, 92, 10, 13, 9, 12, 8}" "32 \<le> ?n" "?n \<le> 126"
    | "?n \<notin> {34, 92, 10, 13, 9, 12, 8}" "\<not> (32 \<le> ?n \<and> ?n \<le> 126)"
    by blast
  then show ?thesis
  proof cases
    case 1
    then have "c \<in> char_of ` {34, 92, 10, 13, 9, 12, 8 :: nat}"
      by (metis char_by_code imageI)
    then show ?thesis
      by (auto simp: unesc_def esc_char_def code_def char_of_lit)
  next
    case 2
    then show ?thesis by (simp add: unesc_def esc_char_def Let_def)
  next
    case 3
    have "?n div 16 < 16" "?n mod 16 < 16"
      using code_less_256 [of c] by simp_all
    then have "char_of (16 * hex_value (hex_digit (?n div 16)) + hex_value (hex_digit (?n mod 16))) = c"
      by (simp add: hex_value_digit code_def)
    with 3 show ?thesis
      by (simp add: unesc_def esc_char_def Let_def)
  qed
qed

lemma esc_char_prefix: "esc_char c @ x = esc_char d @ y \<Longrightarrow> c = d \<and> x = y"
  by (metis unesc_esc option.inject prod.inject)

lemma hd_esc_char: "esc_char c \<noteq> [] \<and> hd (esc_char c) \<noteq> CHR 0x22"
  by (auto simp: esc_char_def Let_def)

lemma esc_char_no_quote: "esc_char c \<noteq> CHR 0x22 # x"
  using hd_esc_char [of c] by auto

lemma esc_string_prefix:
  "concat (map esc_char s) @ CHR 0x22 # x = concat (map esc_char t) @ CHR 0x22 # y \<Longrightarrow> s = t \<and> x = y"
proof (induction s arbitrary: t)
  case Nil
  then show ?case using esc_char_no_quote hd_esc_char
    by (cases t) (auto simp: Cons_eq_append_conv esc_char_no_quote [symmetric])
next
  case (Cons c s)
  show ?case
  proof (cases t)
    case Nil
    with Cons.prems show ?thesis using hd_esc_char [of c] by (auto simp: append_eq_Cons_conv esc_char_no_quote)
  next
    case (Cons d t')
    then have "esc_char c @ concat (map esc_char s) @ CHR 0x22 # x =
        esc_char d @ concat (map esc_char t') @ CHR 0x22 # y"
      using Cons.prems by simp
    from esc_char_prefix [OF this] Cons.IH Cons show ?thesis by auto
  qed
qed

lemma quote_prefix: "quote s @ x = quote t @ y \<Longrightarrow> s = t \<and> x = y"
  by (auto simp: quote_def dest: esc_string_prefix)


subsection \<open>Numbers\<close>

lemma nat_text_digits: "list_all is_digit (nat_text n) \<and> nat_text n \<noteq> []"
proof (induction n rule: nat_text.induct)
  case (1 n)
  then show ?case
    by (cases "n < 10") (auto simp: nat_text.simps [of n] is_digit_def)
qed

lemma digits_value_snoc: "digits_value (ds @ [c]) = 10 * digits_value ds + (code c - 48)"
  by (simp add: digits_value_def)

lemma digits_value_nat_text [py_simps]: "digits_value (nat_text n) = n"
proof (induction n rule: nat_text.induct)
  case (1 n)
  show ?case
  proof (cases "n < 10")
    case True
    then show ?thesis by (subst nat_text.simps) (simp add: digits_value_def)
  next
    case False
    then show ?thesis using 1
      by (subst nat_text.simps) (simp add: digits_value_snoc)
  qed
qed

lemma nat_text_inj: "nat_text m = nat_text n \<longleftrightarrow> m = n"
  by (metis digits_value_nat_text)

lemma digit_not_special: "is_digit c \<Longrightarrow> c \<noteq> CHR ''-'' \<and> c \<noteq> CHR ''.'' \<and> c \<noteq> CHR ''e''"
  by (auto simp: is_digit_def code_def)

lemma int_text_shape: "\<exists>m. int_text i = nat_text m \<or> int_text i = CHR ''-'' # nat_text m"
  by (auto simp: int_text_def)

lemma int_text_inj: "int_text i = int_text j \<longleftrightarrow> i = j"
proof
  have no_minus: "nat_text m \<noteq> CHR ''-'' # x" for m x
    using nat_text_digits [of m] digit_not_special [of "CHR ''-''"] by auto
  assume "int_text i = int_text j"
  then show "i = j"
    using no_minus no_minus [symmetric]
    by (auto simp: int_text_def nat_text_inj split: if_splits)
qed simp

lemma int_text_chars:
  "int_text i \<noteq> [] \<and> list_all num_char (int_text i) \<and> CHR ''.'' \<notin> set (int_text i)
    \<and> CHR ''e'' \<notin> set (int_text i) \<and> (is_digit (hd (int_text i)) \<or> hd (int_text i) = CHR ''-'')"
proof -
  have nat: "nat_text m \<noteq> [] \<and> list_all num_char (nat_text m) \<and> CHR ''.'' \<notin> set (nat_text m)
      \<and> CHR ''e'' \<notin> set (nat_text m) \<and> is_digit (hd (nat_text m))" for m
    using nat_text_digits [of m] digit_not_special
    by (auto simp: list_all_iff num_char_def)
  obtain m where "int_text i = nat_text m \<or> int_text i = CHR ''-'' # nat_text m"
    using int_text_shape by blast
  then show ?thesis
  proof
    assume "int_text i = nat_text m"
    then show ?thesis using nat [of m] by simp
  next
    assume "int_text i = CHR ''-'' # nat_text m"
    then show ?thesis using nat [of m] by (simp add: num_char_def)
  qed
qed

text \<open>A number literal ends where the number characters end.\<close>

lemma number_prefix:
  assumes "list_all num_char s" "list_all num_char t" "closes x" "closes y" "s @ x = t @ y"
  shows "s = t \<and> x = y"
proof -
  have tk: "takeWhile num_char (u @ z) = u" if "list_all num_char u" "closes z" for u z
  proof -
    have "takeWhile num_char z = []"
      using that(2) by (cases z) (auto simp: closes_def)
    then show ?thesis using that(1) by (simp add: list_all_iff takeWhile_append)
  qed
  have "s = t" using tk assms by metis
  with assms(5) show ?thesis by simp
qed


subsection \<open>Values\<close>

text \<open>The first character of a text tells the kind of value it writes.\<close>

fun shape :: "json \<Rightarrow> nat" where
  "shape JNull = 0"
| "shape (JBool b) = (if b then 1 else 2)"
| "shape (JInt i) = 3"
| "shape (JNum t) = 3"
| "shape (JStr s) = 4"
| "shape (JArr xs) = 5"
| "shape (JObj kvs) = 6"

definition shape_of_char :: "char \<Rightarrow> nat" where
  "shape_of_char c =
     (if c = CHR ''n'' then 0 else if c = CHR ''t'' then 1 else if c = CHR ''f'' then 2
      else if is_digit c \<or> c = CHR ''-'' then 3 else if c = CHR 0x22 then 4
      else if c = CHR ''['' then 5 else if c = CHR ''{'' then 6 else 7)"

lemma no_digit: "\<not> is_digit (CHR ''n'')" "\<not> is_digit (CHR ''t'')" "\<not> is_digit (CHR ''f'')"
  "\<not> is_digit (CHR 0x22)" "\<not> is_digit (CHR ''['')" "\<not> is_digit (CHR ''{'')" "\<not> is_digit (CHR '']'')"
  "\<not> is_digit (CHR '','')" "\<not> is_digit (CHR ''}'')"
  by (simp_all add: is_digit_def code_def)

lemma shape_of_enc: "json_wf v \<Longrightarrow> enc v \<noteq> [] \<and> shape_of_char (hd (enc v)) = shape v"
proof (cases v)
  case (JInt i)
  then show ?thesis using int_text_chars [of i] no_digit by (auto simp: shape_of_char_def)
next
  case (JNum t)
  assume "json_wf v"
  with JNum show ?thesis using no_digit by (auto simp: shape_of_char_def)
next
  case (JArr xs)
  then show ?thesis using no_digit by (cases xs) (auto simp: shape_of_char_def)
next
  case (JObj kvs)
  then show ?thesis using no_digit by (cases kvs) (auto simp: shape_of_char_def)
qed (auto simp: shape_of_char_def no_digit quote_def)

lemma enc_no_bracket: "json_wf v \<Longrightarrow> enc v @ x \<noteq> CHR '']'' # y"
proof
  assume "json_wf v" "enc v @ x = CHR '']'' # y"
  then have "shape v = 7"
    using shape_of_enc [of v] no_digit by (cases "enc v") (auto simp: shape_of_char_def)
  then show False by (cases v) (auto split: if_splits)
qed

lemma same_shape:
  assumes "json_wf v" "json_wf w" "enc v @ x = enc w @ y"
  shows "shape v = shape w"
  using shape_of_enc [OF assms(1)] shape_of_enc [OF assms(2)] assms(3) by (metis hd_append2)

lemma closes_enc_rest: "closes (enc_rest xs @ r)"
  by (cases xs) (auto simp: closes_def num_char_def no_digit)

lemma closes_enc_more: "closes (enc_more kvs @ r)"
  by (cases kvs) (auto simp: closes_def num_char_def no_digit)

lemma number_enc:
  assumes "json_wf v" "json_wf w" "shape v = 3" "shape w = 3" "closes x" "closes y"
    "enc v @ x = enc w @ y"
  shows "v = w \<and> x = y"
proof -
  have chars: "list_all num_char (enc u)" if "json_wf u" "shape u = 3" for u
    using that int_text_chars by (cases u) (auto split: if_splits)
  have eq: "enc v = enc w \<and> x = y"
    using number_prefix [OF chars chars] assms by blast
  show ?thesis
  proof (cases v)
    case (JInt i)
    then show ?thesis using eq assms int_text_chars [of i]
      by (cases w) (auto simp: int_text_inj split: if_splits)
  next
    case (JNum t)
    then show ?thesis using eq assms int_text_chars
      by (cases w) (auto split: if_splits)
  qed (use assms in \<open>auto split: if_splits\<close>)
qed

lemma enc_unambiguous:
  "json_wf v \<Longrightarrow> json_wf w \<Longrightarrow> closes x \<Longrightarrow> closes y \<Longrightarrow> enc v @ x = enc w @ y \<Longrightarrow> v = w \<and> x = y"
  "list_all json_wf vs \<Longrightarrow> list_all json_wf ws \<Longrightarrow> enc_rest vs @ x = enc_rest ws @ y \<Longrightarrow>
    vs = ws \<and> x = y"
  "list_all (\<lambda>(k, v). json_wf v) kvs \<Longrightarrow> list_all (\<lambda>(k, v). json_wf v) kws \<Longrightarrow>
    enc_more kvs @ x = enc_more kws @ y \<Longrightarrow> kvs = kws \<and> x = y"
proof (induction v and vs and kvs arbitrary: w x y and ws x y and kws x y rule: enc_enc_rest_enc_more.induct)
  case 1
  from same_shape [OF 1(1,2,5)] 1 show ?case by (cases w) (auto split: if_splits)
next
  case (2 b)
  from same_shape [OF 2(1,2,5)] 2 show ?case by (cases w) (auto split: if_splits)
next
  case (3 i)
  from same_shape [OF 3(1,2,5)] 3 show ?case using number_enc [of "JInt i" w x y] by auto
next
  case (4 t)
  from same_shape [OF 4(1,2,5)] 4 show ?case using number_enc [of "JNum t" w x y] by auto
next
  case (5 s)
  from same_shape [OF 5(1,2,5)] 5 show ?case
    by (cases w) (auto split: if_splits dest: quote_prefix)
next
  case 6
  from same_shape [OF 6(1,2,5)] obtain ys where "w = JArr ys"
    by (cases w) (auto split: if_splits)
  with 6 enc_no_bracket show ?case
    by (cases ys) (simp, metis append_Cons append_Nil append_assoc enc.simps(6,7) list.inject
        json_wf.simps(2) list.pred_inject(2))
next
  case (7 z zs)
  from same_shape [OF 7(3,4,7)] obtain ys where w: "w = JArr ys"
    by (cases w) (auto split: if_splits)
  show ?case
  proof (cases ys)
    case Nil
    with 7 w enc_no_bracket [of z] show ?thesis by auto
  next
    case (Cons u us)
    with 7 w have "enc z @ (enc_rest zs @ x) = enc u @ (enc_rest us @ y)" by simp
    then have "z = u \<and> enc_rest zs @ x = enc_rest us @ y"
      using "7.IH"(1) [of u "enc_rest zs @ x" "enc_rest us @ y"] "7.prems" Cons w closes_enc_rest by simp
    moreover have "list_all json_wf zs" "list_all json_wf us"
      using "7.prems" Cons w by simp_all
    ultimately show ?thesis using "7.IH"(2) [of us x y] Cons w by blast
  qed
next
  case 8
  from same_shape [OF 8(1,2,5)] obtain ys where "w = JObj ys"
    by (cases w) (auto split: if_splits)
  with 8 show ?case by (cases ys) (auto simp: quote_def)
next
  case (9 k z kzs)
  from same_shape [OF 9(3,4,7)] obtain ys where w: "w = JObj ys"
    by (cases w) (auto split: if_splits)
  show ?case
  proof (cases ys)
    case Nil
    with 9 w show ?thesis by (auto simp: quote_def)
  next
    case (Cons p us)
    obtain k' u where p: "p = (k', u)" by (cases p)
    with 9 w Cons have "quote k @ (CHR '':'' # enc z @ enc_more kzs @ x) =
        quote k' @ (CHR '':'' # enc u @ enc_more us @ y)" by simp
    from quote_prefix [OF this] have k: "k = k'" "enc z @ (enc_more kzs @ x) = enc u @ (enc_more us @ y)"
      by auto
    then have "z = u \<and> enc_more kzs @ x = enc_more us @ y"
      using "9.IH"(1) [of u "enc_more kzs @ x" "enc_more us @ y"] "9.prems" Cons w p closes_enc_more by simp
    moreover have "list_all (\<lambda>(k, v). json_wf v) kzs" "list_all (\<lambda>(k, v). json_wf v) us"
      using "9.prems" Cons w p by simp_all
    ultimately show ?thesis using k(1) "9.IH"(2) [of us x y] Cons w p by blast
  qed
next
  case 10
  then show ?case by (cases ws) auto
next
  case (11 z zs)
  show ?case
  proof (cases ws)
    case Nil
    with 11 show ?thesis by auto
  next
    case (Cons u us)
    with 11 have "enc z @ (enc_rest zs @ x) = enc u @ (enc_rest us @ y)" by simp
    then have "z = u \<and> enc_rest zs @ x = enc_rest us @ y"
      using "11.IH"(1) [of u "enc_rest zs @ x" "enc_rest us @ y"] "11.prems" Cons closes_enc_rest by simp
    moreover have "list_all json_wf zs" "list_all json_wf us"
      using "11.prems" Cons by simp_all
    ultimately show ?thesis using "11.IH"(2) [of us x y] Cons by blast
  qed
next
  case 12
  then show ?case by (cases kws) auto
next
  case (13 k z kzs)
  show ?case
  proof (cases kws)
    case Nil
    with 13 show ?thesis by auto
  next
    case (Cons p us)
    obtain k' u where p: "p = (k', u)" by (cases p)
    with 13 Cons have "quote k @ (CHR '':'' # enc z @ enc_more kzs @ x) =
        quote k' @ (CHR '':'' # enc u @ enc_more us @ y)" by simp
    from quote_prefix [OF this] have k: "k = k'" "enc z @ (enc_more kzs @ x) = enc u @ (enc_more us @ y)"
      by auto
    then have "z = u \<and> enc_more kzs @ x = enc_more us @ y"
      using "13.IH"(1) [of u "enc_more kzs @ x" "enc_more us @ y"] "13.prems" Cons p closes_enc_more by simp
    moreover have "list_all (\<lambda>(k, v). json_wf v) kzs" "list_all (\<lambda>(k, v). json_wf v) us"
      using "13.prems" Cons p by simp_all
    ultimately show ?thesis using k(1) "13.IH"(2) [of us x y] Cons p by blast
  qed
qed


lemma json_wf_norm: "json_wf v \<Longrightarrow> json_wf (json_norm v)"
  by (induction v rule: json_norm.induct) (force simp: list_all_iff)+

text \<open>The text of a value determines the value up to the order of object members.\<close>

lemma json_text_inj:
  assumes "json_wf v" "json_wf w" "json_text v = json_text w"
  shows "json_norm v = json_norm w"
  using enc_unambiguous(1) [of "json_norm v" "json_norm w" "[]" "[]"] assms json_wf_norm
  by (simp add: json_text_def closes_def)

lemma json_norm_idem: "json_norm (json_norm v) = json_norm v"
proof (induction v rule: json_norm.induct)
  case (2 kvs)
  have "map (\<lambda>(k, v). (k, json_norm v)) (sort_key fst (map (\<lambda>(k, v). (k, json_norm v)) kvs))
      = sort_key fst (map (\<lambda>(k, v). (k, json_norm v)) kvs)"
    using 2 by (intro map_idI) force
  then show ?case by (simp add: sort_key_id_if_sorted)
qed auto

end
