(* ===== verification/Regex_Match.thy ===== *)
theory Regex_Match
  imports Prelude
begin

text \<open>
  The part of Python's \<open>re\<close> that the guardrails use. A pattern is a value of \<open>re\<close>; \<open>ends r s i\<close>
  lists the positions at which a match of \<open>r\<close> that starts at position \<open>i\<close> of \<open>s\<close> may end, and
  \<open>re_search\<close> and \<open>re_fullmatch\<close> are the two entry points. Only whether a match exists is used, so
  the order in which alternatives are tried does not matter. \<open>ends_iff\<close> proves the executable matcher
  against the declarative relation \<open>matches\<close>.
\<close>


section \<open>Patterns\<close>

datatype re =
    Eps
  | Ch "char \<Rightarrow> bool"
  | Cat re re
  | Or re re
  | Rep re
  | WordEdge
  | AtStart

text \<open>\<open>\b\<close>: exactly one of the two neighbours of the position is a word character.\<close>

definition word_at :: "string \<Rightarrow> nat \<Rightarrow> bool" where
  "word_at s i = (i < length s \<and> is_word (s ! i))"

definition word_edge :: "string \<Rightarrow> nat \<Rightarrow> bool" where
  "word_edge s i = ((0 < i \<and> word_at s (i - 1)) \<noteq> word_at s i)"

fun close :: "nat \<Rightarrow> (nat \<Rightarrow> nat list) \<Rightarrow> nat \<Rightarrow> nat list" where
  "close 0 f i = [i]"
| "close (Suc n) f i = i # concat (map (close n f) (filter (\<lambda>j. i < j) (f i)))"

fun ends :: "re \<Rightarrow> string \<Rightarrow> nat \<Rightarrow> nat list" where
  "ends Eps s i = [i]"
| "ends (Ch p) s i = (if i < length s \<and> p (s ! i) then [Suc i] else [])"
| "ends (Cat a b) s i = concat (map (ends b s) (ends a s i))"
| "ends (Or a b) s i = ends a s i @ ends b s i"
| "ends (Rep a) s i = close (length s - i) (ends a s) i"
| "ends WordEdge s i = (if word_edge s i then [i] else [])"
| "ends AtStart s i = (if i = 0 then [i] else [])"

definition re_search :: "re \<Rightarrow> string \<Rightarrow> bool" where
  "re_search r s = list_ex (\<lambda>i. ends r s i \<noteq> []) [0..<Suc (length s)]"

definition re_fullmatch :: "re \<Rightarrow> string \<Rightarrow> bool" where
  "re_fullmatch r s = List.member (ends r s 0) (length s)"

text \<open>Derived patterns.\<close>

definition re_plus :: "re \<Rightarrow> re" where
  "re_plus r = Cat r (Rep r)"

text \<open>A literal under \<open>(?i)\<close>.\<close>

fun lit_i :: "string \<Rightarrow> re" where
  "lit_i [] = Eps"
| "lit_i (c # cs) = Cat (Ch (\<lambda>d. lower_char d = lower_char c)) (lit_i cs)"

fun re_any :: "re list \<Rightarrow> re" where
  "re_any [] = Ch (\<lambda>_. False)"
| "re_any [r] = r"
| "re_any (r # rs) = Or r (re_any rs)"


section \<open>The declarative meaning\<close>

inductive matches :: "re \<Rightarrow> string \<Rightarrow> nat \<Rightarrow> nat \<Rightarrow> bool" where
  eps: "matches Eps s i i"
| ch: "i < length s \<Longrightarrow> p (s ! i) \<Longrightarrow> matches (Ch p) s i (Suc i)"
| cat: "matches a s i j \<Longrightarrow> matches b s j k \<Longrightarrow> matches (Cat a b) s i k"
| or1: "matches a s i j \<Longrightarrow> matches (Or a b) s i j"
| or2: "matches b s i j \<Longrightarrow> matches (Or a b) s i j"
| rep0: "matches (Rep a) s i i"
| rep1: "matches a s i j \<Longrightarrow> matches (Rep a) s j k \<Longrightarrow> matches (Rep a) s i k"
| edge: "word_edge s i \<Longrightarrow> matches WordEdge s i i"
| start: "matches AtStart s 0 0"

inductive_simps matches_simps [simp]:
  "matches Eps s i j" "matches (Ch p) s i j" "matches (Cat a b) s i j" "matches (Or a b) s i j"
  "matches WordEdge s i j" "matches AtStart s i j"

lemma matches_forward: "matches r s i j \<Longrightarrow> i \<le> j \<and> (i \<le> length s \<longrightarrow> j \<le> length s)"
  by (induction rule: matches.induct) auto

text \<open>An iteration that makes no progress can be left out.\<close>

lemma rep_cases:
  assumes "matches (Rep a) s i k"
  shows "i = k \<or> (\<exists>j. i < j \<and> matches a s i j \<and> matches (Rep a) s j k)"
  using assms
proof (induction "Rep a" s i k rule: matches.induct)
  case (rep1 s i j k)
  show ?case
  proof (cases "i = j")
    case True
    with rep1 show ?thesis by simp
  next
    case False
    with rep1 matches_forward [of a s i j] show ?thesis by auto
  qed
qed auto

lemma close_complete:
  assumes "\<And>i j. i \<le> length s \<Longrightarrow> matches a s i j \<Longrightarrow> j \<in> set (f i)"
  shows "matches (Rep a) s i k \<Longrightarrow> i \<le> length s \<Longrightarrow> length s - i \<le> n \<Longrightarrow> k \<in> set (close n f i)"
proof (induction n arbitrary: i)
  case 0
  then have "k = i" using matches_forward [OF 0(1)] by auto
  then show ?case by simp
next
  case (Suc n)
  from rep_cases [OF Suc.prems(1)] show ?case
  proof
    assume "i = k"
    then show ?thesis by simp
  next
    assume "\<exists>j. i < j \<and> matches a s i j \<and> matches (Rep a) s j k"
    then obtain j where j: "i < j" "matches a s i j" "matches (Rep a) s j k" by blast
    then have "j \<le> length s" using matches_forward Suc.prems by blast
    then have "k \<in> set (close n f j)" using Suc j by simp
    then show ?thesis using j assms [of i j] Suc.prems by auto
  qed
qed

theorem ends_iff: "i \<le> length s \<Longrightarrow> j \<in> set (ends r s i) \<longleftrightarrow> matches r s i j"
proof (induction r arbitrary: i j)
  case (Cat a b)
  then show ?case using matches_forward by (fastforce)
next
  case (Rep a)
  show ?case
  proof
    assume "j \<in> set (ends (Rep a) s i)"
    moreover have "matches (Rep a) s i k" if "k \<in> set (close n (ends a s) i)" "i \<le> length s" for k n i
      using that
    proof (induction n arbitrary: i)
      case (Suc n)
      then show ?case
        using Rep.IH matches_forward by (auto intro: matches.intros)
    qed (auto intro: matches.intros)
    ultimately show "matches (Rep a) s i j" using Rep.prems by simp
  next
    assume "matches (Rep a) s i j"
    then show "j \<in> set (ends (Rep a) s i)"
      using close_complete [of s a "ends a s" i j "length s - i"] Rep by simp
  qed
qed auto

lemma re_search_iff: "re_search r s \<longleftrightarrow> (\<exists>i j. i \<le> length s \<and> matches r s i j)"
proof -
  have "re_search r s \<longleftrightarrow> (\<exists>i \<in> set [0..<Suc (length s)]. ends r s i \<noteq> [])"
    by (simp only: re_search_def list_ex_iff)
  also have "\<dots> \<longleftrightarrow> (\<exists>i \<le> length s. \<exists>j. j \<in> set (ends r s i))"
    by (metis atLeastLessThan_iff atLeastLessThan_upt empty_iff empty_set ex_in_conv le0
        less_Suc_eq_le set_empty)
  finally show ?thesis using ends_iff by metis
qed

lemma re_fullmatch_iff: "re_fullmatch r s \<longleftrightarrow> matches r s 0 (length s)"
  by (simp add: re_fullmatch_def ends_iff)


section \<open>Matching concrete pieces of text\<close>

lemma matches_rep_ch:
  "i + n \<le> length s \<Longrightarrow> (\<forall>k < n. p (s ! (i + k))) \<Longrightarrow> matches (Rep (Ch p)) s i (i + n)"
proof (induction n arbitrary: i)
  case 0
  then show ?case by (simp add: matches.rep0)
next
  case (Suc n)
  have "matches (Ch p) s i (Suc i)" using Suc.prems by (auto dest: spec [of _ 0])
  moreover have "matches (Rep (Ch p)) s (Suc i) (Suc i + n)"
    using Suc.prems by (intro Suc.IH) (auto dest: spec [of _ "Suc _"])
  ultimately show ?case by (metis add_Suc_right add_Suc matches.rep1)
qed

lemma matches_rep_ch_span:
  assumes "s = u @ w @ v" "list_all p w"
  shows "matches (Rep (Ch p)) s (length u) (length u + length w)"
  using assms by (intro matches_rep_ch) (auto simp: nth_append list_all_length)

lemma matches_lit_span:
  assumes "s = u @ w @ v" "lower w = lower x"
  shows "matches (lit_i x) s (length u) (length u + length w)"
  using assms
proof (induction x arbitrary: u w)
  case Nil
  then show ?case by (simp add: lower_def)
next
  case (Cons c x)
  then obtain d w' where w: "w = d # w'" "lower_char d = lower_char c" "lower w' = lower x"
    by (auto simp: lower_def map_eq_Cons_conv)
  have "matches (lit_i x) s (length (u @ [d])) (length (u @ [d]) + length w')"
    using Cons.prems w by (intro Cons.IH) auto
  then show ?case using Cons.prems w
    by (auto simp: nth_append)
qed

lemma matches_re_any: "r \<in> set rs \<Longrightarrow> matches r s i j \<Longrightarrow> matches (re_any rs) s i j"
  by (induction rs rule: re_any.induct) auto

lemma word_edge_after:
  assumes "s = u @ w @ v" "w \<noteq> []" "is_word (last w)" "v = [] \<or> \<not> is_word (hd v)"
  shows "word_edge s (length u + length w)"
proof -
  have "length u + length w - 1 = length u + (length w - 1)" using assms(2) by (cases w) auto
  then have "s ! (length u + length w - 1) = last w"
    using assms(1,2) by (simp add: nth_append last_conv_nth)
  moreover have "length u + length w < length s \<Longrightarrow> s ! (length u + length w) = hd v"
    using assms(1) by (auto simp: nth_append hd_conv_nth)
  moreover have "length u + length w < length s \<longleftrightarrow> v \<noteq> []" using assms(1) by simp
  moreover have "length u + length w - 1 < length s" using assms(1,2) by (cases w) auto
  ultimately show ?thesis
    using assms by (auto simp: word_edge_def word_at_def)
qed

lemma matches_plus_ch_span:
  assumes "s = u @ w @ v" "list_all p w" "w \<noteq> []"
  shows "matches (re_plus (Ch p)) s (length u) (length u + length w)"
proof -
  obtain c w' where w: "w = c # w'" using assms(3) by (cases w) auto
  have "matches (Ch p) s (length u) (Suc (length u))" using assms(1,2) w by (simp add: nth_append)
  moreover have "matches (Rep (Ch p)) s (length (u @ [c])) (length (u @ [c]) + length w')"
    using assms w by (intro matches_rep_ch_span [of _ _ _ v]) auto
  ultimately show ?thesis using w by (auto simp: re_plus_def)
qed

lemma matches_rep_ch_iff:
  "i \<le> length s \<Longrightarrow> matches (Rep (Ch p)) s i j \<longleftrightarrow> i \<le> j \<and> j \<le> length s \<and> list_all p (take (j - i) (drop i s))"
proof
  assume i: "i \<le> length s"
  assume "matches (Rep (Ch p)) s i j"
  then show "i \<le> j \<and> j \<le> length s \<and> list_all p (take (j - i) (drop i s))" using i
  proof (induction "Rep (Ch p)" s i j rule: matches.induct)
    case (rep1 s i j k)
    then have "j = Suc i" "i < length s" "p (s ! i)" by auto
    moreover from this rep1 have "Suc i \<le> k" "list_all p (take (k - Suc i) (drop (Suc i) s))" "k \<le> length s"
      by auto
    moreover from calculation have "take (k - i) (drop i s) = s ! i # take (k - Suc i) (drop (Suc i) s)"
      by (simp add: Cons_nth_drop_Suc [symmetric] take_Cons')
    ultimately show ?case by simp
  qed auto
next
  assume "i \<le> length s" and a: "i \<le> j \<and> j \<le> length s \<and> list_all p (take (j - i) (drop i s))"
  then have "\<forall>k < j - i. p (s ! (i + k))"
    by (auto simp: list_all_length)
  then show "matches (Rep (Ch p)) s i j"
    using matches_rep_ch [of i "j - i" s p] a by simp
qed

lemma matches_plus_ch_iff:
  "i \<le> length s \<Longrightarrow> matches (re_plus (Ch p)) s i j \<longleftrightarrow> i < j \<and> j \<le> length s \<and> list_all p (take (j - i) (drop i s))"
proof -
  assume i: "i \<le> length s"
  show ?thesis
  proof (cases "i < length s")
    case True
    then have "i < j \<Longrightarrow> take (j - i) (drop i s) = s ! i # take (j - Suc i) (drop (Suc i) s)"
      by (simp add: Cons_nth_drop_Suc [symmetric] take_Cons')
    then show ?thesis using True matches_rep_ch_iff [of "Suc i" s p j]
      by (auto simp: re_plus_def)
  qed (use i in \<open>auto simp: re_plus_def\<close>)
qed

end
