(* ===== verification/Guardrails.thy ===== *)
theory Guardrails
  imports Regex_Match Json_Text
begin

text \<open>
  The read-only SPL guardrail (\<open>splunk/guardrails.py\<close>), the query cost estimator
  (\<open>workload/estimator.py\<close>) and the bounded-window contract of validation tasks
  (\<open>ValidationService.validate_contract\<close> in \<open>validation/service.py\<close>). All three are pure functions
  of the query text, its time bounds and its row limit.
\<close>


section \<open>The read-only guardrail\<close>

definition re_char :: "char \<Rightarrow> re" where
  "re_char c = Ch (\<lambda>d. d = c)"

definition denied_commands :: "string list" where
  "denied_commands = [''delete'', ''collect'', ''outputlookup'', ''sendemail'', ''script'', ''map'']"

definition deny_pipe :: re where
  "deny_pipe = Cat (re_char CHR ''|'') (Cat (Rep (Ch is_space))
     (Cat (re_any (map lit_i denied_commands)) WordEdge))"

definition deny_rest :: re where
  "deny_rest = Cat WordEdge (Cat (re_any (map lit_i [''rest'', ''inputlookup'']))
     (Cat (re_plus (Ch is_space)) (Cat (Rep (Ch (\<lambda>c. c \<noteq> CHR 0x0A)))
     (Cat WordEdge (Cat (re_any (map lit_i [''post'', ''delete''])) WordEdge)))))"

definition READ_ONLY_DENY :: re where
  "READ_ONLY_DENY = Or deny_pipe deny_rest"

definition validate_read_only_spl :: "string \<Rightarrow> string result" where
  "validate_read_only_spl query = (let normalized = strip query in
     if normalized = [] then Inl (ValueError ''Validation SPL cannot be empty'')
     else if 20000 < int (length normalized)
       then Inl (ValueError ''Validation SPL exceeds the 20,000-character safety limit'')
     else if re_search READ_ONLY_DENY normalized
       then Inl (ValueError ''Validation SPL contains a modifying or high-risk command'')
     else if List.member normalized (CHR '';'')
       then Inl (ValueError ''Validation SPL cannot contain command separators'')
     else Inr normalized)"


section \<open>The cost estimator\<close>

definition unit_seconds :: "char \<Rightarrow> int option" where
  "unit_seconds u =
     (if u = CHR ''s'' then Some 1 else if u = CHR ''m'' then Some 60
      else if u = CHR ''h'' then Some 3600 else if u = CHR ''d'' then Some 86400
      else if u = CHR ''w'' then Some 604800 else None)"

text \<open>The optional snap suffix \<open>(?:@\w+)?\<close>.\<close>

definition snap_suffix :: "string \<Rightarrow> bool" where
  "snap_suffix s = (case s of [] \<Rightarrow> True
     | c # w \<Rightarrow> c = CHR ''@'' \<and> w \<noteq> [] \<and> list_all is_word w)"

definition relative_window_seconds :: "string \<Rightarrow> string \<Rightarrow> int option" where
  "relative_window_seconds earliest latest =
     (if lower (strip latest) \<noteq> ''now'' then None
      else case lower (strip earliest) of [] \<Rightarrow> None
        | sign # rest \<Rightarrow>
           (let ds = takeWhile is_digit rest in
            if sign \<noteq> CHR ''-'' \<or> ds = [] then None
            else case dropWhile is_digit rest of [] \<Rightarrow> None
              | u # suffix \<Rightarrow>
                  (case unit_seconds u of None \<Rightarrow> None
                   | Some m \<Rightarrow>
                      if snap_suffix suffix then Some (int (digits_value ds) * m) else None)))"

definition limiter :: re where
  "limiter = Cat (re_char CHR ''|'') (Cat (Rep (Ch is_space))
     (Cat (re_any (map lit_i [''head'', ''tail''])) (Cat (re_plus (Ch is_space)) (re_plus (Ch is_digit)))))"

definition index_scope :: re where
  "index_scope = Cat (Or AtStart (Ch is_space)) (Cat (lit_i ''index'') (Cat (Rep (Ch is_space))
     (Cat (re_char CHR ''='') (Cat (Rep (Ch is_space))
     (re_plus (Ch (\<lambda>c. c \<noteq> CHR ''*'' \<and> \<not> is_space c \<and> c \<noteq> CHR ''|'')))))))"

definition piped_command :: "string \<Rightarrow> re" where
  "piped_command command =
     Cat (re_char CHR ''|'') (Cat (Rep (Ch is_space)) (Cat (lit_i command) WordEdge))"

record staged_contract =
  sc_spl :: string
  sc_earliest_time :: "string option"
  sc_row_limit :: int
  sc_requires_index_scope :: bool

definition staged_query :: "string \<Rightarrow> bool \<Rightarrow> int option \<Rightarrow> int \<Rightarrow> staged_contract" where
  "staged_query query index_scoped time_seconds row_limit =
     \<lparr>sc_spl = (if re_search limiter query then query
        else query @ '' | head '' @ int_text (min row_limit 100)),
      sc_earliest_time = (case time_seconds of None \<Rightarrow> Some ''-24h''
        | Some n \<Rightarrow> if 86400 < n then Some ''-24h'' else None),
      sc_row_limit = min row_limit 100,
      sc_requires_index_scope = (\<not> index_scoped)\<rparr>"

datatype risk = RiskNone | RiskLow | RiskMedium | RiskHigh | RiskBlocked

datatype driver_level = LevelLow | LevelMedium | LevelHigh | LevelBlocked

record estimate =
  es_risk :: risk
  es_score :: int
  es_blocked_reason :: string
  es_cost_drivers :: "(driver_level \<times> string) list"
  es_positive_controls :: "string list"
  es_window_seconds :: "int option"
  es_cost_units :: int
  es_staged :: "staged_contract option"

text \<open>
  The estimator threads the score, the cost drivers and the positive controls through its stages;
  each stage below is one block of the function.
\<close>

type_synonym tally = "int \<times> (driver_level \<times> string) list \<times> string list"

fun stage_index :: "bool \<Rightarrow> tally \<Rightarrow> tally" where
  "stage_index index_scoped (score, drivers, controls) =
     (if index_scoped then (score, drivers, controls @ [''Explicit index scope''])
      else (score + 28, drivers @ [(LevelHigh, ''No explicit non-wildcard index scope'')], controls))"

fun stage_window :: "int option \<Rightarrow> tally \<Rightarrow> tally" where
  "stage_window None (score, drivers, controls) =
     (score + 15, drivers @ [(LevelMedium, ''Time window could not be estimated'')], controls)"
| "stage_window (Some n) (score, drivers, controls) =
     (if 30 * 86400 < n then (score + 30, drivers @ [(LevelHigh, ''Time range exceeds 30 days'')], controls)
      else if 7 * 86400 < n then (score + 18, drivers @ [(LevelMedium, ''Time range exceeds 7 days'')], controls)
      else if n \<le> 86400 then (score, drivers, controls @ [''Time range is 24 hours or less''])
      else (score, drivers, controls))"

definition expensive :: "(string \<times> int \<times> string) list" where
  "expensive =
     [(''transaction'', 25, ''Transaction can retain large event groups in memory''),
      (''join'', 20, ''Join can create expensive subsearch and result expansion''),
      (''map'', 100, ''Map is prohibited by the read-only execution policy''),
      (''regex'', 8, ''Regex evaluation may scan every candidate event'')]"

fun stage_command :: "string \<Rightarrow> string \<times> int \<times> string \<Rightarrow> tally \<Rightarrow> tally" where
  "stage_command query (command, weight, label) (score, drivers, controls) =
     (if re_search (piped_command command) query
      then (if command = ''map'' then max score 100 else score + weight,
            drivers @ [(if command = ''map'' then LevelBlocked else LevelMedium, label)], controls)
      else (score, drivers, controls))"

fun stage_shape :: "string \<Rightarrow> int \<Rightarrow> tally \<Rightarrow> tally" where
  "stage_shape query row_limit (score, drivers, controls) =
     (let tstats = contains ''| tstats'' (lower query) \<or> starts_with ''| tstats'' (lower query);
          score = (if tstats then max 0 (score - 12) else score);
          controls = controls @ (if tstats then [''Accelerated tstats pattern''] else [])
            @ (if re_search limiter query then [''SPL includes an explicit result limiter''] else [])
      in if row_limit \<le> 100
         then (score, drivers, controls @ [''SignalRoom row cap is '' @ int_text row_limit])
         else if 300 < row_limit
         then (score + 8, drivers @ [(LevelLow, ''Row cap exceeds 300'')], controls)
         else (score, drivers, controls))"

definition blocked_reason_of :: "string \<Rightarrow> string" where
  "blocked_reason_of query =
     (case validate_read_only_spl query of Inl (ValueError m) \<Rightarrow> m | _ \<Rightarrow> [])"

definition tally_query :: "string \<Rightarrow> string \<Rightarrow> string \<Rightarrow> int \<Rightarrow> tally" where
  "tally_query query earliest latest row_limit =
     (let reason = blocked_reason_of query;
          start = (if reason = [] then (0, [], []) else (100, [(LevelBlocked, reason)], []))
      in stage_shape query row_limit
           (fold (stage_command query) expensive
             (stage_window (relative_window_seconds earliest latest)
               (stage_index (re_search index_scope query) start))))"

definition risk_of :: "string \<Rightarrow> int \<Rightarrow> risk" where
  "risk_of blocked_reason score =
     (if blocked_reason \<noteq> [] then RiskBlocked else if 55 \<le> score then RiskHigh
      else if 25 \<le> score then RiskMedium else RiskLow)"

definition cost_units_of :: "string \<Rightarrow> int \<Rightarrow> int \<Rightarrow> int" where
  "cost_units_of blocked_reason score row_limit =
     (if blocked_reason \<noteq> [] then 100
      else min 100 (max 1 (4 + score + (row_limit + 99) div 100)))"

definition estimate_query :: "string \<Rightarrow> string \<Rightarrow> string \<Rightarrow> int \<Rightarrow> estimate" where
  "estimate_query spl earliest latest row_limit =
     (let query = strip spl;
          blocked_reason = blocked_reason_of query;
          (raw, drivers, controls) = tally_query query earliest latest row_limit;
          score = min 100 raw
      in \<lparr>es_risk = risk_of blocked_reason score,
          es_score = score,
          es_blocked_reason = blocked_reason,
          es_cost_drivers = drivers,
          es_positive_controls = controls,
          es_window_seconds = relative_window_seconds earliest latest,
          es_cost_units = cost_units_of blocked_reason score row_limit,
          es_staged = Some (staged_query query (re_search index_scope query)
            (relative_window_seconds earliest latest) row_limit)\<rparr>)"


section \<open>The validation contract\<close>

definition MAX_WINDOW_SECONDS :: int where
  "MAX_WINDOW_SECONDS = 30 * 24 * 60 * 60"

text \<open>\<open>RELATIVE_TIME.fullmatch\<close>: a minus sign, one to four digits and a lower-case unit.\<close>

definition relative_time :: "string \<Rightarrow> int option" where
  "relative_time s = (case s of [] \<Rightarrow> None
     | sign # rest \<Rightarrow>
        (let ds = takeWhile is_digit rest in
         if sign \<noteq> CHR ''-'' \<or> ds = [] \<or> 4 < length ds then None
         else case dropWhile is_digit rest of [u] \<Rightarrow>
                map_option (\<lambda>m. int (digits_value ds) * m) (unit_seconds u)
              | _ \<Rightarrow> None))"

definition validate_contract :: "string \<Rightarrow> string \<Rightarrow> string \<Rightarrow> int \<Rightarrow> unit result" where
  "validate_contract spl earliest latest row_limit =
     (case validate_read_only_spl spl of Inl e \<Rightarrow> Inl e
      | Inr _ \<Rightarrow>
        (case relative_time (strip earliest) of
           None \<Rightarrow> Inl (ValueError ''Earliest time must be a bounded relative value such as -24h or -7d'')
         | Some n \<Rightarrow>
            if MAX_WINDOW_SECONDS < n
            then Inl (ValueError ''Validation time windows cannot exceed 30 days'')
            else if strip latest \<noteq> ''now''
            then Inl (ValueError ''Validation tasks currently require latest_time=now'')
            else if \<not> (1 \<le> row_limit \<and> row_limit \<le> 500)
            then Inl (ValueError ''Validation row limits must be between 1 and 500'')
            else Inr ()))"



section \<open>The guardrail rejects every spelling of a denied command\<close>

lemma validate_ok:
  "validate_read_only_spl q = Inr n \<longleftrightarrow> n = strip q \<and> n \<noteq> [] \<and> length n \<le> 20000 \<and>
     \<not> re_search READ_ONLY_DENY n \<and> CHR '';'' \<notin> set n"
  by (auto simp: validate_read_only_spl_def Let_def)

lemma deny_pipe_matches:
  assumes s: "s = u @ CHR ''|'' # ws @ cmd @ v" and ws: "list_all is_space ws"
    and cmd: "lower cmd = lower c" "c \<in> set denied_commands"
    and lst: "is_word (last cmd)" "cmd \<noteq> []" and v: "v = [] \<or> \<not> is_word (hd v)"
  shows "re_search READ_ONLY_DENY s"
proof -
  let ?i = "length u" let ?j = "Suc ?i" let ?k = "?j + length ws" let ?l = "?k + length cmd"
  have 1: "matches (re_char CHR ''|'') s ?i ?j" using s by (simp add: re_char_def nth_append)
  have 2: "matches (Rep (Ch is_space)) s ?j ?k"
    using matches_rep_ch_span [of s "u @ [CHR ''|'']" ws "cmd @ v"] s ws by simp
  have 3: "matches (re_any (map lit_i denied_commands)) s ?k ?l"
    using matches_lit_span [of s "u @ [CHR ''|''] @ ws" cmd v c] s cmd
    by (intro matches_re_any [of "lit_i c"]) (auto simp: add.assoc)
  have 4: "word_edge s ?l"
    using word_edge_after [of s "u @ [CHR ''|''] @ ws" cmd v] s lst v by (simp add: add.assoc)
  have "matches deny_pipe s ?i ?l"
    unfolding deny_pipe_def using 1 2 3 4 by (auto intro: matches.intros)
  then show ?thesis
    unfolding READ_ONLY_DENY_def re_search_iff using s matches.or1 by (metis le_add1 length_append)
qed

lemma denied_commands_lower: "c \<in> set denied_commands \<Longrightarrow> lower c = c \<and> c \<noteq> [] \<and> is_word (last c)"
proof -
  have "list_all (\<lambda>c. lower c = c \<and> c \<noteq> [] \<and> is_word (last c)) denied_commands" by code_simp
  then show "c \<in> set denied_commands \<Longrightarrow> lower c = c \<and> c \<noteq> [] \<and> is_word (last c)"
    by (simp add: list_all_iff)
qed

text \<open>C8. A query that, once stripped, pipes into a denied command - in any letter case, with any
  white space after the bar, and followed by anything that does not continue the word - is rejected.\<close>

theorem denied_command_rejected:
  assumes "strip q = u @ CHR ''|'' # ws @ cmd @ v" "list_all is_space ws"
    "lower cmd \<in> set denied_commands" "v = [] \<or> \<not> is_word (hd v)"
  shows "\<exists>e. validate_read_only_spl q = Inl e"
proof -
  have low: "lower cmd = lower (lower cmd)" "lower cmd \<noteq> []" "is_word (last (lower cmd))"
    using denied_commands_lower [OF assms(3)] by auto
  then have "cmd \<noteq> []" "is_word (last cmd)"
    using lower_word by (auto simp: lower_def last_map)
  then have "re_search READ_ONLY_DENY (strip q)"
    using deny_pipe_matches [OF assms(1,2) low(1) assms(3) _ _ assms(4)] by blast
  then show ?thesis
    by (cases "validate_read_only_spl q") (auto simp: validate_ok)
qed

lemma denied_command_rejected_witness:
  "\<exists>e. validate_read_only_spl ''index=main |  DELETE x'' = Inl e"
  by (rule denied_command_rejected [of _ "''index=main ''" "''  ''" "''DELETE''" "'' x''"]) code_simp+


subsection \<open>The estimate\<close>

lemma validate_error_kind: "validate_read_only_spl q = Inl e \<Longrightarrow> \<exists>m. e = ValueError m \<and> m \<noteq> []"
  by (auto simp: validate_read_only_spl_def Let_def split: if_splits)

lemma blocked_reason_strip: "blocked_reason_of (strip q) = blocked_reason_of q"
  by (simp add: blocked_reason_of_def validate_read_only_spl_def strip_idem)

lemma blocked_reason_iff: "blocked_reason_of q \<noteq> [] \<longleftrightarrow> (\<exists>e. validate_read_only_spl q = Inl e)"
  using validate_error_kind
  by (cases "validate_read_only_spl q") (fastforce simp: blocked_reason_of_def)+

lemma stage_index_nonneg: "0 \<le> fst t \<Longrightarrow> 0 \<le> fst (stage_index b t)"
  by (cases t) auto

lemma stage_window_nonneg: "0 \<le> fst t \<Longrightarrow> 0 \<le> fst (stage_window w t)"
  by (cases w; cases t) auto

lemma stage_command_nonneg: "0 \<le> fst t \<Longrightarrow> 0 \<le> fst (fold (stage_command q) expensive t)"
  by (cases t) (auto simp: expensive_def)

lemma stage_shape_nonneg: "0 \<le> fst t \<Longrightarrow> 0 \<le> fst (stage_shape q n t)"
  by (cases t) (auto simp: Let_def)

lemma tally_nonneg: "0 \<le> fst (tally_query q e l n)"
  unfolding tally_query_def Let_def
  by (intro stage_shape_nonneg stage_command_nonneg stage_window_nonneg stage_index_nonneg) auto

lemmas estimate_defs = estimate_query_def Let_def split_beta

text \<open>The estimator's score is between 0 and 100 and its cost units between 1 and 100, whatever the
  query text, time bounds and row limit.\<close>

theorem estimate_bounds:
  "0 \<le> es_score (estimate_query q e l n) \<and> es_score (estimate_query q e l n) \<le> 100 \<and>
   1 \<le> es_cost_units (estimate_query q e l n) \<and> es_cost_units (estimate_query q e l n) \<le> 100"
  using tally_nonneg [of "strip q" e l n]
  by (auto simp: estimate_defs cost_units_of_def)

text \<open>The estimator reports the risk \<open>blocked\<close> exactly for the queries the read-only guardrail
  raises on, a blocked query always costs 100 units, and no estimate has the risk \<open>none\<close>, which
  the workload service reserves for calls that run no query.\<close>

theorem estimate_blocked_iff_guardrail:
  "(es_risk (estimate_query q e l n) = RiskBlocked \<longleftrightarrow> (\<exists>err. validate_read_only_spl q = Inl err)) \<and>
   (es_risk (estimate_query q e l n) = RiskBlocked \<longrightarrow> es_cost_units (estimate_query q e l n) = 100) \<and>
   es_risk (estimate_query q e l n) \<noteq> RiskNone"
  by (auto simp: estimate_defs risk_of_def cost_units_of_def blocked_reason_strip
      blocked_reason_iff [symmetric])

lemma estimate_blocked_iff_guardrail_witness:
  "es_cost_units (estimate_query ''| delete'' ''-1h'' ''now'' 10) = 100 \<and>
    es_risk (estimate_query ''| delete'' ''-1h'' ''now'' 10) = RiskBlocked"
proof -
  have "re_search READ_ONLY_DENY (strip ''| delete'')" by code_simp
  then have "\<exists>err. validate_read_only_spl ''| delete'' = Inl err"
    by (cases "validate_read_only_spl ''| delete''") (auto simp: validate_ok)
  then show ?thesis
    using estimate_blocked_iff_guardrail [of "''| delete''" "''-1h''" "''now''" 10] by blast
qed

lemma deny_map: "re_search (piped_command ''map'') s \<Longrightarrow> re_search READ_ONLY_DENY s"
proof -
  assume "re_search (piped_command ''map'') s"
  then obtain i j where ij: "i \<le> length s" "matches (piped_command ''map'') s i j"
    by (auto simp: re_search_iff)
  then obtain k l m where m: "matches (re_char CHR ''|'') s i k" "matches (Rep (Ch is_space)) s k l"
    "matches (lit_i ''map'') s l m" "matches WordEdge s m j"
    unfolding piped_command_def by (auto simp: matches_simps(3) simp del: lit_i.simps)
  have mem: "lit_i ''map'' \<in> set (map lit_i denied_commands)"
    by (simp add: denied_commands_def)
  have "matches (re_any (map lit_i denied_commands)) s l m"
    using matches_re_any [OF mem m(3)] .
  with m have "matches deny_pipe s i j"
    unfolding deny_pipe_def by (meson matches.cat)
  with ij show ?thesis by (auto simp: READ_ONLY_DENY_def re_search_iff)
qed

text \<open>A query that pipes into \<open>map\<close> is always blocked: the estimator's own rule for \<open>map\<close> never
  speaks of a query the guardrail lets through.\<close>

theorem map_query_is_blocked:
  assumes "re_search (piped_command ''map'') (strip q)"
  shows "es_risk (estimate_query q e l n) = RiskBlocked"
proof -
  have "\<exists>err. validate_read_only_spl q = Inl err"
    using deny_map [OF assms] by (cases "validate_read_only_spl q") (auto simp: validate_ok)
  then show ?thesis using estimate_blocked_iff_guardrail by blast
qed

lemma limiter_appended:
  assumes "0 \<le> k"
  shows "re_search limiter (q @ '' | head '' @ int_text k)"
proof -
  let ?d = "int_text k" let ?s = "q @ '' | head '' @ ?d"
  have d: "list_all is_digit ?d" "?d \<noteq> []"
    using nat_text_digits assms by (auto simp: int_text_def)
  have 1: "matches (re_char CHR ''|'') ?s (length q + 1) (length q + 2)"
    by (simp add: re_char_def nth_append)
  have 2: "matches (Rep (Ch is_space)) ?s (length q + 2) (length q + 3)"
    using matches_rep_ch_span [of ?s "q @ '' |''" "'' ''" "''head '' @ ?d" is_space]
    by (simp add: is_space_def code_def eval_nat_numeral)
  have 3: "matches (re_any (map lit_i [''head'', ''tail''])) ?s (length q + 3) (length q + 7)"
    using matches_lit_span [of ?s "q @ '' | ''" "''head''" "'' '' @ ?d" "''head''"]
    by (simp add: eval_nat_numeral del: lit_i.simps)
  have 4: "matches (re_plus (Ch is_space)) ?s (length q + 7) (length q + 8)"
    using matches_plus_ch_span [of ?s "q @ '' | head''" "'' ''" ?d is_space]
    by (simp add: is_space_def code_def eval_nat_numeral)
  have 5: "matches (re_plus (Ch is_digit)) ?s (length q + 8) (length q + 8 + length ?d)"
    using matches_plus_ch_span [of ?s "q @ '' | head ''" ?d "[]" is_digit] d by (simp add: eval_nat_numeral)
  have "matches limiter ?s (length q + 1) (length q + 8 + length ?d)"
    unfolding limiter_def using 1 2 3 4 5 by (auto simp del: lit_i.simps)
  then have "\<exists>i j. i \<le> length ?s \<and> matches limiter ?s i j"
    by (intro exI [of _ "length q + 1"] exI conjI) auto
  then show ?thesis unfolding re_search_iff .
qed

text \<open>The staged query the estimator proposes always carries an explicit result limiter, caps the rows
  at 100 and extends the original text without changing it.\<close>

theorem staged_contract_is_bounded:
  assumes "0 \<le> row_limit"
  shows "re_search limiter (sc_spl (staged_query q scoped w row_limit)) \<and>
    sc_row_limit (staged_query q scoped w row_limit) \<le> 100 \<and>
    starts_with q (sc_spl (staged_query q scoped w row_limit))"
  using assms limiter_appended [of "min row_limit 100" q]
  by (auto simp: staged_query_def starts_with_def)

definition window_re :: re where
  "window_re = Cat (re_char CHR ''-'') (Cat (re_plus (Ch is_digit))
     (Cat (Ch (\<lambda>c. unit_seconds c \<noteq> None))
       (Or Eps (Cat (re_char CHR ''@'') (re_plus (Ch is_word))))))"

lemma unit_not_digit: "unit_seconds c \<noteq> None \<Longrightarrow> \<not> is_digit c"
  by (auto simp: unit_seconds_def is_digit_def code_def split: if_splits)

lemma snap_suffix_iff:
  "i \<le> length s \<Longrightarrow> matches (Or Eps (Cat (re_char CHR ''@'') (re_plus (Ch is_word)))) s i (length s)
    \<longleftrightarrow> snap_suffix (drop i s)"
proof (cases "i < length s")
  case True
  then have "drop i s = s ! i # drop (Suc i) s" by (simp add: Cons_nth_drop_Suc)
  with True show ?thesis
    using matches_plus_ch_iff [of "Suc i" s is_word "length s"]
    by (auto simp: snap_suffix_def re_char_def)
qed (auto simp: snap_suffix_def re_char_def)

lemma window_re_iff:
  "matches window_re s 0 (length s) \<longleftrightarrow>
    (\<exists>ds u suffix. s = CHR ''-'' # ds @ u # suffix \<and> list_all is_digit ds \<and> ds \<noteq> [] \<and>
      unit_seconds u \<noteq> None \<and> snap_suffix suffix)"
proof
  assume "matches window_re s 0 (length s)"
  then obtain j where j: "s \<noteq> []" "hd s = CHR ''-''" "matches (re_plus (Ch is_digit)) s 1 j"
    "j < length s" "unit_seconds (s ! j) \<noteq> None"
    "matches (Or Eps (Cat (re_char CHR ''@'') (re_plus (Ch is_word)))) s (Suc j) (length s)"
    by (auto simp: window_re_def re_char_def hd_conv_nth)
  then have "1 < j" "list_all is_digit (take (j - 1) (drop 1 s))"
    using matches_plus_ch_iff [of 1 s is_digit j] by auto
  moreover have "snap_suffix (drop (Suc j) s)" using j snap_suffix_iff [of "Suc j" s] by simp
  moreover have "s = CHR ''-'' # take (j - 1) (drop 1 s) @ s ! j # drop (Suc j) s"
  proof -
    have "s = CHR ''-'' # drop 1 s" using j by (cases s) auto
    moreover have "drop 1 s = take (j - 1) (drop 1 s) @ drop (j - 1) (drop 1 s)"
      by (rule append_take_drop_id [symmetric])
    moreover have "drop (j - 1) (drop 1 s) = s ! j # drop (Suc j) s"
      using j \<open>1 < j\<close> by (simp add: Cons_nth_drop_Suc)
    ultimately show ?thesis by metis
  qed
  moreover have "take (j - 1) (drop 1 s) \<noteq> []" using j \<open>1 < j\<close> by auto
  ultimately show "\<exists>ds u suffix. s = CHR ''-'' # ds @ u # suffix \<and> list_all is_digit ds \<and> ds \<noteq> [] \<and>
      unit_seconds u \<noteq> None \<and> snap_suffix suffix" using j by metis
next
  assume "\<exists>ds u suffix. s = CHR ''-'' # ds @ u # suffix \<and> list_all is_digit ds \<and> ds \<noteq> [] \<and>
      unit_seconds u \<noteq> None \<and> snap_suffix suffix"
  then obtain ds u suffix where s: "s = CHR ''-'' # ds @ u # suffix" "list_all is_digit ds" "ds \<noteq> []"
    "unit_seconds u \<noteq> None" "snap_suffix suffix" by blast
  let ?j = "Suc (length ds)"
  have "matches (re_plus (Ch is_digit)) s (Suc 0) ?j"
    using matches_plus_ch_span [of s "[CHR ''-'']" ds "u # suffix" is_digit] s by simp
  moreover have "s ! ?j = u" "?j < length s" using s by (auto simp: nth_append)
  moreover have "matches (Or Eps (Cat (re_char CHR ''@'') (re_plus (Ch is_word)))) s (Suc ?j) (length s)"
    using snap_suffix_iff [of "Suc ?j" s] s by simp
  ultimately show "matches window_re s 0 (length s)"
    unfolding window_re_def using s by (auto simp: re_char_def)
qed

text \<open>The relative window is computed exactly when the latest time is \<open>now\<close> and the earliest time
  matches the source's pattern \<open>-(\d+)([smhdw])(?:@\w+)?\<close> in full.\<close>

theorem relative_window_accepts:
  "relative_window_seconds e l \<noteq> None \<longleftrightarrow>
    lower (strip l) = ''now'' \<and> re_fullmatch window_re (lower (strip e))"
proof -
  let ?s = "lower (strip e)"
  have "lower (strip l) = ''now'' \<Longrightarrow> relative_window_seconds e l \<noteq> None \<longleftrightarrow>
    (\<exists>ds u suffix. ?s = CHR ''-'' # ds @ u # suffix \<and> list_all is_digit ds \<and> ds \<noteq> [] \<and>
      unit_seconds u \<noteq> None \<and> snap_suffix suffix)" (is "_ \<Longrightarrow> ?L \<longleftrightarrow> ?R")
  proof
    assume l: "lower (strip l) = ''now''" and ?L
    then obtain rest u suffix m where d: "?s = CHR ''-'' # rest" "takeWhile is_digit rest \<noteq> []"
      "dropWhile is_digit rest = u # suffix" "unit_seconds u = Some m" "snap_suffix suffix"
      by (auto simp: relative_window_seconds_def Let_def split: list.splits option.splits if_splits)
    moreover have "rest = takeWhile is_digit rest @ u # suffix"
      using d(3) by (metis takeWhile_dropWhile_id)
    moreover have "list_all is_digit (takeWhile is_digit rest)"
      by (metis list_all_iff set_takeWhileD)
    ultimately show ?R by (metis option.distinct(1))
  next
    assume l: "lower (strip l) = ''now''" and ?R
    then obtain ds u suffix where d: "?s = CHR ''-'' # ds @ u # suffix" "list_all is_digit ds" "ds \<noteq> []"
      "unit_seconds u \<noteq> None" "snap_suffix suffix" by blast
    moreover have "takeWhile is_digit (ds @ u # suffix) = ds \<and> dropWhile is_digit (ds @ u # suffix) = u # suffix"
      using takeWhile_span [OF d(2), of "u # suffix"] unit_not_digit [OF d(4)] by simp
    ultimately show ?L using l by (auto simp: relative_window_seconds_def)
  qed
  then show ?thesis
    unfolding re_fullmatch_iff window_re_iff [symmetric]
    by (cases "lower (strip l) = ''now''") (auto simp: relative_window_seconds_def window_re_iff)
qed

subsection \<open>The contract\<close>

lemma unit_seconds_pos: "unit_seconds u = Some m \<Longrightarrow> 0 < m"
  by (auto simp: unit_seconds_def split: if_splits)

lemma relative_time_window:
  assumes "relative_time (strip e) = Some n" "strip l = ''now''"
  shows "relative_window_seconds e l = Some n \<and> 0 \<le> n"
proof -
  have now: "lower ''now'' = ''now''" by code_simp
  from assms(1) obtain ds u m where d: "strip e = CHR ''-'' # ds @ [u]" "list_all is_digit ds" "ds \<noteq> []"
      "unit_seconds u = Some m" "n = int (digits_value ds) * m"
  proof -
    from assms(1) obtain rest u m where r: "strip e = CHR ''-'' # rest" "takeWhile is_digit rest \<noteq> []"
      "dropWhile is_digit rest = [u]" "unit_seconds u = Some m"
      "n = int (digits_value (takeWhile is_digit rest)) * m"
      by (auto simp: relative_time_def Let_def split: list.splits if_splits)
    moreover have "rest = takeWhile is_digit rest @ [u]" using r(3) by (metis takeWhile_dropWhile_id)
    moreover have "list_all is_digit (takeWhile is_digit rest)" by (metis list_all_iff set_takeWhileD)
    ultimately show thesis using that by metis
  qed
  have "lower_char c = c" if "is_digit c" for c
    using that by (auto simp: is_digit_def lower_char_def Let_def)
  then have "lower ds = ds" using d(2) by (auto simp: lower_def list_all_iff intro: map_idI)
  moreover have "lower_char u = u" using d(4) by (auto simp: unit_seconds_def split: if_splits) code_simp+
  moreover have "lower_char CHR ''-'' = CHR ''-''" by code_simp
  ultimately have "lower (strip e) = CHR ''-'' # ds @ [u]" using d(1) by (simp add: lower_def)
  moreover have "takeWhile is_digit (ds @ [u]) = ds \<and> dropWhile is_digit (ds @ [u]) = [u]"
    using takeWhile_span [OF d(2), of "[u]"] unit_not_digit [of u] d(4) by simp
  ultimately show ?thesis using d assms(2) now unit_seconds_pos [of u m]
    by (simp add: relative_window_seconds_def snap_suffix_def)
qed

text \<open>C9. A validation contract that is accepted passes the read-only guardrail, has a relative window of at
  most 30 days that the estimator reads as the same number of seconds, asks for 1 to 500 rows, and is
  never one the estimator blocks.\<close>

theorem validate_contract_sound:
  assumes "validate_contract spl e l row_limit = Inr ()"
  shows "(\<exists>n. validate_read_only_spl spl = Inr n) \<and>
    (\<exists>n. relative_window_seconds e l = Some n \<and> 0 \<le> n \<and> n \<le> 2592000) \<and>
    1 \<le> row_limit \<and> row_limit \<le> 500 \<and>
    es_risk (estimate_query spl e l row_limit) \<noteq> RiskBlocked"
proof -
  from assms obtain n q where "validate_read_only_spl spl = Inr q" "relative_time (strip e) = Some n"
    "n \<le> 2592000" "strip l = ''now''" "1 \<le> row_limit" "row_limit \<le> 500"
    by (auto simp: validate_contract_def MAX_WINDOW_SECONDS_def split: sum.splits option.splits if_splits)
  then show ?thesis using relative_time_window estimate_blocked_iff_guardrail
    by (metis Inl_Inr_False)
qed

lemma validate_contract_sound_witness:
  "(\<exists>n. validate_read_only_spl ''index=main'' = Inr n) \<and>
    (\<exists>n. relative_window_seconds ''-7d'' ''now'' = Some n \<and> 0 \<le> n \<and> n \<le> 2592000) \<and>
    1 \<le> (100::int) \<and> (100::int) \<le> 500 \<and>
    es_risk (estimate_query ''index=main'' ''-7d'' ''now'' 100) \<noteq> RiskBlocked"
proof (rule validate_contract_sound)
  show "validate_contract ''index=main'' ''-7d'' ''now'' 100 = Inr ()" by code_simp
qed

end
