(* ===== verification/Python_Values.thy ===== *)
theory Python_Values
  imports Json_Text "HOL-Library.AList"
begin

text \<open>
  What the components share of Python's built-in values: the members, truth and text of decoded JSON,
  case folding, white-space splitting, insertion-ordered keys, and the parts that
  \<open>urllib.parse.urlparse\<close> finds in an address (the parser itself is a parameter where it is used).
\<close>


section \<open>Decoded JSON\<close>

fun json_member :: "string \<Rightarrow> json \<Rightarrow> json option" where
  "json_member k (JObj kvs) = map_of kvs k"
| "json_member k _ = None"

text \<open>\<open>value == 0\<close> in Python, where \<open>False == 0\<close> and \<open>0.0 == 0\<close>.\<close>

fun json_zero :: "json \<Rightarrow> bool" where
  "json_zero (JInt i) = (i = 0)"
| "json_zero (JBool b) = (\<not> b)"
| "json_zero (JNum t) = (\<not> list_ex (\<lambda>c. is_digit c \<and> c \<noteq> CHR ''0'') (takeWhile (\<lambda>c. c \<noteq> CHR ''e'' \<and> c \<noteq> CHR ''E'') t))"
| "json_zero _ = False"

text \<open>\<open>bool(value)\<close> and \<open>str(value)\<close>; the text of a list or dictionary is the parameter \<open>repr\<close>.\<close>

fun json_true :: "json \<Rightarrow> bool" where
  "json_true JNull = False"
| "json_true (JStr s) = (s \<noteq> [])"
| "json_true (JArr vs) = (vs \<noteq> [])"
| "json_true (JObj kvs) = (kvs \<noteq> [])"
| "json_true v = (\<not> json_zero v)"

fun json_str :: "(json \<Rightarrow> string) \<Rightarrow> json \<Rightarrow> string" where
  "json_str repr JNull = ''None''"
| "json_str repr (JBool b) = (if b then ''True'' else ''False'')"
| "json_str repr (JInt n) = int_text n"
| "json_str repr (JNum t) = t"
| "json_str repr (JStr s) = s"
| "json_str repr v = repr v"

text \<open>\<open>str(value.get(key) or "")\<close>.\<close>

definition str_or_empty :: "(json \<Rightarrow> string) \<Rightarrow> json option \<Rightarrow> string" where
  "str_or_empty repr v = (case v of None \<Rightarrow> [] | Some x \<Rightarrow> if json_true x then json_str repr x else [])"


text \<open>\<open>int(value)\<close>, \<open>None\<close> where it raises: a number is truncated, a text is a signed row of digits.\<close>

definition unsigned :: "string \<Rightarrow> string" where
  "unsigned t = (case t of c # cs \<Rightarrow> if c = CHR ''-'' \<or> c = CHR ''+'' then cs else t | [] \<Rightarrow> t)"

definition signed :: "string \<Rightarrow> int \<Rightarrow> int" where
  "signed t n = (case t of c # cs \<Rightarrow> if c = CHR ''-'' then - n else n | [] \<Rightarrow> n)"

definition digits_int :: "string \<Rightarrow> int option" where
  "digits_int t = (let ds = unsigned t in
     if ds = [] \<or> \<not> list_all is_digit ds then None else Some (signed t (int (digits_value ds))))"

definition truncate_literal :: "string \<Rightarrow> int" where
  "truncate_literal t =
     (let body = unsigned t; whole = takeWhile is_digit body; rest = drop (length whole) body;
          frac = (if rest \<noteq> [] \<and> hd rest = CHR ''.'' then takeWhile is_digit (tl rest) else []);
          tail = dropWhile (\<lambda>c. c \<noteq> CHR ''e'' \<and> c \<noteq> CHR ''E'') rest;
          shift = (case digits_int (drop 1 tail) of None \<Rightarrow> 0 | Some e \<Rightarrow> e) - int (length frac);
          n = int (digits_value (whole @ frac))
      in signed t (if 0 \<le> shift then n * 10 ^ nat shift else n div 10 ^ nat (- shift)))"

fun py_int :: "json \<Rightarrow> int option" where
  "py_int (JInt n) = Some n"
| "py_int (JBool b) = Some (if b then 1 else 0)"
| "py_int (JNum t) = Some (truncate_literal t)"
| "py_int (JStr s) = digits_int (strip s)"
| "py_int _ = None"

text \<open>\<open>json.dumps(value)\<close> with the default separators.\<close>

fun join_with :: "string \<Rightarrow> string list \<Rightarrow> string" where
  "join_with sep [] = []"
| "join_with sep [w] = w"
| "join_with sep (w # v # ws) = w @ sep @ join_with sep (v # ws)"

fun dumps :: "json \<Rightarrow> string" where
  "dumps (JArr xs) = ''['' @ join_with '', '' (map dumps xs) @ '']''"
| "dumps (JObj kvs) = ''{'' @ join_with '', '' (map (\<lambda>(k, v). quote k @ '': '' @ dumps v) kvs) @ ''}''"
| "dumps v = enc v"

text \<open>\<open>str(exc)\<close> for the errors whose text an operation stores; an \<open>AssertionError\<close> has none.\<close>

fun error_message :: "py_error \<Rightarrow> string" where
  "error_message (RuntimeError s) = s"
| "error_message (ValueError s) = s"
| "error_message (PermissionError s) = s"
| "error_message (IntegrityError s) = s"
| "error_message (KeyError s) = CHR 0x27 # s @ [CHR 0x27]"
| "error_message AssertionError = []"
| "error_message CancelledError = []"


section \<open>Dictionaries\<close>

text \<open>A dictionary comprehension: a later item with the same key replaces the value in place.\<close>

definition dict_of :: "(string \<times> 'v) list \<Rightarrow> (string \<times> 'v) list" where
  "dict_of items = fold (\<lambda>(k, v). AList.update k v) items []"

lemma dict_of_invariant:
  "distinct (map fst acc) \<Longrightarrow>
    distinct (map fst (fold (\<lambda>(k, v). AList.update k v) items acc)) \<and>
    set (fold (\<lambda>(k, v). AList.update k v) items acc) \<subseteq> set acc \<union> set items \<and>
    length (fold (\<lambda>(k, v). AList.update k v) items acc) \<le> length acc + length items"
proof (induction items arbitrary: acc)
  case (Cons kv items)
  obtain k v where kv: "kv = (k, v)" by (cases kv)
  have sub: "set (AList.update k v acc) \<subseteq> insert (k, v) (set acc)" for acc :: "('a \<times> 'b) list"
    by (induction acc) auto
  have len: "length (AList.update k v acc) \<le> Suc (length acc)" for acc :: "('a \<times> 'b) list"
    by (induction acc) auto
  have "distinct (map fst (AList.update k v acc))" using Cons.prems by (rule AList.distinct_update)
  from Cons.IH [OF this] sub [of acc] len [of acc] show ?case by (fastforce simp: kv)
qed auto

lemma dict_of_props:
  "distinct (map fst (dict_of items))" "set (dict_of items) \<subseteq> set items"
  "length (dict_of items) \<le> length items"
  using dict_of_invariant [of "[]" items] by (auto simp: dict_of_def)

lemma dict_of_id: "distinct (map fst (items :: (string \<times> 'a) list)) \<Longrightarrow> dict_of items = items"
proof -
  have "distinct (map fst (acc @ items)) \<Longrightarrow>
    fold (\<lambda>(k, v). AList.update k v) items acc = acc @ items" for acc
  proof (induction items arbitrary: acc)
    case (Cons kv items)
    have new: "k \<notin> fst ` set al \<Longrightarrow> AList.update k v al = al @ [(k, v)]" for k v and al :: "(string \<times> 'a) list"
      by (induction al) auto
    from Cons.prems have "AList.update (fst kv) (snd kv) acc = acc @ [kv]"
      using new [of "fst kv" acc "snd kv"] by auto
    with Cons show ?case by (auto simp: case_prod_beta)
  qed auto
  from this [of "[]"] show "distinct (map fst items) \<Longrightarrow> dict_of items = items"
    by (simp add: dict_of_def)
qed


section \<open>Loops that may raise\<close>

definition try_bind :: "'a result \<Rightarrow> ('a \<Rightarrow> 'b result) \<Rightarrow> 'b result" where
  "try_bind r f = (case r of Inl e \<Rightarrow> Inl e | Inr x \<Rightarrow> f x)"

lemma try_bind_simps [simp]: "try_bind (Inl e) f = Inl e" "try_bind (Inr x) f = f x"
  by (simp_all add: try_bind_def)

lemma try_bind_Inr: "try_bind r f = Inr y \<longleftrightarrow> (\<exists>x. r = Inr x \<and> f x = Inr y)"
  by (cases r) simp_all

fun try_concat :: "('a \<Rightarrow> 'b list result) \<Rightarrow> 'a list \<Rightarrow> 'b list result" where
  "try_concat f [] = Inr []"
| "try_concat f (x # xs) = try_bind (f x) (\<lambda>ys. try_bind (try_concat f xs) (\<lambda>zs. Inr (ys @ zs)))"

text \<open>\<open>value.get(key, default)\<close> and \<open>for x in value\<close>; another shape raises with the text \<open>err\<close>.\<close>

definition get_or :: "string \<Rightarrow> string \<Rightarrow> json \<Rightarrow> json \<Rightarrow> json result" where
  "get_or err k d v = (case v of JObj kvs \<Rightarrow> Inr (case map_of kvs k of None \<Rightarrow> d | Some x \<Rightarrow> x) | _ \<Rightarrow> Inl (RuntimeError err))"

definition iterate :: "string \<Rightarrow> json \<Rightarrow> json list result" where
  "iterate err v = (case v of JArr xs \<Rightarrow> Inr xs | JObj kvs \<Rightarrow> Inr (map (\<lambda>(k, x). JStr k) kvs)
     | JStr s \<Rightarrow> Inr (map (\<lambda>c. JStr [c]) s) | _ \<Rightarrow> Inl (RuntimeError err))"

text \<open>\<open>int(value.get(key) or default)\<close>.\<close>

definition get_int_or :: "string \<Rightarrow> string \<Rightarrow> int \<Rightarrow> json \<Rightarrow> int result" where
  "get_int_or err k d v = try_bind (get_or err k JNull v) (\<lambda>x. if \<not> json_true x then Inr d
     else (case py_int x of None \<Rightarrow> Inl (ValueError err) | Some n \<Rightarrow> Inr n))"

text \<open>\<open>str(value.get(key) or default)\<close> of a dictionary.\<close>

definition text_of :: "(json \<Rightarrow> string) \<Rightarrow> string \<Rightarrow> string \<Rightarrow> json \<Rightarrow> string" where
  "text_of repr k d v = (let s = str_or_empty repr (json_member k v) in if s = [] then d else s)"


section \<open>Text\<close>

text \<open>
  \<open>casefold\<close>: the sharp s is the one character whose folding is plain text other than its lower case (the micro
  sign folds to a letter above the code points of the model and is kept).
\<close>

definition casefold :: "string \<Rightarrow> string" where
  "casefold s = concat (map (\<lambda>c. if code c = 223 then ''ss'' else [lower_char c]) s)"

text \<open>\<open>str.split()\<close> and \<open>" ".join\<close>.\<close>

fun split_words :: "string \<Rightarrow> string \<Rightarrow> string list" where
  "split_words w [] = (if w = [] then [] else [w])"
| "split_words w (c # cs) = (if is_space c then (if w = [] then split_words [] cs else w # split_words [] cs)
     else split_words (w @ [c]) cs)"

fun join_words :: "string list \<Rightarrow> string" where
  "join_words [] = []"
| "join_words [w] = w"
| "join_words (w # v # ws) = w @ CHR '' '' # join_words (v # ws)"

definition squeeze :: "string \<Rightarrow> string" where
  "squeeze s = join_words (split_words [] (filter (\<lambda>c. code c \<noteq> 0) s))"

text \<open>\<open>text.find(marker)\<close>, without the -1.\<close>

fun find_text :: "string \<Rightarrow> string \<Rightarrow> nat option" where
  "find_text m [] = (if m = [] then Some 0 else None)"
| "find_text m (c # cs) = (if starts_with m (c # cs) then Some 0 else map_option Suc (find_text m cs))"

text \<open>\<open>str.splitlines\<close>: a carriage return and a line feed end one line together.\<close>

definition newline :: char where
  "newline = CHR 0x0A"

definition line_end :: "char \<Rightarrow> bool" where
  "line_end c = (let n = code c in (10 \<le> n \<and> n \<le> 13) \<or> (28 \<le> n \<and> n \<le> 30) \<or> n = 133)"

fun lines_from :: "string \<Rightarrow> string \<Rightarrow> string list" where
  "lines_from line [] = (if line = [] then [] else [line])"
| "lines_from line (c # cs) =
     (if \<not> line_end c then lines_from (line @ [c]) cs
      else if c = CHR 0x0D \<and> cs \<noteq> [] \<and> hd cs = newline then line # lines_from [] (tl cs)
      else line # lines_from [] cs)"

definition splitlines :: "string \<Rightarrow> string list" where
  "splitlines s = lines_from [] s"

text \<open>\<open>dict.fromkeys\<close> keeps the first occurrence.\<close>

definition from_keys :: "string list \<Rightarrow> string list" where
  "from_keys xs = rev (remdups (rev xs))"

text \<open>What a field of an update gives, or else the stored value.\<close>

definition given_else :: "'a option \<Rightarrow> 'a \<Rightarrow> 'a" where
  "given_else v d = (case v of None \<Rightarrow> d | Some x \<Rightarrow> x)"

definition dot :: string where
  "dot = [CHR '' '', CHR 0xB7, CHR '' '']"

text \<open>
  \<open>str.title\<close>: a letter is capitalised unless a letter precedes it. The two letters whose capital lies above the
  code points of the model are kept.
\<close>

definition is_cased :: "char \<Rightarrow> bool" where
  "is_cased c = (let n = code c in (65 \<le> n \<and> n \<le> 90) \<or> (97 \<le> n \<and> n \<le> 122) \<or> n = 170 \<or> n = 181 \<or> n = 186
     \<or> (192 \<le> n \<and> n \<noteq> 215 \<and> n \<noteq> 247))"

definition title_char :: "char \<Rightarrow> string" where
  "title_char c = (let n = code c in
     if (97 \<le> n \<and> n \<le> 122) \<or> (224 \<le> n \<and> n \<le> 254 \<and> n \<noteq> 247) then [char_of (n - 32)]
     else if n = 223 then ''Ss'' else [c])"

fun title_from :: "bool \<Rightarrow> string \<Rightarrow> string" where
  "title_from inside [] = []"
| "title_from inside (c # cs) = (if inside then [lower_char c] else title_char c) @ title_from (is_cased c) cs"

text \<open>\<open>value.replace("_", " ").title()\<close>.\<close>

definition headline_of :: "string \<Rightarrow> string" where
  "headline_of s = title_from False (map (\<lambda>c. if c = CHR ''_'' then CHR '' '' else c) s)"


section \<open>Addresses\<close>

record parsed_url =
  pu_scheme :: string
  pu_hostname :: string
  pu_port :: "int option result"
  pu_username :: string
  pu_password :: string
  pu_path :: string
  pu_params :: string
  pu_query :: string
  pu_fragment :: string

end
