(* ===== verification/Audit_Chain.thy ===== *)
theory Audit_Chain
  imports Python_Values
begin

text \<open>
  The append-only, hash-chained audit log (\<open>audit/store.py\<close>): redaction of event metadata, the
  append operation, the queries and the chain verification. SHA-256 of the UTF-8 bytes of a text is
  the parameter \<open>digest\<close>; the event id (\<open>uuid4\<close>) and the time text are arguments of the append.
  A row keeps its metadata as the value that \<open>json.loads\<close> gives back for the stored text, which is
  the redacted value with the members of every object sorted.
\<close>


section \<open>Redaction\<close>

text \<open>
  What a caller may pass as metadata. \<open>PyOther\<close> is any other object, given by its \<open>str\<close>; a
  dictionary is the list of its items in order, keys by their \<open>str\<close>.
\<close>

datatype pyval =
    PyNone
  | PyBool bool
  | PyInt int
  | PyFloat string
  | PyStr string
  | PyList "pyval list"
  | PyDict "(string \<times> pyval) list"
  | PyOther string

definition SENSITIVE_KEY_PARTS :: "string list" where
  "SENSITIVE_KEY_PARTS =
     [''authorization'', ''credential'', ''password'', ''secret'', ''token'', ''webhook_url'']"

definition sensitive_key :: "string \<Rightarrow> bool" where
  "sensitive_key key = list_ex (\<lambda>part. contains part (lower key)) SENSITIVE_KEY_PARTS"

definition REDACTED :: json where
  "REDACTED = JStr ''[REDACTED]''"

lemma size_take_snd: "(k, v) \<in> set (take n kvs) \<Longrightarrow> size v < Suc (size_list (size_prod (\<lambda>_. 0) size) kvs)"
  by (drule in_set_takeD, induction kvs) auto

lemma size_take_elem: "x \<in> set (take n xs) \<Longrightarrow> size x < Suc (size_list size xs)"
  by (drule in_set_takeD, induction xs) auto

function redact :: "pyval \<Rightarrow> string \<Rightarrow> json" where
  "redact v key = (if sensitive_key key then REDACTED else
     case v of
       PyDict items \<Rightarrow> JObj (dict_of (map (\<lambda>(k, w). (take 160 k, redact w k)) (take 100 items)))
     | PyList items \<Rightarrow> JArr (map (\<lambda>w. redact w []) (take 100 items))
     | PyStr s \<Rightarrow> JStr (take 4000 s)
     | PyNone \<Rightarrow> JNull
     | PyBool b \<Rightarrow> JBool b
     | PyInt i \<Rightarrow> JInt i
     | PyFloat t \<Rightarrow> JNum t
     | PyOther s \<Rightarrow> JStr (take 4000 s))"
  by pat_completeness auto

termination
  by (relation "measure (size \<circ> fst)") (auto dest: size_take_snd size_take_elem)

declare redact.simps [simp del]


section \<open>The log\<close>

record audit_event =
  ae_sequence :: int
  ae_id :: string
  ae_event_type :: string
  ae_action :: string
  ae_actor :: string
  ae_target_type :: string
  ae_target_id :: string
  ae_outcome :: string
  ae_summary :: string
  ae_metadata :: json
  ae_created_at :: string
  ae_previous_hash :: string
  ae_event_hash :: string

text \<open>The table and the counter that \<open>AUTOINCREMENT\<close> keeps.\<close>

record audit_db =
  ad_events :: "audit_event list"
  ad_counter :: int

text \<open>\<open>bind_audit_actor\<close>: the actor that the request context carries.\<close>

definition bind_audit_actor :: "string \<Rightarrow> string" where
  "bind_audit_actor actor = (if take 120 actor = [] then ''local-operator'' else take 120 actor)"

record audit_request =
  ar_event_type :: string
  ar_action :: string
  ar_target_type :: string
  ar_target_id :: string
  ar_outcome :: string
  ar_summary :: string
  ar_metadata :: "(string \<times> pyval) list"
  ar_actor :: string

definition empty_audit :: audit_db where
  "empty_audit = \<lparr>ad_events = [], ad_counter = 0\<rparr>"

text \<open>The dictionary that the hash of an event covers.\<close>

definition canonical :: "audit_event \<Rightarrow> json" where
  "canonical e = JObj
     [(''id'', JStr (ae_id e)), (''event_type'', JStr (ae_event_type e)),
      (''action'', JStr (ae_action e)), (''actor'', JStr (ae_actor e)),
      (''target_type'', JStr (ae_target_type e)), (''target_id'', JStr (ae_target_id e)),
      (''outcome'', JStr (ae_outcome e)), (''summary'', JStr (ae_summary e)),
      (''metadata'', ae_metadata e), (''created_at'', JStr (ae_created_at e))]"

definition hash_input :: "string \<Rightarrow> json \<Rightarrow> string" where
  "hash_input previous_hash c = previous_hash @ [CHR 0x0A] @ json_text c"

definition event_digest :: "(string \<Rightarrow> string) \<Rightarrow> string \<Rightarrow> json \<Rightarrow> string" where
  "event_digest digest previous_hash c = digest (hash_input previous_hash c)"

text \<open>\<open>SELECT event_hash ... ORDER BY sequence DESC LIMIT 1\<close>, the empty text when there is no row.\<close>

definition head_hash :: "audit_db \<Rightarrow> string" where
  "head_hash db = (case sql_order_desc ae_sequence (ad_events db) of
     [] \<Rightarrow> [] | e # _ \<Rightarrow> ae_event_hash e)"

text \<open>The row as the caller's fields make it, before it has a place in the chain.\<close>

definition draft_event :: "string \<Rightarrow> string \<Rightarrow> string \<Rightarrow> audit_request \<Rightarrow> audit_event" where
  "draft_event event_id now bound_actor r =
     \<lparr>ae_sequence = 0, ae_id = event_id,
      ae_event_type = take 120 (ar_event_type r), ae_action = take 120 (ar_action r),
      ae_actor = take 120 (if ar_actor r = [] then bound_actor else ar_actor r),
      ae_target_type = take 120 (ar_target_type r), ae_target_id = take 240 (ar_target_id r),
      ae_outcome = take 40 (ar_outcome r), ae_summary = take 1000 (ar_summary r),
      ae_metadata = redact (PyDict (ar_metadata r)) [],
      ae_created_at = now, ae_previous_hash = [], ae_event_hash = []\<rparr>"

definition record_event ::
  "(string \<Rightarrow> string) \<Rightarrow> string \<Rightarrow> string \<Rightarrow> string \<Rightarrow> audit_request \<Rightarrow> audit_db \<Rightarrow> audit_event result \<times> audit_db" where
  "record_event digest event_id now bound_actor r db =
     (let draft = draft_event event_id now bound_actor r;
          previous_hash = head_hash db;
          event_hash = event_digest digest previous_hash (canonical draft);
          row = draft\<lparr>ae_sequence := ad_counter db + 1, ae_metadata := json_norm (ae_metadata draft),
                  ae_previous_hash := previous_hash, ae_event_hash := event_hash\<rparr>
      in if list_ex (\<lambda>e. ae_id e = event_id) (ad_events db)
         then (Inl (IntegrityError ''audit_events.id''), db)
         else if list_ex (\<lambda>e. ae_event_hash e = event_hash) (ad_events db)
         then (Inl (IntegrityError ''audit_events.event_hash''), db)
         else (Inr row, \<lparr>ad_events = ad_events db @ [row], ad_counter = ad_counter db + 1\<rparr>))"

definition audit_limit :: "int \<Rightarrow> int" where
  "audit_limit n = min (max n 1) 500"

definition audit_events :: "int \<Rightarrow> string \<Rightarrow> string \<Rightarrow> audit_db \<Rightarrow> audit_event list" where
  "audit_events n event_type target_type db =
     sql_limit (audit_limit n) (sql_order_desc ae_sequence
       (filter (\<lambda>e. (event_type = [] \<or> ae_event_type e = event_type)
          \<and> (target_type = [] \<or> ae_target_type e = target_type)) (ad_events db)))"

definition events_after :: "int \<Rightarrow> int \<Rightarrow> audit_db \<Rightarrow> audit_event list" where
  "events_after cursor n db =
     sql_limit (audit_limit n) (sort_key ae_sequence
       (filter (\<lambda>e. max cursor 0 < ae_sequence e) (ad_events db)))"

definition latest_sequence :: "audit_db \<Rightarrow> int" where
  "latest_sequence db = sql_max ae_sequence (ad_events db)"

record chain_report =
  cr_valid :: bool
  cr_event_count :: nat
  cr_broken_sequence :: "int option"
  cr_head_hash :: string

fun verify_rows :: "(string \<Rightarrow> string) \<Rightarrow> nat \<Rightarrow> string \<Rightarrow> audit_event list \<Rightarrow> chain_report" where
  "verify_rows digest count previous_hash [] =
     \<lparr>cr_valid = True, cr_event_count = count, cr_broken_sequence = None, cr_head_hash = previous_hash\<rparr>"
| "verify_rows digest count previous_hash (e # es) =
     (if ae_previous_hash e \<noteq> previous_hash
        \<or> ae_event_hash e \<noteq> event_digest digest previous_hash (canonical e)
      then \<lparr>cr_valid = False, cr_event_count = count, cr_broken_sequence = Some (ae_sequence e),
            cr_head_hash = previous_hash\<rparr>
      else verify_rows digest count (ae_event_hash e) es)"

definition verify_chain :: "(string \<Rightarrow> string) \<Rightarrow> audit_db \<Rightarrow> chain_report" where
  "verify_chain digest db =
     verify_rows digest (length (ad_events db)) [] (sort_key ae_sequence (ad_events db))"


section \<open>Redaction leaves no secret and nothing oversized\<close>

fun clean :: "json \<Rightarrow> bool" where
  "clean (JObj kvs) = (length kvs \<le> 100 \<and> distinct (map fst kvs) \<and>
     list_all (\<lambda>(k, v). length k \<le> 160 \<and> (if sensitive_key k then v = REDACTED else clean v)) kvs)"
| "clean (JArr vs) = (length vs \<le> 100 \<and> list_all clean vs)"
| "clean (JStr s) = (length s \<le> 4000)"
| "clean v = True"

lemma contains_take: "contains p (take n s) \<Longrightarrow> contains p s"
proof -
  assume "contains p (take n s)"
  then obtain u v where "take n s = u @ p @ v" by (auto simp: contains_iff)
  then have "s = u @ p @ (v @ drop n s)" by (metis append.assoc append_take_drop_id)
  then show ?thesis unfolding contains_iff by blast
qed

lemma sensitive_take: "sensitive_key (take n k) \<Longrightarrow> sensitive_key k"
proof -
  have "lower (take n k) = take n (lower k)" by (simp add: lower_def take_map)
  then show "sensitive_key (take n k) \<Longrightarrow> sensitive_key k"
    by (auto simp: sensitive_key_def list_ex_iff intro: contains_take)
qed

lemma redact_sensitive: "sensitive_key key \<Longrightarrow> redact v key = REDACTED"
  by (subst redact.simps) simp

lemma redact_open:
  assumes "\<not> sensitive_key key"
  shows "redact PyNone key = JNull" "redact (PyBool b) key = JBool b" "redact (PyInt i) key = JInt i"
    "redact (PyFloat t) key = JNum t" "redact (PyStr s) key = JStr (take 4000 s)"
    "redact (PyOther s) key = JStr (take 4000 s)"
    "redact (PyList vs) key = JArr (map (\<lambda>w. redact w []) (take 100 vs))"
    "redact (PyDict items) key =
      JObj (dict_of (map (\<lambda>(k, w). (take 160 k, redact w k)) (take 100 items)))"
  by (subst redact.simps, simp add: assms)+

lemma clean_REDACTED: "clean REDACTED"
  by (simp add: REDACTED_def)

text \<open>Redaction is sound at every depth: in the redacted value no object member whose key contains a
  sensitive part (in any letter case) keeps its value, strings have at most 4000 characters, arrays and
  objects at most 100 elements, keys at most 160 characters and no key occurs twice.\<close>

theorem redact_clean: "clean (redact v key)"
proof (induction v key rule: redact.induct)
  case (1 v key)
  show ?case
  proof (cases "sensitive_key key")
    case True
    then show ?thesis by (simp add: redact_sensitive clean_REDACTED)
  next
    case False
    show ?thesis
    proof (cases v)
      case (PyDict items)
      let ?kvs = "map (\<lambda>(k, w). (take 160 k, redact w k)) (take 100 items)"
      have "length k \<le> 160 \<and> (if sensitive_key k then w = REDACTED else clean w)"
        if "(k, w) \<in> set (dict_of ?kvs)" for k w
      proof -
        from that dict_of_props(2) [of ?kvs] obtain k0 w0
          where kw: "(k0, w0) \<in> set (take 100 items)" "k = take 160 k0" "w = redact w0 k0"
          by fastforce
        moreover have "clean (redact w0 k0)" using "1.IH"(2) [OF False PyDict kw(1) refl] .
        ultimately show ?thesis by (auto intro: redact_sensitive dest: sensitive_take)
      qed
      moreover have "length (dict_of ?kvs) \<le> 100"
        using dict_of_props(3) [of ?kvs] by simp
      ultimately have "clean (JObj (dict_of ?kvs))"
        using dict_of_props(1) [of ?kvs] by (auto simp: list_all_iff)
      with False PyDict show ?thesis by (simp add: redact_open)
    next
      case (PyList items)
      have "clean (redact w [])" if "w \<in> set (take 100 items)" for w
        using "1.IH"(1) [OF False PyList that] .
      with False PyList show ?thesis by (simp add: redact_open list_all_iff)
    qed (use False in \<open>simp_all add: redact_open\<close>)
  qed
qed

text \<open>A JSON value as an argument of the next redaction.\<close>

fun py_of :: "json \<Rightarrow> pyval" where
  "py_of JNull = PyNone"
| "py_of (JBool b) = PyBool b"
| "py_of (JInt i) = PyInt i"
| "py_of (JNum t) = PyFloat t"
| "py_of (JStr s) = PyStr s"
| "py_of (JArr vs) = PyList (map py_of vs)"
| "py_of (JObj kvs) = PyDict (map (\<lambda>(k, v). (k, py_of v)) kvs)"

lemma redact_idem_clean: "clean j \<Longrightarrow> \<not> sensitive_key key \<Longrightarrow> redact (py_of j) key = j"
proof (induction j arbitrary: key)
  case (JObj kvs)
  have step: "(take 160 k, redact (py_of v) k) = (k, v)" if "(k, v) \<in> set kvs" for k v
  proof -
    from JObj.prems(1) that have "length k \<le> 160" "if sensitive_key k then v = REDACTED else clean v"
      by (auto simp: list_all_iff)
    then show ?thesis using JObj.IH [OF that, of v k] redact_sensitive by (auto split: if_splits)
  qed
  have "map (\<lambda>(k, w). (take 160 k, redact w k)) (take 100 (map (\<lambda>(k, v). (k, py_of v)) kvs)) = kvs"
    using JObj.prems(1) step by (auto simp: comp_def case_prod_beta intro!: map_idI)
  with JObj.prems show ?case by (simp add: redact_open dict_of_id)
next
  case (JArr vs)
  have "\<not> sensitive_key []" by code_simp
  then have "map (\<lambda>w. redact w []) (take 100 (map py_of vs)) = vs"
    using JArr by (auto simp: list_all_iff intro!: map_idI)
  with JArr.prems show ?case by (simp add: redact_open)
qed (simp_all add: redact_open)

text \<open>Redacting metadata that was already redacted changes nothing, so a record that is read back and
  recorded again keeps its contents.\<close>

theorem redact_idempotent: "redact (py_of (redact v [])) [] = redact v []"
proof -
  have "\<not> sensitive_key []" by code_simp
  then show ?thesis using redact_idem_clean redact_clean by blast
qed

lemma redact_canonical_dict: "\<exists>kvs. redact (PyDict items) [] = JObj kvs \<and> distinct (map fst kvs)"
proof -
  have "\<not> sensitive_key []" by code_simp
  then show ?thesis using dict_of_props(1) by (simp add: redact_open)
qed


section \<open>The log as an ordered source of events\<close>

definition audit_wf :: "audit_db \<Rightarrow> bool" where
  "audit_wf db = (sorted_wrt (\<lambda>a b. ae_sequence a < ae_sequence b) (ad_events db)
     \<and> (\<forall>e \<in> set (ad_events db). 1 \<le> ae_sequence e \<and> ae_sequence e \<le> ad_counter db)
     \<and> 0 \<le> ad_counter db)"

lemma audit_limit_pos: "1 \<le> audit_limit n \<and> audit_limit n \<le> 500"
  by (simp add: audit_limit_def)

interpretation audit_log: event_source audit_wf ad_events ae_sequence events_after
proof
  fix db :: audit_db and c k :: int
  assume wf: "audit_wf db"
  then show ord: "sorted_wrt (\<lambda>a b. ae_sequence a < ae_sequence b) (ad_events db)"
    by (simp add: audit_wf_def)
  assume "0 \<le> c"
  then have "events_after c k db = take (nat (audit_limit k)) (filter (\<lambda>e. c < ae_sequence e) (ad_events db))"
    using ord audit_limit_pos [of k]
    by (simp add: events_after_def sql_limit_def sort_key_increasing sorted_wrt_filter max_absorb1)
  moreover have "nat (audit_limit k) = Suc (nat (audit_limit k) - 1)" by (simp add: audit_limit_def)
  ultimately show "\<exists>n. events_after c k db = take (Suc n) (filter (\<lambda>e. c < ae_sequence e) (ad_events db))"
    by metis
qed

lemma head_hash_last:
  "audit_wf db \<Longrightarrow> head_hash db = (if ad_events db = [] then [] else ae_event_hash (last (ad_events db)))"
  using audit_log.ordered [of db]
  by (auto simp: head_hash_def sql_order_desc_rev rev_eq_Cons_iff split: list.split)

lemma latest_sequence_last:
  "audit_wf db \<Longrightarrow> latest_sequence db = (if ad_events db = [] then 0 else ae_sequence (last (ad_events db)))"
  using audit_log.ordered [of db] by (simp add: latest_sequence_def sql_max_increasing)

lemma latest_sequence_le: "audit_wf db \<Longrightarrow> 0 \<le> latest_sequence db \<and> latest_sequence db \<le> ad_counter db"
  using last_in_set [of "ad_events db"] by (fastforce simp: latest_sequence_last audit_wf_def)

lemma events_le_latest: "audit_wf db \<Longrightarrow> e \<in> set (ad_events db) \<Longrightarrow> ae_sequence e \<le> latest_sequence db"
  by (auto simp: latest_sequence_def sql_max_def)

lemma audit_wf_empty: "audit_wf empty_audit"
  by (simp add: audit_wf_def empty_audit_def)


section \<open>The chain\<close>

lemma verify_rows_append:
  "verify_rows digest n p (xs @ ys) =
    (if cr_valid (verify_rows digest n p xs)
     then verify_rows digest n (cr_head_hash (verify_rows digest n p xs)) ys
     else verify_rows digest n p xs)"
  by (induction xs arbitrary: p) auto

lemma verify_rows_count: "cr_event_count (verify_rows digest n p xs) = n"
  by (induction xs arbitrary: p) auto

lemma verify_rows_valid_count: "cr_valid (verify_rows digest n p xs) = cr_valid (verify_rows digest m p xs)
    \<and> cr_head_hash (verify_rows digest n p xs) = cr_head_hash (verify_rows digest m p xs)"
  by (induction xs arbitrary: p) auto

lemma verify_rows_head:
  "cr_valid (verify_rows digest n p xs) \<Longrightarrow>
    cr_head_hash (verify_rows digest n p xs) = (if xs = [] then p else ae_event_hash (last xs))"
  by (induction xs arbitrary: p) (auto split: if_splits)

lemma verify_chain_wf:
  "audit_wf db \<Longrightarrow> verify_chain digest db = verify_rows digest (length (ad_events db)) [] (ad_events db)"
  using audit_log.ordered [of db] by (simp add: verify_chain_def sort_key_increasing)

lemma verify_chain_head:
  "audit_wf db \<Longrightarrow> cr_valid (verify_chain digest db) \<Longrightarrow> cr_head_hash (verify_chain digest db) = head_hash db"
  by (simp add: verify_chain_wf head_hash_last verify_rows_head)

text \<open>Storing the metadata with sorted members does not change the text that the hash covers.\<close>

lemma json_norm_member:
  "json_norm (JObj (pre @ (k, json_norm v) # post)) = json_norm (JObj (pre @ (k, v) # post))"
  by (simp add: json_norm_idem)

lemma canonical_stored: "json_text (canonical (e\<lparr>ae_metadata := json_norm (ae_metadata e)\<rparr>)) = json_text (canonical e)"
  by (simp add: json_text_def canonical_def json_norm_idem)

lemma canonical_place:
  "canonical (e\<lparr>ae_sequence := s, ae_previous_hash := p, ae_event_hash := h\<rparr>) = canonical e"
  by (simp add: canonical_def)

lemma record_event_cases:
  assumes "record_event digest event_id now bound r db = (res, db')"
  obtains (refused) err where "res = Inl err" "db' = db"
  | (appended) e where "res = Inr e" "db' = \<lparr>ad_events = ad_events db @ [e], ad_counter = ad_counter db + 1\<rparr>"
      "ae_sequence e = ad_counter db + 1" "ae_previous_hash e = head_hash db"
      "ae_event_hash e = event_digest digest (head_hash db) (canonical e)"
      "json_text (canonical e) = json_text (canonical (draft_event event_id now bound r))"
proof -
  let ?d = "draft_event event_id now bound r"
  let ?m = "?d\<lparr>ae_metadata := json_norm (ae_metadata ?d)\<rparr>"
  let ?e = "?d\<lparr>ae_sequence := ad_counter db + 1, ae_metadata := json_norm (ae_metadata ?d),
      ae_previous_hash := head_hash db, ae_event_hash := event_digest digest (head_hash db) (canonical ?d)\<rparr>"
  have "canonical ?e = canonical ?m" by (simp add: canonical_def)
  then have same: "json_text (canonical ?e) = json_text (canonical ?d)"
    using canonical_stored [of ?d] by simp
  show thesis
  proof (cases "list_ex (\<lambda>e. ae_id e = event_id) (ad_events db) \<or>
      list_ex (\<lambda>e. ae_event_hash e = ae_event_hash ?e) (ad_events db)")
    case True
    with assms refused show thesis by (auto simp: record_event_def Let_def split: if_splits)
  next
    case False
    with assms have "res = Inr ?e" "db' = \<lparr>ad_events = ad_events db @ [?e], ad_counter = ad_counter db + 1\<rparr>"
      by (auto simp: record_event_def Let_def)
    then show thesis by (rule appended) (use same in \<open>simp_all add: event_digest_def hash_input_def\<close>)
  qed
qed

lemma record_event_wf: "audit_wf db \<Longrightarrow> audit_wf (snd (record_event digest event_id now bound r db))"
proof -
  assume wf: "audit_wf db"
  obtain res db' where rec: "record_event digest event_id now bound r db = (res, db')" by fastforce
  then show ?thesis
    using wf rec by (auto simp: audit_wf_def sorted_wrt_append elim!: record_event_cases) fastforce+
qed

lemma appended_valid:
  assumes "audit_wf db" "cr_valid (verify_chain digest db)"
    "record_event digest event_id now bound r db = (Inr e, db')"
  shows "cr_valid (verify_chain digest db') \<and> cr_event_count (verify_chain digest db') = Suc (length (ad_events db))
    \<and> cr_head_hash (verify_chain digest db') = ae_event_hash e"
proof -
  have wf: "audit_wf db'" using record_event_wf [OF assms(1), of digest event_id now bound r] assms(3) by simp
  from assms(3) show ?thesis
  proof (cases rule: record_event_cases)
    case (appended e')
    let ?n = "Suc (length (ad_events db))"
    have v: "cr_valid (verify_rows digest ?n [] (ad_events db))"
      using assms(2) verify_rows_valid_count unfolding verify_chain_wf [OF assms(1)] by blast
    moreover have "cr_head_hash (verify_rows digest ?n [] (ad_events db)) = head_hash db"
      using verify_rows_head [OF v] by (simp add: head_hash_last [OF assms(1)])
    ultimately show ?thesis
      using appended unfolding verify_chain_wf [OF wf] by (simp add: verify_rows_append)
  qed auto
qed

text \<open>An append that succeeds keeps a valid chain valid, its event is the new head and the new latest
  sequence, later than every earlier one, and the first page after the old latest sequence is exactly
  that event.\<close>

theorem record_extends_chain:
  assumes "audit_wf db" "cr_valid (verify_chain digest db)"
    "record_event digest event_id now bound r db = (Inr e, db')"
  shows "cr_valid (verify_chain digest db') \<and> cr_head_hash (verify_chain digest db') = ae_event_hash e \<and>
    latest_sequence db < ae_sequence e \<and> latest_sequence db' = ae_sequence e \<and>
    events_after (latest_sequence db) 1 db' = [e]"
proof -
  have wf: "audit_wf db'" using record_event_wf [OF assms(1), of digest event_id now bound r] assms(3) by simp
  have e: "db' = \<lparr>ad_events = ad_events db @ [e], ad_counter = ad_counter db + 1\<rparr>"
    "ae_sequence e = ad_counter db + 1"
    using assms(3) by (auto elim: record_event_cases)
  have seq: "latest_sequence db < ae_sequence e" using e(2) latest_sequence_le [OF assms(1)] by simp
  have "filter (\<lambda>x. latest_sequence db < ae_sequence x) (ad_events db') = [e]"
    using e seq events_le_latest [OF assms(1)] by (auto simp: filter_empty_conv not_less)
  then have "events_after (latest_sequence db) 1 db' = [e]"
    using latest_sequence_le [OF assms(1)]
    by (simp add: events_after_def sql_limit_def audit_limit_def max_absorb1)
  moreover have "latest_sequence db' = ae_sequence e"
    using latest_sequence_last [OF wf] e(1) by simp
  ultimately show ?thesis using appended_valid [OF assms] seq by blast
qed


definition sample_request :: audit_request where
  "sample_request = \<lparr>ar_event_type = ''auth.login'', ar_action = ''login'', ar_target_type = ''user'',
     ar_target_id = ''u1'', ar_outcome = ''success'', ar_summary = [],
     ar_metadata = [(''client_secret'', PyStr ''x''), (''tries'', PyInt 1)], ar_actor = []\<rparr>"

lemma record_extends_chain_witness:
  "cr_valid (verify_chain (\<lambda>t. t) (snd (record_event (\<lambda>t. t) ''e1'' ''now'' ''op'' sample_request empty_audit)))
    \<and> latest_sequence (snd (record_event (\<lambda>t. t) ''e1'' ''now'' ''op'' sample_request empty_audit)) = 1"
proof -
  let ?r = "record_event (\<lambda>t. t) ''e1'' ''now'' ''op'' sample_request empty_audit"
  have valid: "cr_valid (verify_chain (\<lambda>t. t) empty_audit)"
    by (simp add: verify_chain_def empty_audit_def)
  have ok: "is_ok (fst ?r)" by (simp add: record_event_def Let_def empty_audit_def)
  then obtain e where e: "fst ?r = Inr e" unfolding is_ok_iff by blast
  then have rec: "?r = (Inr e, snd ?r)" by (metis prod.collapse)
  from record_extends_chain [OF audit_wf_empty valid rec]
  show ?thesis using rec by (auto simp: record_event_def Let_def empty_audit_def)
qed

subsection \<open>Every reachable log verifies\<close>

type_synonym audit_op = "string \<times> string \<times> string \<times> audit_request"

fun audit_step :: "(string \<Rightarrow> string) \<Rightarrow> audit_op \<Rightarrow> audit_db \<Rightarrow> audit_db" where
  "audit_step digest (event_id, now, bound_actor, r) db =
     snd (record_event digest event_id now bound_actor r db)"

definition audit_inv :: "(string \<Rightarrow> string) \<Rightarrow> audit_db \<Rightarrow> bool" where
  "audit_inv digest db = (audit_wf db \<and> cr_valid (verify_chain digest db))"

interpretation audit_machine: invariant_machine "audit_step digest" "audit_inv digest" for digest
proof
  fix db and op :: audit_op
  assume inv: "audit_inv digest db"
  obtain i n b r where op: "op = (i, n, b, r)" by (cases op)
  obtain res db' where rec: "record_event digest i n b r db = (res, db')" by fastforce
  from rec have "cr_valid (verify_chain digest db')"
  proof (cases rule: record_event_cases)
    case refused
    then show ?thesis using inv by (simp add: audit_inv_def)
  next
    case (appended e)
    with rec have "record_event digest i n b r db = (Inr e, db')" by simp
    from appended_valid [OF _ _ this] show ?thesis using inv by (simp add: audit_inv_def)
  qed
  then show "audit_inv digest (audit_step digest op db)"
    using inv record_event_wf [of db digest i n b r] rec op by (simp add: audit_inv_def)
qed

lemma audit_inv_run: "audit_inv digest (run_ops (audit_step digest) empty_audit ops)"
  by (rule audit_machine.inv_run)
    (simp add: audit_inv_def audit_wf_empty verify_chain_def, simp add: empty_audit_def)

text \<open>C7. After any history of appends - refused ones included, for any digest, ids, times, actors and
  metadata - the rows are strictly ordered and the chain verifies.\<close>

theorem reachable_log_verifies:
  "audit_wf (run_ops (audit_step digest) empty_audit ops) \<and>
   cr_valid (verify_chain digest (run_ops (audit_step digest) empty_audit ops))"
  using audit_inv_run [of digest ops] by (simp add: audit_inv_def)

text \<open>What the chain cannot detect: the log without any number of its last events still verifies, so
  only an exported head or count can reveal a truncation.\<close>

theorem truncated_log_verifies:
  assumes "audit_wf db" "cr_valid (verify_chain digest db)"
  shows "cr_valid (verify_chain digest (db\<lparr>ad_events := take n (ad_events db)\<rparr>))"
proof -
  have wf: "audit_wf (db\<lparr>ad_events := take n (ad_events db)\<rparr>)"
    using assms(1) by (auto simp: audit_wf_def sorted_wrt_take dest: in_set_takeD)
  have "cr_valid (verify_rows digest m [] (take n (ad_events db) @ drop n (ad_events db)))" for m
    using assms(2) verify_rows_valid_count unfolding verify_chain_wf [OF assms(1)]
    by (metis append_take_drop_id)
  then have "cr_valid (verify_rows digest m [] (take n (ad_events db)))" for m
    unfolding verify_rows_append by (metis (full_types))
  then show ?thesis by (simp add: verify_chain_wf [OF wf])
qed

definition sample_log :: audit_db where
  "sample_log = run_ops (audit_step (\<lambda>t. t)) empty_audit
     [(''e1'', ''now'', ''op'', sample_request), (''e2'', ''now'', ''op'', sample_request)]"

text \<open>The texts that the chain of a log feeds to the digest.\<close>

fun hash_inputs :: "string \<Rightarrow> audit_event list \<Rightarrow> string list" where
  "hash_inputs p [] = []"
| "hash_inputs p (e # es) = hash_input p (canonical e) # hash_inputs (ae_event_hash e) es"

lemma hash_inputs_append:
  "hash_inputs p (xs @ [e]) = hash_inputs p xs @
    [hash_input (if xs = [] then p else ae_event_hash (last xs)) (canonical e)]"
  by (induction xs arbitrary: p) auto

lemma hash_input_split:
  assumes "CHR 0x0A \<notin> set p" "CHR 0x0A \<notin> set q" "hash_input p c = hash_input q d"
  shows "p = q \<and> json_text c = json_text d"
proof -
  have "takeWhile (\<lambda>x. x \<noteq> CHR 0x0A) (hash_input p c) = p" if "CHR 0x0A \<notin> set p" for p c
    using that by (subst hash_input_def, subst takeWhile_append2) auto
  then have "p = q" using assms by metis
  with assms(3) show ?thesis by (simp add: hash_input_def)
qed

lemma valid_hash_digest:
  assumes "cr_valid (verify_rows digest n p xs)" "xs \<noteq> []"
  shows "\<exists>x. ae_event_hash (last xs) = digest x"
  using assms
  by (induction xs arbitrary: p) (auto simp: event_digest_def split: if_splits)

lemma rows_determined:
  assumes nl: "\<forall>x. CHR 0x0A \<notin> set (digest x)"
    and free: "length xs = length ys"
      "cr_valid (verify_rows digest n [] xs)" "cr_valid (verify_rows digest n [] ys)"
      "cr_head_hash (verify_rows digest n [] xs) = cr_head_hash (verify_rows digest n [] ys)"
      "\<forall>x \<in> set (hash_inputs [] xs). \<forall>y \<in> set (hash_inputs [] ys). digest x = digest y \<longrightarrow> x = y"
  shows "map (\<lambda>e. json_text (canonical e)) xs = map (\<lambda>e. json_text (canonical e)) ys"
  using free
proof (induction xs arbitrary: ys rule: rev_induct)
  case (snoc e xs)
  from snoc.prems(1) obtain ys0 d where ys: "ys = ys0 @ [d]" by (cases ys rule: rev_cases) auto
  have vx: "cr_valid (verify_rows digest n [] xs)" and vy: "cr_valid (verify_rows digest n [] ys0)"
    using snoc.prems(2,3) unfolding ys verify_rows_append by (auto split: if_splits)
  let ?p = "if xs = [] then [] else ae_event_hash (last xs)"
  let ?q = "if ys0 = [] then [] else ae_event_hash (last ys0)"
  have hx: "ae_event_hash e = digest (hash_input ?p (canonical e))"
    and hy: "ae_event_hash d = digest (hash_input ?q (canonical d))"
    using snoc.prems(2,3) vx vy unfolding ys verify_rows_append verify_rows_head [OF vx] verify_rows_head [OF vy]
    by (auto simp: event_digest_def split: if_splits)
  have "ae_event_hash e = ae_event_hash d"
    using snoc.prems(4) unfolding verify_rows_head [OF snoc.prems(2)] verify_rows_head [OF snoc.prems(3)]
    by (simp add: ys)
  then have "digest (hash_input ?p (canonical e)) = digest (hash_input ?q (canonical d))"
    using hx hy by simp
  then have same: "hash_input ?p (canonical e) = hash_input ?q (canonical d)"
    using snoc.prems(5) unfolding ys hash_inputs_append by auto
  have np: "CHR 0x0A \<notin> set ?p" "CHR 0x0A \<notin> set ?q"
    using valid_hash_digest [OF vx] valid_hash_digest [OF vy] nl by (metis empty_iff empty_set)+
  have pq: "?p = ?q" "json_text (canonical e) = json_text (canonical d)"
    using hash_input_split [OF np same] by auto
  have "map (\<lambda>e. json_text (canonical e)) xs = map (\<lambda>e. json_text (canonical e)) ys0"
  proof (rule snoc.IH [OF _ vx vy])
    show "length xs = length ys0" using snoc.prems(1) ys by simp
    show "cr_head_hash (verify_rows digest n [] xs) = cr_head_hash (verify_rows digest n [] ys0)"
      unfolding verify_rows_head [OF vx] verify_rows_head [OF vy] by (rule pq)
    show "\<forall>x \<in> set (hash_inputs [] xs). \<forall>y \<in> set (hash_inputs [] ys0). digest x = digest y \<longrightarrow> x = y"
      using snoc.prems(5) unfolding ys hash_inputs_append by auto
  qed
  with pq ys show ?case by simp
qed simp

text \<open>C6. Tamper evidence: two logs that both verify with the same event count and the same head hash have the
  same contents, event by event, unless the digest collides on two of the texts it was fed. The digest
  contains no line break, as a hex digest does not.\<close>

theorem tampering_needs_collision:
  assumes "\<forall>x. CHR 0x0A \<notin> set (digest x)"
    and "audit_wf a" "audit_wf b" "cr_valid (verify_chain digest a)" "cr_valid (verify_chain digest b)"
    and "cr_event_count (verify_chain digest a) = cr_event_count (verify_chain digest b)"
    and "cr_head_hash (verify_chain digest a) = cr_head_hash (verify_chain digest b)"
    and "\<forall>x \<in> set (hash_inputs [] (ad_events a)). \<forall>y \<in> set (hash_inputs [] (ad_events b)).
      digest x = digest y \<longrightarrow> x = y"
    and "\<forall>e \<in> set (ad_events a) \<union> set (ad_events b). json_wf (ae_metadata e)"
  shows "map (\<lambda>e. json_norm (canonical e)) (ad_events a) = map (\<lambda>e. json_norm (canonical e)) (ad_events b)"
proof -
  note v = assms(4,5,6,7) [unfolded verify_chain_wf [OF assms(2)] verify_chain_wf [OF assms(3)] verify_rows_count]
  from v have len: "length (ad_events a) = length (ad_events b)" by simp
  have "map (\<lambda>e. json_text (canonical e)) (ad_events a) = map (\<lambda>e. json_text (canonical e)) (ad_events b)"
    using rows_determined [OF assms(1) len] v assms(8) by (simp add: len)
  moreover have "json_wf (canonical e)" if "e \<in> set (ad_events a) \<union> set (ad_events b)" for e
    using assms(9) that by (simp add: canonical_def)
  ultimately have "json_norm (canonical (ad_events a ! i)) = json_norm (canonical (ad_events b ! i))"
    if "i < length (ad_events a)" for i
    using that len json_text_inj by (metis (no_types, lifting) Un_iff nth_map nth_mem)
  with len show ?thesis by (intro nth_equalityI) auto
qed


definition relabelled_log :: "int \<Rightarrow> audit_db" where
  "relabelled_log n = (let e = draft_event ''e1'' ''now'' ''op'' sample_request in
     \<lparr>ad_events = [e\<lparr>ae_sequence := n, ae_event_hash := ''h''\<rparr>], ad_counter = n\<rparr>)"

lemma tampering_needs_collision_witness:
  "relabelled_log 1 \<noteq> relabelled_log 7 \<and>
    map (\<lambda>e. json_norm (canonical e)) (ad_events (relabelled_log 1)) =
    map (\<lambda>e. json_norm (canonical e)) (ad_events (relabelled_log 7))"
proof
  let ?h = "\<lambda>_. ''h''"
  have one: "audit_wf (relabelled_log n) \<and> verify_chain ?h (relabelled_log n) =
      \<lparr>cr_valid = True, cr_event_count = 1, cr_broken_sequence = None, cr_head_hash = ''h''\<rparr>" if "1 \<le> n" for n
    using that by (simp add: relabelled_log_def audit_wf_def verify_chain_def event_digest_def draft_event_def)
  have same: "hash_inputs [] (ad_events (relabelled_log n)) =
      [hash_input [] (canonical (draft_event ''e1'' ''now'' ''op'' sample_request))]" for n
    by (simp add: relabelled_log_def canonical_def)
  have "json_wf (ae_metadata (draft_event ''e1'' ''now'' ''op'' sample_request))" by code_simp
  then show "map (\<lambda>e. json_norm (canonical e)) (ad_events (relabelled_log 1)) =
      map (\<lambda>e. json_norm (canonical e)) (ad_events (relabelled_log 7))"
    using one [of 1] one [of 7]
    by (intro tampering_needs_collision [of ?h]) (simp_all only: same, simp_all add: relabelled_log_def)
qed (simp add: relabelled_log_def)

end
