(* ===== verification/Workload_Store.thy ===== *)
theory Workload_Store
  imports Prelude
begin

text \<open>
  The durable workload policy and admission history (\<open>workload/store.py\<close>): one policy row, and the
  events of the calls, pruned to the newest 5000. The event id (\<open>uuid4\<close>) and the time are arguments.
  The read-back conversions of \<open>policy\<close> and \<open>recent\<close> are the row itself.
\<close>


section \<open>Rows\<close>

datatype workload_mode = Audit | Enforce

record workload_policy =
  wp_mode :: workload_mode
  wp_max_concurrent_calls :: int
  wp_max_concurrent_queries :: int
  wp_queue_timeout_seconds :: int
  wp_max_query_risk_score :: int
  wp_max_query_cost_units :: int
  wp_daily_query_cost_units :: int
  wp_generation :: int
  wp_updated_at :: instant

datatype lane = QueryLane | MetadataLane

datatype decision = Allow | AuditWarning | Block

datatype workload_status =
  WQueued | WRunning | WComplete | WError | WCancelled | WBlocked | WInterrupted

record workload_event =
  we_id :: string
  we_instance_id :: string
  we_operation :: string
  we_logical_name :: string
  we_lane :: lane
  we_query_fingerprint :: string
  we_risk :: string
  we_risk_score :: int
  we_cost_units :: int
  we_decision :: decision
  we_status :: workload_status
  we_reasons :: "string list"
  we_wait_ms :: int
  we_duration_ms :: int
  we_policy_generation :: int
  we_created_at :: instant
  we_started_at :: "instant option"
  we_completed_at :: "instant option"
  we_error :: string

record workload_db =
  wd_policy :: workload_policy
  wd_events :: "workload_event list"


section \<open>Operations\<close>

text \<open>The default policy that \<open>_initialize\<close> inserts into a new database.\<close>

definition initial_workload :: "instant \<Rightarrow> workload_db" where
  "initial_workload now = \<lparr>wd_policy =
     \<lparr>wp_mode = Audit, wp_max_concurrent_calls = 6, wp_max_concurrent_queries = 2,
      wp_queue_timeout_seconds = 60, wp_max_query_risk_score = 70, wp_max_query_cost_units = 90,
      wp_daily_query_cost_units = 1000, wp_generation = 1, wp_updated_at = now\<rparr>, wd_events = []\<rparr>"

definition interrupt_event :: "instant \<Rightarrow> workload_event \<Rightarrow> workload_event" where
  "interrupt_event now e = e\<lparr>we_status := WInterrupted, we_completed_at := Some now,
     we_error := ''SignalRoom restarted while this admission was active.''\<rparr>"

definition recover_interrupted_events :: "instant \<Rightarrow> workload_db \<Rightarrow> nat \<times> workload_db" where
  "recover_interrupted_events now db =
     (let live = (\<lambda>e. we_status e = WQueued \<or> we_status e = WRunning) in
      (sql_count live (wd_events db),
       db\<lparr>wd_events := sql_update live (interrupt_event now) (wd_events db)\<rparr>))"

definition open_workload :: "instant \<Rightarrow> workload_db option \<Rightarrow> workload_db" where
  "open_workload now stored = snd (recover_interrupted_events now
     (case stored of None \<Rightarrow> initial_workload now | Some db \<Rightarrow> db))"

text \<open>The new policy takes every limit of the request, whose own generation and time are not read.\<close>

definition update_workload_policy :: "instant \<Rightarrow> workload_policy \<Rightarrow> workload_db \<Rightarrow> workload_db" where
  "update_workload_policy now value db =
     db\<lparr>wd_policy := value\<lparr>wp_generation := wp_generation (wd_policy db) + 1, wp_updated_at := now\<rparr>\<rparr>"

definition event_retention :: nat where
  "event_retention = 5000"

definition prune_events :: "workload_event list \<Rightarrow> workload_event list" where
  "prune_events events =
     (let old = map we_id (drop event_retention (sql_order_desc we_created_at events))
      in sql_delete (\<lambda>e. List.member old (we_id e)) events)"

text \<open>The insert sets the fields that a new event does not choose; a used id violates the key.\<close>

definition create_event :: "instant \<Rightarrow> workload_event \<Rightarrow> workload_db \<Rightarrow> workload_db result" where
  "create_event now e db =
     (let row = e\<lparr>we_operation := take 160 (we_operation e), we_logical_name := take 160 (we_logical_name e),
        we_wait_ms := 0, we_duration_ms := 0, we_created_at := now, we_started_at := None,
        we_completed_at := None, we_error := []\<rparr>
      in if list_ex (\<lambda>x. we_id x = we_id e) (wd_events db)
         then Inl (IntegrityError ''workload_events.id'')
         else Inr (db\<lparr>wd_events := prune_events (wd_events db @ [row])\<rparr>))"

definition coalesce :: "'a option \<Rightarrow> 'a option \<Rightarrow> 'a option" where
  "coalesce a b = (case a of None \<Rightarrow> b | Some _ \<Rightarrow> a)"

definition update_event ::
  "instant \<Rightarrow> string \<Rightarrow> workload_status \<Rightarrow> int \<Rightarrow> int \<Rightarrow> string \<Rightarrow> workload_db \<Rightarrow> workload_db" where
  "update_event now event_id status wait_ms duration_ms err db =
     (let started_at = (if status = WRunning then Some now else None);
          completed_at = (if status \<in> {WComplete, WError, WCancelled, WBlocked} then Some now else None)
      in db\<lparr>wd_events := sql_update (\<lambda>e. we_id e = event_id)
           (\<lambda>e. e\<lparr>we_status := status, we_wait_ms := max 0 wait_ms, we_duration_ms := max 0 duration_ms,
              we_error := take 1000 err, we_started_at := coalesce (we_started_at e) started_at,
              we_completed_at := coalesce completed_at (we_completed_at e)\<rparr>)
           (wd_events db)\<rparr>)"

definition counted :: "string \<Rightarrow> int \<Rightarrow> workload_event \<Rightarrow> bool" where
  "counted instance_id day e = (we_instance_id e = instance_id \<and> we_lane e = QueryLane
     \<and> utc_day (we_created_at e) = day \<and> we_status e \<in> {WComplete, WError, WInterrupted})"

definition daily_usage :: "instant \<Rightarrow> string \<Rightarrow> workload_db \<Rightarrow> int" where
  "daily_usage now instance_id db =
     sum_list (map we_cost_units (filter (counted instance_id (utc_day now)) (wd_events db)))"

definition recent_events :: "int \<Rightarrow> workload_db \<Rightarrow> workload_event list" where
  "recent_events n db = sql_limit (max 1 (min n 200)) (sql_order_desc we_created_at (wd_events db))"


section \<open>The invariant of the store\<close>

definition workload_wf :: "workload_db \<Rightarrow> bool" where
  "workload_wf db = (distinct (map we_id (wd_events db)) \<and> length (wd_events db) \<le> event_retention)"

lemma prune_keeps:
  assumes "distinct (map we_id events)"
  shows "set (prune_events events) = set (take event_retention (sql_order_desc we_created_at events))"
proof -
  let ?o = "sql_order_desc we_created_at events"
  have d: "distinct (map we_id ?o)" using assms by (rule distinct_sql_order_desc)
  then have dis: "set (map we_id (take event_retention ?o)) \<inter> set (map we_id (drop event_retention ?o)) = {}"
    by (metis append_take_drop_id distinct_append map_append)
  have all: "set events = set (take event_retention ?o) \<union> set (drop event_retention ?o)"
    by (metis append_take_drop_id set_append set_sql_order_desc)
  show ?thesis
    unfolding prune_events_def Let_def sql_delete_def set_filter all
    using dis by (auto simp: List.member_iff)
qed

lemma prune_props:
  assumes "distinct (map we_id events)"
  shows "distinct (map we_id (prune_events events))" "length (prune_events events) \<le> event_retention"
    "set (prune_events events) \<subseteq> set events"
proof -
  show "distinct (map we_id (prune_events events))"
    unfolding prune_events_def Let_def by (rule distinct_sql_delete [OF assms])
  then have "length (prune_events events) = card (set (prune_events events))"
    by (metis distinct_card distinct_map)
  also have "\<dots> \<le> length (take event_retention (sql_order_desc we_created_at events))"
    unfolding prune_keeps [OF assms] by (rule card_length)
  finally show "length (prune_events events) \<le> event_retention" by simp
  show "set (prune_events events) \<subseteq> set events"
    by (auto simp: prune_events_def Let_def sql_delete_def)
qed

lemma prune_short: "length events \<le> event_retention \<Longrightarrow> prune_events events = events"
  by (simp add: prune_events_def sql_delete_def length_sql_order_desc List.member_iff)

text \<open>An event is only ever pruned for events that are at least as new.\<close>

lemma prune_newest:
  assumes "distinct (map we_id events)" "e \<in> set events" "e \<notin> set (prune_events events)"
  shows "\<forall>k \<in> set (prune_events events). we_created_at e \<le> we_created_at k"
proof
  fix k assume k: "k \<in> set (prune_events events)"
  let ?o = "sql_order_desc we_created_at events"
  have "e \<in> set (drop event_retention ?o)"
    using assms by (metis UnE append_take_drop_id prune_keeps set_append set_sql_order_desc)
  moreover have "k \<in> set (take event_retention ?o)" using k prune_keeps [OF assms(1)] by simp
  moreover have "sorted (map (\<lambda>r. - we_created_at r) (take event_retention ?o @ drop event_retention ?o))"
    by (simp add: sql_order_desc_def)
  ultimately show "we_created_at e \<le> we_created_at k"
    unfolding map_append sorted_append by fastforce
qed

datatype workload_op =
    CreateEvent instant workload_event
  | UpdateEvent instant string workload_status int int string
  | SetPolicy instant workload_policy
  | Reopen instant

fun workload_step :: "workload_op \<Rightarrow> workload_db \<Rightarrow> workload_db" where
  "workload_step (CreateEvent now e) db = (case create_event now e db of Inl _ \<Rightarrow> db | Inr db' \<Rightarrow> db')"
| "workload_step (UpdateEvent now i st w d err) db = update_event now i st w d err db"
| "workload_step (SetPolicy now p) db = update_workload_policy now p db"
| "workload_step (Reopen now) db = open_workload now (Some db)"

lemma workload_step_wf: "workload_wf db \<Longrightarrow> workload_wf (workload_step op db)"
proof (cases op)
  case (CreateEvent now e)
  assume wf: "workload_wf db"
  let ?row = "e\<lparr>we_operation := take 160 (we_operation e), we_logical_name := take 160 (we_logical_name e),
        we_wait_ms := 0, we_duration_ms := 0, we_created_at := now, we_started_at := None,
        we_completed_at := None, we_error := []\<rparr>"
  show ?thesis
  proof (cases "list_ex (\<lambda>x. we_id x = we_id e) (wd_events db)")
    case False
    then have "distinct (map we_id (wd_events db @ [?row]))"
      using wf by (auto simp: workload_wf_def list_ex_iff)
    from prune_props(1,2) [OF this] show ?thesis
      using CreateEvent False by (simp add: create_event_def Let_def workload_wf_def)
  qed (use CreateEvent wf in \<open>simp add: create_event_def Let_def\<close>)
qed (auto simp: workload_wf_def update_event_def update_workload_policy_def open_workload_def
    recover_interrupted_events_def interrupt_event_def Let_def sql_simps)

interpretation workload_machine: invariant_machine workload_step workload_wf
  by unfold_locales (rule workload_step_wf)

text \<open>After any history of the store's operations the event ids are distinct and at most 5000
  events are kept.\<close>

theorem workload_history_bounded:
  "workload_wf (run_ops workload_step (initial_workload now) ops)"
  by (rule workload_machine.inv_run) (simp add: workload_wf_def initial_workload_def)

text \<open>After a restart no event is live any more: every queued or running event became
  interrupted, every other event is unchanged, and the reported number is the number of live events.\<close>

theorem reopen_interrupts_live_events:
  "filter (\<lambda>e. we_status e = WQueued \<or> we_status e = WRunning) (wd_events (open_workload now (Some db))) = [] \<and>
   filter (\<lambda>e. we_status e \<noteq> WInterrupted) (wd_events (open_workload now (Some db))) =
     filter (\<lambda>e. we_status e \<notin> {WQueued, WRunning, WInterrupted}) (wd_events db) \<and>
   fst (recover_interrupted_events now db) =
     length (filter (\<lambda>e. we_status e = WQueued \<or> we_status e = WRunning) (wd_events db))"
proof -
  have "filter (\<lambda>e. we_status e \<noteq> WInterrupted)
      (sql_update (\<lambda>e. we_status e = WQueued \<or> we_status e = WRunning) (interrupt_event now) es) =
      filter (\<lambda>e. we_status e \<notin> {WQueued, WRunning, WInterrupted}) es" for es
    by (induction es) (auto simp: sql_update_def interrupt_event_def)
  then show ?thesis
    by (auto simp: open_workload_def recover_interrupted_events_def Let_def sql_count_def
        filter_empty_conv set_sql_update interrupt_event_def)
qed

end
