(* ===== verification/Workload_Admission.thy ===== *)
theory Workload_Admission
  imports Guardrails Workload_Store
begin

text \<open>
  The admission controller of one Splunk instance (\<open>workload/service.py\<close>): the assessment of a query
  against the policy, the counters of \<open>_InstanceState\<close>, and the life of a call through
  \<open>call\<close>, \<open>_admit\<close> and \<open>_release\<close>. A transition of the machine is the code between two \<open>await\<close>s; the
  lock of \<open>state.condition\<close> is held across the progress reports inside \<open>_admit\<close>. What a progress
  callback, the clock or the client does is the choice of the transition. The digest of a call's
  arguments (\<open>query_fingerprint\<close>) is a field of the call.
\<close>


section \<open>The assessment of a query\<close>

record instance_state =
  is_active_calls :: int
  is_active_queries :: int
  is_queued_calls :: int
  is_queued_queries :: int
  is_reserved_query_units :: int

definition idle_instance :: instance_state where
  "idle_instance = \<lparr>is_active_calls = 0, is_active_queries = 0, is_queued_calls = 0,
     is_queued_queries = 0, is_reserved_query_units = 0\<rparr>"

record assessment =
  as_decision :: decision
  as_reasons :: "string list"
  as_daily_used_units :: int
  as_daily_reserved_units :: int
  as_daily_remaining_units :: int

definition exceeds_text :: "string \<Rightarrow> int \<Rightarrow> int \<Rightarrow> string \<Rightarrow> string" where
  "exceeds_text what n limit unit =
     what @ '' '' @ int_text n @ '' exceeds the configured '' @ int_text limit @ unit"

definition assess :: "workload_policy \<Rightarrow> int \<Rightarrow> instance_state \<Rightarrow> estimate \<Rightarrow> assessment" where
  "assess policy used state est =
     (let projected = used + is_reserved_query_units state + es_cost_units est;
          hard_block = es_blocked_reason est \<noteq> [];
          reasons =
            (if hard_block then [es_blocked_reason est] else []) @
            (if wp_max_query_risk_score policy < es_score est
             then [exceeds_text ''Risk score'' (es_score est) (wp_max_query_risk_score policy) '' threshold'']
             else []) @
            (if wp_max_query_cost_units policy < es_cost_units est
             then [exceeds_text ''Estimated cost'' (es_cost_units est) (wp_max_query_cost_units policy)
                     ''-unit per-query limit''] else []) @
            (if wp_daily_query_cost_units policy < projected
             then [exceeds_text ''Projected UTC-day usage'' projected (wp_daily_query_cost_units policy)
                     ''-unit budget''] else []);
          governed_block = wp_mode policy = Enforce \<and> reasons \<noteq> [] \<and> \<not> hard_block
      in \<lparr>as_decision = (if hard_block \<or> governed_block then Block
            else if reasons \<noteq> [] then AuditWarning else Allow),
          as_reasons = reasons, as_daily_used_units = used,
          as_daily_reserved_units = is_reserved_query_units state,
          as_daily_remaining_units = max 0 (wp_daily_query_cost_units policy - used)\<rparr>)"


section \<open>The counters\<close>

datatype admission = AdmitBlocked | AdmitNow | AdmitWait

text \<open>One pass of the loop of \<open>_admit\<close>.\<close>

definition admission_check ::
  "workload_policy \<Rightarrow> int \<Rightarrow> instance_state \<Rightarrow> bool \<Rightarrow> int \<Rightarrow> int \<Rightarrow> admission" where
  "admission_check policy used state query cost_units risk_score =
     (if query \<and> wp_mode policy = Enforce \<and>
        (wp_max_query_risk_score policy < risk_score \<or> wp_max_query_cost_units policy < cost_units
         \<or> wp_daily_query_cost_units policy < used + is_reserved_query_units state + cost_units)
      then AdmitBlocked
      else if is_active_calls state < wp_max_concurrent_calls policy
        \<and> (\<not> query \<or> is_active_queries state < wp_max_concurrent_queries policy)
      then AdmitNow else AdmitWait)"

definition enqueue :: "bool \<Rightarrow> instance_state \<Rightarrow> instance_state" where
  "enqueue query s = s\<lparr>is_queued_calls := is_queued_calls s + 1,
     is_queued_queries := is_queued_queries s + (if query then 1 else 0)\<rparr>"

definition take_slot :: "bool \<Rightarrow> int \<Rightarrow> instance_state \<Rightarrow> instance_state" where
  "take_slot query cost_units s =
     \<lparr>is_active_calls = is_active_calls s + 1,
      is_active_queries = is_active_queries s + (if query then 1 else 0),
      is_queued_calls = is_queued_calls s - 1,
      is_queued_queries = is_queued_queries s - (if query then 1 else 0),
      is_reserved_query_units = is_reserved_query_units s + (if query then cost_units else 0)\<rparr>"

text \<open>The \<open>except BaseException\<close> branch of \<open>_admit\<close>.\<close>

definition drop_queue :: "bool \<Rightarrow> instance_state \<Rightarrow> instance_state" where
  "drop_queue query s = s\<lparr>is_queued_calls := max 0 (is_queued_calls s - 1),
     is_queued_queries := (if query then max 0 (is_queued_queries s - 1) else is_queued_queries s)\<rparr>"

definition release_slot :: "bool \<Rightarrow> int \<Rightarrow> instance_state \<Rightarrow> instance_state" where
  "release_slot query cost_units s = s\<lparr>is_active_calls := max 0 (is_active_calls s - 1),
     is_active_queries := (if query then max 0 (is_active_queries s - 1) else is_active_queries s),
     is_reserved_query_units := (if query then max 0 (is_reserved_query_units s - cost_units)
       else is_reserved_query_units s)\<rparr>"


section \<open>The life of a call\<close>

text \<open>Where a call stands between two awaits.\<close>

datatype call_phase =
    Arriving      \<comment> \<open>event written, lock not yet acquired\<close>
  | QueueReport   \<comment> \<open>reporting its queue position, lock held\<close>
  | Waiting       \<comment> \<open>inside \<open>condition.wait\<close>\<close>
  | AdmitReport   \<comment> \<open>counters moved, reporting its admission, lock held\<close>
  | Running       \<comment> \<open>\<open>client.call\<close>\<close>
  | Releasing     \<comment> \<open>final status written, waiting for the lock in \<open>_release\<close>\<close>
  | Finished

record workload_call =
  cl_event :: string
  cl_query :: bool
  cl_cost_units :: int
  cl_risk_score :: int
  cl_timeout_seconds :: int
  cl_reported :: bool
  cl_phase :: call_phase

record admission_state =
  st_db :: workload_db
  st_slot :: instance_state
  st_calls :: "workload_call list"
  st_lock :: "string option"

text \<open>What \<open>call\<close> is given.\<close>

record call_arguments =
  ca_query :: "string option"
  ca_search :: "string option"
  ca_earliest_time :: "string option"
  ca_latest_time :: "string option"
  ca_row_limit :: "int option"
  ca_count :: "int option"

text \<open>Python's \<open>or\<close> on values that may be absent: a missing, empty or zero value falls through.\<close>

definition text_or :: "string option \<Rightarrow> string \<Rightarrow> string" where
  "text_or a d = (case a of None \<Rightarrow> d | Some s \<Rightarrow> if s = [] then d else s)"

definition int_or :: "int option \<Rightarrow> int \<Rightarrow> int" where
  "int_or a d = (case a of None \<Rightarrow> d | Some n \<Rightarrow> if n = 0 then d else n)"

record call_request =
  rq_name :: string
  rq_operation :: string
  rq_query :: string
  rq_earliest :: string
  rq_latest :: string
  rq_row_limit :: int
  rq_fingerprint :: string

definition request_of :: "string \<Rightarrow> string \<Rightarrow> string \<Rightarrow> call_arguments \<Rightarrow> call_request" where
  "request_of name operation fingerprint a =
     \<lparr>rq_name = name, rq_operation = operation,
      rq_query = text_or (ca_query a) (text_or (ca_search a) []),
      rq_earliest = text_or (ca_earliest_time a) ''-24h'',
      rq_latest = text_or (ca_latest_time a) ''now'',
      rq_row_limit = int_or (ca_row_limit a) (int_or (ca_count a) 100),
      rq_fingerprint = fingerprint\<rparr>"

definition no_estimate :: estimate where
  "no_estimate = \<lparr>es_risk = RiskNone, es_score = 0, es_blocked_reason = [], es_cost_drivers = [],
     es_positive_controls = [], es_window_seconds = None, es_cost_units = 0, es_staged = None\<rparr>"

definition is_query :: "call_request \<Rightarrow> bool" where
  "is_query r = (rq_name r = ''run_query'')"

definition call_estimate :: "call_request \<Rightarrow> estimate" where
  "call_estimate r = (if is_query r
     then estimate_query (rq_query r) (rq_earliest r) (rq_latest r) (rq_row_limit r) else no_estimate)"

fun risk_text :: "risk \<Rightarrow> string" where
  "risk_text RiskNone = ''none''"
| "risk_text RiskLow = ''low''"
| "risk_text RiskMedium = ''medium''"
| "risk_text RiskHigh = ''high''"
| "risk_text RiskBlocked = ''blocked''"

definition call_assessment :: "instant \<Rightarrow> string \<Rightarrow> call_request \<Rightarrow> admission_state \<Rightarrow> decision \<times> string list" where
  "call_assessment now inst r st = (if is_query r
     then let a = assess (wd_policy (st_db st)) (daily_usage now inst (st_db st)) (st_slot st) (call_estimate r)
          in (as_decision a, as_reasons a)
     else (Allow, []))"

text \<open>The event that \<open>call\<close> writes, and the call unless it is blocked.\<close>

definition call_row :: "instant \<Rightarrow> string \<Rightarrow> string \<Rightarrow> call_request \<Rightarrow> admission_state \<Rightarrow> workload_event" where
  "call_row now inst event_id r st =
     (let est = call_estimate r; a = call_assessment now inst r st
      in \<lparr>we_id = event_id, we_instance_id = inst, we_operation = rq_operation r,
          we_logical_name = rq_name r, we_lane = (if is_query r then QueryLane else MetadataLane),
          we_query_fingerprint = (if is_query r then rq_fingerprint r else []),
          we_risk = risk_text (es_risk est), we_risk_score = es_score est,
          we_cost_units = es_cost_units est, we_decision = fst a,
          we_status = (if fst a = Block then WBlocked else WQueued), we_reasons = snd a,
          we_wait_ms = 0, we_duration_ms = 0,
          we_policy_generation = wp_generation (wd_policy (st_db st)),
          we_created_at = now, we_started_at = None, we_completed_at = None, we_error = []\<rparr>)"

definition new_call :: "string \<Rightarrow> call_request \<Rightarrow> admission_state \<Rightarrow> workload_call" where
  "new_call event_id r st =
     \<lparr>cl_event = event_id, cl_query = is_query r, cl_cost_units = es_cost_units (call_estimate r),
      cl_risk_score = es_score (call_estimate r),
      cl_timeout_seconds = wp_queue_timeout_seconds (wd_policy (st_db st)),
      cl_reported = False, cl_phase = Arriving\<rparr>"

text \<open>From the start of \<open>call\<close> to its first await.\<close>

definition start_call ::
  "instant \<Rightarrow> string \<Rightarrow> string \<Rightarrow> call_request \<Rightarrow> admission_state \<Rightarrow> admission_state result" where
  "start_call now inst event_id r st =
     (let row = call_row now inst event_id r st
      in case create_event now row (st_db st) of Inl e \<Rightarrow> Inl e
         | Inr db \<Rightarrow> Inr (st\<lparr>st_db := db, st_calls := st_calls st @
             (if we_decision row = Block then [] else [new_call event_id r st])\<rparr>))"

definition set_phase :: "workload_call \<Rightarrow> call_phase \<Rightarrow> admission_state \<Rightarrow> admission_state" where
  "set_phase c ph st = st\<lparr>st_calls :=
     sql_update (\<lambda>x. cl_event x = cl_event c) (\<lambda>x. x\<lparr>cl_phase := ph\<rparr>) (st_calls st)\<rparr>"

definition note_event ::
  "instant \<Rightarrow> workload_call \<Rightarrow> workload_status \<Rightarrow> int \<Rightarrow> int \<Rightarrow> string \<Rightarrow> admission_state \<Rightarrow> admission_state" where
  "note_event now c status wait_ms duration_ms err st =
     st\<lparr>st_db := update_event now (cl_event c) status wait_ms duration_ms err (st_db st)\<rparr>"

text \<open>A call leaves the queue without a slot: the lock is free and its event says why.\<close>

definition abandon :: "instant \<Rightarrow> workload_call \<Rightarrow> workload_status \<Rightarrow> string \<Rightarrow> admission_state \<Rightarrow> admission_state" where
  "abandon now c status err st = set_phase c Finished (note_event now c status 0 0 err
     (st\<lparr>st_slot := drop_queue (cl_query c) (st_slot st), st_lock := None\<rparr>))"

definition timeout_text :: "workload_call \<Rightarrow> string" where
  "timeout_text c = ''Splunk workload admission timed out after '' @ int_text (cl_timeout_seconds c) @ '' seconds''"

text \<open>A cancellation records no error text, every other failure the text of its exception.\<close>

definition failure_text :: "workload_status \<Rightarrow> string \<Rightarrow> string" where
  "failure_text status err = (if status = WCancelled then [] else err)"

definition finish_call ::
  "instant \<Rightarrow> workload_call \<Rightarrow> workload_status \<Rightarrow> int \<Rightarrow> int \<Rightarrow> string \<Rightarrow> admission_state \<Rightarrow> admission_state" where
  "finish_call now c status wait_ms duration_ms err st = set_phase c Releasing
     (if status = WCancelled then note_event now c WCancelled 0 0 [] st
      else note_event now c status wait_ms duration_ms (if status = WError then err else []) st)"

text \<open>After the queue report: wait for the condition, or give up when no time remains.\<close>

definition wait_or_expire :: "instant \<Rightarrow> bool \<Rightarrow> workload_call \<Rightarrow> admission_state \<Rightarrow> admission_state" where
  "wait_or_expire now expired c st =
     (if expired then abandon now c WBlocked (timeout_text c) st
      else set_phase c Waiting (st\<lparr>st_lock := None\<rparr>))"

text \<open>The loop of \<open>_admit\<close> with the lock held, up to the next await.\<close>

definition admit_loop :: "instant \<Rightarrow> string \<Rightarrow> bool \<Rightarrow> workload_call \<Rightarrow> admission_state \<Rightarrow> admission_state" where
  "admit_loop now inst expired c st =
     (case admission_check (wd_policy (st_db st)) (daily_usage now inst (st_db st)) (st_slot st)
             (cl_query c) (cl_cost_units c) (cl_risk_score c) of
        AdmitBlocked \<Rightarrow> abandon now c WBlocked
          ''The enforced risk or UTC-day cost threshold is no longer available'' st
      | AdmitNow \<Rightarrow> set_phase c AdmitReport
          (st\<lparr>st_slot := take_slot (cl_query c) (cl_cost_units c) (st_slot st), st_lock := Some (cl_event c)\<rparr>)
      | AdmitWait \<Rightarrow>
          if cl_reported c then wait_or_expire now expired c st
          else (let st' = set_phase c QueueReport (note_event now c WQueued 0 0 [] (st\<lparr>st_lock := Some (cl_event c)\<rparr>))
                in st'\<lparr>st_calls := sql_update (\<lambda>x. cl_event x = cl_event c)
                         (\<lambda>x. x\<lparr>cl_reported := True\<rparr>) (st_calls st')\<rparr>))"

text \<open>What a transition is about.\<close>

datatype admission_event =
    Arrive instant string call_request
  | Enter instant string bool
  | Wake instant string bool
  | QueueReported instant string bool
  | QueueReportFailed instant string workload_status string
  | AdmitReported instant string int
  | AdmitReportFailed instant string workload_status string
  | GiveUp instant string workload_status
  | CancelArriving instant string
  | Finish instant string workload_status int int string
  | Release instant string
  | ReleaseCancelled instant string
  | NewPolicy instant workload_policy

inductive admission_step :: "string \<Rightarrow> admission_event \<Rightarrow> admission_state \<Rightarrow> admission_state \<Rightarrow> bool"
  for inst :: string where
  arrive: "start_call now inst i r st = Inr st' \<Longrightarrow> i \<notin> cl_event ` set (st_calls st) \<Longrightarrow>
    admission_step inst (Arrive now i r) st st'"
| enter: "c \<in> set (st_calls st) \<Longrightarrow> cl_phase c = Arriving \<Longrightarrow> st_lock st = None \<Longrightarrow>
    admission_step inst (Enter now (cl_event c) expired) st
      (admit_loop now inst expired c (st\<lparr>st_slot := enqueue (cl_query c) (st_slot st)\<rparr>))"
| wake: "c \<in> set (st_calls st) \<Longrightarrow> cl_phase c = Waiting \<Longrightarrow> st_lock st = None \<Longrightarrow>
    admission_step inst (Wake now (cl_event c) expired) st (admit_loop now inst expired c st)"
| queue_reported: "c \<in> set (st_calls st) \<Longrightarrow> cl_phase c = QueueReport \<Longrightarrow>
    admission_step inst (QueueReported now (cl_event c) expired) st (wait_or_expire now expired c st)"
| queue_report_failed: "c \<in> set (st_calls st) \<Longrightarrow> cl_phase c = QueueReport \<Longrightarrow>
    status \<in> {WError, WCancelled} \<Longrightarrow>
    admission_step inst (QueueReportFailed now (cl_event c) status err) st
      (abandon now c status (failure_text status err) st)"
| admit_reported: "c \<in> set (st_calls st) \<Longrightarrow> cl_phase c = AdmitReport \<Longrightarrow>
    admission_step inst (AdmitReported now (cl_event c) wait_ms) st
      (set_phase c Running (note_event now c WRunning wait_ms 0 [] (st\<lparr>st_lock := None\<rparr>)))"
| admit_report_failed: "c \<in> set (st_calls st) \<Longrightarrow> cl_phase c = AdmitReport \<Longrightarrow>
    status \<in> {WError, WCancelled} \<Longrightarrow>
    admission_step inst (AdmitReportFailed now (cl_event c) status err) st
      (abandon now c status (failure_text status err) st)"
| give_up: "c \<in> set (st_calls st) \<Longrightarrow> cl_phase c = Waiting \<Longrightarrow> st_lock st = None \<Longrightarrow>
    status \<in> {WBlocked, WCancelled} \<Longrightarrow>
    admission_step inst (GiveUp now (cl_event c) status) st
      (abandon now c status (failure_text status (timeout_text c)) st)"
| cancel_arriving: "c \<in> set (st_calls st) \<Longrightarrow> cl_phase c = Arriving \<Longrightarrow>
    admission_step inst (CancelArriving now (cl_event c)) st
      (set_phase c Finished (note_event now c WCancelled 0 0 [] st))"
| finish: "c \<in> set (st_calls st) \<Longrightarrow> cl_phase c = Running \<Longrightarrow> status \<in> {WComplete, WError, WCancelled} \<Longrightarrow>
    admission_step inst (Finish now (cl_event c) status wait_ms duration_ms err) st
      (finish_call now c status wait_ms duration_ms err st)"
| release: "c \<in> set (st_calls st) \<Longrightarrow> cl_phase c = Releasing \<Longrightarrow> st_lock st = None \<Longrightarrow>
    admission_step inst (Release now (cl_event c)) st
      (set_phase c Finished (st\<lparr>st_slot := release_slot (cl_query c) (cl_cost_units c) (st_slot st)\<rparr>))"
| release_cancelled: "c \<in> set (st_calls st) \<Longrightarrow> cl_phase c = Releasing \<Longrightarrow>
    admission_step inst (ReleaseCancelled now (cl_event c)) st (set_phase c Finished st)"
| new_policy: "admission_step inst (NewPolicy now p) st
    (st\<lparr>st_db := update_workload_policy now p (st_db st)\<rparr>)"

inductive_cases admission_stepE: "admission_step inst ev st st'"

text \<open>The states a sequence of transitions leads to; \<open>ok\<close> selects the transitions allowed.\<close>

inductive admission_run ::
  "string \<Rightarrow> (admission_event \<Rightarrow> bool) \<Rightarrow> admission_state \<Rightarrow> admission_state \<Rightarrow> bool"
  for inst :: string and ok :: "admission_event \<Rightarrow> bool" where
  here: "admission_run inst ok st st"
| more: "admission_run inst ok st st' \<Longrightarrow> admission_step inst ev st' st'' \<Longrightarrow> ok ev \<Longrightarrow>
    admission_run inst ok st st''"

definition fresh_instance :: "workload_db \<Rightarrow> admission_state" where
  "fresh_instance db = \<lparr>st_db = db, st_slot = idle_instance, st_calls = [], st_lock = None\<rparr>"


section \<open>What the counters stand for\<close>

definition in_queue :: "call_phase \<Rightarrow> bool" where
  "in_queue ph = (ph \<in> {QueueReport, Waiting})"

definition holds_slot :: "call_phase \<Rightarrow> bool" where
  "holds_slot ph = (ph \<in> {AdmitReport, Running, Releasing})"

text \<open>The phases in which a call holds the lock across an await.\<close>

definition reports :: "call_phase \<Rightarrow> bool" where
  "reports ph = (ph \<in> {QueueReport, AdmitReport})"

lemmas phase_defs = in_queue_def holds_slot_def reports_def

definition call_total :: "(workload_call \<Rightarrow> int) \<Rightarrow> workload_call list \<Rightarrow> int" where
  "call_total f calls = sum_list (map f calls)"

definition active_of :: "workload_call \<Rightarrow> int" where
  "active_of c = (if holds_slot (cl_phase c) then 1 else 0)"

definition active_query_of :: "workload_call \<Rightarrow> int" where
  "active_query_of c = (if holds_slot (cl_phase c) \<and> cl_query c then 1 else 0)"

definition queued_of :: "workload_call \<Rightarrow> int" where
  "queued_of c = (if in_queue (cl_phase c) then 1 else 0)"

definition queued_query_of :: "workload_call \<Rightarrow> int" where
  "queued_query_of c = (if in_queue (cl_phase c) \<and> cl_query c then 1 else 0)"

definition reserved_of :: "workload_call \<Rightarrow> int" where
  "reserved_of c = (if holds_slot (cl_phase c) \<and> cl_query c then cl_cost_units c else 0)"

lemmas weight_defs = active_of_def active_query_of_def queued_of_def queued_query_of_def reserved_of_def

text \<open>The counters a set of calls accounts for.\<close>

definition expected :: "workload_call list \<Rightarrow> instance_state" where
  "expected calls =
     \<lparr>is_active_calls = call_total active_of calls, is_active_queries = call_total active_query_of calls,
      is_queued_calls = call_total queued_of calls, is_queued_queries = call_total queued_query_of calls,
      is_reserved_query_units = call_total reserved_of calls\<rparr>"

definition calls_wf :: "admission_state \<Rightarrow> bool" where
  "calls_wf st = (distinct (map cl_event (st_calls st))
     \<and> (\<forall>c \<in> set (st_calls st). 0 \<le> cl_cost_units c)
     \<and> (\<forall>c \<in> set (st_calls st). reports (cl_phase c) \<longrightarrow> st_lock st = Some (cl_event c)))"

lemma total_set_phase:
  assumes "distinct (map cl_event (st_calls st))" "c \<in> set (st_calls st)"
  shows "call_total f (st_calls (set_phase c ph st)) = call_total f (st_calls st) - f c + f (c\<lparr>cl_phase := ph\<rparr>)"
  using sum_sql_update [of cl_event "st_calls st" c "cl_event c" f] assms
  by (simp add: set_phase_def call_total_def)

lemma total_ge_member:
  "c \<in> set calls \<Longrightarrow> (\<And>x. x \<in> set calls \<Longrightarrow> 0 \<le> f x) \<Longrightarrow> f c \<le> call_total f calls"
proof (induction calls)
  case (Cons x xs)
  then have "0 \<le> call_total f xs" unfolding call_total_def by (intro sum_list_nonneg_le) auto
  with Cons show ?case by (fastforce simp: call_total_def)
qed simp

lemma count_total: "int (length (filter p xs)) = call_total (\<lambda>c. if p c then 1 else 0) xs"
  by (induction xs) (auto simp: call_total_def)

lemma total_snoc: "call_total f (calls @ [c]) = call_total f calls + f c"
  by (simp add: call_total_def)

lemma weights_nonneg:
  "0 \<le> active_of c" "0 \<le> active_query_of c" "0 \<le> queued_of c" "0 \<le> queued_query_of c"
  "0 \<le> cl_cost_units c \<Longrightarrow> 0 \<le> reserved_of c"
  by (auto simp: weight_defs)

lemma weights_le_total:
  assumes "calls_wf st" "c \<in> set (st_calls st)"
  shows "active_of c \<le> call_total active_of (st_calls st)" "active_query_of c \<le> call_total active_query_of (st_calls st)"
    "queued_of c \<le> call_total queued_of (st_calls st)" "queued_query_of c \<le> call_total queued_query_of (st_calls st)"
    "reserved_of c \<le> call_total reserved_of (st_calls st)"
  using assms weights_nonneg by (auto intro!: total_ge_member simp: calls_wf_def)

text \<open>How the segments act on the calls and the slot.\<close>

lemma segment_simps [simp]:
  "st_slot (set_phase c ph st) = st_slot st" "st_db (set_phase c ph st) = st_db st"
  "st_lock (set_phase c ph st) = st_lock st"
  "st_slot (note_event now c status w d err st) = st_slot st"
  "st_calls (note_event now c status w d err st) = st_calls st"
  "st_lock (note_event now c status w d err st) = st_lock st"
  by (simp_all add: set_phase_def note_event_def)

lemma calls_wf_cong:
  "st_calls st = st_calls st' \<Longrightarrow> st_lock st = st_lock st' \<Longrightarrow> calls_wf st = calls_wf st'"
  by (simp add: calls_wf_def)

lemma calls_of_set_phase:
  "st_calls (set_phase c ph st) = map (\<lambda>x. if cl_event x = cl_event c then x\<lparr>cl_phase := ph\<rparr> else x) (st_calls st)"
  by (simp add: set_phase_def sql_update_def)

lemma calls_wf_same:
  "calls_wf st \<Longrightarrow> x \<in> set (st_calls st) \<Longrightarrow> c \<in> set (st_calls st) \<Longrightarrow> cl_event x = cl_event c \<Longrightarrow> x = c"
  by (auto simp: calls_wf_def distinct_map inj_on_def)

text \<open>A transition of \<open>c\<close> keeps the lock discipline when \<open>c\<close> alone could hold the lock.\<close>

lemma lock_owner:
  assumes "calls_wf st" "c \<in> set (st_calls st)" "reports (cl_phase c) \<or> st_lock st = None"
    and x: "x \<in> set (st_calls st)" "x \<noteq> c"
  shows "\<not> reports (cl_phase x)"
proof
  assume "reports (cl_phase x)"
  then have lx: "st_lock st = Some (cl_event x)" using assms(1) x(1) by (simp add: calls_wf_def)
  with assms(3) have "reports (cl_phase c)" by simp
  then have "st_lock st = Some (cl_event c)" using assms(1,2) by (simp add: calls_wf_def)
  with lx have "cl_event x = cl_event c" by simp
  with calls_wf_same assms(1,2) x show False by blast
qed

lemma calls_wf_set_phase:
  assumes "calls_wf st" "c \<in> set (st_calls st)"
    and owner: "reports (cl_phase c) \<or> st_lock st = None \<or> st_lock st' = st_lock st"
    and ph: "reports ph \<longrightarrow> st_lock st' = Some (cl_event c)"
    and calls: "st_calls st' = st_calls st"
  shows "calls_wf (set_phase c ph st')"
proof -
  have ids: "map cl_event (st_calls (set_phase c ph st')) = map cl_event (st_calls st)"
    unfolding calls_of_set_phase calls by simp
  have lock: "st_lock st' = Some (cl_event x)"
    if "x \<in> set (st_calls st)" "x \<noteq> c" "reports (cl_phase x)" for x
  proof (cases "st_lock st' = st_lock st")
    case True
    then show ?thesis using that assms(1) by (simp add: calls_wf_def)
  next
    case False
    then show ?thesis using owner lock_owner [OF assms(1,2) _ that(1,2)] that(3) by blast
  qed
  have "0 \<le> cl_cost_units y \<and> (reports (cl_phase y) \<longrightarrow> st_lock st' = Some (cl_event y))"
    if y: "y \<in> set (st_calls (set_phase c ph st'))" for y
  proof -
    from y obtain x where x: "x \<in> set (st_calls st)"
      "y = (if cl_event x = cl_event c then x\<lparr>cl_phase := ph\<rparr> else x)"
      unfolding calls_of_set_phase calls by auto
    have "0 \<le> cl_cost_units x" using assms(1) x(1) by (simp add: calls_wf_def)
    moreover have "x = c" if "cl_event x = cl_event c"
      using calls_wf_same [OF assms(1) x(1) assms(2) that] .
    ultimately show ?thesis using x lock [OF x(1)] ph by (cases "x = c") auto
  qed
  then show ?thesis
    using assms(1) ids unfolding calls_wf_def segment_simps by simp
qed


subsection \<open>The account\<close>

text \<open>
  The slot agrees with the calls: exactly, or - once a call lost its slot without releasing it - with
  counters that may only be too large.
\<close>

definition agrees :: "bool \<Rightarrow> instance_state \<Rightarrow> instance_state \<Rightarrow> bool" where
  "agrees strict s e = (if strict then s = e else
     is_active_calls e \<le> is_active_calls s \<and> is_active_queries e \<le> is_active_queries s \<and>
     is_reserved_query_units e \<le> is_reserved_query_units s)"

definition account :: "bool \<Rightarrow> admission_state \<Rightarrow> bool" where
  "account strict st = (calls_wf st \<and> agrees strict (st_slot st) (expected (st_calls st)))"

text \<open>The same with \<open>c\<close> regarded as queued, which is how \<open>_admit\<close> enters its loop.\<close>

definition account_queued :: "bool \<Rightarrow> workload_call \<Rightarrow> admission_state \<Rightarrow> bool" where
  "account_queued strict c st = (calls_wf st \<and> c \<in> set (st_calls st) \<and>
     agrees strict (st_slot st) (expected (st_calls (set_phase c Waiting st))) \<and>
     \<not> holds_slot (cl_phase c) \<and> (reports (cl_phase c) \<or> st_lock st = None))"

lemma expected_set_phase:
  assumes "calls_wf st" "c \<in> set (st_calls st)" "st_calls st' = st_calls st"
  shows "expected (st_calls (set_phase c ph st')) =
     \<lparr>is_active_calls = is_active_calls (expected (st_calls st)) - active_of c + active_of (c\<lparr>cl_phase := ph\<rparr>),
      is_active_queries = is_active_queries (expected (st_calls st)) - active_query_of c + active_query_of (c\<lparr>cl_phase := ph\<rparr>),
      is_queued_calls = is_queued_calls (expected (st_calls st)) - queued_of c + queued_of (c\<lparr>cl_phase := ph\<rparr>),
      is_queued_queries = is_queued_queries (expected (st_calls st)) - queued_query_of c + queued_query_of (c\<lparr>cl_phase := ph\<rparr>),
      is_reserved_query_units = is_reserved_query_units (expected (st_calls st)) - reserved_of c + reserved_of (c\<lparr>cl_phase := ph\<rparr>)\<rparr>"
proof -
  have "distinct (map cl_event (st_calls st'))" "c \<in> set (st_calls st')"
    using assms by (simp_all add: calls_wf_def)
  from total_set_phase [OF this] show ?thesis by (simp add: expected_def assms(3))
qed

lemma expected_ge:
  assumes "calls_wf st" "c \<in> set (st_calls st)"
  shows "active_of c \<le> is_active_calls (expected (st_calls st))"
    "active_query_of c \<le> is_active_queries (expected (st_calls st))"
    "queued_of c \<le> is_queued_calls (expected (st_calls st))"
    "queued_query_of c \<le> is_queued_queries (expected (st_calls st))"
    "reserved_of c \<le> is_reserved_query_units (expected (st_calls st))"
  using weights_le_total [OF assms] by (simp_all add: expected_def)

lemma account_queued_abandon:
  assumes "account_queued strict c st"
  shows "account strict (abandon now c status err st)"
proof -
  let ?st = "(note_event now c status 0 0 err (st\<lparr>st_slot := drop_queue (cl_query c) (st_slot st), st_lock := None\<rparr>))"
  note q = assms [unfolded account_queued_def]
  then have wf: "calls_wf st" and c: "c \<in> set (st_calls st)" by auto
  have "calls_wf (set_phase c Finished ?st)"
    using q by (intro calls_wf_set_phase [OF wf c]) (auto simp: reports_def)
  moreover have "agrees strict (drop_queue (cl_query c) (st_slot st)) (expected (st_calls (set_phase c Finished ?st)))"
  proof -
    have wf0: "active_of c = 0" "active_query_of c = 0" "reserved_of c = 0"
      using q by (auto simp: weight_defs)
    have a: "agrees strict (st_slot st) (expected (st_calls (set_phase c Waiting st)))" using q by blast
    have e1: "expected (st_calls (set_phase c Waiting st)) = (expected (st_calls st))
       \<lparr>is_queued_calls := is_queued_calls (expected (st_calls st)) - queued_of c + 1,
        is_queued_queries := is_queued_queries (expected (st_calls st)) - queued_query_of c + (if cl_query c then 1 else 0)\<rparr>"
      using wf0 by (subst expected_set_phase [OF wf c refl]) (auto simp: weight_defs phase_defs)
    have e2: "expected (st_calls (set_phase c Finished ?st)) = (expected (st_calls st))
       \<lparr>is_queued_calls := is_queued_calls (expected (st_calls st)) - queued_of c,
        is_queued_queries := is_queued_queries (expected (st_calls st)) - queued_query_of c\<rparr>"
      using wf0 by (subst expected_set_phase [OF wf c]) (auto simp: weight_defs phase_defs)
    show ?thesis
      using a expected_ge [OF wf c] unfolding e1 e2 by (auto simp: agrees_def drop_queue_def split: if_splits)
  qed
  ultimately show ?thesis by (simp add: account_def abandon_def)
qed


lemma account_set_phase:
  assumes "calls_wf st" "c \<in> set (st_calls st)" "st_calls st' = st_calls st"
    and "reports (cl_phase c) \<or> st_lock st = None \<or> st_lock st' = st_lock st"
    and "reports ph \<longrightarrow> st_lock st' = Some (cl_event c)"
    and "agrees strict (st_slot st') (expected (st_calls (set_phase c ph st')))"
  shows "account strict (set_phase c ph st')"
  using assms calls_wf_set_phase [OF assms(1,2,4,5,3)] by (simp add: account_def)

lemma account_queued_wait:
  assumes "account_queued strict c st"
  shows "account strict (wait_or_expire now expired c st)"
proof (cases expired)
  case True
  then show ?thesis using account_queued_abandon [OF assms] by (simp add: wait_or_expire_def)
next
  case False
  note q = assms [unfolded account_queued_def]
  then have "calls_wf st" "c \<in> set (st_calls st)" by auto
  then have "account strict (set_phase c Waiting (st\<lparr>st_lock := None\<rparr>))"
    using q by (intro account_set_phase) (auto simp: reports_def set_phase_def)
  with False show ?thesis by (simp add: wait_or_expire_def)
qed

lemma account_reported:
  assumes "account strict st"
  shows "account strict (st\<lparr>st_calls := sql_update p (\<lambda>x. x\<lparr>cl_reported := True\<rparr>) (st_calls st)\<rparr>)"
proof -
  have "expected (sql_update p (\<lambda>x. x\<lparr>cl_reported := True\<rparr>) calls) = expected calls" for calls
    by (induction calls) (auto simp: expected_def call_total_def sql_update_def weight_defs)
  then show ?thesis
    using assms by (auto simp: account_def calls_wf_def sql_simps elim!: in_sql_update_cases)
qed

lemma admission_loop_cases:
  obtains (blocked) err where "admit_loop now inst expired c st = abandon now c WBlocked err st"
  | (granted) "is_active_calls (st_slot st) < wp_max_concurrent_calls (wd_policy (st_db st))"
      "cl_query c \<Longrightarrow> is_active_queries (st_slot st) < wp_max_concurrent_queries (wd_policy (st_db st))"
      "cl_query c \<Longrightarrow> wp_mode (wd_policy (st_db st)) = Enforce \<Longrightarrow>
        daily_usage now inst (st_db st) + is_reserved_query_units (st_slot st) + cl_cost_units c
          \<le> wp_daily_query_cost_units (wd_policy (st_db st))"
      "admit_loop now inst expired c st = set_phase c AdmitReport
        (st\<lparr>st_slot := take_slot (cl_query c) (cl_cost_units c) (st_slot st), st_lock := Some (cl_event c)\<rparr>)"
  | (again) "admit_loop now inst expired c st = wait_or_expire now expired c st"
  | (first) st' where "st' = set_phase c QueueReport (note_event now c WQueued 0 0 [] (st\<lparr>st_lock := Some (cl_event c)\<rparr>))"
      "admit_loop now inst expired c st =
        st'\<lparr>st_calls := sql_update (\<lambda>x. cl_event x = cl_event c) (\<lambda>x. x\<lparr>cl_reported := True\<rparr>) (st_calls st')\<rparr>"
proof (cases "admission_check (wd_policy (st_db st)) (daily_usage now inst (st_db st)) (st_slot st)
             (cl_query c) (cl_cost_units c) (cl_risk_score c)")
  case AdmitBlocked
  then show thesis using blocked by (simp add: admit_loop_def)
next
  case AdmitNow
  then show thesis
    by (intro granted) (auto simp: admit_loop_def admission_check_def split: if_splits)
next
  case AdmitWait
  then show thesis using again first [OF refl]
    by (cases "cl_reported c") (simp_all add: admit_loop_def Let_def)
qed

lemma account_queued_loop:
  assumes "account_queued strict c st" "st_lock st = None"
  shows "account strict (admit_loop now inst expired c st)"
proof -
  note q = assms(1) [unfolded account_queued_def]
  then have wf: "calls_wf st" and c: "c \<in> set (st_calls st)" by auto
  show ?thesis
  proof (cases rule: admission_loop_cases [of now inst expired c st])
    case granted
    let ?st = "st\<lparr>st_slot := take_slot (cl_query c) (cl_cost_units c) (st_slot st), st_lock := Some (cl_event c)\<rparr>"
    have "agrees strict (st_slot ?st) (expected (st_calls (set_phase c AdmitReport ?st)))"
      using q unfolding expected_set_phase [OF wf c refl] expected_set_phase [OF wf c, of ?st, simplified]
      by (auto simp: agrees_def take_slot_def weight_defs phase_defs)
    then have "account strict (set_phase c AdmitReport ?st)"
      using assms(2) by (intro account_set_phase [OF wf c]) auto
    then show ?thesis using granted by simp
  next
    case (first st')
    let ?st = "note_event now c WQueued 0 0 [] (st\<lparr>st_lock := Some (cl_event c)\<rparr>)"
    have "expected (st_calls (set_phase c QueueReport ?st)) = expected (st_calls (set_phase c Waiting st))"
      unfolding expected_set_phase [OF wf c refl] expected_set_phase [OF wf c, of ?st, simplified]
      by (auto simp: weight_defs phase_defs)
    then have "account strict (set_phase c QueueReport ?st)"
      using q assms(2) by (intro account_set_phase [OF wf c]) auto
    from account_reported [OF this] show ?thesis using first by simp
  qed (use account_queued_abandon account_queued_wait assms(1) in simp_all)
qed

lemma account_queued_intro:
  assumes "account strict st" "c \<in> set (st_calls st)" "cl_phase c \<in> {Waiting, QueueReport}"
    "reports (cl_phase c) \<or> st_lock st = None"
  shows "account_queued strict c st"
proof -
  have wf: "calls_wf st" using assms(1) by (simp add: account_def)
  have "expected (st_calls (set_phase c Waiting st)) = expected (st_calls st)"
    unfolding expected_set_phase [OF wf assms(2) refl] using assms(3)
    by (auto simp: weight_defs phase_defs)
  then show ?thesis using assms by (auto simp: account_queued_def account_def holds_slot_def)
qed

lemma account_queued_enter:
  assumes "account strict st" "c \<in> set (st_calls st)" "cl_phase c = Arriving" "st_lock st = None"
  shows "account_queued strict c (st\<lparr>st_slot := enqueue (cl_query c) (st_slot st)\<rparr>)"
proof -
  let ?st = "st\<lparr>st_slot := enqueue (cl_query c) (st_slot st)\<rparr>"
  have wf: "calls_wf st" using assms(1) by (simp add: account_def)
  have "agrees strict (st_slot ?st) (expected (st_calls (set_phase c Waiting ?st)))"
    unfolding expected_set_phase [OF wf assms(2), of ?st, simplified] using assms
    by (auto simp: account_def agrees_def enqueue_def weight_defs phase_defs)
  then show ?thesis using assms wf calls_wf_cong [of st ?st] by (simp add: account_queued_def holds_slot_def)
qed

text \<open>The transitions that lose a slot: the report of an admission fails, or a release is cancelled.\<close>

fun loses_slot :: "admission_event \<Rightarrow> bool" where
  "loses_slot (AdmitReportFailed now i status err) = True"
| "loses_slot (ReleaseCancelled now i) = True"
| "loses_slot _ = False"

lemma call_cost_nonneg: "0 \<le> es_cost_units (call_estimate r)"
  by (auto simp: call_estimate_def no_estimate_def estimate_query_def cost_units_of_def Let_def split_beta)

lemma account_arrive:
  assumes "account strict st" "start_call now inst i r st = Inr st'" "i \<notin> cl_event ` set (st_calls st)"
  shows "account strict st' \<and> st_slot st' = st_slot st"
proof -
  have "expected (calls @ [c]) = expected calls" if "cl_phase c = Arriving" for calls c
    using that by (simp add: expected_def total_snoc weight_defs phase_defs)
  then show ?thesis
    using assms call_cost_nonneg [of r]
    by (auto simp: start_call_def new_call_def Let_def account_def calls_wf_def reports_def
        split: sum.splits prod.splits if_splits)
qed

lemma cost_nonneg: "calls_wf st \<Longrightarrow> c \<in> set (st_calls st) \<Longrightarrow> 0 \<le> cl_cost_units c"
  by (simp add: calls_wf_def)

lemma account_step:
  assumes "admission_step inst ev st st'" "account strict st" "strict \<longrightarrow> \<not> loses_slot ev"
  shows "account strict st'"
  using assms(1)
proof (cases rule: admission_step.cases)
  case (arrive now i r)
  then show ?thesis using account_arrive assms(2) by blast
next
  case (enter c now expired)
  then show ?thesis
    using account_queued_loop [OF account_queued_enter [OF assms(2)]] by simp
next
  case (wake c now expired)
  then show ?thesis using account_queued_loop [OF account_queued_intro [OF assms(2)]] by simp
next
  case (queue_reported c now expired)
  then show ?thesis using account_queued_wait [OF account_queued_intro [OF assms(2)]] by (simp add: reports_def)
next
  case (queue_report_failed c status now err)
  then show ?thesis using account_queued_abandon [OF account_queued_intro [OF assms(2)]] by (simp add: reports_def)
next
  case (give_up c status now)
  then show ?thesis using account_queued_abandon [OF account_queued_intro [OF assms(2)]] by simp
next
  case (new_policy now p)
  then show ?thesis using assms(2) by (simp add: account_def calls_wf_def)
next
  case (admit_reported c now wait_ms)
  have wf: "calls_wf st" using assms(2) by (simp add: account_def)
  let ?st = "note_event now c WRunning wait_ms 0 [] (st\<lparr>st_lock := None\<rparr>)"
  have "expected (st_calls (set_phase c Running ?st)) = expected (st_calls st)"
    unfolding expected_set_phase [OF wf admit_reported(3), of ?st, simplified]
    using admit_reported(4) by (auto simp: weight_defs phase_defs)
  then show ?thesis unfolding admit_reported(2) using admit_reported assms(2)
    by (intro account_set_phase [OF wf]) (auto simp: reports_def account_def)
next
  case (admit_report_failed c status now err)
  have wf: "calls_wf st" using assms(2) by (simp add: account_def)
  let ?st = "note_event now c status 0 0 (failure_text status err)
    (st\<lparr>st_slot := drop_queue (cl_query c) (st_slot st), st_lock := None\<rparr>)"
  have "agrees strict (st_slot ?st) (expected (st_calls (set_phase c Finished ?st)))"
    unfolding expected_set_phase [OF wf admit_report_failed(3), of ?st, simplified]
    using admit_report_failed(1,4) assms(2,3) cost_nonneg [OF wf admit_report_failed(3)]
    by (auto simp: weight_defs phase_defs account_def agrees_def drop_queue_def)
  then show ?thesis unfolding admit_report_failed(2) abandon_def using admit_report_failed
    by (intro account_set_phase [OF wf]) (auto simp: reports_def account_def)
next
  case (cancel_arriving c now)
  have wf: "calls_wf st" using assms(2) by (simp add: account_def)
  let ?st = "note_event now c WCancelled 0 0 [] st"
  have "expected (st_calls (set_phase c Finished ?st)) = expected (st_calls st)"
    unfolding expected_set_phase [OF wf cancel_arriving(3), of ?st, simplified]
    using cancel_arriving(4) by (auto simp: weight_defs phase_defs)
  then show ?thesis unfolding cancel_arriving(2) using cancel_arriving assms(2)
    by (intro account_set_phase [OF wf]) (auto simp: reports_def account_def)
next
  case (finish c status now wait_ms duration_ms err)
  have wf: "calls_wf st" using assms(2) by (simp add: account_def)
  let ?st = "if status = WCancelled then note_event now c WCancelled 0 0 [] st
    else note_event now c status wait_ms duration_ms (if status = WError then err else []) st"
  have s: "st_calls ?st = st_calls st" "st_slot ?st = st_slot st" "st_lock ?st = st_lock st" by simp_all
  have "expected (st_calls (set_phase c Releasing ?st)) = expected (st_calls st)"
    unfolding expected_set_phase [OF wf finish(3) s(1)]
    using finish(4) by (auto simp: weight_defs phase_defs)
  then show ?thesis unfolding finish(2) finish_call_def using finish assms(2) s
    by (intro account_set_phase [OF wf]) (auto simp: reports_def account_def)
next
  case (release c now)
  have wf: "calls_wf st" using assms(2) by (simp add: account_def)
  let ?st = "st\<lparr>st_slot := release_slot (cl_query c) (cl_cost_units c) (st_slot st)\<rparr>"
  have "agrees strict (st_slot ?st) (expected (st_calls (set_phase c Finished ?st)))"
    unfolding expected_set_phase [OF wf release(3), of ?st, simplified]
    using release assms(2) expected_ge [OF wf release(3)]
    by (auto simp: weight_defs phase_defs account_def agrees_def release_slot_def)
  then show ?thesis unfolding release(2) using release
    by (intro account_set_phase [OF wf]) (auto simp: reports_def account_def)
next
  case (release_cancelled c now)
  have wf: "calls_wf st" using assms(2) by (simp add: account_def)
  have "agrees strict (st_slot st) (expected (st_calls (set_phase c Finished st)))"
    unfolding expected_set_phase [OF wf release_cancelled(3) refl]
    using release_cancelled(1,4) assms(2,3) cost_nonneg [OF wf release_cancelled(3)]
    by (auto simp: weight_defs phase_defs account_def agrees_def)
  then show ?thesis unfolding release_cancelled(2) using release_cancelled
    by (intro account_set_phase [OF wf]) (auto simp: reports_def account_def)
qed

lemma account_run:
  "admission_run inst ok st st' \<Longrightarrow> (\<And>ev. strict \<Longrightarrow> ok ev \<Longrightarrow> \<not> loses_slot ev) \<Longrightarrow> account strict st \<Longrightarrow>
    account strict st'"
  by (induction rule: admission_run.induct) (auto intro: account_step)

lemma fresh_simps [simp]:
  "st_db (fresh_instance db) = db" "st_calls (fresh_instance db) = []" "st_slot (fresh_instance db) = idle_instance"
  by (simp_all add: fresh_instance_def)

lemma account_fresh: "account strict (fresh_instance db)"
  by (auto simp: account_def agrees_def fresh_instance_def idle_instance_def expected_def call_total_def calls_wf_def)


subsection \<open>Concurrency\<close>

definition limited :: "int \<Rightarrow> int \<Rightarrow> workload_policy \<Rightarrow> bool" where
  "limited m q p = (wp_max_concurrent_calls p \<le> m \<and> wp_max_concurrent_queries p \<le> q)"

fun keeps_limits :: "int \<Rightarrow> int \<Rightarrow> admission_event \<Rightarrow> bool" where
  "keeps_limits m q (NewPolicy now p) = limited m q p"
| "keeps_limits m q _ = True"

definition within_limits :: "int \<Rightarrow> int \<Rightarrow> admission_state \<Rightarrow> bool" where
  "within_limits m q st = (limited m q (wd_policy (st_db st)) \<and> 0 \<le> m \<and> 0 \<le> q
     \<and> is_active_calls (st_slot st) \<le> m \<and> is_active_queries (st_slot st) \<le> q)"

lemma slot_simps [simp]:
  "is_active_calls (drop_queue b s) = is_active_calls s" "is_active_queries (drop_queue b s) = is_active_queries s"
  "is_active_calls (enqueue b s) = is_active_calls s" "is_active_queries (enqueue b s) = is_active_queries s"
  "is_reserved_query_units (drop_queue b s) = is_reserved_query_units s"
  "is_reserved_query_units (enqueue b s) = is_reserved_query_units s"
  by (simp_all add: drop_queue_def enqueue_def)

lemma policy_simps [simp]:
  "wd_policy (update_event now i s w d e db) = wd_policy db"
  "wd_policy (st_db (note_event now c s w d e st)) = wd_policy (st_db st)"
  "wd_policy (st_db (abandon now c s e st)) = wd_policy (st_db st)"
  "wd_policy (st_db (wait_or_expire now x c st)) = wd_policy (st_db st)"
  "wd_policy (st_db (finish_call now c s w d e st)) = wd_policy (st_db st)"
  "st_slot (abandon now c s e st) = drop_queue (cl_query c) (st_slot st)"
  "st_slot (finish_call now c s w d e st) = st_slot st"
  "st_slot (wait_or_expire now x c st) = (if x then drop_queue (cl_query c) (st_slot st) else st_slot st)"
  by (simp_all add: update_event_def note_event_def abandon_def wait_or_expire_def finish_call_def Let_def)

lemma create_event_policy: "create_event now e db = Inr db' \<Longrightarrow> wd_policy db' = wd_policy db"
  by (auto simp: create_event_def Let_def split: if_splits)

lemma start_call_slot:
  "start_call now inst i r st = Inr st' \<Longrightarrow>
    wd_policy (st_db st') = wd_policy (st_db st) \<and> st_slot st' = st_slot st"
  by (auto simp: start_call_def Let_def split: sum.splits prod.splits if_splits dest: create_event_policy)

lemma loop_within_limits:
  assumes "within_limits m q st"
  shows "within_limits m q (admit_loop now inst expired c st)"
  by (cases rule: admission_loop_cases [of now inst expired c st])
     (use assms in \<open>auto simp: within_limits_def limited_def take_slot_def\<close>)

lemma limits_step:
  assumes "admission_step inst ev st st'" "within_limits m q st" "keeps_limits m q ev"
  shows "within_limits m q st'"
  using assms(1)
proof (cases rule: admission_step.cases)
  case (arrive now i r)
  then show ?thesis using assms(2) start_call_slot [OF arrive(2)]
    by (simp add: within_limits_def)
next
  case (enter c now expired)
  have "within_limits m q (st\<lparr>st_slot := enqueue (cl_query c) (st_slot st)\<rparr>)"
    using assms(2) by (simp add: within_limits_def)
  with enter show ?thesis using loop_within_limits by simp
next
  case (new_policy now p)
  then show ?thesis using assms(2,3) by (auto simp: within_limits_def limited_def update_workload_policy_def)
qed (use assms(2) loop_within_limits in \<open>auto simp: within_limits_def release_slot_def\<close>)

lemma limits_run:
  "admission_run inst ok st st' \<Longrightarrow> (\<And>ev. ok ev \<Longrightarrow> keeps_limits m q ev) \<Longrightarrow> within_limits m q st \<Longrightarrow>
    within_limits m q st'"
  by (induction rule: admission_run.induct) (auto intro: limits_step)

text \<open>C2. However calls arrive, wait, are cancelled or fail - the transitions that lose a slot
  included - and however the policy changes below the bounds \<open>m\<close> and \<open>q\<close>, at most \<open>m\<close> calls and at
  most \<open>q\<close> queries are past their admission at a time.\<close>

theorem concurrency_bounded:
  assumes "limited m q (wd_policy db)" "0 \<le> m" "0 \<le> q"
    and "admission_run inst (keeps_limits m q) (fresh_instance db) st"
  shows "int (length (filter (\<lambda>c. cl_phase c \<in> {AdmitReport, Running, Releasing}) (st_calls st))) \<le> m \<and>
    int (length (filter (\<lambda>c. cl_phase c \<in> {AdmitReport, Running, Releasing} \<and> cl_query c) (st_calls st))) \<le> q"
proof -
  have "account False st" using account_run [OF assms(4)] account_fresh by blast
  moreover have "within_limits m q st"
    using limits_run [OF assms(4)] assms(1-3) by (simp add: within_limits_def fresh_instance_def idle_instance_def)
  ultimately show ?thesis
    unfolding count_total
    by (simp add: account_def agrees_def expected_def within_limits_def active_of_def [abs_def]
        active_query_of_def [abs_def] holds_slot_def)
qed

text \<open>C3. When no admission report fails and no release is cancelled, every counter of the instance
  returns to zero once every call is finished: no slot, queue position or reserved unit is lost.\<close>

theorem slots_are_returned:
  assumes "admission_run inst (\<lambda>ev. \<not> loses_slot ev) (fresh_instance db) st"
    and "\<forall>c \<in> set (st_calls st). cl_phase c = Finished"
  shows "st_slot st = idle_instance"
proof -
  have "account True st" using account_run [OF assms(1)] account_fresh by blast
  moreover have "call_total f (st_calls st) = 0" if "\<And>c. cl_phase c = Finished \<Longrightarrow> f c = 0" for f
  proof -
    have "map f (st_calls st) = map (\<lambda>_. 0) (st_calls st)" using assms(2) that by simp
    then show ?thesis by (metis sum_list_0 call_total_def)
  qed
  ultimately show ?thesis
    by (simp add: account_def agrees_def expected_def idle_instance_def weight_defs phase_defs)
qed


subsection \<open>A concrete run\<close>

definition sample_call :: call_request where
  "sample_call = request_of ''run_query'' ''analyst-query'' ''f''
     \<lparr>ca_query = Some ''x'', ca_search = None, ca_earliest_time = None,
      ca_latest_time = None, ca_row_limit = None, ca_count = None\<rparr>"

definition sample_arrived :: admission_state where
  "sample_arrived = \<lparr>st_db = (initial_workload 0)\<lparr>wd_events :=
       [\<lparr>we_id = ''e1'', we_instance_id = ''splunk'', we_operation = ''analyst-query'',
         we_logical_name = ''run_query'', we_lane = QueryLane, we_query_fingerprint = ''f'',
         we_risk = ''medium'', we_risk_score = 28, we_cost_units = 33, we_decision = Allow,
         we_status = WQueued, we_reasons = [], we_wait_ms = 0, we_duration_ms = 0,
         we_policy_generation = 1, we_created_at = 0, we_started_at = None, we_completed_at = None,
         we_error = []\<rparr>]\<rparr>,
     st_slot = idle_instance,
     st_calls = [\<lparr>cl_event = ''e1'', cl_query = True, cl_cost_units = 33, cl_risk_score = 28,
        cl_timeout_seconds = 60, cl_reported = False, cl_phase = Arriving\<rparr>],
     st_lock = None\<rparr>"

definition sample_admitted :: admission_state where
  "sample_admitted = (let c = hd (st_calls sample_arrived) in
     admit_loop 0 ''splunk'' False c (sample_arrived\<lparr>st_slot := enqueue (cl_query c) (st_slot sample_arrived)\<rparr>))"

definition sample_failed :: admission_state where
  "sample_failed = abandon 0 (hd (st_calls sample_admitted)) WCancelled [] sample_admitted"

definition sample_released :: admission_state where
  "sample_released = (let
     c1 = hd (st_calls sample_admitted);
     running = set_phase c1 Running (note_event 0 c1 WRunning 5 0 [] (sample_admitted\<lparr>st_lock := None\<rparr>));
     c2 = hd (st_calls running);
     done = finish_call 0 c2 WComplete 5 9 [] running;
     c3 = hd (st_calls done)
   in set_phase c3 Finished (done\<lparr>st_slot := release_slot (cl_query c3) (cl_cost_units c3) (st_slot done)\<rparr>))"

lemma run_step:
  "admission_run inst ok st st' \<Longrightarrow> admission_step inst ev st' st'' \<Longrightarrow> ok ev \<Longrightarrow> admission_run inst ok st st''"
  by (rule admission_run.more)

lemma sample_arrives:
  assumes "\<And>r. ok (Arrive 0 ''e1'' r)"
  shows "admission_run ''splunk'' ok (fresh_instance (initial_workload 0)) sample_arrived"
proof (rule run_step [OF admission_run.here admission_step.arrive])
  show "start_call 0 ''splunk'' ''e1'' sample_call (fresh_instance (initial_workload 0)) = Inr sample_arrived"
    by code_simp
qed (use assms in \<open>auto simp: fresh_instance_def\<close>)

lemma sample_admits:
  assumes "\<And>r. ok (Arrive 0 ''e1'' r)" "ok (Enter 0 ''e1'' False)"
  shows "admission_run ''splunk'' ok (fresh_instance (initial_workload 0)) sample_admitted"
proof -
  let ?c = "hd (st_calls sample_arrived)"
  have "?c \<in> set (st_calls sample_arrived)" "cl_phase ?c = Arriving" "st_lock sample_arrived = None"
    "cl_event ?c = ''e1''"
    by code_simp+
  with admission_step.enter [of ?c sample_arrived "''splunk''" 0 False] show ?thesis
    using run_step [OF sample_arrives [of ok]] assms
    by (simp add: sample_admitted_def Let_def)
qed

text \<open>
  A call whose admission report failed is finished, but its slot is not released. The state in which it
  is still running (\<open>revive\<close>) makes the same transitions, and its account holds.
\<close>

definition revive :: "string \<Rightarrow> admission_state \<Rightarrow> admission_state" where
  "revive i st = st\<lparr>st_calls := sql_update (\<lambda>x. cl_event x = i) (\<lambda>x. x\<lparr>cl_phase := Running\<rparr>) (st_calls st)\<rparr>"

lemma revive_simps [simp]:
  "st_db (revive i st) = st_db st" "st_slot (revive i st) = st_slot st" "st_lock (revive i st) = st_lock st"
  "revive i (st\<lparr>st_db := db\<rparr>) = (revive i st)\<lparr>st_db := db\<rparr>"
  "revive i (st\<lparr>st_slot := s\<rparr>) = (revive i st)\<lparr>st_slot := s\<rparr>"
  "revive i (st\<lparr>st_lock := l\<rparr>) = (revive i st)\<lparr>st_lock := l\<rparr>"
  by (simp_all add: revive_def)

lemma revive_ids: "map cl_event (st_calls (revive i st)) = map cl_event (st_calls st)"
  by (simp add: revive_def map_sql_update)

lemma revive_note: "revive i (note_event now c status w d err st) = note_event now c status w d err (revive i st)"
  by (simp add: note_event_def)

lemma revive_phase: "cl_event c \<noteq> i \<Longrightarrow> revive i (set_phase c ph st) = set_phase c ph (revive i st)"
  by (auto simp: revive_def set_phase_def sql_update_def)

lemma revive_abandon:
  "cl_event c \<noteq> i \<Longrightarrow> revive i (abandon now c status err st) = abandon now c status err (revive i st)"
  by (simp add: abandon_def revive_phase revive_note)

lemma revive_wait:
  "cl_event c \<noteq> i \<Longrightarrow> revive i (wait_or_expire now expired c st) = wait_or_expire now expired c (revive i st)"
  by (simp add: wait_or_expire_def revive_phase revive_abandon)

lemma revive_finish:
  "cl_event c \<noteq> i \<Longrightarrow> revive i (finish_call now c status w d err st) = finish_call now c status w d err (revive i st)"
  by (simp add: finish_call_def revive_phase revive_note)

lemma revive_reported:
  "revive i (st\<lparr>st_calls := sql_update p (\<lambda>x. x\<lparr>cl_reported := True\<rparr>) (st_calls st)\<rparr>) =
     (revive i st)\<lparr>st_calls := sql_update p (\<lambda>x. x\<lparr>cl_reported := True\<rparr>) (st_calls (revive i st))\<rparr>"
  if "\<And>x. p (x\<lparr>cl_phase := Running\<rparr>) = p x"
  using that by (auto simp: revive_def sql_update_def)

lemma revive_loop:
  assumes "cl_event c \<noteq> i"
  shows "revive i (admit_loop now inst expired c st) = admit_loop now inst expired c (revive i st)"
  using assms unfolding admit_loop_def
  by (simp add: revive_phase revive_note revive_abandon revive_wait revive_reported Let_def split: admission.split)

lemmas revive_steps = revive_phase revive_note revive_abandon revive_wait revive_finish revive_loop

text \<open>The finished call \<open>c\<close> takes part in no transition.\<close>

definition ended_call :: "workload_call \<Rightarrow> admission_state \<Rightarrow> bool" where
  "ended_call c st = (\<exists>x \<in> set (st_calls st). cl_event x = cl_event c \<and> cl_phase x = Finished \<and>
     cl_query x = cl_query c \<and> cl_cost_units x = cl_cost_units c)"

lemma ended_other:
  assumes "calls_wf st" "ended_call c st" "x \<in> set (st_calls st)" "cl_phase x \<noteq> Finished"
  shows "cl_event x \<noteq> cl_event c" "x \<in> set (st_calls (revive (cl_event c) st))"
proof -
  show "cl_event x \<noteq> cl_event c"
    using assms(2-4) calls_wf_same [OF assms(1,3)] by (metis ended_call_def)
  with assms(3) show "x \<in> set (st_calls (revive (cl_event c) st))" by (force simp: revive_def set_sql_update)
qed

lemma ended_kept:
  assumes "ended_call c st" "cl_event x \<noteq> cl_event c" "st_calls st' = st_calls st"
  shows "ended_call c (set_phase x ph st')"
  using assms by (force simp: ended_call_def calls_of_set_phase)

lemma ended_loop:
  assumes "ended_call c st" "cl_event x \<noteq> cl_event c"
  shows "ended_call c (admit_loop now inst expired x st)"
proof (cases rule: admission_loop_cases [of now inst expired x st])
  case (first st')
  have "ended_call c st'" unfolding first(1) by (rule ended_kept [OF assms]) simp
  then show ?thesis unfolding first(2) using assms(2)
    by (force simp: ended_call_def set_sql_update)
qed (use assms in \<open>auto simp: wait_or_expire_def abandon_def intro!: ended_kept [OF assms]\<close>)

lemma revive_arrive:
  assumes "start_call now inst i r st = Inr st'" "i \<noteq> k"
  shows "start_call now inst i r (revive k st) = Inr (revive k st')"
proof -
  have "call_row now inst i r (revive k st) = call_row now inst i r st"
    "new_call i r (revive k st) = new_call i r st"
    by (simp_all add: call_row_def call_assessment_def new_call_def)
  moreover have "cl_event (new_call i r st) = i" by (simp add: new_call_def)
  ultimately show ?thesis
    using assms by (auto simp: start_call_def Let_def revive_def sql_update_def split: sum.splits if_splits)
qed

lemma revive_step:
  assumes "admission_step inst ev st st'" "calls_wf st" "ended_call c st"
  shows "admission_step inst ev (revive (cl_event c) st) (revive (cl_event c) st') \<and> ended_call c st'"
  using assms(1)
proof (cases rule: admission_step.cases)
  case (arrive now i r)
  obtain x where x: "x \<in> set (st_calls st)" "cl_event x = cl_event c" "cl_phase x = Finished"
    "cl_query x = cl_query c" "cl_cost_units x = cl_cost_units c"
    using assms(3) by (auto simp: ended_call_def)
  then have i: "i \<noteq> cl_event c" using arrive(3) by (metis image_eqI)
  have "i \<notin> cl_event ` set (st_calls (revive (cl_event c) st))"
    using arrive(3) revive_ids [of "cl_event c" st] by (metis set_map)
  moreover have "set (st_calls st) \<subseteq> set (st_calls st')"
    using arrive(2) by (auto simp: start_call_def Let_def split: sum.splits if_splits)
  ultimately show ?thesis
    using arrive(1) admission_step.arrive [OF revive_arrive [OF arrive(2) i]] x by (auto simp: ended_call_def)
next
  case (enter x now expired)
  note o = ended_other [OF assms(2,3) enter(3)]
  let ?st = "st\<lparr>st_slot := enqueue (cl_query x) (st_slot st)\<rparr>"
  have "ended_call c ?st" using assms(3) by (simp add: ended_call_def)
  from ended_loop [OF this] have "ended_call c st'" using enter(2,4) o by simp
  moreover have "admission_step inst ev (revive (cl_event c) st) (revive (cl_event c) st')"
    using admission_step.enter [of x "revive (cl_event c) st" inst now expired] enter o
    by (simp add: revive_steps)
  ultimately show ?thesis by blast
next
  case (wake x now expired)
  note o = ended_other [OF assms(2,3) wake(3)]
  show ?thesis
    using admission_step.wake [of x "revive (cl_event c) st" inst now expired] ended_loop [OF assms(3)] wake o
    by (simp add: revive_steps)
next
  case (queue_reported x now expired)
  note o = ended_other [OF assms(2,3) queue_reported(3)]
  have "ended_call c st'" unfolding queue_reported(2) wait_or_expire_def abandon_def
    using o queue_reported(4) by (auto intro!: ended_kept [OF assms(3)])
  moreover have "admission_step inst ev (revive (cl_event c) st) (revive (cl_event c) st')"
    using admission_step.queue_reported [of x "revive (cl_event c) st" inst now expired] queue_reported o
    by (simp add: revive_steps)
  ultimately show ?thesis by blast
next
  case (queue_report_failed x status now err)
  note o = ended_other [OF assms(2,3) queue_report_failed(3)]
  have "ended_call c st'" unfolding queue_report_failed(2) abandon_def
    using o queue_report_failed(4) by (auto intro!: ended_kept [OF assms(3)])
  moreover have "admission_step inst ev (revive (cl_event c) st) (revive (cl_event c) st')"
    using admission_step.queue_report_failed [of x "revive (cl_event c) st" status inst now err]
      queue_report_failed o by (simp add: revive_steps)
  ultimately show ?thesis by blast
next
  case (admit_reported x now wait_ms)
  note o = ended_other [OF assms(2,3) admit_reported(3)]
  have "ended_call c st'" unfolding admit_reported(2)
    using o admit_reported(4) by (auto intro!: ended_kept [OF assms(3)])
  moreover have "admission_step inst ev (revive (cl_event c) st) (revive (cl_event c) st')"
    using admission_step.admit_reported [of x "revive (cl_event c) st" inst now wait_ms] admit_reported o
    by (simp add: revive_steps)
  ultimately show ?thesis by blast
next
  case (admit_report_failed x status now err)
  note o = ended_other [OF assms(2,3) admit_report_failed(3)]
  have "ended_call c st'" unfolding admit_report_failed(2) abandon_def
    using o admit_report_failed(4) by (auto intro!: ended_kept [OF assms(3)])
  moreover have "admission_step inst ev (revive (cl_event c) st) (revive (cl_event c) st')"
    using admission_step.admit_report_failed [of x "revive (cl_event c) st" status inst now err]
      admit_report_failed o by (simp add: revive_steps)
  ultimately show ?thesis by blast
next
  case (give_up x status now)
  note o = ended_other [OF assms(2,3) give_up(3)]
  have "ended_call c st'" unfolding give_up(2) abandon_def
    using o give_up(4) by (auto intro!: ended_kept [OF assms(3)])
  moreover have "admission_step inst ev (revive (cl_event c) st) (revive (cl_event c) st')"
    using admission_step.give_up [of x "revive (cl_event c) st" status inst now] give_up o
    by (simp add: revive_steps)
  ultimately show ?thesis by blast
next
  case (cancel_arriving x now)
  note o = ended_other [OF assms(2,3) cancel_arriving(3)]
  have "ended_call c st'" unfolding cancel_arriving(2)
    using o cancel_arriving(4) by (auto intro!: ended_kept [OF assms(3)])
  moreover have "admission_step inst ev (revive (cl_event c) st) (revive (cl_event c) st')"
    using admission_step.cancel_arriving [of x "revive (cl_event c) st" inst now] cancel_arriving o
    by (simp add: revive_steps)
  ultimately show ?thesis by blast
next
  case (finish x status now wait_ms duration_ms err)
  note o = ended_other [OF assms(2,3) finish(3)]
  have "ended_call c st'" unfolding finish(2) finish_call_def
    using o finish(4) by (auto intro!: ended_kept [OF assms(3)])
  moreover have "admission_step inst ev (revive (cl_event c) st) (revive (cl_event c) st')"
    using admission_step.finish [of x "revive (cl_event c) st" status inst now wait_ms duration_ms err] finish o
    by (simp add: revive_steps)
  ultimately show ?thesis by blast
next
  case (release x now)
  note o = ended_other [OF assms(2,3) release(3)]
  have "ended_call c st'" unfolding release(2)
    using o release(4) by (auto intro!: ended_kept [OF assms(3)])
  moreover have "admission_step inst ev (revive (cl_event c) st) (revive (cl_event c) st')"
    using admission_step.release [of x "revive (cl_event c) st" inst now] release o by (simp add: revive_steps)
  ultimately show ?thesis by blast
next
  case (release_cancelled x now)
  note o = ended_other [OF assms(2,3) release_cancelled(3)]
  have "ended_call c st'" unfolding release_cancelled(2)
    using o release_cancelled(4) by (auto intro!: ended_kept [OF assms(3)])
  moreover have "admission_step inst ev (revive (cl_event c) st) (revive (cl_event c) st')"
    using admission_step.release_cancelled [of x "revive (cl_event c) st" inst now] release_cancelled o
    by (simp add: revive_steps)
  ultimately show ?thesis by blast
next
  case (new_policy now p)
  then show ?thesis
    using admission_step.new_policy [of inst now p "revive (cl_event c) st"] assms(3) by (simp add: ended_call_def)
qed

lemma revive_run:
  assumes "admission_run inst ok st st'" "account False st" "account False (revive (cl_event c) st)" "ended_call c st"
  shows "account False st' \<and> account False (revive (cl_event c) st') \<and> ended_call c st'"
  using assms
proof (induction rule: admission_run.induct)
  case (more st st' ev st'')
  then have ih: "account False st'" "account False (revive (cl_event c) st')" "ended_call c st'" by blast+
  then have "calls_wf st'" by (simp add: account_def)
  from revive_step [OF more.hyps(2) this ih(3)] ih account_step [OF more.hyps(2)] account_step
  show ?case by blast
qed simp

lemma revive_set_phase: "cl_event x = i \<Longrightarrow> revive i (set_phase x ph st) = set_phase x Running st"
  by (auto simp: revive_def set_phase_def sql_update_def)

lemma revive_same: "cl_event x = i \<Longrightarrow> revive i st = set_phase x Running st"
  by (simp add: revive_def set_phase_def)

lemma account_revived:
  assumes "account False st" "c \<in> set (st_calls st)" "cl_phase c = AdmitReport"
  shows "account False (revive (cl_event c) (abandon now c status err st))"
proof -
  have wf: "calls_wf st" using assms(1) by (simp add: account_def)
  let ?st = "note_event now c status 0 0 err (st\<lparr>st_slot := drop_queue (cl_query c) (st_slot st), st_lock := None\<rparr>)"
  have "agrees False (st_slot ?st) (expected (st_calls (set_phase c Running ?st)))"
    unfolding expected_set_phase [OF wf assms(2), of ?st, simplified]
    using assms by (auto simp: weight_defs phase_defs account_def agrees_def)
  then have "account False (set_phase c Running ?st)"
    using assms(3) by (intro account_set_phase [OF wf assms(2)]) (auto simp: reports_def)
  then show ?thesis by (simp add: abandon_def revive_set_phase)
qed

text \<open>C4. A slot is lost for good when the report of a granted admission fails: in every state that the
  instance reaches afterwards, whatever else happens, it counts at least one more active call than calls
  are past their admission, and, if the call was a query, at least one more active query and its cost
  units more than the queries past their admission reserved.\<close>

theorem failed_admission_report_loses_slot:
  assumes "admission_run inst ok (fresh_instance db) st" "c \<in> set (st_calls st)" "cl_phase c = AdmitReport"
    and failed: "admission_step inst (AdmitReportFailed now (cl_event c) status err) st st1"
    and later: "admission_run inst later st1 st2"
    and past: "past = filter (\<lambda>x. cl_phase x \<in> {AdmitReport, Running, Releasing}) (st_calls st2)"
  shows "int (length past) + 1 \<le> is_active_calls (st_slot st2) \<and>
    (cl_query c \<longrightarrow> int (length (filter cl_query past)) + 1 \<le> is_active_queries (st_slot st2) \<and>
       sum_list (map cl_cost_units (filter cl_query past)) + cl_cost_units c
         \<le> is_reserved_query_units (st_slot st2))"
proof -
  have acc: "account False st" using account_run [OF assms(1)] account_fresh by blast
  then have wf: "calls_wf st" by (simp add: account_def)
  from failed assms(2) calls_wf_same [OF wf]
  have st1: "st1 = abandon now c status (failure_text status err) st"
    by (cases rule: admission_step.cases) blast
  have "ended_call c st1"
    unfolding st1 abandon_def ended_call_def calls_of_set_phase
    by (rule bexI [of _ "c\<lparr>cl_phase := Finished\<rparr>"]) (use assms(2) in \<open>simp_all add: image_iff\<close>, force)
  then have inv: "account False st2" "account False (revive (cl_event c) st2)" "ended_call c st2"
    using revive_run [OF later, of c] account_step [OF failed acc] account_revived [OF acc assms(2,3)]
    unfolding st1 by blast+
  then obtain x where x: "x \<in> set (st_calls st2)" "cl_event x = cl_event c" "cl_phase x = Finished"
    "cl_query x = cl_query c" "cl_cost_units x = cl_cost_units c" by (auto simp: ended_call_def)
  have wf2: "calls_wf st2" using inv(1) by (simp add: account_def)
  have counts: "int (length past) = call_total active_of (st_calls st2)"
    "int (length (filter cl_query past)) = call_total active_query_of (st_calls st2)"
    "sum_list (map cl_cost_units (filter cl_query past)) = call_total reserved_of (st_calls st2)"
    unfolding past by (simp_all add: count_total sum_list_filter_if filter_filter call_total_def weight_defs [abs_def]
        holds_slot_def conj_commute if_distrib cong: if_cong)
  have "agrees False (st_slot st2) (expected (st_calls (set_phase x Running st2)))"
    using inv(2) by (simp add: account_def revive_same [OF x(2)])
  then show ?thesis
    unfolding counts expected_set_phase [OF wf2 x(1) refl]
    using x by (auto simp: agrees_def expected_def weight_defs holds_slot_def)
qed

lemma failed_admission_report_loses_slot_witness:
  "admission_run ''splunk'' (\<lambda>_. True) (fresh_instance (initial_workload 0)) sample_failed \<and>
    list_all (\<lambda>c. cl_phase c = Finished) (st_calls sample_failed) \<and>
    1 \<le> is_active_calls (st_slot sample_failed) \<and> 1 \<le> is_active_queries (st_slot sample_failed) \<and>
    33 \<le> is_reserved_query_units (st_slot sample_failed)"
proof -
  let ?c = "hd (st_calls sample_admitted)"
  have c: "?c \<in> set (st_calls sample_admitted)" "cl_phase ?c = AdmitReport" "cl_query ?c" "cl_cost_units ?c = 33"
    by code_simp+
  have s: "admission_step ''splunk'' (AdmitReportFailed 0 (cl_event ?c) WCancelled []) sample_admitted sample_failed"
    using admission_step.admit_report_failed [OF c(1,2), of WCancelled "''splunk''" 0 "[]"]
    by (simp add: sample_failed_def failure_text_def)
  have run: "admission_run ''splunk'' (\<lambda>_. True) (fresh_instance (initial_workload 0)) sample_admitted"
    by (rule sample_admits) simp_all
  have past: "[] = filter (\<lambda>x. cl_phase x \<in> {AdmitReport, Running, Releasing}) (st_calls sample_failed)"
    and ended: "list_all (\<lambda>c. cl_phase c = Finished) (st_calls sample_failed)"
    by code_simp+
  from failed_admission_report_loses_slot [OF run c(1,2) s admission_run.here past] c(3,4)
    run_step [OF run s] ended
  show ?thesis by simp
qed

lemma concurrency_bounded_witness:
  "admission_run ''splunk'' (keeps_limits 6 2) (fresh_instance (initial_workload 0)) sample_admitted \<and>
    int (length (filter (\<lambda>c. cl_phase c \<in> {AdmitReport, Running, Releasing}) (st_calls sample_admitted))) \<le> 6 \<and>
    int (length (filter (\<lambda>c. cl_phase c \<in> {AdmitReport, Running, Releasing} \<and> cl_query c)
      (st_calls sample_admitted))) \<le> 2"
proof
  show run: "admission_run ''splunk'' (keeps_limits 6 2) (fresh_instance (initial_workload 0)) sample_admitted"
    by (rule sample_admits) simp_all
  show "int (length (filter (\<lambda>c. cl_phase c \<in> {AdmitReport, Running, Releasing}) (st_calls sample_admitted))) \<le> 6 \<and>
    int (length (filter (\<lambda>c. cl_phase c \<in> {AdmitReport, Running, Releasing} \<and> cl_query c)
      (st_calls sample_admitted))) \<le> 2"
    by (rule concurrency_bounded [OF _ _ _ run]) (simp_all add: limited_def initial_workload_def)
qed

lemma sample_releases:
  assumes "\<And>r. ok (Arrive 0 ''e1'' r)" "ok (Enter 0 ''e1'' False)" "ok (AdmitReported 0 ''e1'' 5)"
    "ok (Finish 0 ''e1'' WComplete 5 9 [])" "ok (Release 0 ''e1'')"
  shows "admission_run ''splunk'' ok (fresh_instance (initial_workload 0)) sample_released"
proof -
  let ?c1 = "hd (st_calls sample_admitted)"
  let ?s1 = "set_phase ?c1 Running (note_event 0 ?c1 WRunning 5 0 [] (sample_admitted\<lparr>st_lock := None\<rparr>))"
  let ?c2 = "hd (st_calls ?s1)"
  let ?s2 = "finish_call 0 ?c2 WComplete 5 9 [] ?s1"
  let ?c3 = "hd (st_calls ?s2)"
  have c1: "?c1 \<in> set (st_calls sample_admitted)" "cl_phase ?c1 = AdmitReport" "cl_event ?c1 = ''e1''"
    by code_simp+
  have c2: "?c2 \<in> set (st_calls ?s1)" "cl_phase ?c2 = Running" "cl_event ?c2 = ''e1''"
    by code_simp+
  have c3: "?c3 \<in> set (st_calls ?s2)" "cl_phase ?c3 = Releasing" "st_lock ?s2 = None" "cl_event ?c3 = ''e1''"
    by code_simp+
  have r1: "admission_run ''splunk'' ok (fresh_instance (initial_workload 0)) ?s1"
    using run_step [OF sample_admits admission_step.admit_reported [OF c1(1,2)]] assms c1(3) by metis
  have r2: "admission_run ''splunk'' ok (fresh_instance (initial_workload 0)) ?s2"
    using run_step [OF r1 admission_step.finish [OF c2(1,2)]] assms c2(3) by simp
  from run_step [OF r2 admission_step.release [OF c3(1-3)]] assms c3(4) show ?thesis
    by (simp add: sample_released_def Let_def)
qed

lemma slots_are_returned_witness:
  "admission_run ''splunk'' (\<lambda>ev. \<not> loses_slot ev) (fresh_instance (initial_workload 0)) sample_released \<and>
    st_calls sample_released \<noteq> [] \<and> st_slot sample_released = idle_instance"
proof (intro conjI)
  show run: "admission_run ''splunk'' (\<lambda>ev. \<not> loses_slot ev) (fresh_instance (initial_workload 0)) sample_released"
    by (rule sample_releases) simp_all
  have "list_all (\<lambda>c. cl_phase c = Finished) (st_calls sample_released)" by code_simp
  then show "st_slot sample_released = idle_instance"
    by (intro slots_are_returned [OF run]) (simp add: list_all_iff)
  show "st_calls sample_released \<noteq> []" by code_simp
qed


subsection \<open>The daily budget\<close>

text \<open>A query event of the day that was started and has ended with a result, an error or a restart.\<close>

definition spent_event :: "string \<Rightarrow> int \<Rightarrow> workload_event \<Rightarrow> bool" where
  "spent_event inst d e = (we_instance_id e = inst \<and> we_lane e = QueryLane \<and> utc_day (we_created_at e) = d
     \<and> we_status e \<in> {WComplete, WError, WInterrupted} \<and> we_started_at e \<noteq> None)"

definition spent_of :: "string \<Rightarrow> int \<Rightarrow> workload_event \<Rightarrow> int" where
  "spent_of inst d e = (if spent_event inst d e then we_cost_units e else 0)"

definition spent_units :: "string \<Rightarrow> int \<Rightarrow> workload_db \<Rightarrow> int" where
  "spent_units inst d db = sum_list (map (spent_of inst d) (wd_events db))"

definition running_of :: "workload_call \<Rightarrow> int" where
  "running_of c = (if cl_query c \<and> cl_phase c \<in> {AdmitReport, Running} then cl_cost_units c else 0)"

definition events_wf :: "workload_db \<Rightarrow> bool" where
  "events_wf db = (distinct (map we_id (wd_events db)) \<and> (\<forall>e \<in> set (wd_events db). 0 \<le> we_cost_units e))"

text \<open>What the event of a live call looks like, as long as it was not pruned.\<close>

definition event_matches :: "workload_call \<Rightarrow> workload_event \<Rightarrow> bool" where
  "event_matches c e = (we_cost_units e = cl_cost_units c \<and> (we_lane e = QueryLane \<longrightarrow> cl_query c)
     \<and> (cl_phase c \<in> {Arriving, QueueReport, Waiting, AdmitReport} \<longrightarrow> we_started_at e = None)
     \<and> (cl_phase c = Running \<longrightarrow> we_status e = WRunning))"

definition events_match :: "admission_state \<Rightarrow> bool" where
  "events_match st = (\<forall>c \<in> set (st_calls st). \<forall>e \<in> set (wd_events (st_db st)).
     we_id e = cl_event c \<longrightarrow> event_matches c e)"

definition budget_inv :: "string \<Rightarrow> int \<Rightarrow> int \<Rightarrow> admission_state \<Rightarrow> bool" where
  "budget_inv inst d limit st = (events_wf (st_db st) \<and> events_match st
     \<and> wp_mode (wd_policy (st_db st)) = Enforce \<and> wp_daily_query_cost_units (wd_policy (st_db st)) \<le> limit
     \<and> spent_units inst d (st_db st) + call_total running_of (st_calls st) \<le> limit)"

text \<open>Admissions are decided on day \<open>d\<close> and the policy stays enforced with at most \<open>limit\<close> units.\<close>

fun within_day :: "int \<Rightarrow> int \<Rightarrow> admission_event \<Rightarrow> bool" where
  "within_day d limit (Enter now i x) = (utc_day now = d)"
| "within_day d limit (Wake now i x) = (utc_day now = d)"
| "within_day d limit (NewPolicy now p) = (wp_mode p = Enforce \<and> wp_daily_query_cost_units p \<le> limit)"
| "within_day d limit _ = True"

lemma spent_le_usage:
  assumes "events_wf db" "utc_day now = d"
  shows "spent_units inst d db \<le> daily_usage now inst db"
  unfolding spent_units_def daily_usage_def sum_list_filter_if
  using assms by (intro sum_list_mono_rows) (auto simp: spent_of_def spent_event_def counted_def events_wf_def)

lemma running_le_reserved:
  assumes "account strict st"
  shows "call_total running_of (st_calls st) \<le> is_reserved_query_units (st_slot st)"
proof -
  have "call_total running_of (st_calls st) \<le> call_total reserved_of (st_calls st)"
    unfolding call_total_def using assms
    by (intro sum_list_mono_rows) (auto simp: running_of_def reserved_of_def account_def calls_wf_def holds_slot_def)
  also have "\<dots> \<le> is_reserved_query_units (st_slot st)"
    using assms by (cases strict) (auto simp: account_def agrees_def expected_def)
  finally show ?thesis .
qed

definition stamp :: "instant \<Rightarrow> workload_status \<Rightarrow> int \<Rightarrow> int \<Rightarrow> string \<Rightarrow> workload_event \<Rightarrow> workload_event" where
  "stamp now status w d err e = e\<lparr>we_status := status, we_wait_ms := max 0 w, we_duration_ms := max 0 d,
     we_error := take 1000 err,
     we_started_at := coalesce (we_started_at e) (if status = WRunning then Some now else None),
     we_completed_at := coalesce (if status \<in> {WComplete, WError, WCancelled, WBlocked} then Some now else None)
       (we_completed_at e)\<rparr>"

lemma update_event_stamp:
  "update_event now i status w d err db =
    db\<lparr>wd_events := sql_update (\<lambda>e. we_id e = i) (stamp now status w d err) (wd_events db)\<rparr>"
  by (simp add: update_event_def stamp_def [abs_def] Let_def)

lemma stamp_simps [simp]:
  "we_id (stamp now status w d err e) = we_id e" "we_cost_units (stamp now status w d err e) = we_cost_units e"
  "we_lane (stamp now status w d err e) = we_lane e" "we_status (stamp now status w d err e) = status"
  "we_created_at (stamp now status w d err e) = we_created_at e"
  "we_instance_id (stamp now status w d err e) = we_instance_id e"
  "we_started_at (stamp now status w d err e) =
    coalesce (we_started_at e) (if status = WRunning then Some now else None)"
  by (simp_all add: stamp_def)

lemma sum_update_le:
  fixes f :: "'r \<Rightarrow> int"
  assumes "distinct (map key rows)" "\<And>r. r \<in> set rows \<Longrightarrow> key r = k \<Longrightarrow> f (g r) \<le> f r + n" "0 \<le> n"
  shows "sum_list (map f (sql_update (\<lambda>r. key r = k) g rows)) \<le> sum_list (map f rows) + n"
proof (cases "\<exists>r \<in> set rows. key r = k")
  case True
  then obtain r where r: "r \<in> set rows" "key r = k" by blast
  from sum_sql_update [OF assms(1) r] assms(2) [OF r] show ?thesis by simp
next
  case False
  then show ?thesis using assms(3) by (simp add: sql_update_other)
qed

lemma spent_update_le:
  assumes "events_wf db" "0 \<le> n"
    "\<And>e. e \<in> set (wd_events db) \<Longrightarrow> we_id e = i \<Longrightarrow>
      spent_of inst d0 (stamp now status w d err e) \<le> spent_of inst d0 e + n"
  shows "spent_units inst d0 (update_event now i status w d err db) \<le> spent_units inst d0 db + n"
  unfolding spent_units_def update_event_stamp
  using sum_update_le [of we_id "wd_events db" i "spent_of inst d0" "stamp now status w d err" n] assms
  by (simp add: events_wf_def)

lemma events_wf_update: "events_wf db \<Longrightarrow> events_wf (update_event now i status w d err db)"
  by (auto simp: events_wf_def update_event_stamp map_sql_update set_sql_update)

text \<open>A transition of \<open>c\<close> that stamps its event and moves its phase.\<close>

lemma events_match_move:
  assumes "calls_wf st" "events_match st" "c \<in> set (st_calls st)"
    and calls: "st_calls st' = st_calls st"
    and db: "st_db st' = update_event now (cl_event c) status w d err (st_db st)"
    and new: "\<And>e. e \<in> set (wd_events (st_db st)) \<Longrightarrow> we_id e = cl_event c \<Longrightarrow> event_matches c e \<Longrightarrow>
      event_matches (c\<lparr>cl_phase := ph\<rparr>) (stamp now status w d err e)"
  shows "events_match (set_phase c ph st')"
  unfolding events_match_def segment_simps
proof (intro ballI impI)
  fix x e assume x: "x \<in> set (st_calls (set_phase c ph st'))"
    and e: "e \<in> set (wd_events (st_db st'))" and id: "we_id e = cl_event x"
  obtain x0 where x0: "x0 \<in> set (st_calls st)" "x = (if cl_event x0 = cl_event c then x0\<lparr>cl_phase := ph\<rparr> else x0)"
    using x unfolding calls_of_set_phase calls by auto
  obtain e0 where e0: "e0 \<in> set (wd_events (st_db st))"
    "e = (if we_id e0 = cl_event c then stamp now status w d err e0 else e0)"
    using e unfolding db update_event_stamp by (auto simp: set_sql_update)
  have match: "we_id e0 = cl_event x0 \<Longrightarrow> event_matches x0 e0"
    using assms(2) x0(1) e0(1) by (simp add: events_match_def)
  show "event_matches x e"
  proof (cases "cl_event x0 = cl_event c")
    case True
    then have "x0 = c" using calls_wf_same assms(1,3) x0(1) by blast
    then show ?thesis using x0 e0 id match new [OF e0(1)] by (simp split: if_splits)
  next
    case False
    then show ?thesis using x0 e0 id match by (simp split: if_splits)
  qed
qed

lemma total_running_move:
  assumes "calls_wf st" "c \<in> set (st_calls st)" "st_calls st' = st_calls st"
  shows "call_total running_of (st_calls (set_phase c ph st')) =
    call_total running_of (st_calls st) - running_of c + running_of (c\<lparr>cl_phase := ph\<rparr>)"
proof -
  have "distinct (map cl_event (st_calls st'))" "c \<in> set (st_calls st')"
    using assms by (simp_all add: calls_wf_def)
  from total_set_phase [OF this] show ?thesis by (simp add: assms(3))
qed

text \<open>The general form of a transition that stamps the event of \<open>c\<close>.\<close>

lemma budget_move:
  assumes "budget_inv inst d limit st" "calls_wf st" "c \<in> set (st_calls st)"
    and calls: "st_calls st' = st_calls st"
    and db: "st_db st' = update_event now (cl_event c) status w du err (st_db st)"
    and new: "\<And>e. e \<in> set (wd_events (st_db st)) \<Longrightarrow> we_id e = cl_event c \<Longrightarrow> event_matches c e \<Longrightarrow>
      event_matches (c\<lparr>cl_phase := ph\<rparr>) (stamp now status w du err e) \<and>
      spent_of inst d (stamp now status w du err e) + running_of (c\<lparr>cl_phase := ph\<rparr>)
        \<le> spent_of inst d e + running_of c"
    and "running_of (c\<lparr>cl_phase := ph\<rparr>) \<le> running_of c"
  shows "budget_inv inst d limit (set_phase c ph st')"
proof -
  have inv: "events_wf (st_db st)" "events_match st" using assms(1) by (simp_all add: budget_inv_def)
  have match: "event_matches c e" if "e \<in> set (wd_events (st_db st))" "we_id e = cl_event c" for e
    using inv(2) assms(3) that by (simp add: events_match_def)
  have "spent_units inst d (st_db st') \<le> spent_units inst d (st_db st)
      + (running_of c - running_of (c\<lparr>cl_phase := ph\<rparr>))"
    unfolding db by (rule spent_update_le [OF inv(1)]) (use assms(7) new match in fastforce)+
  moreover have "events_match (set_phase c ph st')"
    by (rule events_match_move [OF assms(2) inv(2) assms(3) calls db]) (use new in blast)
  moreover have "events_wf (st_db st')" unfolding db by (rule events_wf_update [OF inv(1)])
  ultimately show ?thesis
    using assms(1) by (simp add: budget_inv_def total_running_move [OF assms(2,3) calls] db)
qed


lemma events_match_phase:
  assumes "calls_wf st" "events_match st" "c \<in> set (st_calls st)" "st_calls st' = st_calls st" "st_db st' = st_db st"
    and new: "\<And>e. event_matches c e \<Longrightarrow> event_matches (c\<lparr>cl_phase := ph\<rparr>) e"
  shows "events_match (set_phase c ph st')"
  unfolding events_match_def segment_simps
proof (intro ballI impI)
  fix x e assume x: "x \<in> set (st_calls (set_phase c ph st'))"
    and e: "e \<in> set (wd_events (st_db st'))" and id: "we_id e = cl_event x"
  obtain x0 where x0: "x0 \<in> set (st_calls st)" "x = (if cl_event x0 = cl_event c then x0\<lparr>cl_phase := ph\<rparr> else x0)"
    using x unfolding calls_of_set_phase assms(4) by auto
  have match: "we_id e = cl_event x0 \<Longrightarrow> event_matches x0 e"
    using assms(2,5) x0(1) e by (simp add: events_match_def)
  show "event_matches x e"
  proof (cases "cl_event x0 = cl_event c")
    case True
    then have "x0 = c" using calls_wf_same assms(1,3) x0(1) by blast
    then show ?thesis using x0 id match new by (simp split: if_splits)
  qed (use x0 id match in simp)
qed

lemma budget_phase:
  assumes "budget_inv inst d limit st" "calls_wf st" "c \<in> set (st_calls st)"
    and same: "st_calls st' = st_calls st" "st_db st' = st_db st"
    and new: "\<And>e. event_matches c e \<Longrightarrow> event_matches (c\<lparr>cl_phase := ph\<rparr>) e"
    and room: "spent_units inst d (st_db st) + call_total running_of (st_calls st) - running_of c
      + running_of (c\<lparr>cl_phase := ph\<rparr>) \<le> limit"
  shows "budget_inv inst d limit (set_phase c ph st')"
  using assms(1) room events_match_phase [OF assms(2) _ assms(3) same new]
  by (simp add: budget_inv_def total_running_move [OF assms(2,3) same(1)] same(2))

lemma budget_abandon:
  assumes "budget_inv inst d limit st" "calls_wf st" "c \<in> set (st_calls st)"
    and "cl_phase c \<in> {Arriving, QueueReport, Waiting, AdmitReport}" "status \<noteq> WRunning"
  shows "budget_inv inst d limit (abandon now c status err st)"
  unfolding abandon_def
  by (rule budget_move [OF assms(1-3), where now = now and status = status and w = 0 and du = 0 and err = err])
     (use assms(4,5) cost_nonneg [OF assms(2,3)] in
      \<open>auto simp: note_event_def event_matches_def spent_of_def spent_event_def running_of_def coalesce_def\<close>)

lemma budget_wait:
  assumes "budget_inv inst d limit st" "calls_wf st" "c \<in> set (st_calls st)"
    and "cl_phase c \<in> {Arriving, QueueReport, Waiting}"
  shows "budget_inv inst d limit (wait_or_expire now expired c st)"
proof -
  have "budget_inv inst d limit (set_phase c Waiting (st\<lparr>st_lock := None\<rparr>))"
    using assms by (intro budget_phase [OF assms(1-3)])
      (auto simp: event_matches_def running_of_def budget_inv_def)
  then show ?thesis
    using budget_abandon [OF assms(1-3)] assms(4) by (auto simp: wait_or_expire_def)
qed

lemma budget_slot: "budget_inv inst d limit st \<Longrightarrow> budget_inv inst d limit (st\<lparr>st_slot := s\<rparr>)"
  by (simp add: budget_inv_def events_match_def)

lemma budget_reported:
  assumes "budget_inv inst d limit st"
  shows "budget_inv inst d limit (st\<lparr>st_calls := sql_update p (\<lambda>x. x\<lparr>cl_reported := True\<rparr>) (st_calls st)\<rparr>)"
proof -
  have "call_total running_of (sql_update p (\<lambda>x. x\<lparr>cl_reported := True\<rparr>) calls) = call_total running_of calls" for calls
    by (induction calls) (auto simp: call_total_def sql_update_def running_of_def)
  moreover have "events_match (st\<lparr>st_calls := sql_update p (\<lambda>x. x\<lparr>cl_reported := True\<rparr>) (st_calls st)\<rparr>)"
    using assms by (auto simp: budget_inv_def events_match_def event_matches_def elim!: in_sql_update_cases)
  ultimately show ?thesis using assms by (simp add: budget_inv_def)
qed

lemma budget_loop:
  assumes "budget_inv inst d limit st" "calls_wf st" "c \<in> set (st_calls st)"
    and "cl_phase c \<in> {Arriving, Waiting}" "utc_day now = d"
    and res: "call_total running_of (st_calls st) \<le> is_reserved_query_units (st_slot st)"
  shows "budget_inv inst d limit (admit_loop now inst expired c st)"
proof (cases rule: admission_loop_cases [of now inst expired c st])
  case (blocked err)
  then show ?thesis using budget_abandon [OF assms(1-3)] assms(4) by auto
next
  case granted
  have inv: "events_wf (st_db st)" "wp_mode (wd_policy (st_db st)) = Enforce"
    "wp_daily_query_cost_units (wd_policy (st_db st)) \<le> limit"
    "spent_units inst d (st_db st) + call_total running_of (st_calls st) \<le> limit"
    using assms(1) by (simp_all add: budget_inv_def)
  have "spent_units inst d (st_db st) + call_total running_of (st_calls st) - running_of c
      + running_of (c\<lparr>cl_phase := AdmitReport\<rparr>) \<le> limit"
    using granted(3) inv spent_le_usage [OF inv(1) assms(5), of inst] res assms(4)
    by (auto simp: running_of_def)
  then show ?thesis unfolding granted(4)
    using assms(4) by (intro budget_phase [OF assms(1-3)]) (auto simp: event_matches_def)
next
  case again
  then show ?thesis using budget_wait [OF assms(1-3)] assms(4) by auto
next
  case (first st')
  have "budget_inv inst d limit st'"
    unfolding first(1)
  proof (rule budget_move [OF assms(1-3), where now = now and status = WQueued and w = 0 and du = 0 and err = "[]"])
    have run: "running_of c = 0" "running_of (c\<lparr>cl_phase := QueueReport\<rparr>) = 0"
      using assms(4) by (auto simp: running_of_def)
    then show "running_of (c\<lparr>cl_phase := QueueReport\<rparr>) \<le> running_of c" by simp
    fix e assume "e \<in> set (wd_events (st_db st))" and m: "event_matches c e"
    then have "0 \<le> spent_of inst d e" using assms(1) by (simp add: spent_of_def budget_inv_def events_wf_def)
    moreover have "spent_of inst d (stamp now WQueued 0 0 [] e) = 0" by (simp add: spent_of_def spent_event_def)
    moreover have "event_matches (c\<lparr>cl_phase := QueueReport\<rparr>) (stamp now WQueued 0 0 [] e)"
      using m assms(4) by (auto simp: event_matches_def coalesce_def)
    ultimately show "event_matches (c\<lparr>cl_phase := QueueReport\<rparr>) (stamp now WQueued 0 0 [] e) \<and>
        spent_of inst d (stamp now WQueued 0 0 [] e) + running_of (c\<lparr>cl_phase := QueueReport\<rparr>)
          \<le> spent_of inst d e + running_of c"
      using run by simp
  qed (simp_all add: note_event_def)
  then show ?thesis unfolding first(2) by (rule budget_reported)
qed

lemma sum_prune_le:
  fixes f :: "workload_event \<Rightarrow> int"
  shows "(\<And>e. e \<in> set es \<Longrightarrow> 0 \<le> f e) \<Longrightarrow> sum_list (map f (prune_events es)) \<le> sum_list (map f es)"
  unfolding prune_events_def sql_delete_def Let_def by (rule sum_list_filter_le)

lemma budget_arrive:
  assumes "budget_inv inst d limit st" "start_call now inst i r st = Inr st'" "i \<notin> cl_event ` set (st_calls st)"
  shows "budget_inv inst d limit st'"
proof -
  let ?r = "call_row now inst i r st"
  from assms(2) obtain db where s1: "create_event now ?r (st_db st) = Inr db"
    "st' = st\<lparr>st_db := db, st_calls := st_calls st @ (if we_decision ?r = Block then [] else [new_call i r st])\<rparr>"
    by (auto simp: start_call_def Let_def split: sum.splits)
  then obtain row calls where s: "create_event now row (st_db st) = Inr db" "we_id row = i"
    "we_cost_units row = es_cost_units (call_estimate r)" "we_lane row = QueryLane \<longleftrightarrow> is_query r"
    "we_status row \<in> {WBlocked, WQueued}"
    "st' = st\<lparr>st_db := db, st_calls := st_calls st @ calls\<rparr>"
    "\<forall>c \<in> set calls. cl_event c = i \<and> cl_query c = is_query r \<and>
       cl_cost_units c = es_cost_units (call_estimate r) \<and> cl_phase c = Arriving"
    "call_total running_of calls = 0"
    by (intro that [of ?r "if we_decision ?r = Block then [] else [new_call i r st]"])
       (auto simp: call_row_def new_call_def Let_def call_total_def running_of_def)
  let ?row = "row\<lparr>we_operation := take 160 (we_operation row), we_logical_name := take 160 (we_logical_name row),
        we_wait_ms := 0, we_duration_ms := 0, we_created_at := now, we_started_at := None,
        we_completed_at := None, we_error := []\<rparr>"
  have fresh: "i \<notin> we_id ` set (wd_events (st_db st))"
    and db: "db = (st_db st)\<lparr>wd_events := prune_events (wd_events (st_db st) @ [?row])\<rparr>"
    using s(1,2) by (auto simp: create_event_def Let_def list_ex_iff split: if_splits)
  have wf: "events_wf (st_db st)" and match: "events_match st" using assms(1) by (simp_all add: budget_inv_def)
  have dist: "distinct (map we_id (wd_events (st_db st) @ [?row]))"
    using wf fresh s(2) by (auto simp: events_wf_def)
  have sub: "set (wd_events db) \<subseteq> insert ?row (set (wd_events (st_db st)))"
    using prune_props(3) [OF dist] by (auto simp: db)
  have cost: "0 \<le> we_cost_units e" if "e \<in> insert ?row (set (wd_events (st_db st)))" for e
    using that wf s(3) call_cost_nonneg [of r] by (auto simp: events_wf_def)
  have "events_wf db"
    using prune_props(1) [OF dist] sub cost by (auto simp: events_wf_def db)
  moreover have "spent_units inst d db \<le> spent_units inst d (st_db st)"
  proof -
    have "spent_units inst d db \<le> sum_list (map (spent_of inst d) (wd_events (st_db st) @ [?row]))"
      using sum_prune_le [of "wd_events (st_db st) @ [?row]" "spent_of inst d"] cost
      by (auto simp: spent_units_def db spent_of_def)
    moreover have "spent_of inst d ?row = 0" using s(5) by (auto simp: spent_of_def spent_event_def)
    ultimately show ?thesis by (simp add: spent_units_def)
  qed
  moreover have "events_match st'"
    unfolding events_match_def
  proof (intro ballI impI)
    fix c e assume c: "c \<in> set (st_calls st')" and e: "e \<in> set (wd_events (st_db st'))" and id: "we_id e = cl_event c"
    have e': "e = ?row \<or> e \<in> set (wd_events (st_db st))" using e sub s(6) by auto
    show "event_matches c e"
    proof (cases "c \<in> set (st_calls st)")
      case True
      then have "cl_event c \<noteq> i" using assms(3) by auto
      then have "e \<in> set (wd_events (st_db st))" using e' id s(2) by auto
      then show ?thesis using match True id by (simp add: events_match_def)
    next
      case False
      then have c': "c \<in> set calls" using c s(6) by auto
      then have "we_id e = i" using id s(7) by simp
      then have "e = ?row" using e' fresh by auto
      then show ?thesis using s(3-5,7) c' by (auto simp: event_matches_def)
    qed
  qed
  ultimately show ?thesis
    using assms(1) s(6,8) create_event_policy [OF s(1)] by (simp add: budget_inv_def call_total_def)
qed

lemma budget_step:
  assumes "admission_step inst ev st st'" "budget_inv inst d limit st" "account False st" "within_day d limit ev"
  shows "budget_inv inst d limit st'"
proof -
  have wf: "calls_wf st" using assms(3) by (simp add: account_def)
  note res = running_le_reserved [OF assms(3)]
  from assms(1) show ?thesis
  proof (cases rule: admission_step.cases)
    case (arrive now i r)
    then show ?thesis using budget_arrive assms(2) by blast
  next
    case (enter c now expired)
    let ?st = "st\<lparr>st_slot := enqueue (cl_query c) (st_slot st)\<rparr>"
    have "calls_wf ?st" using wf calls_wf_cong [of st ?st] by simp
    then show ?thesis using budget_loop [OF budget_slot [OF assms(2)], of "enqueue (cl_query c) (st_slot st)" c now]
      enter assms(4) res by simp
  next
    case (wake c now expired)
    then show ?thesis using budget_loop [OF assms(2) wf, of c now] assms(4) res by simp
  next
    case (queue_reported c now expired)
    then show ?thesis using budget_wait [OF assms(2) wf, of c] by simp
  next
    case (queue_report_failed c status now err)
    then show ?thesis using budget_abandon [OF assms(2) wf, of c] by auto
  next
    case (admit_report_failed c status now err)
    then show ?thesis using budget_abandon [OF assms(2) wf, of c] by auto
  next
    case (give_up c status now)
    then show ?thesis using budget_abandon [OF assms(2) wf, of c] by auto
  next
    case (admit_reported c now wait_ms)
    show ?thesis unfolding admit_reported(2)
      by (rule budget_move [OF assms(2) wf admit_reported(3),
            where now = now and status = WRunning and w = wait_ms and du = 0 and err = "[]"])
        (use admit_reported(4) in \<open>auto simp: note_event_def event_matches_def spent_of_def
           spent_event_def running_of_def\<close>)
  next
    case (cancel_arriving c now)
    show ?thesis unfolding cancel_arriving(2)
      by (rule budget_move [OF assms(2) wf cancel_arriving(3),
            where now = now and status = WCancelled and w = 0 and du = 0 and err = "[]"])
        (use cancel_arriving(4) in \<open>auto simp: note_event_def event_matches_def spent_of_def
           spent_event_def running_of_def\<close>)
  next
    case (finish c status now wait_ms duration_ms err)
    have f: "st' = set_phase c Releasing (note_event now c status (if status = WCancelled then 0 else wait_ms)
        (if status = WCancelled then 0 else duration_ms) (if status = WError then err else []) st)"
      using finish(2,5) by (auto simp: finish_call_def)
    show ?thesis unfolding f
      by (rule budget_move [OF assms(2) wf finish(3), where now = now and status = status
            and w = "if status = WCancelled then 0 else wait_ms"
            and du = "if status = WCancelled then 0 else duration_ms" and err = "if status = WError then err else []"])
        (use finish(4,5) cost_nonneg [OF wf finish(3)] in \<open>auto simp: note_event_def event_matches_def spent_of_def
           spent_event_def running_of_def\<close>)
  next
    case (release c now)
    have "budget_inv inst d limit st" by fact
    then show ?thesis unfolding release(2) using release(4)
      by (intro budget_phase [OF assms(2) wf release(3)]) (auto simp: event_matches_def running_of_def budget_inv_def)
  next
    case (release_cancelled c now)
    show ?thesis unfolding release_cancelled(2) using release_cancelled(4) assms(2)
      by (intro budget_phase [OF assms(2) wf release_cancelled(3)])
        (auto simp: event_matches_def running_of_def budget_inv_def)
  next
    case (new_policy now p)
    then show ?thesis using assms(2,4)
      by (simp add: budget_inv_def update_workload_policy_def events_wf_def events_match_def spent_units_def)
  qed
qed

text \<open>The time of a transition, and the transitions that keep the policy enforced with at most \<open>limit\<close> units.\<close>

fun event_time :: "admission_event \<Rightarrow> instant" where
  "event_time (Arrive now i r) = now"
| "event_time (Enter now i x) = now"
| "event_time (Wake now i x) = now"
| "event_time (QueueReported now i x) = now"
| "event_time (QueueReportFailed now i s e) = now"
| "event_time (AdmitReported now i w) = now"
| "event_time (AdmitReportFailed now i s e) = now"
| "event_time (GiveUp now i s) = now"
| "event_time (CancelArriving now i) = now"
| "event_time (Finish now i s w du e) = now"
| "event_time (Release now i) = now"
| "event_time (ReleaseCancelled now i) = now"
| "event_time (NewPolicy now p) = now"

fun keeps_budget :: "int \<Rightarrow> admission_event \<Rightarrow> bool" where
  "keeps_budget limit (NewPolicy now p) = (wp_mode p = Enforce \<and> wp_daily_query_cost_units p \<le> limit)"
| "keeps_budget limit _ = True"

text \<open>Histories whose clock never runs backwards; the process may stop and reopen its store at any point.\<close>

inductive clocked_run ::
  "string \<Rightarrow> (admission_event \<Rightarrow> bool) \<Rightarrow> instant \<Rightarrow> admission_state \<Rightarrow> instant \<Rightarrow> admission_state \<Rightarrow> bool"
  for inst :: string and ok :: "admission_event \<Rightarrow> bool" and t0 :: instant and st0 :: admission_state where
  clock_start: "clocked_run inst ok t0 st0 t0 st0"
| clock_step: "clocked_run inst ok t0 st0 t st \<Longrightarrow> t \<le> event_time ev \<Longrightarrow> ok ev \<Longrightarrow>
    admission_step inst ev st st' \<Longrightarrow> clocked_run inst ok t0 st0 (event_time ev) st'"
| clock_restart: "clocked_run inst ok t0 st0 t st \<Longrightarrow> t \<le> now \<Longrightarrow>
    clocked_run inst ok t0 st0 now (fresh_instance (open_workload now (Some (st_db st))))"

text \<open>The query events that arrived and started on the day and ran: they are running now, or ended with
  a result, an error or a restart.\<close>

definition ran_event :: "string \<Rightarrow> int \<Rightarrow> workload_event \<Rightarrow> bool" where
  "ran_event inst d e = (we_instance_id e = inst \<and> we_lane e = QueryLane \<and> utc_day (we_created_at e) = d
     \<and> (case we_started_at e of None \<Rightarrow> False | Some t \<Rightarrow> utc_day t = d)
     \<and> we_status e \<in> {WRunning, WComplete, WError, WInterrupted})"

definition ran_of :: "string \<Rightarrow> int \<Rightarrow> workload_event \<Rightarrow> int" where
  "ran_of inst d e = (if ran_event inst d e then we_cost_units e else 0)"

definition ran_units :: "string \<Rightarrow> int \<Rightarrow> workload_db \<Rightarrow> int" where
  "ran_units inst d db = sum_list (map we_cost_units (filter (ran_event inst d) (wd_events db)))"

lemma ran_units_eq: "ran_units inst d db = sum_list (map (ran_of inst d) (wd_events db))"
  by (simp add: ran_units_def sum_list_filter_if ran_of_def [abs_def])

text \<open>An event that runs belongs to a call that runs, and no event is from the future.\<close>

definition running_ids :: "admission_state \<Rightarrow> string set" where
  "running_ids st = cl_event ` {c \<in> set (st_calls st). cl_phase c = Running}"

definition clock_inv :: "string \<Rightarrow> int \<Rightarrow> instant \<Rightarrow> admission_state \<Rightarrow> bool" where
  "clock_inv inst limit t st = (account False st \<and> budget_inv inst (utc_day t) limit st
     \<and> (\<forall>e \<in> set (wd_events (st_db st)). we_created_at e \<le> t \<and>
          (we_status e = WRunning \<longrightarrow> we_id e \<in> running_ids st) \<and>
          (we_status e = WQueued \<longrightarrow> we_started_at e = None)))"

lemma utc_day_mono: "t \<le> t' \<Longrightarrow> utc_day t \<le> utc_day t'"
  by (simp add: time_defs zdiv_mono1)

text \<open>On a new day nothing is spent yet.\<close>

lemma budget_advance:
  assumes "clock_inv inst limit t st" "t \<le> t'"
  shows "budget_inv inst (utc_day t') limit st"
proof (cases "utc_day t' = utc_day t")
  case False
  then have day: "utc_day t < utc_day t'" using utc_day_mono [OF assms(2)] by simp
  have inv: "budget_inv inst (utc_day t) limit st" using assms(1) by (simp add: clock_inv_def)
  have "utc_day (we_created_at e) \<noteq> utc_day t'" if "e \<in> set (wd_events (st_db st))" for e
    using assms(1) that day utc_day_mono [of "we_created_at e" t] by (fastforce simp: clock_inv_def)
  then have "spent_units inst (utc_day t') (st_db st) = 0"
    by (simp add: spent_units_def spent_of_def spent_event_def cong: map_cong)
  moreover have "0 \<le> spent_units inst (utc_day t) (st_db st)"
    unfolding spent_units_def using inv
    by (intro sum_list_nonneg) (auto simp: spent_of_def budget_inv_def events_wf_def)
  ultimately show ?thesis using inv by (simp add: budget_inv_def)
qed (use assms(1) in \<open>simp add: clock_inv_def\<close>)

text \<open>What a transition does to the events: it adds one, stamps the one of its call, or leaves them alone.\<close>

lemma running_ids_iff:
  "calls_wf st \<Longrightarrow> c \<in> set (st_calls st) \<Longrightarrow> cl_event c \<in> running_ids st \<longleftrightarrow> cl_phase c = Running"
  by (auto simp: running_ids_def dest: calls_wf_same)

lemma running_ids_iff': "i \<in> running_ids st \<longleftrightarrow> (\<exists>c \<in> set (st_calls st). cl_event c = i \<and> cl_phase c = Running)"
  by (auto simp: running_ids_def)

lemma running_ids_cong: "st_calls st' = st_calls st \<Longrightarrow> running_ids st' = running_ids st"
  by (simp add: running_ids_def)

lemma running_ids_phase:
  assumes "calls_wf st" "c \<in> set (st_calls st)" "st_calls st' = st_calls st"
  shows "running_ids (set_phase c ph st') =
    (if ph = Running then insert (cl_event c) (running_ids st) else running_ids st - {cl_event c})"
proof -
  have "i \<in> running_ids (set_phase c ph st') \<longleftrightarrow> (\<exists>r \<in> set (st_calls st). cl_event r = i \<and>
      (if cl_event r = cl_event c then ph = Running else cl_phase r = Running))" for i
    unfolding running_ids_iff' calls_of_set_phase assms(3) set_map bex_simps(7) by (intro bex_cong) auto
  then show ?thesis using assms(2) by (cases "ph = Running") (auto simp: set_eq_iff running_ids_iff' [of _ st], metis)
qed

lemma running_ids_reported:
  "running_ids (st\<lparr>st_calls := sql_update p (\<lambda>x. x\<lparr>cl_reported := True\<rparr>) (st_calls st)\<rparr>) = running_ids st"
proof (rule set_eqI)
  have eq: "st_calls (st\<lparr>st_calls := cs\<rparr>) = cs" for cs by simp
  fix i show "i \<in> running_ids (st\<lparr>st_calls := sql_update p (\<lambda>x. x\<lparr>cl_reported := True\<rparr>) (st_calls st)\<rparr>)
      \<longleftrightarrow> i \<in> running_ids st"
    unfolding running_ids_iff' eq set_sql_update bex_simps(7) by (intro bex_cong) auto
qed

definition quiet :: "admission_state \<Rightarrow> admission_state \<Rightarrow> bool" where
  "quiet st st' = (wd_events (st_db st') = wd_events (st_db st) \<and> running_ids st' = running_ids st)"

definition stamps :: "instant \<Rightarrow> workload_call \<Rightarrow> admission_state \<Rightarrow> admission_state \<Rightarrow> bool" where
  "stamps now c st st' = (c \<in> set (st_calls st) \<and> (\<exists>status w du err.
     wd_events (st_db st') = sql_update (\<lambda>e. we_id e = cl_event c) (stamp now status w du err) (wd_events (st_db st))
     \<and> (if status = WRunning then cl_phase c = AdmitReport \<and> running_ids st' = insert (cl_event c) (running_ids st)
        else running_ids st' = running_ids st - {cl_event c})
     \<and> (cl_phase c = Running \<and> status \<noteq> WQueued \<or> cl_phase c \<in> {Arriving, QueueReport, Waiting, AdmitReport})))"

lemma stamps_phase:
  assumes "calls_wf st" "c \<in> set (st_calls st)" "st_calls st' = st_calls st"
    "st_db st' = update_event now (cl_event c) status w du err (st_db st)"
    "if status = WRunning then cl_phase c = AdmitReport \<and> ph = Running else ph \<noteq> Running"
    "cl_phase c = Running \<and> status \<noteq> WQueued \<or> cl_phase c \<in> {Arriving, QueueReport, Waiting, AdmitReport}"
  shows "stamps now c st (set_phase c ph st')"
  unfolding stamps_def segment_simps assms(4) update_event_stamp running_ids_phase [OF assms(1-3)]
  by (intro conjI exI [of _ status] exI [of _ w] exI [of _ du] exI [of _ err])
     (use assms(2,5,6) in \<open>auto split: if_splits\<close>)

lemma quiet_phase:
  assumes "calls_wf st" "c \<in> set (st_calls st)" "st_calls st' = st_calls st"
    "wd_events (st_db st') = wd_events (st_db st)" "cl_phase c \<noteq> Running" "ph \<noteq> Running"
  shows "quiet st (set_phase c ph st')"
  using assms running_ids_iff [OF assms(1,2)] by (auto simp: quiet_def running_ids_phase [OF assms(1-3)])

lemma abandon_stamps:
  assumes "calls_wf st" "c \<in> set (st_calls st)" "status \<noteq> WRunning"
    "cl_phase c \<in> {Arriving, QueueReport, Waiting, AdmitReport}"
  shows "stamps now c st (abandon now c status err st)"
  unfolding abandon_def
  by (rule stamps_phase [OF assms(1,2), where status = status and w = 0 and du = 0 and err = err])
     (use assms(3,4) in \<open>auto simp: note_event_def\<close>)

lemma wait_effect:
  assumes "calls_wf st" "c \<in> set (st_calls st)" "cl_phase c \<in> {Arriving, QueueReport, Waiting}"
  shows "quiet st (wait_or_expire now expired c st) \<or> stamps now c st (wait_or_expire now expired c st)"
proof (cases expired)
  case True
  then show ?thesis using abandon_stamps [OF assms(1,2)] assms(3) by (auto simp: wait_or_expire_def)
next
  case False
  then show ?thesis using quiet_phase [OF assms(1,2), of "st\<lparr>st_lock := None\<rparr>" Waiting] assms(3)
    by (auto simp: wait_or_expire_def)
qed

lemma loop_effect:
  assumes "calls_wf st" "c \<in> set (st_calls st)" "cl_phase c \<in> {Arriving, Waiting}"
  shows "quiet st (admit_loop now inst expired c st) \<or> stamps now c st (admit_loop now inst expired c st)"
proof (cases rule: admission_loop_cases [of now inst expired c st])
  case (blocked err)
  then show ?thesis using abandon_stamps [OF assms(1,2)] assms(3) by auto
next
  case granted
  show ?thesis unfolding granted(4) using assms(3) by (intro disjI1 quiet_phase [OF assms(1,2)]) auto
next
  case again
  then show ?thesis using wait_effect [OF assms(1,2)] assms(3) by auto
next
  case (first st')
  have "stamps now c st st'" unfolding first(1)
    by (rule stamps_phase [OF assms(1,2), where status = WQueued and w = 0 and du = 0 and err = "[]"])
       (use assms(3) in \<open>auto simp: note_event_def\<close>)
  then show ?thesis unfolding first(2) stamps_def running_ids_reported by auto
qed

lemma effect_slot:
  "stamps now c (st\<lparr>st_slot := s\<rparr>) st' = stamps now c st st'" "quiet (st\<lparr>st_slot := s\<rparr>) st' = quiet st st'"
  using running_ids_cong [of "st\<lparr>st_slot := s\<rparr>" st] by (simp_all add: stamps_def quiet_def)

lemma step_effect:
  assumes "admission_step inst ev st st'" "calls_wf st"
  shows "(\<exists>now i r. ev = Arrive now i r \<and> start_call now inst i r st = Inr st') \<or> quiet st st' \<or>
    (\<exists>c. stamps (event_time ev) c st st')"
  using assms(1)
proof (cases rule: admission_step.cases)
  case (enter c now expired)
  let ?st = "st\<lparr>st_slot := enqueue (cl_query c) (st_slot st)\<rparr>"
  have "calls_wf ?st" using assms(2) calls_wf_cong [of st ?st] by simp
  from loop_effect [OF this, of c now inst expired] enter show ?thesis by (auto simp: effect_slot)
next
  case (wake c now expired)
  then show ?thesis using loop_effect [OF assms(2) wake(3), of now inst expired] by auto
next
  case (queue_reported c now expired)
  then show ?thesis using wait_effect [OF assms(2) queue_reported(3), of now expired] by auto
next
  case (queue_report_failed c status now err)
  then show ?thesis using abandon_stamps [OF assms(2) queue_report_failed(3)] by fastforce
next
  case (admit_report_failed c status now err)
  then show ?thesis using abandon_stamps [OF assms(2) admit_report_failed(3)] by fastforce
next
  case (give_up c status now)
  then show ?thesis using abandon_stamps [OF assms(2) give_up(3)] by fastforce
next
  case (admit_reported c now wait_ms)
  have "stamps now c st st'" unfolding admit_reported(2)
    by (rule stamps_phase [OF assms(2) admit_reported(3), where status = WRunning and w = wait_ms and du = 0 and err = "[]"])
       (use admit_reported(4) in \<open>auto simp: note_event_def\<close>)
  then show ?thesis using admit_reported(1) by auto
next
  case (cancel_arriving c now)
  have "stamps now c st st'" unfolding cancel_arriving(2)
    by (rule stamps_phase [OF assms(2) cancel_arriving(3), where status = WCancelled and w = 0 and du = 0 and err = "[]"])
       (use cancel_arriving(4) in \<open>auto simp: note_event_def\<close>)
  then show ?thesis using cancel_arriving(1) by auto
next
  case (finish c status now wait_ms duration_ms err)
  have "stamps now c st st'" unfolding finish(2) finish_call_def
    by (rule stamps_phase [OF assms(2) finish(3), where status = status
          and w = "if status = WCancelled then 0 else wait_ms"
          and du = "if status = WCancelled then 0 else duration_ms" and err = "if status = WError then err else []"])
       (use finish(4,5) in \<open>auto simp: note_event_def\<close>)
  then show ?thesis using finish(1) by auto
next
  case (release c now)
  then show ?thesis using quiet_phase [OF assms(2) release(3)] by auto
next
  case (release_cancelled c now)
  then show ?thesis using quiet_phase [OF assms(2) release_cancelled(3) refl refl] by auto
next
  case (new_policy now p)
  then show ?thesis by (simp add: quiet_def update_workload_policy_def running_ids_def)
qed auto

text \<open>What ran on a day is covered by what it spent and by the calls that run.\<close>

lemma sum_list_matched:
  fixes f :: "'a \<Rightarrow> int" and g :: "'b \<Rightarrow> int"
  assumes "distinct (map key xs)" "\<And>x. x \<in> set xs \<Longrightarrow> \<exists>y \<in> set ys. name y = key x \<and> f x \<le> g y"
    and "distinct (map name ys)" "\<And>y. y \<in> set ys \<Longrightarrow> 0 \<le> g y"
  shows "sum_list (map f xs) \<le> sum_list (map g ys)"
proof -
  obtain h where h: "\<And>x. x \<in> set xs \<Longrightarrow> h x \<in> set ys \<and> name (h x) = key x \<and> f x \<le> g (h x)"
    using assms(2) by metis
  have inj: "inj_on h (set xs)"
    using h assms(1) by (intro inj_onI) (metis distinct_map inj_onD)
  have "sum_list (map f xs) = sum f (set xs)"
    using assms(1) by (simp add: sum_list_distinct_conv_sum_set distinct_map)
  also have "\<dots> \<le> sum (g \<circ> h) (set xs)" using h by (intro sum_mono) simp
  also have "\<dots> = sum g (h ` set xs)" using inj by (simp add: sum.reindex)
  also have "\<dots> \<le> sum g (set ys)" using h assms(4) by (intro sum_mono2) auto
  also have "\<dots> = sum_list (map g ys)"
    using assms(3) by (simp add: sum_list_distinct_conv_sum_set distinct_map)
  finally show ?thesis .
qed

definition live_units :: "string \<Rightarrow> workload_event \<Rightarrow> int" where
  "live_units inst e = (if we_status e = WRunning \<and> we_instance_id e = inst \<and> we_lane e = QueryLane
     then we_cost_units e else 0)"

lemma live_le_running:
  assumes "clock_inv inst limit t st"
  shows "sum_list (map (live_units inst) (wd_events (st_db st))) \<le> call_total running_of (st_calls st)"
proof -
  let ?live = "filter (\<lambda>e. we_status e = WRunning \<and> we_instance_id e = inst \<and> we_lane e = QueryLane)
    (wd_events (st_db st))"
  have inv: "events_wf (st_db st)" "events_match st" "calls_wf st"
    using assms by (simp_all add: clock_inv_def budget_inv_def account_def)
  have "sum_list (map we_cost_units ?live) \<le> sum_list (map running_of (st_calls st))"
  proof (rule sum_list_matched [where key = we_id and name = cl_event])
    show "distinct (map we_id ?live)" "distinct (map cl_event (st_calls st))"
      using inv by (auto simp: events_wf_def calls_wf_def intro: distinct_map_filter)
    fix e assume e: "e \<in> set ?live"
    then have "we_id e \<in> running_ids st" using assms by (auto simp: clock_inv_def)
    then obtain c where c: "c \<in> set (st_calls st)" "cl_event c = we_id e" "cl_phase c = Running"
      by (auto simp: running_ids_iff')
    then have "event_matches c e" using inv(2) e by (simp add: events_match_def)
    then show "\<exists>c \<in> set (st_calls st). cl_event c = we_id e \<and> we_cost_units e \<le> running_of c"
      using c e by (intro bexI [of _ c]) (simp_all add: event_matches_def running_of_def)
  next
    fix c assume "c \<in> set (st_calls st)"
    then show "0 \<le> running_of c" using cost_nonneg [OF inv(3)] by (simp add: running_of_def)
  qed
  then show ?thesis by (simp add: call_total_def sum_list_filter_if live_units_def [abs_def])
qed

lemma ran_le_limit:
  assumes "clock_inv inst limit t st"
  shows "ran_units inst (utc_day t) (st_db st) \<le> limit"
proof -
  have wf: "events_wf (st_db st)" using assms by (simp add: clock_inv_def budget_inv_def)
  have "ran_units inst (utc_day t) (st_db st) \<le>
      sum_list (map (\<lambda>e. spent_of inst (utc_day t) e + live_units inst e) (wd_events (st_db st)))"
    unfolding ran_units_eq using wf
    by (intro sum_list_mono_rows)
       (auto simp: ran_of_def ran_event_def spent_of_def spent_event_def live_units_def events_wf_def split: option.splits)
  then show ?thesis
    using live_le_running [OF assms] assms by (simp add: sum_list_addf spent_units_def clock_inv_def budget_inv_def)
qed

text \<open>On any other day nothing is added to what ran.\<close>

lemma stamp_ran_le:
  assumes "event_matches c e" "utc_day now \<noteq> d" "0 \<le> we_cost_units e"
    and "if status = WRunning then cl_phase c = AdmitReport else True"
    and "cl_phase c = Running \<or> cl_phase c \<in> {Arriving, QueueReport, Waiting, AdmitReport}"
  shows "ran_of inst d (stamp now status w du err e) \<le> ran_of inst d e"
  using assms by (auto simp: ran_of_def ran_event_def event_matches_def coalesce_def split: option.splits if_splits)

lemma arrival_row:
  assumes "start_call now inst i r st = Inr st'" "events_wf (st_db st)"
  obtains row where "set (wd_events (st_db st')) \<subseteq> insert row (set (wd_events (st_db st)))"
    "we_status row \<in> {WBlocked, WQueued}" "we_started_at row = None" "we_created_at row = now"
    "\<And>f. (\<And>e. 0 \<le> we_cost_units e \<Longrightarrow> 0 \<le> f e) \<Longrightarrow> f row = 0 \<Longrightarrow>
       sum_list (map f (wd_events (st_db st'))) \<le> (sum_list (map f (wd_events (st_db st))) :: int)"
proof -
  let ?r = "call_row now inst i r st"
  let ?row = "?r\<lparr>we_operation := take 160 (we_operation ?r), we_logical_name := take 160 (we_logical_name ?r),
        we_wait_ms := 0, we_duration_ms := 0, we_created_at := now, we_started_at := None,
        we_completed_at := None, we_error := []\<rparr>"
  have db: "wd_events (st_db st') = prune_events (wd_events (st_db st) @ [?row])"
    using assms(1) by (auto simp: start_call_def create_event_def Let_def split: sum.splits if_splits)
  have cost: "0 \<le> we_cost_units e" if "e \<in> insert ?row (set (wd_events (st_db st)))" for e
    using that assms(2) call_cost_nonneg [of r] by (auto simp: events_wf_def call_row_def Let_def)
  show thesis
  proof (rule that [of ?row])
    show "set (wd_events (st_db st')) \<subseteq> insert ?row (set (wd_events (st_db st)))"
      unfolding db by (auto simp: prune_events_def Let_def sql_delete_def)
    show "we_status ?row \<in> {WBlocked, WQueued}" by (simp add: call_row_def Let_def)
    fix f :: "workload_event \<Rightarrow> int"
    assume f: "\<And>e. 0 \<le> we_cost_units e \<Longrightarrow> 0 \<le> f e" "f ?row = 0"
    show "sum_list (map f (wd_events (st_db st'))) \<le> sum_list (map f (wd_events (st_db st)))"
      unfolding db using sum_prune_le [of "wd_events (st_db st) @ [?row]" f] f cost by auto
  qed simp_all
qed

lemma ran_step:
  assumes "admission_step inst ev st st'" "clock_inv inst limit t st" "utc_day (event_time ev) \<noteq> d"
  shows "ran_units inst d (st_db st') \<le> ran_units inst d (st_db st)"
proof -
  have inv: "events_wf (st_db st)" "events_match st" "calls_wf st"
    using assms(2) by (simp_all add: clock_inv_def budget_inv_def account_def)
  from step_effect [OF assms(1) inv(3)] show ?thesis
  proof (elim disjE exE conjE)
    fix now i r assume "start_call now inst i r st = Inr st'"
    from arrival_row [OF this inv(1)] show ?thesis
      unfolding ran_units_eq by (metis (no_types, lifting) option.simps(4) order_refl ran_event_def ran_of_def)
  next
    assume "quiet st st'"
    then show ?thesis by (simp add: quiet_def ran_units_eq)
  next
    fix c assume s: "stamps (event_time ev) c st st'"
    then obtain status w du err where e: "wd_events (st_db st') =
        sql_update (\<lambda>e. we_id e = cl_event c) (stamp (event_time ev) status w du err) (wd_events (st_db st))"
      and ph: "if status = WRunning then cl_phase c = AdmitReport else True"
        "cl_phase c = Running \<or> cl_phase c \<in> {Arriving, QueueReport, Waiting, AdmitReport}"
      by (auto simp: stamps_def split: if_splits)
    have "ran_of inst d (stamp (event_time ev) status w du err x) \<le> ran_of inst d x"
      if "x \<in> set (wd_events (st_db st))" "we_id x = cl_event c" for x
      using stamp_ran_le [OF _ assms(3) _ ph] that s inv by (auto simp: stamps_def events_match_def events_wf_def)
    then show ?thesis
      using sum_update_le [of we_id "wd_events (st_db st)" "cl_event c" "ran_of inst d" _ 0] inv(1)
      by (simp add: ran_units_eq e events_wf_def)
  qed
qed

lemma clock_advance:
  assumes "clock_inv inst limit t st" "admission_step inst ev st st'" "t \<le> event_time ev" "keeps_budget limit ev"
  shows "clock_inv inst limit (event_time ev) st'"
proof -
  have acc: "account False st" and wf: "calls_wf st" and ewf: "events_wf (st_db st)" and match: "events_match st"
    using assms(1) by (simp_all add: clock_inv_def account_def budget_inv_def)
  have day: "within_day (utc_day (event_time ev)) limit ev" using assms(4) by (cases ev) simp_all
  have old: "we_created_at e \<le> event_time ev" "we_status e = WRunning \<Longrightarrow> we_id e \<in> running_ids st"
    "we_status e = WQueued \<Longrightarrow> we_started_at e = None" if "e \<in> set (wd_events (st_db st))" for e
    using assms(1,3) that by (auto simp: clock_inv_def)
  have "we_created_at e \<le> event_time ev \<and> (we_status e = WRunning \<longrightarrow> we_id e \<in> running_ids st') \<and>
      (we_status e = WQueued \<longrightarrow> we_started_at e = None)" if e: "e \<in> set (wd_events (st_db st'))" for e
    using step_effect [OF assms(2) wf]
  proof (elim disjE exE conjE)
    fix now i r assume ev: "ev = Arrive now i r" and start: "start_call now inst i r st = Inr st'"
    have "running_ids st \<subseteq> running_ids st'"
      using start by (auto simp: running_ids_def start_call_def Let_def split: sum.splits if_splits)
    moreover obtain row where row: "set (wd_events (st_db st')) \<subseteq> insert row (set (wd_events (st_db st)))"
      "we_status row \<in> {WBlocked, WQueued}" "we_started_at row = None" "we_created_at row = now"
      using arrival_row [OF start ewf] by metis
    moreover from row(1) e have "e = row \<or> e \<in> set (wd_events (st_db st))" by blast
    ultimately show ?thesis using old [of e] ev by auto
  next
    assume "quiet st st'"
    then show ?thesis using e old by (simp add: quiet_def)
  next
    fix c assume "stamps (event_time ev) c st st'"
    then obtain status w du err where c: "c \<in> set (st_calls st)" and db: "wd_events (st_db st') =
        sql_update (\<lambda>e. we_id e = cl_event c) (stamp (event_time ev) status w du err) (wd_events (st_db st))"
      and run: "if status = WRunning then running_ids st' = insert (cl_event c) (running_ids st)
        else running_ids st' = running_ids st - {cl_event c}"
      and ph: "cl_phase c = Running \<and> status \<noteq> WQueued \<or> cl_phase c \<in> {Arriving, QueueReport, Waiting, AdmitReport}"
      by (auto simp: stamps_def split: if_splits)
    obtain x where x: "x \<in> set (wd_events (st_db st))"
      "e = (if we_id x = cl_event c then stamp (event_time ev) status w du err x else x)"
      using e unfolding db set_sql_update by auto
    show ?thesis
    proof (cases "we_id x = cl_event c")
      case True
      then have "event_matches c x" using match c x(1) by (simp add: events_match_def)
      then have "status = WQueued \<Longrightarrow> we_started_at x = None" using ph by (auto simp: event_matches_def)
      then show ?thesis using True x(2) old(1) [OF x(1)] run by (simp add: coalesce_def)
    next
      case False
      then have "we_id x \<in> running_ids st \<Longrightarrow> we_id x \<in> running_ids st'" using run by (simp split: if_splits)
      then show ?thesis using False x(2) old [OF x(1)] by simp
    qed
  qed
  then show ?thesis
    using account_step [OF assms(2) acc] budget_step [OF assms(2) budget_advance [OF assms(1,3)] acc day]
    by (simp add: clock_inv_def)
qed

text \<open>A restart interrupts what was live: what ran stays counted, and the store is as at the start.\<close>

definition reopened :: "instant \<Rightarrow> workload_db \<Rightarrow> workload_event list" where
  "reopened now db = sql_update (\<lambda>e. we_status e = WQueued \<or> we_status e = WRunning) (interrupt_event now) (wd_events db)"

lemma open_events:
  "open_workload now (Some db) = db\<lparr>wd_events := reopened now db\<rparr>"
  by (simp add: open_workload_def recover_interrupted_events_def reopened_def Let_def)

lemma events_open: "wd_events (open_workload now (Some db)) = reopened now db"
  by (simp add: open_events)

lemma sum_reopened: "sum_list (map f (reopened now db)) =
    sum_list (map (\<lambda>e. f (if we_status e = WQueued \<or> we_status e = WRunning then interrupt_event now e else e)) (wd_events db))"
  by (simp add: reopened_def sql_update_def comp_def)

lemma interrupt_simps [simp]:
  "we_id (interrupt_event now e) = we_id e" "we_cost_units (interrupt_event now e) = we_cost_units e"
  "we_created_at (interrupt_event now e) = we_created_at e" "we_started_at (interrupt_event now e) = we_started_at e"
  "we_lane (interrupt_event now e) = we_lane e" "we_instance_id (interrupt_event now e) = we_instance_id e"
  "we_status (interrupt_event now e) = WInterrupted"
  by (simp_all add: interrupt_event_def)

lemma restart_inv:
  assumes "clock_inv inst limit t st" "t \<le> now"
  shows "clock_inv inst limit now (fresh_instance (open_workload now (Some (st_db st))))"
    "ran_units inst d (open_workload now (Some (st_db st))) \<le> ran_units inst d (st_db st)"
proof -
  let ?db = "open_workload now (Some (st_db st))" and ?d = "utc_day now"
  have inv: "budget_inv inst ?d limit st" by (rule budget_advance [OF assms])
  then have wf: "events_wf (st_db st)" by (simp add: budget_inv_def)
  have queued: "we_started_at e = None" if "e \<in> set (wd_events (st_db st))" "we_status e = WQueued" for e
    using assms(1) that by (simp add: clock_inv_def)
  have "spent_units inst ?d ?db \<le>
      sum_list (map (\<lambda>e. spent_of inst ?d e + live_units inst e) (wd_events (st_db st)))"
    unfolding spent_units_def events_open sum_reopened using wf queued
    by (intro sum_list_mono_rows) (auto simp: spent_of_def spent_event_def live_units_def events_wf_def)
  then have "spent_units inst ?d ?db \<le> limit"
    using live_le_running [OF assms(1)] inv by (simp add: sum_list_addf spent_units_def budget_inv_def)
  moreover have "events_wf ?db"
    using wf by (auto simp: open_events reopened_def events_wf_def map_sql_update set_sql_update)
  ultimately have "budget_inv inst ?d limit (fresh_instance ?db)"
    using inv by (simp add: budget_inv_def fresh_instance_def events_match_def call_total_def open_events)
  moreover have "we_created_at e \<le> now \<and> we_status e \<notin> {WQueued, WRunning}" if "e \<in> set (wd_events ?db)" for e
    using that assms by (fastforce simp: open_events reopened_def clock_inv_def set_sql_update)
  ultimately show "clock_inv inst limit now (fresh_instance ?db)"
    by (auto simp: clock_inv_def account_fresh)
  show "ran_units inst d ?db \<le> ran_units inst d (st_db st)"
    unfolding ran_units_eq events_open sum_reopened using wf queued
    by (intro sum_list_mono_rows) (auto simp: ran_of_def ran_event_def events_wf_def)
qed

lemma clocked_inv:
  assumes "clocked_run inst (keeps_budget limit) t0 st0 t st" "clock_inv inst limit t0 st0"
    and "ran_units inst d (st_db st0) \<le> limit"
  shows "clock_inv inst limit t st \<and> ran_units inst d (st_db st) \<le> limit"
  using assms(1)
proof (induction rule: clocked_run.induct)
  case (clock_step t st ev st')
  from clock_step.IH have ih: "clock_inv inst limit t st" "ran_units inst d (st_db st) \<le> limit" by auto
  from clock_advance [OF ih(1) clock_step.hyps(4,2,3)]
  have inv: "clock_inv inst limit (event_time ev) st'" .
  show ?case
  proof (cases "utc_day (event_time ev) = d")
    case True
    then show ?thesis using inv ran_le_limit [OF inv] by simp
  next
    case False
    then show ?thesis using inv ran_step [OF clock_step.hyps(4) ih(1)] ih(2) by fastforce
  qed
next
  case (clock_restart t st now)
  then show ?case using restart_inv [of inst limit t st now] by (fastforce intro: order_trans)
qed (use assms(2,3) in simp)

text \<open>C1. While the policy is enforced with a daily budget of at most \<open>limit\<close>, the queries that arrive and
  start on the same UTC day and run - they are running, or ended with a result, an error or a restart -
  cost at most \<open>limit\<close> units together: at every moment, for every day, over every interleaving of calls,
  failures, cancellations, policy changes and restarts in which the clock does not run backwards. The
  store counts a query on the day it arrived, so a query that starts after midnight is not part of what
  is bounded; neither is a cancelled query, nor an event that was pruned.\<close>

theorem daily_budget_respected:
  assumes "wp_mode (wd_policy db) = Enforce" "wp_daily_query_cost_units (wd_policy db) \<le> limit"
    and "events_wf db" "spent_units inst (utc_day t0) db \<le> limit" "ran_units inst d db \<le> limit"
    and "\<forall>e \<in> set (wd_events db). we_created_at e \<le> t0 \<and> we_status e \<notin> {WQueued, WRunning}"
    and "clocked_run inst (keeps_budget limit) t0 (fresh_instance db) t st"
  shows "ran_units inst d (st_db st) \<le> limit"
proof -
  have "budget_inv inst (utc_day t0) limit (fresh_instance db)"
    using assms(1-4) by (simp add: budget_inv_def fresh_instance_def events_match_def call_total_def)
  then have "clock_inv inst limit t0 (fresh_instance db)"
    using assms(6) by (auto simp: clock_inv_def account_fresh)
  then show ?thesis using clocked_inv [OF assms(7)] assms(5) by (simp add: fresh_instance_def)
qed


definition enforced_db :: workload_db where
  "enforced_db = (initial_workload 0)\<lparr>wd_policy := (wd_policy (initial_workload 0))\<lparr>wp_mode := Enforce\<rparr>\<rparr>"

definition enforced_arrived :: admission_state where
  "enforced_arrived = sample_arrived\<lparr>st_db := (st_db sample_arrived)\<lparr>wd_policy := wd_policy enforced_db\<rparr>\<rparr>"

definition enforced_admitted :: admission_state where
  "enforced_admitted = (let c = hd (st_calls enforced_arrived) in
     admit_loop 0 ''splunk'' False c (enforced_arrived\<lparr>st_slot := enqueue (cl_query c) (st_slot enforced_arrived)\<rparr>))"

definition enforced_running :: admission_state where
  "enforced_running = (let c = hd (st_calls enforced_admitted) in
     set_phase c Running (note_event 0 c WRunning 5 0 [] (enforced_admitted\<lparr>st_lock := None\<rparr>)))"

lemma enforced_runs:
  "clocked_run ''splunk'' (keeps_budget 1000) 0 (fresh_instance enforced_db) 0 enforced_running"
proof -
  let ?run = "clocked_run ''splunk'' (keeps_budget 1000) 0 (fresh_instance enforced_db) 0"
  let ?c = "hd (st_calls enforced_arrived)" and ?c1 = "hd (st_calls enforced_admitted)"
  have start: "start_call 0 ''splunk'' ''e1'' sample_call (fresh_instance enforced_db) = Inr enforced_arrived"
    by code_simp
  have arrived: "?run enforced_arrived"
    using clock_step [OF clock_start _ _ admission_step.arrive [OF start]] by simp
  have c: "?c \<in> set (st_calls enforced_arrived)" "cl_phase ?c = Arriving" "st_lock enforced_arrived = None"
    by code_simp+
  have admitted: "?run enforced_admitted"
    using clock_step [OF arrived _ _ admission_step.enter [OF c, of "''splunk''" 0 False]]
    by (simp add: enforced_admitted_def Let_def)
  have c1: "?c1 \<in> set (st_calls enforced_admitted)" "cl_phase ?c1 = AdmitReport" by code_simp+
  show ?thesis
    using clock_step [OF admitted _ _ admission_step.admit_reported [OF c1, of "''splunk''" 0 5]]
    by (simp add: enforced_running_def Let_def)
qed

lemma daily_budget_respected_witness:
  "clocked_run ''splunk'' (keeps_budget 1000) 0 (fresh_instance enforced_db) 0 enforced_running \<and>
    ran_units ''splunk'' 0 (st_db enforced_running) = 33 \<and> ran_units ''splunk'' 0 (st_db enforced_running) \<le> 1000"
proof (intro conjI)
  show "ran_units ''splunk'' 0 (st_db enforced_running) = 33" by code_simp
  have "wp_mode (wd_policy enforced_db) = Enforce" "wp_daily_query_cost_units (wd_policy enforced_db) \<le> 1000"
    "events_wf enforced_db" "spent_units ''splunk'' (utc_day 0) enforced_db \<le> 1000"
    "ran_units ''splunk'' 0 enforced_db \<le> 1000"
    "\<forall>e \<in> set (wd_events enforced_db). we_created_at e \<le> 0 \<and> we_status e \<notin> {WQueued, WRunning}"
    by (simp_all add: enforced_db_def initial_workload_def events_wf_def spent_units_def ran_units_def)
  from daily_budget_respected [OF this enforced_runs]
  show "ran_units ''splunk'' 0 (st_db enforced_running) \<le> 1000" .
qed (rule enforced_runs)


subsection \<open>The guardrail and the controller\<close>

lemma rejected_query_blocks:
  assumes "is_query r" "validate_read_only_spl (rq_query r) = Inl err"
  shows "fst (call_assessment now inst r st) = Block \<and> call_estimate r = (call_estimate r)\<lparr>es_cost_units := 100\<rparr>"
proof -
  have "es_blocked_reason (call_estimate r) \<noteq> []"
    using assms blocked_reason_iff [of "rq_query r"]
    by (auto simp: call_estimate_def estimate_defs blocked_reason_strip)
  moreover from this have "es_cost_units (call_estimate r) = 100"
    using assms(1) by (auto simp: call_estimate_def estimate_defs cost_units_of_def)
  ultimately show ?thesis using assms(1) by (simp add: call_assessment_def assess_def Let_def)
qed

lemma prune_subset: "set (prune_events es) \<subseteq> set es"
  by (auto simp: prune_events_def Let_def sql_delete_def)

lemma created_member:
  assumes "create_event now row db = Inr db'" "e \<in> set (wd_events db')" "we_id e = we_id row"
  shows "we_status e = we_status row"
proof -
  obtain row' where row': "wd_events db' = prune_events (wd_events db @ [row'])" "we_status row' = we_status row"
    and new: "\<forall>x \<in> set (wd_events db). we_id x \<noteq> we_id row"
    using assms(1) by (auto simp: create_event_def Let_def list_ex_iff split: if_splits)
  then have "e \<in> set (wd_events db @ [row'])" using assms(2) prune_subset by (metis subsetD)
  then show ?thesis using new row'(2) assms(3) by auto
qed

text \<open>C5. In every policy mode a query that the read-only guardrail rejects never becomes a call: it
  leaves the counters and the calls alone, and its event, if it is kept, is blocked.\<close>

theorem rejected_query_never_runs:
  assumes "is_query r" "validate_read_only_spl (rq_query r) = Inl err"
    and "start_call now inst event_id r st = Inr st'"
  shows "st_calls st' = st_calls st \<and> st_slot st' = st_slot st \<and>
    filter (\<lambda>e. we_id e = event_id \<and> we_status e \<noteq> WBlocked) (wd_events (st_db st')) = []"
proof -
  let ?row = "call_row now inst event_id r st"
  have dec: "we_decision ?row = Block" "we_status ?row = WBlocked" "we_id ?row = event_id"
    using rejected_query_blocks [OF assms(1,2), of now inst st] by (auto simp: call_row_def Let_def)
  obtain db where db: "create_event now ?row (st_db st) = Inr db" "st' = st\<lparr>st_db := db\<rparr>"
    using assms(3) dec by (auto simp: start_call_def Let_def split: sum.splits)
  have "we_status e = WBlocked" if "e \<in> set (wd_events db)" "we_id e = event_id" for e
    using created_member [OF db(1) that(1)] dec that(2) by simp
  then show ?thesis using db(2) by (auto simp: filter_empty_conv)
qed

definition deny_call :: call_request where
  "deny_call = sample_call\<lparr>rq_query := ''|map''\<rparr>"

lemma rejected_query_never_runs_witness:
  "\<exists>st'. start_call 0 ''splunk'' ''e1'' deny_call (fresh_instance (initial_workload 0)) = Inr st' \<and>
    st_calls st' = [] \<and> st_slot st' = idle_instance \<and>
    filter (\<lambda>e. we_id e = ''e1'' \<and> we_status e \<noteq> WBlocked) (wd_events (st_db st')) = []"
proof -
  have q: "is_query deny_call" by code_simp
  have "re_search READ_ONLY_DENY (strip (rq_query deny_call))" by code_simp
  then obtain err where err: "validate_read_only_spl (rq_query deny_call) = Inl err"
    by (cases "validate_read_only_spl (rq_query deny_call)") (auto simp: validate_ok)
  obtain st' where st': "start_call 0 ''splunk'' ''e1'' deny_call (fresh_instance (initial_workload 0)) = Inr st'"
    by (simp add: start_call_def create_event_def Let_def fresh_instance_def initial_workload_def)
  from rejected_query_never_runs [OF q err st'] st' show ?thesis by (auto simp: fresh_instance_def)
qed

end
