(* ===== verification/Audit_Export_Store.thy ===== *)
theory Audit_Export_Store
  imports Audit_Chain
begin

text \<open>
  The durable state of the Splunk audit export (\<open>audit_export/store.py\<close>): one policy row, one state row
  with the export cursor, the delivery attempts, and the tables of the export operations. The three
  single-row tables are record fields; reads that only convert types are the fields themselves.
\<close>


section \<open>Rows\<close>

record export_policy =
  xp_enabled :: bool
  xp_index_name :: string
  xp_sourcetype :: string
  xp_source :: string
  xp_host :: string
  xp_verify_tls :: bool
  xp_ca_bundle :: "string option"
  xp_use_indexer_ack :: bool
  xp_channel_id :: string
  xp_batch_size :: int
  xp_max_attempts :: int
  xp_retry_backoff_seconds :: int
  xp_updated_at :: instant

datatype export_status =
  XDisabled | XPending | XSending | XIdle | XRetrying | XFailed | XChainInvalid | XConfigError

record export_state =
  xs_cursor_sequence :: int
  xs_status :: export_status
  xs_consecutive_failures :: int
  xs_next_attempt_at :: "instant option"
  xs_last_error :: string
  xs_last_http_status :: "int option"
  xs_last_batch_first_sequence :: "int option"
  xs_last_batch_last_sequence :: "int option"
  xs_last_batch_event_count :: int
  xs_last_payload_sha256 :: string
  xs_last_ack_id :: "int option"
  xs_last_ack_confirmed :: bool
  xs_last_success_at :: "instant option"
  xs_updated_at :: instant

datatype export_outcome = Delivered | Undelivered

record export_attempt =
  xa_first_sequence :: int
  xa_last_sequence :: int
  xa_event_count :: int
  xa_payload_bytes :: int
  xa_payload_sha256 :: string
  xa_destination_fingerprint :: string
  xa_outcome :: export_outcome
  xa_http_status :: "int option"
  xa_ack_id :: "int option"
  xa_ack_confirmed :: bool
  xa_error :: string
  xa_started_at :: instant
  xa_completed_at :: instant

record operations_policy =
  op_retention_days :: int
  op_deduplication_mode :: string
  op_expected_export_lag_minutes :: int
  op_source_silence_minutes :: int
  op_denied_request_threshold :: int
  op_dashboard_earliest :: string
  op_updated_at :: instant

record operations_export =
  oe_id :: string
  oe_filename :: string
  oe_archive_sha256 :: string
  oe_manifest_sha256 :: string
  oe_policy_sha256 :: string
  oe_destination_fingerprint :: string
  oe_created_at :: instant

record operations_reconciliation =
  rc_id :: string
  rc_status :: string
  rc_policy_sha256 :: string
  rc_destination_fingerprint :: string
  rc_export_id :: string
  rc_manifest_sha256 :: string
  rc_connection_alias :: string
  rc_connection_fingerprint :: string
  rc_tenant_scope_id :: string
  rc_snapshot_sha256 :: string
  rc_snapshot :: json
  rc_observed_at :: instant

record export_db =
  xd_policy :: export_policy
  xd_state :: export_state
  xd_attempts :: "export_attempt list"
  xd_operations_policy :: operations_policy
  xd_exports :: "operations_export list"
  xd_reconciliations :: "operations_reconciliation list"


section \<open>Operations\<close>

text \<open>The rows \<open>_initialize\<close> inserts into a new database.\<close>

definition initial_export :: "string \<Rightarrow> instant \<Rightarrow> export_db" where
  "initial_export channel_id now =
     \<lparr>xd_policy = \<lparr>xp_enabled = False, xp_index_name = ''signalroom_audit'',
        xp_sourcetype = ''signalroom:audit'', xp_source = ''signalroom:audit'', xp_host = ''signalroom'',
        xp_verify_tls = True, xp_ca_bundle = None, xp_use_indexer_ack = False,
        xp_channel_id = channel_id, xp_batch_size = 25, xp_max_attempts = 5,
        xp_retry_backoff_seconds = 30, xp_updated_at = now\<rparr>,
      xd_state = \<lparr>xs_cursor_sequence = 0, xs_status = XDisabled, xs_consecutive_failures = 0,
        xs_next_attempt_at = None, xs_last_error = [], xs_last_http_status = None,
        xs_last_batch_first_sequence = None, xs_last_batch_last_sequence = None,
        xs_last_batch_event_count = 0, xs_last_payload_sha256 = [], xs_last_ack_id = None,
        xs_last_ack_confirmed = False, xs_last_success_at = None, xs_updated_at = now\<rparr>,
      xd_attempts = [],
      xd_operations_policy = \<lparr>op_retention_days = 365, op_deduplication_mode = ''stable-event-id'',
        op_expected_export_lag_minutes = 15, op_source_silence_minutes = 60,
        op_denied_request_threshold = 5, op_dashboard_earliest = ''-24h'', op_updated_at = now\<rparr>,
      xd_exports = [], xd_reconciliations = []\<rparr>"

definition opt_text :: "string option \<Rightarrow> string option" where
  "opt_text s = (if s = Some [] then None else s)"

text \<open>The channel of the stored policy is kept; every other field is the request's.\<close>

definition update_export_policy :: "instant \<Rightarrow> export_policy \<Rightarrow> int option \<Rightarrow> export_db \<Rightarrow> export_db" where
  "update_export_policy now value reset_cursor db =
     (let st = xd_state db;
          policy = value\<lparr>xp_channel_id := xp_channel_id (xd_policy db), xp_ca_bundle := opt_text (xp_ca_bundle value),
             xp_updated_at := now\<rparr>;
          status = (if xp_enabled value then XPending else XDisabled);
          next = (if xp_enabled value then Some now else None)
      in case reset_cursor of
           Some c \<Rightarrow> db\<lparr>xd_policy := policy, xd_state := st\<lparr>xs_cursor_sequence := max c 0, xs_status := status,
             xs_consecutive_failures := 0, xs_next_attempt_at := next, xs_last_error := [],
             xs_last_http_status := None, xs_updated_at := now\<rparr>\<rparr>
         | None \<Rightarrow> db\<lparr>xd_policy := policy, xd_state := st\<lparr>xs_status := status, xs_next_attempt_at := next,
             xs_consecutive_failures := (if xp_enabled value then 0 else xs_consecutive_failures st),
             xs_last_error := (if xp_enabled value then [] else xs_last_error st), xs_updated_at := now\<rparr>\<rparr>)"

definition restart_text :: string where
  "restart_text = ''Process restarted during export; the'' @ CHR 0x0A # replicate 16 (CHR '' '') @
     ''uncommitted cursor will be retried with the same stable event IDs.''"

definition recover_interrupted_export :: "instant \<Rightarrow> export_db \<Rightarrow> bool \<times> export_db" where
  "recover_interrupted_export now db =
     (if xs_status (xd_state db) = XSending
      then (True, db\<lparr>xd_state := (xd_state db)\<lparr>xs_status := XPending, xs_next_attempt_at := Some now,
              xs_last_error := restart_text, xs_updated_at := now\<rparr>\<rparr>)
      else (False, db))"

definition mark_sending :: "instant \<Rightarrow> export_db \<Rightarrow> export_db" where
  "mark_sending now db = db\<lparr>xd_state := (xd_state db)\<lparr>xs_status := XSending,
     xs_next_attempt_at := None, xs_updated_at := now\<rparr>\<rparr>"

definition mark_idle :: "instant \<Rightarrow> export_db \<Rightarrow> export_db" where
  "mark_idle now db = db\<lparr>xd_state := (xd_state db)\<lparr>xs_status := XIdle, xs_next_attempt_at := None,
     xs_consecutive_failures := 0, xs_last_error := [], xs_updated_at := now\<rparr>\<rparr>"

definition mark_blocked :: "instant \<Rightarrow> export_status \<Rightarrow> string \<Rightarrow> export_db \<Rightarrow> export_db" where
  "mark_blocked now status err db = db\<lparr>xd_state := (xd_state db)\<lparr>xs_status := status,
     xs_next_attempt_at := None, xs_last_error := take 1000 err, xs_updated_at := now\<rparr>\<rparr>"

definition reset_failures :: "instant \<Rightarrow> export_db \<Rightarrow> export_db" where
  "reset_failures now db = db\<lparr>xd_state := (xd_state db)\<lparr>xs_status := XPending,
     xs_consecutive_failures := 0, xs_next_attempt_at := Some now, xs_last_error := [],
     xs_last_http_status := None, xs_updated_at := now\<rparr>\<rparr>"

definition retry_delay :: "export_policy \<Rightarrow> int \<Rightarrow> int" where
  "retry_delay policy failures = min (xp_retry_backoff_seconds policy * 2 ^ nat (max 0 (failures - 1))) 3600"

text \<open>What an attempt does to status, failure count, next attempt and cursor.\<close>

definition attempt_result ::
  "instant \<Rightarrow> export_attempt \<Rightarrow> bool \<Rightarrow> export_policy \<Rightarrow> export_state \<Rightarrow>
    export_status \<times> int \<times> instant option \<times> int" where
  "attempt_result now a retryable policy st =
     (let failures = xs_consecutive_failures st + (if xa_outcome a = Delivered then 0 else 1)
      in if xa_outcome a = Delivered then (XPending, 0, Some now, xa_last_sequence a)
         else if retryable \<and> failures < xp_max_attempts policy
         then (XRetrying, failures, Some (now + seconds (retry_delay policy failures)), xs_cursor_sequence st)
         else (XFailed, failures, None, xs_cursor_sequence st))"

definition record_attempt :: "instant \<Rightarrow> export_attempt \<Rightarrow> bool \<Rightarrow> export_db \<Rightarrow> export_db" where
  "record_attempt now a retryable db =
     (let st = xd_state db;
          (status, failures, next_attempt, cursor) = attempt_result now a retryable (xd_policy db) st;
          row = a\<lparr>xa_error := take 1000 (xa_error a), xa_completed_at := now\<rparr>
      in db\<lparr>xd_attempts := xd_attempts db @ [row],
            xd_state := \<lparr>xs_cursor_sequence = cursor, xs_status = status, xs_consecutive_failures = failures,
              xs_next_attempt_at = next_attempt, xs_last_error = take 1000 (xa_error a),
              xs_last_http_status = xa_http_status a,
              xs_last_batch_first_sequence = Some (xa_first_sequence a),
              xs_last_batch_last_sequence = Some (xa_last_sequence a),
              xs_last_batch_event_count = xa_event_count a,
              xs_last_payload_sha256 = xa_payload_sha256 a, xs_last_ack_id = xa_ack_id a,
              xs_last_ack_confirmed = xa_ack_confirmed a,
              xs_last_success_at = (if xa_outcome a = Delivered then Some now else xs_last_success_at st),
              xs_updated_at = now\<rparr>\<rparr>)"

definition clamp_100 :: "int \<Rightarrow> int" where
  "clamp_100 n = min (max n 1) 100"

text \<open>\<open>ORDER BY id DESC\<close>: the newest attempts first.\<close>

definition export_attempts :: "int \<Rightarrow> export_db \<Rightarrow> export_attempt list" where
  "export_attempts n db = sql_limit (clamp_100 n) (rev (xd_attempts db))"

definition update_operations_policy :: "instant \<Rightarrow> operations_policy \<Rightarrow> export_db \<Rightarrow> export_db" where
  "update_operations_policy now value db = db\<lparr>xd_operations_policy := value\<lparr>op_updated_at := now\<rparr>\<rparr>"

definition record_operations_export :: "instant \<Rightarrow> operations_export \<Rightarrow> export_db \<Rightarrow> export_db result" where
  "record_operations_export now e db =
     (if list_ex (\<lambda>x. oe_id x = oe_id e \<or> oe_filename x = oe_filename e) (xd_exports db)
      then Inl (IntegrityError ''audit_operations_exports'')
      else Inr (db\<lparr>xd_exports := xd_exports db @ [e\<lparr>oe_created_at := now\<rparr>]\<rparr>))"

definition operations_exports :: "int \<Rightarrow> export_db \<Rightarrow> operations_export list" where
  "operations_exports n db = sql_limit (clamp_100 n) (sql_order_desc oe_created_at (xd_exports db))"

text \<open>
  The snapshot is stored as text and read back with its members sorted; \<open>observed\<close> is the time the
  snapshot states, when it states one. The foreign key is declared but SQLite does not enforce it.
\<close>

definition record_operations_reconciliation ::
  "instant \<Rightarrow> instant option \<Rightarrow> operations_reconciliation \<Rightarrow> export_db \<Rightarrow> export_db result" where
  "record_operations_reconciliation now observed r db =
     (if list_ex (\<lambda>x. rc_id x = rc_id r) (xd_reconciliations db)
      then Inl (IntegrityError ''audit_operations_reconciliations.id'')
      else Inr (db\<lparr>xd_reconciliations := xd_reconciliations db @
        [r\<lparr>rc_status := take 40 (rc_status r), rc_snapshot := json_norm (rc_snapshot r),
           rc_observed_at := (case observed of None \<Rightarrow> now | Some t \<Rightarrow> t)\<rparr>]\<rparr>))"

definition operations_reconciliation :: "string \<Rightarrow> export_db \<Rightarrow> operations_reconciliation option" where
  "operations_reconciliation i db = sql_first (\<lambda>r. rc_id r = i) (xd_reconciliations db)"

definition operations_reconciliations ::
  "int \<Rightarrow> string list option \<Rightarrow> export_db \<Rightarrow> operations_reconciliation list" where
  "operations_reconciliations n allowed db =
     (case allowed of
        None \<Rightarrow> sql_limit (clamp_100 n) (sql_order_desc rc_observed_at (xd_reconciliations db))
      | Some aliases \<Rightarrow>
          if aliases = [] then []
          else sql_limit (clamp_100 n) (sql_order_desc rc_observed_at
            (filter (\<lambda>r. List.member aliases (rc_connection_alias r)) (xd_reconciliations db))))"


section \<open>Retries\<close>

lemma retry_delay_bounds: "1 \<le> xp_retry_backoff_seconds p \<Longrightarrow> 1 \<le> retry_delay p n \<and> retry_delay p n \<le> 3600"
  using mult_mono [of 1 "xp_retry_backoff_seconds p" 1 "2 ^ nat (max 0 (n - 1))"]
  by (simp add: retry_delay_def)

lemma retry_delay_mono:
  assumes "1 \<le> xp_retry_backoff_seconds p" "m \<le> n"
  shows "retry_delay p m \<le> retry_delay p n"
proof -
  have "(2::int) ^ nat (max 0 (m - 1)) \<le> 2 ^ nat (max 0 (n - 1))"
    using assms(2) by (intro power_increasing) auto
  then have "xp_retry_backoff_seconds p * 2 ^ nat (max 0 (m - 1)) \<le> xp_retry_backoff_seconds p * 2 ^ nat (max 0 (n - 1))"
    using assms(1) by (intro mult_left_mono) auto
  then show ?thesis by (auto simp: retry_delay_def)
qed

text \<open>After a failed attempt the cursor is where it was and, unless the attempts are used up or the
  failure is final, the next attempt is due between one second and one hour later, never sooner than
  after the previous failure.\<close>

theorem failed_attempt_backs_off:
  assumes "1 \<le> xp_retry_backoff_seconds (xd_policy db)" "xa_outcome a = Undelivered"
  shows "let st = xd_state db; st' = xd_state (record_attempt now a retryable db) in
    xs_cursor_sequence st' = xs_cursor_sequence st \<and>
    xs_consecutive_failures st' = xs_consecutive_failures st + 1 \<and>
    (if retryable \<and> xs_consecutive_failures st + 1 < xp_max_attempts (xd_policy db)
     then xs_status st' = XRetrying \<and>
       (\<exists>t. xs_next_attempt_at st' = Some t \<and> now + seconds 1 \<le> t \<and> t \<le> now + hours 1 \<and>
         now + seconds (retry_delay (xd_policy db) (xs_consecutive_failures st)) \<le> t)
     else xs_status st' = XFailed \<and> xs_next_attempt_at st' = None)"
  using assms(2) retry_delay_bounds [OF assms(1)] retry_delay_mono [OF assms(1)]
  by (auto simp: record_attempt_def attempt_result_def Let_def time_defs)

definition failed_sample :: export_attempt where
  "failed_sample = \<lparr>xa_first_sequence = 1, xa_last_sequence = 2, xa_event_count = 2, xa_payload_bytes = 10,
     xa_payload_sha256 = [], xa_destination_fingerprint = [], xa_outcome = Undelivered,
     xa_http_status = Some 503, xa_ack_id = None, xa_ack_confirmed = False, xa_error = ''HTTP 503'',
     xa_started_at = 0, xa_completed_at = 0\<rparr>"

lemma failed_attempt_backs_off_witness:
  "xs_status (xd_state (record_attempt 7 failed_sample True (initial_export ''c'' 0))) = XRetrying"
  using failed_attempt_backs_off [of "initial_export ''c'' 0" failed_sample 7 True]
  by (simp add: initial_export_def failed_sample_def Let_def)

end
