(* ===== verification/Audit_Export.thy ===== *)
theory Audit_Export
  imports Audit_Export_Store Python_Values
begin

text \<open>
  The export service (\<open>audit_export/service.py\<close>): the destination policy and its validation, batching,
  the interpretation of a HEC reply, and the export as a machine whose transitions are the code between
  two awaits of \<open>_export_once\<close>. The service's own lock admits one export at a time, but
  \<open>update_policy\<close> and audit appends do not take it, so they may fall between the start of an export and
  its end.

  Parameters: \<open>digest\<close> (SHA-256 in hexadecimal), \<open>urlparse\<close> (the parts \<open>urllib.parse.urlparse\<close> finds),
  \<open>is_file\<close> (the file system), \<open>time_json\<close> (the epoch seconds of a time text), \<open>repr\<close> (Python's text of a list or dictionary). What the HEC endpoint
  answers is the argument of the transition that ends an export. The two HEC secrets, which the
  configuration store keeps, are a record of this theory.
\<close>


section \<open>Destination\<close>

definition LOOPBACK_HOSTS :: "string list" where
  "LOOPBACK_HOSTS = [''localhost'', ''127.0.0.1'', ''::1'']"

definition RESERVED_INDEXES :: "string list" where
  "RESERVED_INDEXES = [''default'', ''history'', ''main'', ''summary'', ''_audit'', ''_internal'',
     ''_introspection'', ''_telemetry'']"

definition MAX_BATCH_BYTES :: int where
  "MAX_BATCH_BYTES = 900000"

definition printable_value :: "string \<Rightarrow> bool" where
  "printable_value s = (s \<noteq> [] \<and> list_all (\<lambda>c. 32 \<le> code c \<and> code c \<noteq> 127) s)"

definition validate_url :: "(string \<Rightarrow> parsed_url) \<Rightarrow> string \<Rightarrow> unit result" where
  "validate_url urlparse value =
     (let p = urlparse value in
      if list_ex is_space value then Inl (ValueError ''The HEC origin must not contain whitespace'')
      else if pu_hostname p = [] then Inl (ValueError ''The HEC origin must include a hostname'')
      else if \<not> is_ok (pu_port p) then Inl (ValueError ''The HEC origin contains an invalid port'')
      else if pu_username p \<noteq> [] \<or> pu_password p \<noteq> []
        then Inl (ValueError ''HEC credentials must not be embedded in the origin'')
      else if (pu_path p \<noteq> [] \<and> pu_path p \<noteq> ''/'') \<or> pu_params p \<noteq> [] \<or> pu_query p \<noteq> [] \<or> pu_fragment p \<noteq> []
        then Inl (ValueError ''The HEC destination must be an origin without a path, query, or fragment'')
      else if pu_scheme p = ''https'' then Inr ()
      else if pu_scheme p = ''http'' \<and> List.member LOOPBACK_HOSTS (lower (pu_hostname p)) then Inr ()
      else Inl (ValueError ''HEC audit export requires HTTPS; HTTP is allowed only for loopback testing''))"

definition url_origin :: "(string \<Rightarrow> parsed_url) \<Rightarrow> string \<Rightarrow> string" where
  "url_origin urlparse value =
     (let p = urlparse value; default_port = (if pu_scheme p = ''https'' then 443 else 80) in
      if pu_hostname p = [] then []
      else case pu_port p of
        Inl _ \<Rightarrow> []
      | Inr port \<Rightarrow> pu_scheme p @ ''://'' @ pu_hostname p @
          (case port of Some n \<Rightarrow> if n \<noteq> 0 \<and> n \<noteq> default_port then '':'' @ int_text n else [] | None \<Rightarrow> []))"

definition destination_fingerprint ::
  "(string \<Rightarrow> string) \<Rightarrow> (string \<Rightarrow> parsed_url) \<Rightarrow> string \<Rightarrow> export_policy \<Rightarrow> string" where
  "destination_fingerprint digest urlparse url p = digest (json_text (JObj
     [(''origin'', JStr (url_origin urlparse url)), (''index_name'', JStr (xp_index_name p)),
      (''sourcetype'', JStr (xp_sourcetype p)), (''source'', JStr (xp_source p)), (''host'', JStr (xp_host p))]))"

fun validate_values :: "(string \<times> string) list \<Rightarrow> unit result" where
  "validate_values [] = Inr ()"
| "validate_values ((name, item) # rest) =
     (if item \<noteq> strip item \<or> \<not> printable_value item
      then Inl (ValueError (''The audit '' @ name @ '' must be one printable value''))
      else validate_values rest)"

definition validate_export_policy ::
  "(string \<Rightarrow> parsed_url) \<Rightarrow> (string \<Rightarrow> bool) \<Rightarrow> export_policy \<Rightarrow> string \<Rightarrow> string \<Rightarrow> unit result" where
  "validate_export_policy urlparse is_file p url token =
     (if List.member RESERVED_INDEXES (lower (xp_index_name p)) \<or> starts_with ''_'' (xp_index_name p)
      then Inl (ValueError ''Choose a dedicated non-default Splunk index for SignalRoom audit events'')
      else case validate_values [(''sourcetype'', xp_sourcetype p), (''source'', xp_source p), (''host'', xp_host p)] of
        Inl e \<Rightarrow> Inl e
      | Inr _ \<Rightarrow>
        (case (if url \<noteq> [] then validate_url urlparse url else Inr ()) of
           Inl e \<Rightarrow> Inl e
         | Inr _ \<Rightarrow>
            if token \<noteq> [] \<and> (list_ex is_space token \<or> \<not> printable_value token)
            then Inl (ValueError ''The HEC token must be printable and contain no whitespace'')
            else if xp_enabled p \<and> (url = [] \<or> token = [])
            then Inl (ValueError ''A HEC origin and dedicated HEC token are required before audit export can be enabled'')
            else if opt_text (xp_ca_bundle p) \<noteq> None \<and> xp_verify_tls p \<and> \<not> is_file (the (xp_ca_bundle p))
            then Inl (ValueError ''The audit-export private CA bundle path does not exist'')
            else Inr ()))"


section \<open>Batching\<close>

definition event_members :: "audit_event \<Rightarrow> (string \<times> json) list" where
  "event_members e =
     [(''sequence'', JInt (ae_sequence e)), (''id'', JStr (ae_id e)), (''event_type'', JStr (ae_event_type e)),
      (''action'', JStr (ae_action e)), (''actor'', JStr (ae_actor e)),
      (''target_type'', JStr (ae_target_type e)), (''target_id'', JStr (ae_target_id e)),
      (''outcome'', JStr (ae_outcome e)), (''summary'', JStr (ae_summary e)),
      (''metadata'', ae_metadata e), (''created_at'', JStr (ae_created_at e)),
      (''previous_hash'', JStr (ae_previous_hash e)), (''event_hash'', JStr (ae_event_hash e))]"

definition envelope :: "(string \<Rightarrow> json) \<Rightarrow> export_policy \<Rightarrow> audit_event \<Rightarrow> json" where
  "envelope time_json p e = JObj
     [(''time'', time_json (ae_created_at e)), (''host'', JStr (xp_host p)), (''source'', JStr (xp_source p)),
      (''sourcetype'', JStr (xp_sourcetype p)), (''index'', JStr (xp_index_name p)),
      (''fields'', JObj
         [(''signalroom_event_id'', JStr (ae_id e)), (''signalroom_sequence'', JInt (ae_sequence e)),
          (''signalroom_event_type'', JStr (ae_event_type e)), (''signalroom_outcome'', JStr (ae_outcome e)),
          (''signalroom_actor'', JStr (ae_actor e)), (''signalroom_target_type'', JStr (ae_target_type e)),
          (''signalroom_previous_hash'', JStr (ae_previous_hash e)),
          (''signalroom_event_hash'', JStr (ae_event_hash e)),
          (''signalroom_schema'', JStr ''signalroom.audit.v1'')]),
      (''event'', JObj ((''schema'', JStr ''signalroom.audit.v1'') # event_members e
         @ [(''chain_algorithm'', JStr ''sha256'')]))]"

text \<open>The items of the batch: \<open>encoded\<close> are those taken so far.\<close>

fun batch_items :: "(audit_event \<Rightarrow> string) \<Rightarrow> string list \<Rightarrow> audit_event list \<Rightarrow> string list" where
  "batch_items encode encoded [] = encoded"
| "batch_items encode encoded (e # es) =
     (let item = encode e;
          prospective = int (sum_list (map length encoded) + length encoded + length item)
      in if encoded \<noteq> [] \<and> MAX_BATCH_BYTES < prospective then encoded
         else batch_items encode (encoded @ [item]) es)"

fun join_lines :: "string list \<Rightarrow> string" where
  "join_lines [] = []"
| "join_lines [x] = x"
| "join_lines (x # y # ys) = x @ CHR 0x0A # join_lines (y # ys)"

definition export_batch ::
  "(string \<Rightarrow> json) \<Rightarrow> export_policy \<Rightarrow> audit_event list \<Rightarrow> audit_event list \<times> string" where
  "export_batch time_json p events =
     (let items = batch_items (\<lambda>e. json_text (envelope time_json p e)) [] events
      in (take (length items) events, join_lines items))"


section \<open>Replies\<close>

text \<open>An acknowledgement poll that ends before the deadline, and what the event endpoint did.\<close>

datatype ack_poll = PollReply int json | PollError string

datatype hec_reply =
    NoReply string
  | HecReply int json "ack_poll list"

text \<open>An \<open>ackId\<close> that is a non-negative \<open>int\<close> (a Boolean is one), with its \<open>str\<close>.\<close>

fun ack_number :: "json option \<Rightarrow> (int \<times> string) option" where
  "ack_number (Some (JInt n)) = (if 0 \<le> n then Some (n, int_text n) else None)"
| "ack_number (Some (JBool b)) = (if b then Some (1, ''True'') else Some (0, ''False''))"
| "ack_number _ = None"

fun wait_for_ack :: "string \<Rightarrow> ack_poll list \<Rightarrow> string + bool" where
  "wait_for_ack ack [] = Inr False"
| "wait_for_ack ack (PollError name # polls) = Inl name"
| "wait_for_ack ack (PollReply status value # polls) =
     (if status \<noteq> 200 then Inr False
      else if Option.bind (json_member ''acks'' value) (json_member ack) = Some (JBool True) then Inr True
      else wait_for_ack ack polls)"

record reply_result =
  rr_outcome :: export_outcome
  rr_http_status :: "int option"
  rr_ack_id :: "int option"
  rr_ack_confirmed :: bool
  rr_error :: string
  rr_retryable :: bool

definition failed_name :: "string \<Rightarrow> string" where
  "failed_name name = ''HEC audit export failed ('' @ name @ '')''"

text \<open>\<open>str(value.get("code", "unknown"))\<close>.\<close>

fun code_text :: "(json \<Rightarrow> string) \<Rightarrow> json option \<Rightarrow> string" where
  "code_text repr None = ''unknown''"
| "code_text repr (Some v) = json_str repr v"

fun reply_result_of :: "(json \<Rightarrow> string) \<Rightarrow> export_policy \<Rightarrow> hec_reply \<Rightarrow> reply_result" where
  "reply_result_of repr p (NoReply name) =
     \<lparr>rr_outcome = Undelivered, rr_http_status = None, rr_ack_id = None, rr_ack_confirmed = False,
      rr_error = failed_name name, rr_retryable = True\<rparr>"
| "reply_result_of repr p (HecReply status value polls) =
     (if status = 200 \<and> (case json_member ''code'' value of None \<Rightarrow> False | Some v \<Rightarrow> json_zero v)
      then if xp_use_indexer_ack p
        then case ack_number (json_member ''ackId'' value) of
          None \<Rightarrow> \<lparr>rr_outcome = Undelivered, rr_http_status = Some status, rr_ack_id = None,
             rr_ack_confirmed = False, rr_error = ''HEC accepted the batch without an ackId; enable indexer acknowledgement for the dedicated token or disable the SignalRoom acknowledgement requirement.'',
             rr_retryable = False\<rparr>
        | Some (n, ack) \<Rightarrow>
            (case wait_for_ack ack polls of
               Inl name \<Rightarrow> \<lparr>rr_outcome = Undelivered, rr_http_status = Some status, rr_ack_id = Some n,
                 rr_ack_confirmed = False, rr_error = failed_name name, rr_retryable = True\<rparr>
             | Inr True \<Rightarrow> \<lparr>rr_outcome = Delivered, rr_http_status = Some status, rr_ack_id = Some n,
                 rr_ack_confirmed = True, rr_error = [], rr_retryable = True\<rparr>
             | Inr False \<Rightarrow> \<lparr>rr_outcome = Undelivered, rr_http_status = Some status, rr_ack_id = Some n,
                 rr_ack_confirmed = False,
                 rr_error = ''HEC did not confirm indexer acknowledgement before the bounded timeout; retry may duplicate stable event IDs.'',
                 rr_retryable = True\<rparr>)
        else \<lparr>rr_outcome = Delivered, rr_http_status = Some status, rr_ack_id = None, rr_ack_confirmed = False,
               rr_error = [], rr_retryable = True\<rparr>
      else \<lparr>rr_outcome = Undelivered, rr_http_status = Some status, rr_ack_id = None, rr_ack_confirmed = False,
             rr_error = (if status \<noteq> 200 then ''HEC rejected the batch with HTTP '' @ int_text status
               else ''HEC returned response code '' @ code_text repr (json_member ''code'' value)),
             rr_retryable = (status \<in> {408, 425, 429} \<or> 500 \<le> status)\<rparr>)"


section \<open>The service\<close>

record hec_secrets =
  hs_url_env :: string
  hs_url_vault :: string
  hs_token_env :: string
  hs_token_vault :: string

definition secret_url :: "hec_secrets \<Rightarrow> string" where
  "secret_url s = (if hs_url_env s \<noteq> [] then hs_url_env s else hs_url_vault s)"

definition secret_token :: "hec_secrets \<Rightarrow> string" where
  "secret_token s = (if hs_token_env s \<noteq> [] then hs_token_env s else hs_token_vault s)"

record policy_request =
  pr_policy :: export_policy
  pr_backfill_existing :: bool
  pr_hec_url :: "string option"
  pr_hec_token :: "string option"
  pr_clear_hec_url :: bool
  pr_clear_hec_token :: bool

text \<open>An export that is waiting for its reply.\<close>

record in_flight =
  fl_events :: "audit_event list"
  fl_policy :: export_policy
  fl_body :: string
  fl_fingerprint :: string
  fl_started_at :: instant

text \<open>\<open>ew_accepted\<close> are the events of the batches the destination confirmed, in order.\<close>

record export_world =
  ew_db :: export_db
  ew_audit :: audit_db
  ew_secrets :: hec_secrets
  ew_flight :: "in_flight option"
  ew_accepted :: "audit_event list"

record environment =
  en_digest :: "string \<Rightarrow> string"
  en_urlparse :: "string \<Rightarrow> parsed_url"
  en_is_file :: "string \<Rightarrow> bool"
  en_time_json :: "string \<Rightarrow> json"
  en_repr :: "json \<Rightarrow> string"

definition given :: "string option \<Rightarrow> bool" where
  "given s = (opt_text s \<noteq> None)"

definition candidate_url :: "policy_request \<Rightarrow> hec_secrets \<Rightarrow> string" where
  "candidate_url r s = (if given (pr_hec_url r) then strip (the (pr_hec_url r))
     else if pr_clear_hec_url r then [] else secret_url s)"

definition candidate_token :: "policy_request \<Rightarrow> hec_secrets \<Rightarrow> string" where
  "candidate_token r s = (if given (pr_hec_token r) then strip (the (pr_hec_token r))
     else if pr_clear_hec_token r then [] else secret_token s)"

text \<open>\<open>update_secrets\<close> ignores empty values and the mask, \<open>delete_secrets\<close> clears.\<close>

definition store_secret :: "string option \<Rightarrow> bool \<Rightarrow> string \<Rightarrow> string" where
  "store_secret value clear old = (let new = (if given value \<and> strip (the value) \<noteq> [] \<and> strip (the value) \<noteq> ''***''
       then strip (the value) else old) in if clear then [] else new)"

definition policy_metadata :: "environment \<Rightarrow> policy_request \<Rightarrow> export_policy \<Rightarrow> string \<Rightarrow> string \<Rightarrow> int option \<Rightarrow> bool \<Rightarrow> (string \<times> pyval) list" where
  "policy_metadata env r p url token reset_cursor changed =
     [(''enabled'', PyBool (xp_enabled p)),
      (''destination_origin'', PyStr (if url \<noteq> [] then url_origin (en_urlparse env) url else [])),
      (''index_name'', PyStr (xp_index_name p)), (''sourcetype'', PyStr (xp_sourcetype p)),
      (''verify_tls'', PyBool (xp_verify_tls p)), (''private_ca_configured'', PyBool (xp_ca_bundle p \<noteq> None)),
      (''use_indexer_ack'', PyBool (xp_use_indexer_ack p)), (''batch_size'', PyInt (xp_batch_size p)),
      (''max_attempts'', PyInt (xp_max_attempts p)), (''backfill_existing'', PyBool (pr_backfill_existing r)),
      (''cursor_reset'', (case reset_cursor of None \<Rightarrow> PyNone | Some c \<Rightarrow> PyInt c)),
      (''destination_changed'', PyBool changed), (''token_configured'', PyBool (token \<noteq> []))]"

text \<open>Where the cursor moves when a policy is stored.\<close>

definition cursor_reset :: "environment \<Rightarrow> policy_request \<Rightarrow> export_world \<Rightarrow> int option" where
  "cursor_reset env r w =
     (let old = xd_policy (ew_db w); new = pr_policy r;
          fp = destination_fingerprint (en_digest env) (en_urlparse env);
          identity_changed = (fp (secret_url (ew_secrets w)) old \<noteq> fp (candidate_url r (ew_secrets w)) new);
          newly_enabled = (xp_enabled new \<and> \<not> xp_enabled old)
      in if newly_enabled \<or> (xp_enabled new \<and> identity_changed)
         then Some (if pr_backfill_existing r then 0 else latest_sequence (ew_audit w)) else None)"

definition identity_changed :: "environment \<Rightarrow> policy_request \<Rightarrow> export_world \<Rightarrow> bool" where
  "identity_changed env r w =
     (destination_fingerprint (en_digest env) (en_urlparse env) (secret_url (ew_secrets w)) (xd_policy (ew_db w))
      \<noteq> destination_fingerprint (en_digest env) (en_urlparse env) (candidate_url r (ew_secrets w)) (pr_policy r))"

definition policy_audit :: "environment \<Rightarrow> policy_request \<Rightarrow> export_policy \<Rightarrow> export_world \<Rightarrow> audit_request" where
  "policy_audit env r p w =
     \<lparr>ar_event_type = ''audit.export.policy.updated'', ar_action = ''update'',
      ar_target_type = ''audit-export-policy'', ar_target_id = ''primary'', ar_outcome = ''success'',
      ar_summary = ''Dedicated Splunk audit export was '' @ (if xp_enabled p then ''enabled'' else ''disabled'') @ ''.'',
      ar_metadata = policy_metadata env r p (candidate_url r (ew_secrets w)) (candidate_token r (ew_secrets w))
        (cursor_reset env r w) (identity_changed env r w),
      ar_actor = []\<rparr>"

definition check_policy_request :: "environment \<Rightarrow> policy_request \<Rightarrow> export_world \<Rightarrow> unit result" where
  "check_policy_request env r w =
     (if given (pr_hec_url r) \<and> pr_clear_hec_url r
      then Inl (ValueError ''Choose either a replacement HEC URL or removal, not both'')
      else if given (pr_hec_token r) \<and> pr_clear_hec_token r
      then Inl (ValueError ''Choose either a replacement HEC token or removal, not both'')
      else if pr_clear_hec_url r \<and> hs_url_env (ew_secrets w) \<noteq> []
      then Inl (ValueError ''The HEC URL is environment-managed; remove SIGNALROOM_AUDIT_HEC_URL and restart SignalRoom'')
      else if pr_clear_hec_token r \<and> hs_token_env (ew_secrets w) \<noteq> []
      then Inl (ValueError ''The HEC token is environment-managed; remove SIGNALROOM_AUDIT_HEC_TOKEN and restart SignalRoom'')
      else validate_export_policy (en_urlparse env) (en_is_file env) (pr_policy r)
        (candidate_url r (ew_secrets w)) (candidate_token r (ew_secrets w)))"

definition update_policy ::
  "environment \<Rightarrow> instant \<Rightarrow> string \<Rightarrow> string \<Rightarrow> string \<Rightarrow> policy_request \<Rightarrow> export_world \<Rightarrow> unit result \<times> export_world" where
  "update_policy env now now_text event_id actor r w =
     (case check_policy_request env r w of
        Inl e \<Rightarrow> (Inl e, w)
      | Inr _ \<Rightarrow>
         (let s = ew_secrets w;
              s' = s\<lparr>hs_url_vault := store_secret (pr_hec_url r) (pr_clear_hec_url r) (hs_url_vault s),
                     hs_token_vault := store_secret (pr_hec_token r) (pr_clear_hec_token r) (hs_token_vault s)\<rparr>;
              db = update_export_policy now (pr_policy r) (cursor_reset env r w) (ew_db w);
              (recorded, audit) = record_event (en_digest env) event_id now_text actor
                (policy_audit env r (xd_policy db) w) (ew_audit w)
          in (case recorded of Inl e \<Rightarrow> Inl e | Inr _ \<Rightarrow> Inr (),
              w\<lparr>ew_secrets := s', ew_db := db, ew_audit := audit\<rparr>)))"

datatype export_result = RDisabled | RConfigError | RChainInvalid | RIdle | RSending

text \<open>\<open>_export_once\<close> up to the request.\<close>

definition begin_export :: "environment \<Rightarrow> instant \<Rightarrow> export_world \<Rightarrow> export_result \<times> export_world" where
  "begin_export env now w =
     (let p = xd_policy (ew_db w); url = secret_url (ew_secrets w);
          chain = verify_chain (en_digest env) (ew_audit w);
          events = events_after (xs_cursor_sequence (xd_state (ew_db w))) (xp_batch_size p) (ew_audit w)
      in if \<not> xp_enabled p then (RDisabled, w)
         else if url = [] \<or> secret_token (ew_secrets w) = []
         then (RConfigError, w\<lparr>ew_db := mark_blocked now XConfigError
                 ''A HEC origin and dedicated HEC token are required.'' (ew_db w)\<rparr>)
         else if \<not> cr_valid chain
         then (RChainInvalid, w\<lparr>ew_db := mark_blocked now XChainInvalid
                 (''The local audit chain failed verification at sequence '' @
                  int_text (case cr_broken_sequence chain of None \<Rightarrow> 0 | Some n \<Rightarrow> n) @
                  ''; no events were exported.'') (ew_db w)\<rparr>)
         else if events = [] then (RIdle, w\<lparr>ew_db := mark_idle now (ew_db w)\<rparr>)
         else (let (selected, body) = export_batch (en_time_json env) p events
               in (RSending, w\<lparr>ew_db := mark_sending now (ew_db w),
                    ew_flight := Some \<lparr>fl_events = selected, fl_policy = p, fl_body = body,
                      fl_fingerprint = destination_fingerprint (en_digest env) (en_urlparse env) url p,
                      fl_started_at = now\<rparr>\<rparr>)))"

definition flight_attempt :: "environment \<Rightarrow> in_flight \<Rightarrow> reply_result \<Rightarrow> export_attempt" where
  "flight_attempt env f res =
     \<lparr>xa_first_sequence = ae_sequence (hd (fl_events f)), xa_last_sequence = ae_sequence (last (fl_events f)),
      xa_event_count = int (length (fl_events f)), xa_payload_bytes = int (length (fl_body f)),
      xa_payload_sha256 = en_digest env (fl_body f), xa_destination_fingerprint = fl_fingerprint f,
      xa_outcome = rr_outcome res, xa_http_status = rr_http_status res, xa_ack_id = rr_ack_id res,
      xa_ack_confirmed = rr_ack_confirmed res, xa_error = rr_error res, xa_started_at = fl_started_at f,
      xa_completed_at = fl_started_at f\<rparr>"

text \<open>\<open>_export_once\<close> from the reply to its end.\<close>

definition end_export :: "environment \<Rightarrow> instant \<Rightarrow> hec_reply \<Rightarrow> in_flight \<Rightarrow> export_world \<Rightarrow> export_world" where
  "end_export env now reply f w =
     (let res = reply_result_of (en_repr env) (fl_policy f) reply
      in w\<lparr>ew_db := record_attempt now (flight_attempt env f res) (rr_retryable res) (ew_db w),
           ew_flight := None,
           ew_accepted := ew_accepted w @ (if rr_outcome res = Delivered then fl_events f else [])\<rparr>)"

text \<open>When the worker starts an export.\<close>

definition export_due :: "instant \<Rightarrow> export_db \<Rightarrow> bool" where
  "export_due now db = (xp_enabled (xd_policy db)
     \<and> xs_status (xd_state db) \<notin> {XFailed, XChainInvalid, XConfigError}
     \<and> (case xs_next_attempt_at (xd_state db) of None \<Rightarrow> True | Some t \<Rightarrow> t \<le> now))"

text \<open>
  The transitions: the worker finds an export due, \<open>run_now\<close> resets the failures and later obtains the
  lock, a reply ends an export, the worker fails or the process restarts, an audit event is appended,
  the policy is replaced.
\<close>

datatype export_op =
    Work instant
  | RunNow instant
  | ForcedExport instant
  | HecAnswer instant hec_reply
  | WorkerFailed instant string
  | Restart instant
  | Append audit_op
  | StorePolicy instant string string string policy_request

fun export_step :: "environment \<Rightarrow> export_op \<Rightarrow> export_world \<Rightarrow> export_world" where
  "export_step env (Work now) w =
     (if ew_flight w = None \<and> export_due now (ew_db w) then snd (begin_export env now w) else w)"
| "export_step env (RunNow now) w =
     (if xp_enabled (xd_policy (ew_db w)) then w\<lparr>ew_db := reset_failures now (ew_db w)\<rparr> else w)"
| "export_step env (ForcedExport now) w = (if ew_flight w = None then snd (begin_export env now w) else w)"
| "export_step env (HecAnswer now reply) w =
     (case ew_flight w of None \<Rightarrow> w | Some f \<Rightarrow> end_export env now reply f w)"
| "export_step env (WorkerFailed now name) w = w\<lparr>ew_flight := None,
     ew_db := mark_blocked now XFailed (''Audit export worker failed ('' @ name @ '').'') (ew_db w)\<rparr>"
| "export_step env (Restart now) w =
     w\<lparr>ew_db := snd (recover_interrupted_export now (ew_db w)), ew_flight := None\<rparr>"
| "export_step env (Append op) w = w\<lparr>ew_audit := audit_step (en_digest env) op (ew_audit w)\<rparr>"
| "export_step env (StorePolicy now now_text i actor r) w = snd (update_policy env now now_text i actor r w)"


section \<open>A batch\<close>

lemma batch_items_extends: "\<exists>k. batch_items ec acc es = acc @ map ec (take k es) \<and> k \<le> length es
    \<and> (acc = [] \<and> es \<noteq> [] \<longrightarrow> 1 \<le> k)"
proof (induction es arbitrary: acc)
  case (Cons e es)
  show ?case
  proof (cases "acc \<noteq> [] \<and> MAX_BATCH_BYTES < int (sum_list (map length acc) + length acc + length (ec e))")
    case True
    then show ?thesis by (intro exI [of _ 0]) (simp add: Let_def)
  next
    case False
    obtain k where "batch_items ec (acc @ [ec e]) es = (acc @ [ec e]) @ map ec (take k es)" "k \<le> length es"
      using Cons.IH by blast
    with False show ?thesis by (intro exI [of _ "Suc k"]) (auto simp: Let_def)
  qed
qed auto

definition items_size :: "string list \<Rightarrow> nat" where
  "items_size xs = sum_list (map length xs) + length xs - 1"

lemma length_join_lines: "length (join_lines xs) = items_size xs"
  by (induction xs rule: join_lines.induct) (auto simp: items_size_def)

lemma batch_items_size:
  "length acc \<le> 1 \<or> int (items_size acc) \<le> MAX_BATCH_BYTES \<Longrightarrow>
    length (batch_items ec acc es) \<le> 1 \<or> int (items_size (batch_items ec acc es)) \<le> MAX_BATCH_BYTES"
proof (induction es arbitrary: acc)
  case (Cons e es)
  show ?case
  proof (cases "acc \<noteq> [] \<and> MAX_BATCH_BYTES < int (sum_list (map length acc) + length acc + length (ec e))")
    case True
    with Cons.prems show ?thesis by (simp add: Let_def)
  next
    case False
    then have "length (acc @ [ec e]) \<le> 1 \<or> int (items_size (acc @ [ec e])) \<le> MAX_BATCH_BYTES"
      by (auto simp: items_size_def)
    from Cons.IH [OF this] False show ?thesis by (auto simp: Let_def)
  qed
qed simp

lemma export_batch_take:
  assumes "export_batch tj p events = (selected, body)"
  obtains k where "selected = take k events" "k \<le> length events" "events \<noteq> [] \<Longrightarrow> 1 \<le> k"
    "body = join_lines (map (\<lambda>e. json_text (envelope tj p e)) selected)"
proof -
  obtain k where k: "batch_items (\<lambda>e. json_text (envelope tj p e)) [] events =
      map (\<lambda>e. json_text (envelope tj p e)) (take k events)" "k \<le> length events" "events \<noteq> [] \<longrightarrow> 1 \<le> k"
    using batch_items_extends [of "\<lambda>e. json_text (envelope tj p e)" "[]" events] by auto
  then have "selected = take k events" "body = join_lines (map (\<lambda>e. json_text (envelope tj p e)) selected)"
    using assms by (auto simp: export_batch_def Let_def)
  with k that show thesis by blast
qed

text \<open>A batch takes a non-empty initial part of the pending events, its body is exactly the lines of
  the selected events, and unless it is a single event the body has at most 900000 bytes.\<close>

theorem batch_is_bounded_prefix:
  assumes "export_batch tj p events = (selected, body)"
  shows "(\<exists>rest. events = selected @ rest) \<and> (events = [] \<or> selected \<noteq> []) \<and>
    body = join_lines (map (\<lambda>e. json_text (envelope tj p e)) selected) \<and>
    (length selected \<le> 1 \<or> int (length body) \<le> 900000)"
proof -
  obtain k where k: "selected = take k events" "k \<le> length events" "events \<noteq> [] \<Longrightarrow> 1 \<le> k"
    "body = join_lines (map (\<lambda>e. json_text (envelope tj p e)) selected)"
    using export_batch_take [OF assms] by blast
  let ?items = "batch_items (\<lambda>e. json_text (envelope tj p e)) [] events"
  have "length ?items = length selected" "body = join_lines ?items"
    using assms batch_items_extends [of "\<lambda>e. json_text (envelope tj p e)" "[]" events]
    by (auto simp: export_batch_def Let_def)
  then have "length selected \<le> 1 \<or> int (length body) \<le> 900000"
    using batch_items_size [of "[]" "\<lambda>e. json_text (envelope tj p e)" events]
    by (simp add: length_join_lines MAX_BATCH_BYTES_def)
  moreover have "events = selected @ drop k events" using k(1) by simp
  then have "\<exists>rest. events = selected @ rest" by blast
  moreover have "events = [] \<or> selected \<noteq> []" using k(1,3) by auto
  ultimately show ?thesis using k(4) by blast
qed

lemma batch_is_bounded_prefix_witness:
  "\<exists>selected body. export_batch (\<lambda>_. JInt 0) (xd_policy (initial_export ''c'' 0)) (ad_events (relabelled_log 1))
      = (selected, body) \<and> selected \<noteq> [] \<and> (length selected \<le> 1 \<or> int (length body) \<le> 900000)"
proof -
  obtain selected body where b: "export_batch (\<lambda>_. JInt 0) (xd_policy (initial_export ''c'' 0))
      (ad_events (relabelled_log 1)) = (selected, body)"
    by fastforce
  have "ad_events (relabelled_log 1) \<noteq> []" by (simp add: relabelled_log_def)
  with batch_is_bounded_prefix [OF b] b show ?thesis by blast
qed


section \<open>No event is skipped\<close>

abbreviation cursor_of :: "export_world \<Rightarrow> int" where
  "cursor_of w \<equiv> xs_cursor_sequence (xd_state (ew_db w))"

abbreviation logged :: "export_world \<Rightarrow> audit_event list" where
  "logged w \<equiv> ad_events (ew_audit w)"

text \<open>What is in flight is the next part of the log after the cursor.\<close>

definition flight_next :: "export_world \<Rightarrow> bool" where
  "flight_next w = (case ew_flight w of None \<Rightarrow> True | Some f \<Rightarrow>
     fl_events f \<noteq> [] \<and> cursor_of w < ae_sequence (last (fl_events f)) \<and>
     filter (\<lambda>e. cursor_of w < ae_sequence e) (logged w) =
       fl_events f @ filter (\<lambda>e. ae_sequence (last (fl_events f)) < ae_sequence e) (logged w))"

definition export_inv :: "int \<Rightarrow> export_world \<Rightarrow> bool" where
  "export_inv c w = (audit_wf (ew_audit w) \<and> 0 \<le> c \<and> c \<le> cursor_of w \<and> cursor_of w \<le> ad_counter (ew_audit w)
     \<and> flight_next w
     \<and> ew_accepted w = filter (\<lambda>e. c < ae_sequence e \<and> ae_sequence e \<le> cursor_of w) (logged w))"

lemma cursor_marks [simp]:
  "xs_cursor_sequence (xd_state (mark_sending now db)) = xs_cursor_sequence (xd_state db)"
  "xs_cursor_sequence (xd_state (mark_idle now db)) = xs_cursor_sequence (xd_state db)"
  "xs_cursor_sequence (xd_state (mark_blocked now s e db)) = xs_cursor_sequence (xd_state db)"
  "xs_cursor_sequence (xd_state (reset_failures now db)) = xs_cursor_sequence (xd_state db)"
  "xs_cursor_sequence (xd_state (snd (recover_interrupted_export now db))) = xs_cursor_sequence (xd_state db)"
  "xd_policy (mark_sending now db) = xd_policy db" "xd_policy (mark_idle now db) = xd_policy db"
  "xd_policy (reset_failures now db) = xd_policy db" "xd_policy (mark_blocked now s e db) = xd_policy db"
  "xd_policy (record_attempt now a r db) = xd_policy db"
  by (simp_all add: mark_sending_def mark_idle_def mark_blocked_def reset_failures_def
      recover_interrupted_export_def record_attempt_def Let_def split_beta)

lemma begin_export_cases:
  obtains (stopped) db res where "begin_export env now w = (res, w\<lparr>ew_db := db\<rparr>)" "res \<noteq> RSending"
      "xs_cursor_sequence (xd_state db) = cursor_of w" "xd_policy db = xd_policy (ew_db w)"
  | (sending) f where "begin_export env now w = (RSending, w\<lparr>ew_db := mark_sending now (ew_db w), ew_flight := Some f\<rparr>)"
      "xp_enabled (xd_policy (ew_db w))" "cr_valid (verify_chain (en_digest env) (ew_audit w))"
      "fl_policy f = xd_policy (ew_db w)"
      "fl_events f \<noteq> []"
      "\<exists>k. fl_events f = take k (events_after (cursor_of w) (xp_batch_size (xd_policy (ew_db w))) (ew_audit w))"
proof -
  let ?ev = "events_after (cursor_of w) (xp_batch_size (xd_policy (ew_db w))) (ew_audit w)"
  show thesis
  proof (cases "xp_enabled (xd_policy (ew_db w)) \<and> secret_url (ew_secrets w) \<noteq> [] \<and> secret_token (ew_secrets w) \<noteq> []
      \<and> cr_valid (verify_chain (en_digest env) (ew_audit w)) \<and> ?ev \<noteq> []")
    case True
    obtain sel body where b: "export_batch (en_time_json env) (xd_policy (ew_db w)) ?ev = (sel, body)" by fastforce
    then obtain k where k: "sel = take k ?ev" "1 \<le> k" using export_batch_take True by metis
    from True b show thesis
      by (intro sending [of "\<lparr>fl_events = sel, fl_policy = xd_policy (ew_db w), fl_body = body,
          fl_fingerprint = destination_fingerprint (en_digest env) (en_urlparse env) (secret_url (ew_secrets w)) (xd_policy (ew_db w)),
          fl_started_at = now\<rparr>"]) (use k True in \<open>auto simp: begin_export_def Let_def\<close>)
  next
    case False
    show thesis
    proof (cases "xp_enabled (xd_policy (ew_db w))")
      case True
      with False show thesis
        by (cases "begin_export env now w")
           (auto simp: begin_export_def Let_def intro: stopped split: if_splits)
    next
      case False
      then have "begin_export env now w = (RDisabled, w\<lparr>ew_db := ew_db w\<rparr>)"
        by (simp add: begin_export_def Let_def)
      then show thesis by (rule stopped) simp_all
    qed
  qed
qed

lemma begin_export_inv:
  assumes "export_inv c w" "ew_flight w = None"
  shows "export_inv c (snd (begin_export env now w))"
proof (cases rule: begin_export_cases [of env now w])
  case (stopped db res)
  then show ?thesis using assms by (simp add: export_inv_def flight_next_def)
next
  case (sending f)
  then obtain k where k: "fl_events f = take k (events_after (cursor_of w) (xp_batch_size (xd_policy (ew_db w))) (ew_audit w))"
    by blast
  have "0 \<le> cursor_of w" "audit_wf (ew_audit w)" using assms(1) by (auto simp: export_inv_def)
  from audit_log.page_split [OF this(2,1) k sending(5)] sending assms
  show ?thesis by (simp add: export_inv_def flight_next_def)
qed

lemma filter_ranges:
  fixes f :: "'e \<Rightarrow> int"
  assumes "sorted_wrt (\<lambda>a b. f a < f b) xs" "c \<le> d" "d \<le> m"
  shows "filter (\<lambda>e. c < f e \<and> f e \<le> m) xs =
    filter (\<lambda>e. c < f e \<and> f e \<le> d) xs @ filter (\<lambda>e. f e \<le> m) (filter (\<lambda>e. d < f e) xs)"
  using assms(1)
proof (induction xs)
  case (Cons x xs)
  show ?case
  proof (cases "d < f x")
    case True
    then have "filter (\<lambda>e. c < f e \<and> f e \<le> d) xs = []"
      using Cons.prems by (fastforce simp: filter_empty_conv)
    then show ?thesis using Cons True assms(2,3) by auto
  next
    case False
    then show ?thesis using Cons assms(2,3) by auto
  qed
qed simp

lemma end_export_inv:
  assumes inv: "export_inv c w" and f: "ew_flight w = Some f"
  shows "export_inv c (end_export env now reply f w)"
proof (cases "rr_outcome (reply_result_of (en_repr env) (fl_policy f) reply) = Delivered")
  case False
  then have "rr_outcome (reply_result_of (en_repr env) (fl_policy f) reply) = Undelivered"
    by (cases "rr_outcome (reply_result_of (en_repr env) (fl_policy f) reply)") auto
  then show ?thesis using inv
    by (auto simp: end_export_def export_inv_def flight_next_def record_attempt_def attempt_result_def
        flight_attempt_def Let_def)
next
  case True
  let ?m = "ae_sequence (last (fl_events f))" and ?c = "cursor_of w"
  have w: "audit_wf (ew_audit w)" "c \<le> ?c" "?c < ?m" "fl_events f \<noteq> []"
    and split: "filter (\<lambda>e. ?c < ae_sequence e) (logged w) =
       fl_events f @ filter (\<lambda>e. ?m < ae_sequence e) (logged w)"
    and acc: "ew_accepted w = filter (\<lambda>e. c < ae_sequence e \<and> ae_sequence e \<le> ?c) (logged w)"
    using inv f by (auto simp: export_inv_def flight_next_def)
  have ord: "sorted_wrt (\<lambda>a b. ae_sequence a < ae_sequence b) (logged w)" using audit_log.ordered w(1) by blast
  have "set (fl_events f) \<subseteq> set (logged w)"
    using split by (metis Un_upper1 filter_is_subset order_trans set_append)
  then have m: "?m \<le> ad_counter (ew_audit w)" using w(1,4) last_in_set by (force simp: audit_wf_def)
  from filter_ranges [OF ord, of c ?c ?m] w(2,3) have "filter (\<lambda>e. c < ae_sequence e \<and> ae_sequence e \<le> ?m) (logged w) =
      ew_accepted w @ filter (\<lambda>e. ae_sequence e \<le> ?m) (fl_events f @ filter (\<lambda>e. ?m < ae_sequence e) (logged w))"
    unfolding acc split by simp
  also have "filter (\<lambda>e. ae_sequence e \<le> ?m) (fl_events f @ filter (\<lambda>e. ?m < ae_sequence e) (logged w)) = fl_events f"
  proof -
    have "sorted_wrt (\<lambda>a b. ae_sequence a < ae_sequence b) (fl_events f @ filter (\<lambda>e. ?m < ae_sequence e) (logged w))"
      unfolding split [symmetric] using ord by (simp add: sorted_wrt_filter)
    then have "sorted_wrt (\<lambda>a b. ae_sequence a < ae_sequence b) (butlast (fl_events f) @ [last (fl_events f)])"
      using w(4) by (simp add: sorted_wrt_append)
    then have "\<forall>e \<in> set (butlast (fl_events f)). ae_sequence e < ?m" by (simp add: sorted_wrt_append)
    then have "\<forall>e \<in> set (fl_events f). ae_sequence e \<le> ?m"
      using w(4) by (metis append_butlast_last_id in_set_conv_decomp_last less_imp_le order_refl
          rotate1.simps(2) set_ConsD set_rotate1)
    then show ?thesis by (auto simp: filter_empty_conv)
  qed
  finally show ?thesis
    using True w m inv
    by (simp add: end_export_def export_inv_def flight_next_def record_attempt_def attempt_result_def
        flight_attempt_def Let_def)
qed


lemma append_inv:
  assumes "export_inv c w"
  shows "export_inv c (w\<lparr>ew_audit := audit_step digest op (ew_audit w)\<rparr>)"
proof -
  obtain i n b r where op: "op = (i, n, b, r)" by (cases op)
  obtain res db' where rec: "record_event digest i n b r (ew_audit w) = (res, db')" by fastforce
  have wf': "audit_wf db'" using record_event_wf [of "ew_audit w" digest i n b r] rec assms by (simp add: export_inv_def)
  from rec show ?thesis
  proof (cases rule: record_event_cases)
    case refused
    then show ?thesis using assms rec op by (simp add: export_inv_def flight_next_def)
  next
    case (appended e)
    have flight: "ae_sequence (last (fl_events f)) < ae_sequence e" if "ew_flight w = Some f" for f
    proof -
      have f: "fl_events f \<noteq> []" "filter (\<lambda>e. cursor_of w < ae_sequence e) (logged w) =
          fl_events f @ filter (\<lambda>e. ae_sequence (last (fl_events f)) < ae_sequence e) (logged w)"
        using assms that by (auto simp: export_inv_def flight_next_def)
      then have "last (fl_events f) \<in> set (logged w)"
        by (metis UnI1 filter_is_subset last_in_set set_append subsetD)
      then show ?thesis using assms appended(3) by (force simp: export_inv_def audit_wf_def)
    qed
    show ?thesis using assms wf' appended flight rec op
      by (auto simp: export_inv_def flight_next_def split: option.splits)
  qed
qed

fun stores_policy :: "export_op \<Rightarrow> bool" where
  "stores_policy (StorePolicy now now_text i actor r) = True"
| "stores_policy _ = False"

lemma export_inv_step:
  assumes "export_inv c w" "\<not> stores_policy op"
  shows "export_inv c (export_step env op w)"
proof (cases op)
  case (HecAnswer now reply)
  then show ?thesis using assms end_export_inv by (auto split: option.splits)
next
  case (Append a)
  then show ?thesis using assms append_inv by simp
next
  case (WorkerFailed now name)
  then show ?thesis using assms by (simp add: export_inv_def flight_next_def)
next
  case (Restart now)
  then show ?thesis using assms by (simp add: export_inv_def flight_next_def)
next
  case (RunNow now)
  then show ?thesis using assms by (simp add: export_inv_def flight_next_def split: option.splits)
qed (use assms begin_export_inv in \<open>auto\<close>)

lemma export_inv_run:
  "export_inv c w \<Longrightarrow> list_all (\<lambda>op. \<not> stores_policy op) ops \<Longrightarrow> export_inv c (run_ops (export_step env) w ops)"
  by (induction ops arbitrary: w) (auto intro: export_inv_step)

text \<open>C10. As long as the policy is not replaced, and whatever the interleaving of exports, replies,
  failures, restarts and audit appends, the events the destination confirmed are exactly the events of
  the log between the starting cursor and the current cursor, each once and in order: the cursor skips
  nothing and runs ahead of nothing.\<close>

theorem export_skips_nothing:
  assumes "audit_wf (ew_audit w)" "ew_flight w = None" "ew_accepted w = []"
    and "0 \<le> cursor_of w" "cursor_of w \<le> ad_counter (ew_audit w)"
    and "list_all (\<lambda>op. \<not> stores_policy op) ops"
  shows "ew_accepted (run_ops (export_step env) w ops) =
      filter (\<lambda>e. cursor_of w < ae_sequence e \<and> ae_sequence e \<le> cursor_of (run_ops (export_step env) w ops))
        (logged (run_ops (export_step env) w ops)) \<and>
    cursor_of w \<le> cursor_of (run_ops (export_step env) w ops)"
proof -
  have "filter (\<lambda>e. cursor_of w < ae_sequence e \<and> ae_sequence e \<le> cursor_of w) (logged w) = []"
    by (auto simp: filter_empty_conv)
  then have "export_inv (cursor_of w) w" using assms(1-5) by (simp add: export_inv_def flight_next_def)
  from export_inv_run [OF this assms(6), of env] show ?thesis by (simp add: export_inv_def)
qed


section \<open>Delivery drains the log\<close>

definition pending :: "export_world \<Rightarrow> nat" where
  "pending w = length (filter (\<lambda>e. cursor_of w < ae_sequence e) (logged w))"

definition ready :: "environment \<Rightarrow> export_world \<Rightarrow> bool" where
  "ready env w = (ew_flight w = None \<and> xp_enabled (xd_policy (ew_db w)) \<and> secret_url (ew_secrets w) \<noteq> []
     \<and> secret_token (ew_secrets w) \<noteq> [] \<and> audit_inv (en_digest env) (ew_audit w) \<and> 0 \<le> cursor_of w)"

definition export_round :: "environment \<Rightarrow> instant \<Rightarrow> hec_reply \<Rightarrow> export_world \<Rightarrow> export_world" where
  "export_round env now reply w = export_step env (HecAnswer now reply) (export_step env (ForcedExport now) w)"

lemma round_progress:
  assumes "ready env w" "rr_outcome (reply_result_of (en_repr env) (xd_policy (ew_db w)) reply) = Delivered"
  shows "ready env (export_round env now reply w) \<and> xd_policy (ew_db (export_round env now reply w)) = xd_policy (ew_db w)
    \<and> ew_audit (export_round env now reply w) = ew_audit w
    \<and> (pending w = 0 \<or> pending (export_round env now reply w) < pending w)
    \<and> cursor_of w \<le> cursor_of (export_round env now reply w)"
proof (cases rule: begin_export_cases [of env now w])
  case (stopped db res)
  have wf: "audit_wf (ew_audit w)" "cr_valid (verify_chain (en_digest env) (ew_audit w))" "0 \<le> cursor_of w"
    using assms(1) by (auto simp: ready_def audit_inv_def)
  have "events_after (cursor_of w) (xp_batch_size (xd_policy (ew_db w))) (ew_audit w) = []"
    using stopped(1,2) assms(1) wf
    by (auto simp: begin_export_def Let_def ready_def split: if_splits prod.splits)
  then have "pending w = 0"
    using audit_log.page_empty [OF wf(1,3)] by (auto simp: pending_def filter_empty_conv)
  then show ?thesis using stopped assms(1) by (simp add: export_round_def ready_def)
next
  case (sending f)
  let ?w = "w\<lparr>ew_db := mark_sending now (ew_db w), ew_flight := Some f\<rparr>"
  have wf: "audit_wf (ew_audit w)" "0 \<le> cursor_of w" using assms(1) by (auto simp: ready_def audit_inv_def)
  obtain k where k: "fl_events f = take k (events_after (cursor_of w) (xp_batch_size (xd_policy (ew_db w))) (ew_audit w))"
    using sending(6) by blast
  let ?m = "ae_sequence (last (fl_events f))"
  from audit_log.page_split [OF wf k sending(5)]
  have split: "filter (\<lambda>e. cursor_of w < ae_sequence e) (logged w) = fl_events f @ filter (\<lambda>e. ?m < ae_sequence e) (logged w)"
    "cursor_of w < ?m" by auto
  have eq: "export_round env now reply w = end_export env now reply f ?w"
    using sending assms(1) by (simp add: export_round_def ready_def)
  have c: "cursor_of (end_export env now reply f ?w) = ?m"
    using assms(2) sending(4)
    by (simp add: end_export_def record_attempt_def attempt_result_def flight_attempt_def Let_def)
  have same: "xd_policy (ew_db (end_export env now reply f ?w)) = xd_policy (ew_db w)"
    "ew_audit (end_export env now reply f ?w) = ew_audit w" "ew_flight (end_export env now reply f ?w) = None"
    "ew_secrets (end_export env now reply f ?w) = ew_secrets w"
    by (simp_all add: end_export_def Let_def)
  have "pending (end_export env now reply f ?w) < pending w"
    unfolding pending_def c same(2) split(1) using sending(5) by simp
  then show ?thesis using assms(1) split(2) c same unfolding eq by (simp add: ready_def)
qed

text \<open>C11. When the endpoint confirms every batch, repeating the export finishes: after as many rounds as
  there are pending events, none is pending.\<close>

theorem exports_drain_the_log:
  assumes "ready env w" "rr_outcome (reply_result_of (en_repr env) (xd_policy (ew_db w)) reply) = Delivered"
    and "pending w \<le> n"
  shows "pending ((export_round env now reply ^^ n) w) = 0 \<and>
    (\<forall>e \<in> set (logged w). ae_sequence e \<le> cursor_of ((export_round env now reply ^^ n) w))"
  using assms
proof (induction n arbitrary: w)
  case 0
  then show ?case by (auto simp: pending_def filter_empty_conv)
next
  case (Suc n)
  let ?w = "export_round env now reply w"
  note p = round_progress [OF Suc.prems(1,2), of now]
  have "pending ?w \<le> n"
  proof (cases "pending w = 0")
    case True
    then have "\<forall>e \<in> set (logged ?w). ae_sequence e \<le> cursor_of ?w"
      using p by (fastforce simp: pending_def filter_empty_conv)
    then have "pending ?w = 0" by (auto simp: pending_def filter_empty_conv)
    then show ?thesis by simp
  next
    case False
    then show ?thesis using p Suc.prems(3) by simp
  qed
  then have "pending ((export_round env now reply ^^ n) ?w) = 0 \<and>
    (\<forall>e \<in> set (logged ?w). ae_sequence e \<le> cursor_of ((export_round env now reply ^^ n) ?w))"
    using p Suc.prems(2) by (intro Suc.IH) auto
  then show ?case using p by (simp add: funpow_swap1)
qed


section \<open>Fail closed\<close>

text \<open>C12. Nothing is put in flight unless the policy is enabled, both secrets are present, the audit chain
  verifies and there are pending events; a broken chain blocks the export without moving the cursor, and
  the worker does not try again by itself.\<close>

theorem export_fails_closed:
  "(fst (begin_export env now w) = RSending \<longleftrightarrow>
      xp_enabled (xd_policy (ew_db w)) \<and> secret_url (ew_secrets w) \<noteq> [] \<and> secret_token (ew_secrets w) \<noteq> []
      \<and> cr_valid (verify_chain (en_digest env) (ew_audit w))
      \<and> events_after (cursor_of w) (xp_batch_size (xd_policy (ew_db w))) (ew_audit w) \<noteq> []) \<and>
   (fst (begin_export env now w) = RSending \<or> ew_flight (snd (begin_export env now w)) = ew_flight w) \<and>
   cursor_of (snd (begin_export env now w)) = cursor_of w \<and>
   (cr_valid (verify_chain (en_digest env) (ew_audit w)) \<or> fst (begin_export env now w) \<in> {RDisabled, RConfigError} \<or>
     xs_status (xd_state (ew_db (snd (begin_export env now w)))) = XChainInvalid \<and>
     (\<forall>t. export_due t (ew_db (snd (begin_export env now w))) = False))"
proof -
  have blocked: "export_due t (mark_blocked now XChainInvalid err db) = False"
    "xs_status (xd_state (mark_blocked now XChainInvalid err db)) = XChainInvalid" for t err db
    by (simp_all add: export_due_def mark_blocked_def)
  show ?thesis
    by (auto simp: begin_export_def Let_def blocked split: prod.splits)
qed

text \<open>A policy that is stored and enabled has a usable destination: HTTPS, or HTTP to a loopback host,
  with a hostname, no credentials, path, query or fragment, a token without white space and an index that
  is not reserved. A rejected policy changes nothing.\<close>

theorem enabled_policy_is_safe:
  assumes "xp_enabled (pr_policy r)"
    and "update_policy env now now_text i actor r w = (res, w')"
  shows "(\<exists>e. check_policy_request env r w = Inl e \<and> res = Inl e \<and> w' = w) \<or>
    (let url = candidate_url r (ew_secrets w); p = en_urlparse env url; token = candidate_token r (ew_secrets w) in
      xp_enabled (xd_policy (ew_db w')) \<and> url \<noteq> [] \<and> token \<noteq> [] \<and> \<not> list_ex is_space token \<and>
      (pu_scheme p = ''https'' \<or> pu_scheme p = ''http'' \<and> lower (pu_hostname p) \<in> set LOOPBACK_HOSTS) \<and>
      pu_hostname p \<noteq> [] \<and> pu_username p = [] \<and> pu_password p = [] \<and> pu_query p = [] \<and> pu_fragment p = [] \<and>
      lower (xp_index_name (xd_policy (ew_db w'))) \<notin> set RESERVED_INDEXES)"
proof (cases "check_policy_request env r w")
  case (Inl e)
  then have "res = Inl e \<and> w' = w" using assms(2) by (simp add: update_policy_def)
  with Inl show ?thesis by blast
next
  case (Inr u)
  let ?url = "candidate_url r (ew_secrets w)" and ?token = "candidate_token r (ew_secrets w)"
  have db: "xd_policy (ew_db w') = (pr_policy r)\<lparr>xp_channel_id := xp_channel_id (xd_policy (ew_db w)),
      xp_ca_bundle := opt_text (xp_ca_bundle (pr_policy r)), xp_updated_at := now\<rparr>"
    using assms(2) Inr
    by (auto simp: update_policy_def update_export_policy_def Let_def split: prod.splits option.splits)
  have v: "validate_export_policy (en_urlparse env) (en_is_file env) (pr_policy r) ?url ?token = Inr ()"
    using Inr by (auto simp: check_policy_request_def split: if_splits)
  then have "?url \<noteq> [] \<and> ?token \<noteq> [] \<and> \<not> list_ex is_space ?token \<and>
      lower (xp_index_name (pr_policy r)) \<notin> set RESERVED_INDEXES \<and> validate_url (en_urlparse env) ?url = Inr ()"
    using assms(1)
    by (auto simp: validate_export_policy_def List.member_iff split: if_splits sum.splits)
  moreover from this have "(pu_scheme (en_urlparse env ?url) = ''https'' \<or> pu_scheme (en_urlparse env ?url) = ''http'' \<and>
      lower (pu_hostname (en_urlparse env ?url)) \<in> set LOOPBACK_HOSTS) \<and> pu_hostname (en_urlparse env ?url) \<noteq> [] \<and>
      pu_username (en_urlparse env ?url) = [] \<and> pu_password (en_urlparse env ?url) = [] \<and>
      pu_query (en_urlparse env ?url) = [] \<and> pu_fragment (en_urlparse env ?url) = []"
    by (auto simp: validate_url_def Let_def List.member_iff split: if_splits)
  ultimately show ?thesis using db assms(1) by (simp add: Let_def)
qed


section \<open>A concrete export\<close>

text \<open>A digest that tells apart the texts this run feeds to it.\<close>

definition sample_digest :: "string \<Rightarrow> string" where
  "sample_digest t = (if List.member t (CHR 0x0A)
     then (if starts_with [CHR 0x0A] t then ''h1'' else if starts_with ''h1'' t then ''h2'' else ''h3'')
     else t)"

definition sample_environment :: environment where
  "sample_environment = \<lparr>en_digest = sample_digest,
     en_urlparse = (\<lambda>u. \<lparr>pu_scheme = ''https'', pu_hostname = ''hec'', pu_port = Inr None, pu_username = [],
       pu_password = [], pu_path = [], pu_params = [], pu_query = [], pu_fragment = []\<rparr>),
     en_is_file = (\<lambda>_. False), en_time_json = (\<lambda>_. JNum ''0.0''), en_repr = json_text\<rparr>"

definition sample_policy :: export_policy where
  "sample_policy = (xd_policy (initial_export ''c'' 0))\<lparr>xp_enabled := True\<rparr>"

definition plain_event :: "int \<Rightarrow> string \<Rightarrow> string \<Rightarrow> string \<Rightarrow> audit_event" where
  "plain_event n i prev h = \<lparr>ae_sequence = n, ae_id = i, ae_event_type = ''auth.login'', ae_action = ''login'',
     ae_actor = ''op'', ae_target_type = ''user'', ae_target_id = ''u1'', ae_outcome = ''success'',
     ae_summary = [], ae_metadata = JObj [], ae_created_at = ''now'', ae_previous_hash = prev,
     ae_event_hash = h\<rparr>"

definition export_log :: audit_db where
  "export_log = \<lparr>ad_events = [plain_event 1 ''e1'' [] ''h1'', plain_event 2 ''e2'' ''h1'' ''h2''], ad_counter = 2\<rparr>"

definition sample_world :: export_world where
  "sample_world = \<lparr>ew_db = (initial_export ''c'' 0)\<lparr>xd_policy := sample_policy\<rparr>, ew_audit = export_log,
     ew_secrets = \<lparr>hs_url_env = [], hs_url_vault = ''https://hec'', hs_token_env = [], hs_token_vault = ''t''\<rparr>,
     ew_flight = None, ew_accepted = []\<rparr>"

definition sample_reply :: hec_reply where
  "sample_reply = HecReply 200 (JObj [(''code'', JInt 0)]) []"

lemma export_log_inv: "audit_inv (en_digest sample_environment) export_log"
  by (simp add: audit_inv_def audit_wf_def verify_chain_def export_log_def plain_event_def sample_environment_def
      event_digest_def hash_input_def sample_digest_def List.member_iff starts_with_def)

lemma sample_ready:
  "ready sample_environment sample_world"
  "rr_outcome (reply_result_of (en_repr sample_environment) (xd_policy (ew_db sample_world)) sample_reply) = Delivered"
  using export_log_inv
  by (simp_all add: ready_def sample_world_def sample_policy_def initial_export_def
      secret_url_def secret_token_def sample_reply_def)

lemma exports_drain_the_log_witness:
  "pending sample_world = 2 \<and> pending ((export_round sample_environment 0 sample_reply ^^ 2) sample_world) = 0"
proof
  show p: "pending sample_world = 2" by code_simp
  then show "pending ((export_round sample_environment 0 sample_reply ^^ 2) sample_world) = 0"
    using exports_drain_the_log [OF sample_ready, of 2 0] by simp
qed

lemma export_skips_nothing_witness:
  "let ops = [Work 0, Append (''e3'', ''now'', ''op'', sample_request), HecAnswer 1 sample_reply];
       w = run_ops (export_step sample_environment) sample_world ops
   in ew_accepted w = filter (\<lambda>e. 0 < ae_sequence e \<and> ae_sequence e \<le> cursor_of w) (logged w)"
proof -
  have "cursor_of sample_world = 0" "ew_flight sample_world = None" "ew_accepted sample_world = []"
    "audit_wf (ew_audit sample_world)"
    using export_log_inv by (simp_all add: sample_world_def initial_export_def audit_inv_def)
  moreover from this have "0 \<le> ad_counter (ew_audit sample_world)" by (simp add: audit_wf_def)
  ultimately show ?thesis
    using export_skips_nothing [of sample_world
        "[Work 0, Append (''e3'', ''now'', ''op'', sample_request), HecAnswer 1 sample_reply]" sample_environment]
    by (simp add: Let_def del: run_ops.simps)
qed

definition moved_request :: policy_request where
  "moved_request = \<lparr>pr_policy = sample_policy\<lparr>xp_index_name := ''other''\<rparr>, pr_backfill_existing = True,
     pr_hec_url = None, pr_hec_token = None, pr_clear_hec_url = False, pr_clear_hec_token = False\<rparr>"

lemma enabled_policy_is_safe_witness:
  "pu_scheme (en_urlparse sample_environment (candidate_url moved_request (ew_secrets sample_world))) = ''https''"
proof -
  let ?u = "update_policy sample_environment 1 ''now'' ''e9'' ''op'' moved_request sample_world"
  have en: "xp_enabled (pr_policy moved_request)" by (simp add: moved_request_def sample_policy_def)
  have ok: "check_policy_request sample_environment moved_request sample_world = Inr ()" by code_simp
  have "?u = (fst ?u, snd ?u)" by simp
  from enabled_policy_is_safe [OF en this] ok show ?thesis
    by (simp add: Let_def sample_environment_def)
qed

text \<open>C13. A reply that arrives after the policy was replaced moves the cursor of the new destination: the
  reset - zero when the new destination is to receive the existing events - is overwritten by the last
  sequence of the batch that went to the old destination, and the events up to it are not pending.\<close>

theorem replaced_policy_loses_reset:
  assumes "ew_flight w = Some f" "check_policy_request env r w = Inr ()" "cursor_reset env r w = Some c"
    and "rr_outcome (reply_result_of (en_repr env) (fl_policy f) reply) = Delivered"
  shows "cursor_of (export_step env (StorePolicy now now_text i actor r) w) = max c 0 \<and>
    (let done = export_step env (HecAnswer later reply) (export_step env (StorePolicy now now_text i actor r) w)
     in cursor_of done = ae_sequence (last (fl_events f)) \<and>
        xp_index_name (xd_policy (ew_db done)) = xp_index_name (pr_policy r) \<and>
        (\<forall>e \<in> set (fl_events f). ae_sequence e \<le> ae_sequence (last (fl_events f)) \<longrightarrow>
          e \<notin> set (filter (\<lambda>e. cursor_of done < ae_sequence e) (logged done))))"
proof -
  let ?w = "export_step env (StorePolicy now now_text i actor r) w"
  have w: "xs_cursor_sequence (xd_state (ew_db ?w)) = max c 0" "ew_flight ?w = Some f"
    "xp_index_name (xd_policy (ew_db ?w)) = xp_index_name (pr_policy r)"
    using assms(1-3) by (simp_all add: update_policy_def update_export_policy_def Let_def split: prod.splits)
  have "cursor_of (end_export env later reply f ?w) = ae_sequence (last (fl_events f))"
    "xd_policy (ew_db (end_export env later reply f ?w)) = xd_policy (ew_db ?w)"
    using assms(4) by (simp_all add: end_export_def record_attempt_def attempt_result_def flight_attempt_def Let_def)
  then show ?thesis using w by (simp add: Let_def)
qed

definition flying_world :: export_world where
  "flying_world = sample_world\<lparr>ew_flight := Some \<lparr>fl_events = ad_events export_log, fl_policy = sample_policy,
     fl_body = [], fl_fingerprint = [], fl_started_at = 0\<rparr>\<rparr>"

lemma replaced_policy_loses_reset_witness:
  "cursor_of (export_step sample_environment (StorePolicy 1 ''now'' ''e9'' ''op'' moved_request) flying_world) = 0 \<and>
   cursor_of (export_step sample_environment (HecAnswer 2 sample_reply)
     (export_step sample_environment (StorePolicy 1 ''now'' ''e9'' ''op'' moved_request) flying_world)) = 2"
proof -
  have f: "ew_flight flying_world = Some \<lparr>fl_events = ad_events export_log, fl_policy = sample_policy,
     fl_body = [], fl_fingerprint = [], fl_started_at = 0\<rparr>" by (simp add: flying_world_def)
  have ok: "check_policy_request sample_environment moved_request flying_world = Inr ()" by code_simp
  have reset: "cursor_reset sample_environment moved_request flying_world = Some 0" by code_simp
  have last: "ae_sequence (last (ad_events export_log)) = 2" by code_simp
  have reply: "rr_outcome (reply_result_of (en_repr sample_environment) sample_policy sample_reply) = Delivered"
    using sample_ready(2) by (simp add: sample_world_def)
  show ?thesis
    using replaced_policy_loses_reset [OF f ok reset, of sample_reply 1 "''now''" "''e9''" "''op''" 2] reply last
    by (simp add: Let_def)
qed

end
