(* ===== verification/Connections.thy ===== *)
theory Connections
  imports Json_Text
begin

text \<open>
  The Splunk connection registry (\<open>connections/store.py\<close>): immutable connection revisions addressed by
  the digest of their contract, the aliases that point to them, the admission state of managed
  connections, and the check that durable workflows make before they execute.

  Parameters (record \<open>connection_env\<close>): SHA-256, \<open>urlsplit\<close> and \<open>urlunsplit\<close> of the standard library,
  the expanded path text of a CA bundle and the content of that file, when it can be read.
\<close>


section \<open>Contracts\<close>

record split_url =
  su_scheme :: string
  su_hostname :: "string option"
  su_port :: "int option result"
  su_username :: string
  su_password :: string
  su_path :: string
  su_query :: string

record connection_env =
  ce_digest :: "string \<Rightarrow> string"
  ce_urlsplit :: "string \<Rightarrow> split_url"
  ce_urlunsplit :: "string \<Rightarrow> string \<Rightarrow> string \<Rightarrow> string \<Rightarrow> string \<Rightarrow> string"
  ce_path_text :: "string \<Rightarrow> string"
  ce_read :: "string \<Rightarrow> string option"

record splunk_connection =
  sp_name :: string
  sp_url :: string
  sp_verify_ssl :: bool
  sp_ca_bundle :: "string option"

definition PRIMARY_ALIAS :: string where
  "PRIMARY_ALIAS = ''primary''"

definition PRIMARY_TENANT_SCOPE :: string where
  "PRIMARY_TENANT_SCOPE = ''workspace-primary''"

definition is_lower_letter :: "char \<Rightarrow> bool" where
  "is_lower_letter c = (97 \<le> code c \<and> code c \<le> 122)"

definition ascii_digit :: "char \<Rightarrow> bool" where
  "ascii_digit c = (48 \<le> code c \<and> code c \<le> 57)"

text \<open>\<open>^[a-z][...]{2,n}$\<close> in full.\<close>

fun name_pattern :: "string \<Rightarrow> nat \<Rightarrow> string \<Rightarrow> bool" where
  "name_pattern extra n [] = False"
| "name_pattern extra n (c # cs) = (is_lower_letter c \<and> 2 \<le> length cs \<and> length cs \<le> n
     \<and> list_all (\<lambda>d. is_lower_letter d \<or> ascii_digit d \<or> List.member extra d) cs)"

definition alias_pattern :: "string \<Rightarrow> bool" where
  "alias_pattern s = name_pattern ''-'' 47 s"

definition tenant_scope_pattern :: "string \<Rightarrow> bool" where
  "tenant_scope_pattern s = name_pattern ''._-'' 63 s"

definition rstrip_slash :: "string \<Rightarrow> string" where
  "rstrip_slash s = rev (dropWhile (\<lambda>c. c = CHR ''/'') (rev s))"

definition port_text :: "int option \<Rightarrow> string" where
  "port_text p = (case p of None \<Rightarrow> [] | Some n \<Rightarrow> if n = 0 then [] else '':'' @ int_text n)"

text \<open>A port that is not a number raises when it is read.\<close>

definition normalized_endpoint :: "connection_env \<Rightarrow> string \<Rightarrow> bool \<Rightarrow> string result" where
  "normalized_endpoint env value demo_mode =
     (if demo_mode then Inr ''demo://isolated''
      else let raw = strip value in
        if raw = [] then Inr []
        else let parts = ce_urlsplit env raw;
                 hostname = (case su_hostname parts of None \<Rightarrow> [] | Some h \<Rightarrow> lower h);
                 userinfo = (if su_username parts = [] then []
                   else su_username parts @ (if su_password parts = [] then [] else '':'' @ su_password parts) @ ''@'');
                 path = rstrip_slash (su_path parts)
             in case su_port parts of Inl e \<Rightarrow> Inl e
                | Inr port \<Rightarrow> Inr (ce_urlunsplit env (lower (su_scheme parts)) (userinfo @ hostname @ port_text port)
                    (if path = ''/service/mcp'' then ''/services/mcp'' else path) (su_query parts) []))"

definition ca_digest :: "connection_env \<Rightarrow> string option \<Rightarrow> string" where
  "ca_digest env path_value =
     (case path_value of None \<Rightarrow> []
      | Some p \<Rightarrow> if p = [] then []
          else let path = ce_path_text env p in
            (case ce_read env path of
               Some content \<Rightarrow> ce_digest env content
             | None \<Rightarrow> ce_digest env (''configured-path:'' @
                 lower (map (\<lambda>c. if c = CHR 0x5C then CHR ''/'' else c) path))))"

record contract =
  ct_alias :: string
  ct_tenant_scope_id :: string
  ct_endpoint :: string
  ct_verify_tls :: bool
  ct_ca_bundle_digest :: string
  ct_mode :: string

definition contract_json :: "contract \<Rightarrow> json" where
  "contract_json c = JObj
     [(''schema'', JInt 1), (''alias'', JStr (ct_alias c)), (''tenant_scope_id'', JStr (ct_tenant_scope_id c)),
      (''transport'', JStr ''splunk-mcp''), (''endpoint'', JStr (ct_endpoint c)),
      (''verify_tls'', JBool (ct_verify_tls c)), (''ca_bundle_digest'', JStr (ct_ca_bundle_digest c)),
      (''mode'', JStr (ct_mode c))]"

definition contract_of :: "connection_env \<Rightarrow> string \<Rightarrow> string \<Rightarrow> string \<Rightarrow> splunk_connection \<Rightarrow> bool \<Rightarrow> contract" where
  "contract_of env alias scope endpoint v demo_mode =
     \<lparr>ct_alias = alias, ct_tenant_scope_id = scope, ct_endpoint = endpoint,
      ct_verify_tls = sp_verify_ssl v,
      ct_ca_bundle_digest = (if sp_verify_ssl v then ca_digest env (sp_ca_bundle v) else []),
      ct_mode = (if demo_mode then ''demo'' else ''live'')\<rparr>"

definition contract_text :: "contract \<Rightarrow> string" where
  "contract_text c = json_text (contract_json c)"


section \<open>Tables\<close>

record tenant_scope =
  ts_id :: string
  ts_label :: string
  ts_purpose :: string
  ts_status :: string
  ts_created_at :: instant
  ts_updated_at :: instant

record identity =
  id_fingerprint :: string
  id_contract :: contract
  id_display_name :: string
  id_contract_json :: string
  id_supersedes :: string
  id_created_at :: instant

record alias_row =
  al_alias :: string
  al_tenant_scope_id :: string
  al_current_fingerprint :: string
  al_display_name :: string
  al_updated_at :: instant

record managed_row =
  mg_alias :: string
  mg_ca_bundle :: string
  mg_enabled :: bool
  mg_archived :: bool
  mg_diagnostics_ready :: bool
  mg_diagnostics_fingerprint :: string
  mg_diagnostics_checked_at :: string
  mg_created_at :: instant
  mg_updated_at :: instant

record connection_db =
  cd_scopes :: "tenant_scope list"
  cd_identities :: "identity list"
  cd_aliases :: "alias_row list"
  cd_managed :: "managed_row list"

definition initial_connections :: "instant \<Rightarrow> connection_db" where
  "initial_connections now = \<lparr>cd_scopes =
     [\<lparr>ts_id = PRIMARY_TENANT_SCOPE, ts_label = ''Primary security workspace'',
       ts_purpose = ''Default evidence and execution boundary for the configured Primary Splunk connection.'',
       ts_status = ''active'', ts_created_at = now, ts_updated_at = now\<rparr>],
     cd_identities = [], cd_aliases = [], cd_managed = []\<rparr>"

definition alias_of :: "string \<Rightarrow> connection_db \<Rightarrow> alias_row option" where
  "alias_of alias db = sql_first (\<lambda>a. al_alias a = alias) (cd_aliases db)"

definition managed_of :: "string \<Rightarrow> connection_db \<Rightarrow> managed_row option" where
  "managed_of alias db = sql_first (\<lambda>m. mg_alias m = alias) (cd_managed db)"

definition identity_of :: "string \<Rightarrow> connection_db \<Rightarrow> identity option" where
  "identity_of fingerprint db = sql_first (\<lambda>i. id_fingerprint i = fingerprint) (cd_identities db)"

text \<open>What \<open>_identity\<close> returns for the joined row.\<close>

record connection_view =
  vw_fingerprint :: string
  vw_alias :: string
  vw_tenant_scope_id :: string
  vw_endpoint :: string
  vw_display_name :: string
  vw_verify_tls :: bool
  vw_ca_bundle_bound :: bool
  vw_mode :: string
  vw_supersedes :: string
  vw_created_at :: instant
  vw_managed :: bool
  vw_enabled :: bool
  vw_archived :: bool
  vw_diagnostics_ready :: bool
  vw_diagnostics_fingerprint :: string
  vw_diagnostics_checked_at :: string

definition identity_view :: "identity \<Rightarrow> string \<Rightarrow> managed_row option \<Rightarrow> connection_view" where
  "identity_view i display m =
     \<lparr>vw_fingerprint = id_fingerprint i, vw_alias = ct_alias (id_contract i),
      vw_tenant_scope_id = ct_tenant_scope_id (id_contract i), vw_endpoint = ct_endpoint (id_contract i),
      vw_display_name = (if display = [] then id_display_name i else display),
      vw_verify_tls = ct_verify_tls (id_contract i),
      vw_ca_bundle_bound = (ct_ca_bundle_digest (id_contract i) \<noteq> []), vw_mode = ct_mode (id_contract i),
      vw_supersedes = id_supersedes i, vw_created_at = id_created_at i,
      vw_managed = (m \<noteq> None),
      vw_enabled = (case m of None \<Rightarrow> True | Some r \<Rightarrow> mg_enabled r),
      vw_archived = (case m of None \<Rightarrow> False | Some r \<Rightarrow> mg_archived r),
      vw_diagnostics_ready = (case m of None \<Rightarrow> True | Some r \<Rightarrow> mg_diagnostics_ready r),
      vw_diagnostics_fingerprint = (case m of None \<Rightarrow> id_fingerprint i | Some r \<Rightarrow> mg_diagnostics_fingerprint r),
      vw_diagnostics_checked_at = (case m of None \<Rightarrow> [] | Some r \<Rightarrow> mg_diagnostics_checked_at r)\<rparr>"

definition current :: "string \<Rightarrow> connection_db \<Rightarrow> connection_view option" where
  "current alias db = Option.bind (alias_of alias db) (\<lambda>a.
     map_option (\<lambda>i. identity_view i (al_display_name a) (managed_of alias db))
       (identity_of (al_current_fingerprint a) db))"

definition configuration :: "string \<Rightarrow> connection_db \<Rightarrow> (connection_view \<times> string option) option" where
  "configuration alias db = Option.bind (alias_of alias db) (\<lambda>a.
     Option.bind (identity_of (al_current_fingerprint a) db) (\<lambda>i.
       map_option (\<lambda>m. (identity_view i (al_display_name a) (Some m),
           if mg_ca_bundle m = [] then None else Some (mg_ca_bundle m)))
         (managed_of alias db)))"

definition managed_connections :: "bool \<Rightarrow> connection_db \<Rightarrow> (connection_view \<times> string option) list" where
  "managed_connections include_archived db =
     List.map_filter (\<lambda>a. configuration a db)
       (filter (\<lambda>a. include_archived \<or> (case managed_of a db of None \<Rightarrow> True | Some m \<Rightarrow> \<not> mg_archived m))
         (sort (map al_alias (cd_aliases db))))"


section \<open>Operations\<close>

text \<open>The statements that \<open>sync_primary\<close> and \<open>upsert_managed\<close> share: the revision and its alias.\<close>

definition point_alias :: "connection_env \<Rightarrow> instant \<Rightarrow> contract \<Rightarrow> string \<Rightarrow> connection_db \<Rightarrow> connection_db" where
  "point_alias env now c display db =
     (let fingerprint = ce_digest env (contract_text c);
          previous = (case alias_of (ct_alias c) db of None \<Rightarrow> [] | Some a \<Rightarrow> al_current_fingerprint a);
          revision = \<lparr>id_fingerprint = fingerprint, id_contract = c, id_display_name = display,
            id_contract_json = contract_text c,
            id_supersedes = (if previous \<noteq> fingerprint then previous else []), id_created_at = now\<rparr>;
          row = \<lparr>al_alias = ct_alias c, al_tenant_scope_id = ct_tenant_scope_id c,
            al_current_fingerprint = fingerprint, al_display_name = display, al_updated_at = now\<rparr>
      in db\<lparr>cd_identities := insert_or_ignore id_fingerprint revision (cd_identities db),
            cd_aliases := sql_upsert al_alias row (\<lambda>_. row) (cd_aliases db)\<rparr>)"

definition or_text :: "string \<Rightarrow> string \<Rightarrow> string" where
  "or_text s d = (if s = [] then d else s)"

definition sync_primary ::
  "connection_env \<Rightarrow> instant \<Rightarrow> splunk_connection \<Rightarrow> bool \<Rightarrow> connection_db \<Rightarrow> connection_db result" where
  "sync_primary env now v demo_mode db =
     (case normalized_endpoint env (sp_url v) demo_mode of Inl e \<Rightarrow> Inl e
      | Inr endpoint \<Rightarrow> Inr (point_alias env now (contract_of env PRIMARY_ALIAS PRIMARY_TENANT_SCOPE endpoint v demo_mode)
          (take 240 (or_text (sp_name v) ''Primary Splunk'')) db))"

text \<open>The checks before the first statement of \<open>upsert_managed\<close>; the result is the endpoint.\<close>

definition check_managed :: "connection_env \<Rightarrow> string \<Rightarrow> string \<Rightarrow> splunk_connection \<Rightarrow> string result" where
  "check_managed env alias scope v =
     (if alias = PRIMARY_ALIAS \<or> \<not> alias_pattern alias
      then Inl (ValueError ''Additional Splunk aliases must start with a letter and use 3-48 lowercase letters, numbers, or hyphens; 'primary' is reserved.'')
      else if \<not> tenant_scope_pattern scope
      then Inl (ValueError ''Tenant scope IDs must start with a letter and use 3-64 lowercase letters, numbers, dots, underscores, or hyphens.'')
      else case normalized_endpoint env (sp_url v) False of Inl e \<Rightarrow> Inl e
      | Inr endpoint \<Rightarrow>
         (let parts = ce_urlsplit env endpoint in
          if su_scheme parts \<notin> {''http'', ''https''} \<or> su_hostname parts = None \<or> su_hostname parts = Some []
          then Inl (ValueError ''Use a complete http:// or https:// Splunk MCP endpoint URL.'')
          else if \<not> ends_with ''/services/mcp'' (rstrip_slash (su_path parts))
          then Inl (ValueError ''Additional Splunk endpoints must end with /services/mcp.'')
          else Inr endpoint))"

definition scope_row :: "instant \<Rightarrow> string \<Rightarrow> string \<Rightarrow> splunk_connection \<Rightarrow> tenant_scope" where
  "scope_row now alias scope v =
     \<lparr>ts_id = scope, ts_label = take 240 (or_text (sp_name v) alias),
      ts_purpose = ''Evidence and execution boundary for the '' @ alias @ '' Splunk connection.'',
      ts_status = ''active'', ts_created_at = now, ts_updated_at = now\<rparr>"

text \<open>The row an admission starts from, and what a repeated one keeps of the row on disk.\<close>

definition admission_row :: "instant \<Rightarrow> string \<Rightarrow> string \<Rightarrow> managed_row" where
  "admission_row now alias ca = \<lparr>mg_alias = alias, mg_ca_bundle = ca, mg_enabled = False, mg_archived = False,
     mg_diagnostics_ready = False, mg_diagnostics_fingerprint = [], mg_diagnostics_checked_at = [],
     mg_created_at = now, mg_updated_at = now\<rparr>"

definition readmit :: "instant \<Rightarrow> string \<Rightarrow> bool \<Rightarrow> managed_row \<Rightarrow> managed_row" where
  "readmit now ca reset m = m\<lparr>mg_ca_bundle := ca,
     mg_enabled := (if reset then False else mg_enabled m),
     mg_diagnostics_ready := (if reset then False else mg_diagnostics_ready m),
     mg_diagnostics_fingerprint := (if reset then [] else mg_diagnostics_fingerprint m),
     mg_diagnostics_checked_at := (if reset then [] else mg_diagnostics_checked_at m),
     mg_updated_at := now\<rparr>"

definition upsert_managed ::
  "connection_env \<Rightarrow> instant \<Rightarrow> string \<Rightarrow> string \<Rightarrow> splunk_connection \<Rightarrow> bool \<Rightarrow> connection_db \<Rightarrow> connection_db result" where
  "upsert_managed env now alias0 scope0 v credentials_changed db =
     (let alias = lower (strip alias0); scope = lower (strip scope0) in
      case check_managed env alias scope v of Inl e \<Rightarrow> Inl e
      | Inr endpoint \<Rightarrow>
         (if (case managed_of alias db of None \<Rightarrow> False | Some m \<Rightarrow> mg_archived m)
          then Inl (ValueError ''That connection alias is archived and cannot be reused.'')
          else
            (let c = contract_of env alias scope endpoint v False;
                 previous = (case alias_of alias db of None \<Rightarrow> [] | Some a \<Rightarrow> al_current_fingerprint a);
                 reset = (previous \<noteq> ce_digest env (contract_text c) \<or> credentials_changed);
                 s = scope_row now alias scope v;
                 ca = take 4000 (case sp_ca_bundle v of None \<Rightarrow> [] | Some b \<Rightarrow> b);
                 scopes = sql_upsert ts_id s (\<lambda>r. r\<lparr>ts_label := ts_label s, ts_purpose := ts_purpose s,
                   ts_status := ''active'', ts_updated_at := now\<rparr>) (cd_scopes db)
             in Inr ((point_alias env now c (take 240 (or_text (sp_name v) alias)) db)
                  \<lparr>cd_scopes := scopes,
                   cd_managed := sql_upsert mg_alias (admission_row now alias ca) (readmit now ca reset)
                     (cd_managed db)\<rparr>))))"

definition record_diagnostic ::
  "instant \<Rightarrow> string \<Rightarrow> string \<Rightarrow> bool \<Rightarrow> string \<Rightarrow> connection_db \<Rightarrow> connection_db result" where
  "record_diagnostic now alias fingerprint ready checked_at db =
     (case current alias db of
        None \<Rightarrow> Inl (ValueError ''The connection changed while diagnostics were running; test it again.'')
      | Some v \<Rightarrow>
          if vw_fingerprint v \<noteq> fingerprint
          then Inl (ValueError ''The connection changed while diagnostics were running; test it again.'')
          else
            (let db' = db\<lparr>cd_managed := sql_update (\<lambda>m. mg_alias m = alias \<and> \<not> mg_archived m)
                   (\<lambda>m. m\<lparr>mg_diagnostics_ready := ready, mg_diagnostics_fingerprint := fingerprint,
                      mg_diagnostics_checked_at := checked_at, mg_enabled := (ready \<and> mg_enabled m),
                      mg_updated_at := now\<rparr>) (cd_managed db)\<rparr>
             in if configuration alias db' = None then Inl (KeyError alias) else Inr db'))"

definition set_enabled :: "instant \<Rightarrow> string \<Rightarrow> bool \<Rightarrow> connection_db \<Rightarrow> connection_db result" where
  "set_enabled now alias enabled db =
     (case configuration alias db of
        None \<Rightarrow> Inl (KeyError alias)
      | Some (v, _) \<Rightarrow>
          if vw_archived v then Inl (KeyError alias)
          else if enabled \<and> \<not> (vw_diagnostics_ready v \<and> vw_diagnostics_fingerprint v = vw_fingerprint v)
          then Inl (ValueError ''Run successful diagnostics against this exact connection revision before enabling it.'')
          else Inr (db\<lparr>cd_managed := sql_update (\<lambda>m. mg_alias m = alias)
             (\<lambda>m. m\<lparr>mg_enabled := enabled, mg_updated_at := now\<rparr>) (cd_managed db)\<rparr>))"

definition archive :: "instant \<Rightarrow> string \<Rightarrow> connection_db \<Rightarrow> connection_db result" where
  "archive now alias db =
     (if alias = PRIMARY_ALIAS then Inl (ValueError ''The Primary Splunk connection cannot be archived here.'')
      else case configuration alias db of
        None \<Rightarrow> Inl (KeyError alias)
      | Some (v, _) \<Rightarrow> Inr (db\<lparr>
          cd_managed := sql_update (\<lambda>m. mg_alias m = alias)
            (\<lambda>m. m\<lparr>mg_enabled := False, mg_archived := True, mg_updated_at := now\<rparr>) (cd_managed db),
          cd_scopes := sql_update (\<lambda>s. ts_id s = vw_tenant_scope_id v)
            (\<lambda>s. s\<lparr>ts_status := ''archived'', ts_updated_at := now\<rparr>) (cd_scopes db)\<rparr>))"

text \<open>The reasons of \<open>validate\<close>.\<close>

datatype binding_check =
    BindingOk
  | NotConfigured
  | AliasArchived
  | AliasDisabled
  | ScopeChanged
  | RevisionChanged string

definition validate_binding :: "string \<Rightarrow> string \<Rightarrow> string \<Rightarrow> connection_db \<Rightarrow> binding_check" where
  "validate_binding alias fingerprint tenant_scope_id db =
     (case current alias db of
        None \<Rightarrow> NotConfigured
      | Some v \<Rightarrow>
          if vw_archived v then AliasArchived
          else if vw_managed v \<and> \<not> vw_enabled v then AliasDisabled
          else if tenant_scope_id \<noteq> vw_tenant_scope_id v then ScopeChanged
          else if fingerprint \<noteq> vw_fingerprint v then RevisionChanged (take 12 (vw_fingerprint v))
          else BindingOk)"


section \<open>The registry as a machine\<close>

text \<open>
  One statement of the application. The environment of each operation is its own, because the files that
  CA bundles name may change between operations; only the digest is fixed. An operation that raises
  changes nothing.
\<close>

datatype connection_op =
    SyncPrimary splunk_connection bool
  | UpsertManaged string string splunk_connection bool
  | RecordDiagnostic string string bool string
  | SetEnabled string bool
  | Archive string

fun connection_call :: "connection_env \<Rightarrow> instant \<Rightarrow> connection_op \<Rightarrow> connection_db \<Rightarrow> connection_db result" where
  "connection_call env now (SyncPrimary v demo_mode) db = sync_primary env now v demo_mode db"
| "connection_call env now (UpsertManaged a s v changed) db = upsert_managed env now a s v changed db"
| "connection_call env now (RecordDiagnostic a f ready checked) db = record_diagnostic now a f ready checked db"
| "connection_call env now (SetEnabled a enabled) db = set_enabled now a enabled db"
| "connection_call env now (Archive a) db = archive now a db"

fun connection_step ::
  "(string \<Rightarrow> string) \<Rightarrow> connection_env \<times> instant \<times> connection_op \<Rightarrow> connection_db \<Rightarrow> connection_db" where
  "connection_step h (env, now, op) db =
     (case connection_call (env\<lparr>ce_digest := h\<rparr>) now op db of Inl e \<Rightarrow> db | Inr db' \<Rightarrow> db')"


section \<open>The tables as maps\<close>

text \<open>The lookups determine what every operation does; a table is refined by the map of its keys.\<close>

lemma lookup_keys:
  "alias_of a db = Some r \<Longrightarrow> al_alias r = a" "managed_of a db = Some m \<Longrightarrow> mg_alias m = a"
  "identity_of f db = Some i \<Longrightarrow> id_fingerprint i = f"
  by (auto simp: alias_of_def managed_of_def identity_of_def dest: sql_first_SomeD)

lemma other_tables [simp]:
  "alias_of a (db\<lparr>cd_scopes := s\<rparr>) = alias_of a db" "managed_of a (db\<lparr>cd_scopes := s\<rparr>) = managed_of a db"
  "identity_of f (db\<lparr>cd_scopes := s\<rparr>) = identity_of f db"
  "alias_of a (db\<lparr>cd_managed := m\<rparr>) = alias_of a db" "identity_of f (db\<lparr>cd_managed := m\<rparr>) = identity_of f db"
  "alias_of a (db\<lparr>cd_identities := is\<rparr>) = alias_of a db" "managed_of a (db\<lparr>cd_identities := is\<rparr>) = managed_of a db"
  "managed_of a (db\<lparr>cd_aliases := al\<rparr>) = managed_of a db" "identity_of f (db\<lparr>cd_aliases := al\<rparr>) = identity_of f db"
  by (simp_all add: alias_of_def managed_of_def identity_of_def)

abbreviation fingerprint_of :: "connection_env \<Rightarrow> contract \<Rightarrow> string" where
  "fingerprint_of env c \<equiv> ce_digest env (contract_text c)"

lemma point_alias_managed [simp]:
  "managed_of a (point_alias env now c d db) = managed_of a db"
  "cd_managed (point_alias env now c d db) = cd_managed db"
  "cd_scopes (point_alias env now c d db) = cd_scopes db"
  by (simp_all add: point_alias_def Let_def managed_of_def)

lemma point_alias_alias:
  "alias_of a (point_alias env now c d db) = (if a = ct_alias c then
     Some \<lparr>al_alias = ct_alias c, al_tenant_scope_id = ct_tenant_scope_id c,
       al_current_fingerprint = fingerprint_of env c, al_display_name = d, al_updated_at = now\<rparr>
     else alias_of a db)"
  by (simp add: point_alias_def Let_def alias_of_def upsert_lookup split: option.split)

lemma point_alias_identity:
  "identity_of f (point_alias env now c d db) = (case identity_of f db of
     None \<Rightarrow> if f = fingerprint_of env c then
       Some \<lparr>id_fingerprint = f, id_contract = c, id_display_name = d, id_contract_json = contract_text c,
         id_supersedes = (let previous = (case alias_of (ct_alias c) db of None \<Rightarrow> [] | Some a \<Rightarrow> al_current_fingerprint a)
           in if previous \<noteq> f then previous else []), id_created_at = now\<rparr> else None
     | Some i \<Rightarrow> Some i)"
  by (auto simp: point_alias_def Let_def identity_of_def ignore_lookup split: option.split)

lemma managed_update:
  assumes "\<And>m. p m \<Longrightarrow> mg_alias (f m) = mg_alias m"
  shows "managed_of a (db\<lparr>cd_managed := sql_update p f (cd_managed db)\<rparr>) =
      map_option (\<lambda>m. if p m then f m else m) (managed_of a db)"
  using sql_first_update [of p mg_alias f a "cd_managed db", OF assms] by (simp add: managed_of_def)


section \<open>The registry's invariant\<close>

text \<open>
  Every alias points to a stored revision, a revision is stored under the digest of its contract, and a
  managed connection is enabled only when it passed diagnostics at exactly the revision its alias
  points to, and never once it is archived.
\<close>

definition revisions_inv :: "(string \<Rightarrow> string) \<Rightarrow> connection_db \<Rightarrow> bool" where
  "revisions_inv h db =
     ((\<forall>a r. alias_of a db = Some r \<longrightarrow> identity_of (al_current_fingerprint r) db \<noteq> None) \<and>
      (\<forall>f i. identity_of f db = Some i \<longrightarrow> f = h (contract_text (id_contract i))))"

definition admission_ok :: "managed_row \<Rightarrow> alias_row \<Rightarrow> bool" where
  "admission_ok m r = (mg_enabled m \<longrightarrow> \<not> mg_archived m \<and> mg_diagnostics_ready m \<and>
     mg_diagnostics_fingerprint m = al_current_fingerprint r)"

definition admissions_inv :: "connection_db \<Rightarrow> bool" where
  "admissions_inv db = (\<forall>a m. managed_of a db = Some m \<longrightarrow>
     a \<noteq> PRIMARY_ALIAS \<and> (\<exists>r. alias_of a db = Some r \<and> admission_ok m r))"

definition registry_inv :: "(string \<Rightarrow> string) \<Rightarrow> connection_db \<Rightarrow> bool" where
  "registry_inv h db = (revisions_inv h db \<and> admissions_inv db)"

lemma point_alias_revisions:
  assumes "revisions_inv (ce_digest env) db"
  shows "revisions_inv (ce_digest env) (point_alias env now c d db)"
proof -
  have 1: "identity_of (al_current_fingerprint r) (point_alias env now c d db) \<noteq> None"
    if a: "alias_of a (point_alias env now c d db) = Some r" for a r
  proof (cases "a = ct_alias c")
    case True
    with a show ?thesis by (auto simp: point_alias_alias point_alias_identity split: option.split)
  next
    case False
    with a assms have "identity_of (al_current_fingerprint r) db \<noteq> None"
      by (auto simp: point_alias_alias revisions_inv_def)
    then show ?thesis by (auto simp: point_alias_identity split: option.split)
  qed
  have 2: "f = fingerprint_of env (id_contract i)"
    if "identity_of f (point_alias env now c d db) = Some i" for f i
    using that assms by (auto simp: point_alias_identity revisions_inv_def split: option.splits if_splits)
  from 1 2 show ?thesis unfolding revisions_inv_def by blast
qed

lemma revisions_frame:
  "revisions_inv h db \<Longrightarrow> revisions_inv h (db\<lparr>cd_managed := m\<rparr>)"
  "revisions_inv h db \<Longrightarrow> revisions_inv h (db\<lparr>cd_scopes := s\<rparr>)"
  by (simp_all add: revisions_inv_def)

lemma admissions_frame: "admissions_inv db \<Longrightarrow> admissions_inv (db\<lparr>cd_scopes := s\<rparr>)"
  by (simp add: admissions_inv_def)

lemma sync_primary_cases:
  assumes "sync_primary env now v demo db = Inr db'"
  obtains c d where "db' = point_alias env now c d db" "ct_alias c = PRIMARY_ALIAS"
  using assms that by (auto simp: sync_primary_def contract_of_def split: sum.splits)

lemma sync_primary_inv:
  assumes "registry_inv (ce_digest env) db" "sync_primary env now v demo db = Inr db'"
  shows "registry_inv (ce_digest env) db'"
proof -
  obtain c d where "db' = point_alias env now c d db" "ct_alias c = PRIMARY_ALIAS"
    using assms(2) by (rule sync_primary_cases)
  then show ?thesis using assms(1) point_alias_revisions [of env db now c d]
    by (auto simp: registry_inv_def admissions_inv_def point_alias_alias)
qed

lemma upsert_managed_cases:
  assumes "upsert_managed env now a0 s0 v creds db = Inr db'"
  obtains endpoint c d ca scopes reset where
    "check_managed env (lower (strip a0)) (lower (strip s0)) v = Inr endpoint"
    "c = contract_of env (lower (strip a0)) (lower (strip s0)) endpoint v False"
    "\<And>m. managed_of (ct_alias c) db = Some m \<Longrightarrow> \<not> mg_archived m"
    "reset = ((case alias_of (ct_alias c) db of None \<Rightarrow> [] | Some r \<Rightarrow> al_current_fingerprint r) \<noteq> fingerprint_of env c \<or> creds)"
    "db' = (point_alias env now c d db)\<lparr>cd_scopes := scopes,
       cd_managed := sql_upsert mg_alias (admission_row now (ct_alias c) ca) (readmit now ca reset) (cd_managed db)\<rparr>"
proof -
  let ?a = "lower (strip a0)" and ?s = "lower (strip s0)"
  obtain endpoint where e: "check_managed env ?a ?s v = Inr endpoint"
    using assms by (auto simp: upsert_managed_def Let_def split: sum.splits)
  have ca: "ct_alias (contract_of env ?a ?s endpoint v False) = ?a" by (simp add: contract_of_def)
  have "\<not> mg_archived m" if "managed_of ?a db = Some m" for m
    using assms e that by (auto simp: upsert_managed_def Let_def split: if_splits)
  then show thesis
    using assms e ca by (intro that [OF e refl _ refl])
      (auto simp: upsert_managed_def Let_def split: if_splits)
qed

lemma readmit_simps [simp]:
  "mg_alias (readmit now ca reset m) = mg_alias m" "mg_alias (admission_row now a ca) = a"
  "mg_archived (readmit now ca reset m) = mg_archived m" "mg_archived (admission_row now a ca) = False"
  "mg_enabled (admission_row now a ca) = False" "mg_enabled (readmit now ca reset m) = (\<not> reset \<and> mg_enabled m)"
  "mg_diagnostics_ready (readmit now ca reset m) = (\<not> reset \<and> mg_diagnostics_ready m)"
  "mg_diagnostics_fingerprint (readmit now ca reset m) = (if reset then [] else mg_diagnostics_fingerprint m)"
  by (simp_all add: readmit_def admission_row_def)

lemma upserted_managed:
  "managed_of a (db'\<lparr>cd_scopes := s, cd_managed := sql_upsert mg_alias (admission_row now b ca) (readmit now ca reset) (cd_managed db)\<rparr>) =
    (if a = b then (case managed_of a db of None \<Rightarrow> Some (admission_row now a ca) | Some m \<Rightarrow> Some (readmit now ca reset m))
     else managed_of a db)"
  using upsert_lookup [of mg_alias "admission_row now b ca" "readmit now ca reset" a "cd_managed db"]
  by (auto simp: managed_of_def split: option.split)

lemma upsert_managed_inv:
  assumes inv: "registry_inv (ce_digest env) db" and ok: "upsert_managed env now a0 s0 v creds db = Inr db'"
  shows "registry_inv (ce_digest env) db'"
proof -
  obtain endpoint c d ca scopes reset where
    chk: "check_managed env (lower (strip a0)) (lower (strip s0)) v = Inr endpoint" and
    c: "c = contract_of env (lower (strip a0)) (lower (strip s0)) endpoint v False" and
    reset: "reset = ((case alias_of (ct_alias c) db of None \<Rightarrow> [] | Some r \<Rightarrow> al_current_fingerprint r) \<noteq> fingerprint_of env c \<or> creds)" and
    db': "db' = (point_alias env now c d db)\<lparr>cd_scopes := scopes,
       cd_managed := sql_upsert mg_alias (admission_row now (ct_alias c) ca) (readmit now ca reset) (cd_managed db)\<rparr>"
    using ok by (rule upsert_managed_cases) (rule that)
  have prim: "ct_alias c \<noteq> PRIMARY_ALIAS"
    using chk by (auto simp: c contract_of_def check_managed_def Let_def split: if_splits sum.splits)
  have rev: "revisions_inv (ce_digest env) db'"
    using inv point_alias_revisions [of env db now c d] by (simp add: db' revisions_frame registry_inv_def)
  have managed: "managed_of a db' = (if a = ct_alias c then (case managed_of a db of
      None \<Rightarrow> Some (admission_row now a ca) | Some m \<Rightarrow> Some (readmit now ca reset m)) else managed_of a db)" for a
    unfolding db' upserted_managed by auto
  have aliases: "alias_of a db' = alias_of a (point_alias env now c d db)" for a by (simp add: db')
  have adm: "admissions_inv db" using inv by (simp add: registry_inv_def)
  have "a \<noteq> PRIMARY_ALIAS \<and> (\<exists>r. alias_of a db' = Some r \<and> admission_ok m r)"
    if m: "managed_of a db' = Some m" for a m
  proof (cases "a = ct_alias c")
    case False
    with m adm show ?thesis by (simp add: managed aliases point_alias_alias admissions_inv_def)
  next
    case True
    show ?thesis
    proof (cases "managed_of a db")
      case None
      with m True have "m = admission_row now a ca" by (simp add: managed)
      then show ?thesis using True prim by (simp add: aliases point_alias_alias admission_ok_def)
    next
      case (Some m0)
      then obtain r0 where r0: "alias_of a db = Some r0" "admission_ok m0 r0"
        using adm unfolding admissions_inv_def by blast
      have "m = readmit now ca reset m0" using m True Some by (simp add: managed)
      then show ?thesis using r0 True prim reset by (simp add: aliases point_alias_alias admission_ok_def)
    qed
  qed
  with rev show ?thesis by (simp add: registry_inv_def admissions_inv_def)
qed

lemma admissions_update:
  assumes inv: "admissions_inv db" and keep: "\<And>m. p m \<Longrightarrow> mg_alias (f m) = mg_alias m"
    and ok: "\<And>a m r. managed_of a db = Some m \<Longrightarrow> alias_of a db = Some r \<Longrightarrow> p m \<Longrightarrow> admission_ok m r \<Longrightarrow>
      admission_ok (f m) r"
  shows "admissions_inv (db\<lparr>cd_managed := sql_update p f (cd_managed db)\<rparr>)"
  unfolding admissions_inv_def
proof (intro allI impI)
  fix a m'
  assume "managed_of a (db\<lparr>cd_managed := sql_update p f (cd_managed db)\<rparr>) = Some m'"
  then obtain m where m: "managed_of a db = Some m" "m' = (if p m then f m else m)"
    by (auto simp: managed_update [OF keep])
  then obtain r where "a \<noteq> PRIMARY_ALIAS" "alias_of a db = Some r" "admission_ok m r"
    using inv unfolding admissions_inv_def by blast
  with m ok show "a \<noteq> PRIMARY_ALIAS \<and> (\<exists>r. alias_of a (db\<lparr>cd_managed := sql_update p f (cd_managed db)\<rparr>) = Some r
      \<and> admission_ok m' r)"
    by auto
qed

lemma current_cases:
  assumes "current a db = Some v"
  obtains r i where "alias_of a db = Some r" "identity_of (al_current_fingerprint r) db = Some i"
    "v = identity_view i (al_display_name r) (managed_of a db)" "vw_fingerprint v = al_current_fingerprint r"
  using assms that by (auto simp: current_def identity_view_def bind_eq_Some_conv dest: lookup_keys)

lemma configuration_cases:
  assumes "configuration a db = Some (v, ca)"
  obtains r i m where "alias_of a db = Some r" "identity_of (al_current_fingerprint r) db = Some i"
    "managed_of a db = Some m" "v = identity_view i (al_display_name r) (Some m)"
    "vw_fingerprint v = al_current_fingerprint r" "current a db = Some v"
  using assms that by (auto simp: configuration_def current_def identity_view_def bind_eq_Some_conv dest: lookup_keys)

lemma record_diagnostic_inv:
  assumes inv: "registry_inv h db" and ok: "record_diagnostic now a f ready checked db = Inr db'"
  shows "registry_inv h db'"
proof -
  obtain v where cur: "current a db = Some v" "vw_fingerprint v = f" and
    db': "db' = db\<lparr>cd_managed := sql_update (\<lambda>m. mg_alias m = a \<and> \<not> mg_archived m)
                   (\<lambda>m. m\<lparr>mg_diagnostics_ready := ready, mg_diagnostics_fingerprint := f,
                      mg_diagnostics_checked_at := checked, mg_enabled := (ready \<and> mg_enabled m),
                      mg_updated_at := now\<rparr>) (cd_managed db)\<rparr>"
    using ok by (auto simp: record_diagnostic_def Let_def split: option.splits if_splits)
  obtain r where r: "alias_of a db = Some r" "al_current_fingerprint r = f"
    using cur current_cases by metis
  have "admissions_inv db'"
    unfolding db' by (rule admissions_update) (use inv r in \<open>auto simp: registry_inv_def admission_ok_def dest: lookup_keys(2)\<close>)
  then show ?thesis using inv by (simp add: registry_inv_def db' revisions_frame)
qed

lemma set_enabled_inv:
  assumes inv: "registry_inv h db" and ok: "set_enabled now a enabled db = Inr db'"
  shows "registry_inv h db'"
proof -
  obtain v ca where cfg: "configuration a db = Some (v, ca)" and v: "\<not> vw_archived v"
      "enabled \<longrightarrow> vw_diagnostics_ready v \<and> vw_diagnostics_fingerprint v = vw_fingerprint v" and
    db': "db' = db\<lparr>cd_managed := sql_update (\<lambda>m. mg_alias m = a)
             (\<lambda>m. m\<lparr>mg_enabled := enabled, mg_updated_at := now\<rparr>) (cd_managed db)\<rparr>"
    using ok by (auto simp: set_enabled_def split: option.splits if_splits)
  obtain r i m where r: "alias_of a db = Some r" "managed_of a db = Some m"
      "v = identity_view i (al_display_name r) (Some m)" "vw_fingerprint v = al_current_fingerprint r"
    using cfg by (rule configuration_cases)
  then have m: "enabled \<longrightarrow> mg_diagnostics_ready m \<and> mg_diagnostics_fingerprint m = al_current_fingerprint r" "\<not> mg_archived m"
    using v by (simp_all add: identity_view_def)
  have "admissions_inv db'"
    unfolding db'
  proof (rule admissions_update)
    show "admission_ok (m0\<lparr>mg_enabled := enabled, mg_updated_at := now\<rparr>) r0"
      if "managed_of b db = Some m0" "alias_of b db = Some r0" "mg_alias m0 = a" for b m0 r0
    proof -
      have "b = a" using that lookup_keys(2) by metis
      then show ?thesis using that r m by (simp add: admission_ok_def)
    qed
  qed (use inv in \<open>simp_all add: registry_inv_def\<close>)
  then show ?thesis using inv by (simp add: registry_inv_def db' revisions_frame)
qed

lemma archive_inv:
  assumes inv: "registry_inv h db" and ok: "archive now a db = Inr db'"
  shows "registry_inv h db'"
proof -
  obtain s where db': "db' = db\<lparr>cd_managed := sql_update (\<lambda>m. mg_alias m = a)
            (\<lambda>m. m\<lparr>mg_enabled := False, mg_archived := True, mg_updated_at := now\<rparr>) (cd_managed db)\<rparr>\<lparr>cd_scopes := s\<rparr>"
    using ok by (auto simp: archive_def split: option.splits if_splits)
  have "admissions_inv (db\<lparr>cd_managed := sql_update (\<lambda>m. mg_alias m = a)
            (\<lambda>m. m\<lparr>mg_enabled := False, mg_archived := True, mg_updated_at := now\<rparr>) (cd_managed db)\<rparr>)"
    by (rule admissions_update) (use inv in \<open>simp_all add: registry_inv_def admission_ok_def\<close>)
  then show ?thesis using inv unfolding db' registry_inv_def by (intro conjI revisions_frame admissions_frame) auto
qed

lemma connection_call_inv:
  "registry_inv (ce_digest env) db \<Longrightarrow> connection_call env now op db = Inr db' \<Longrightarrow> registry_inv (ce_digest env) db'"
  by (cases op) (auto intro: sync_primary_inv upsert_managed_inv record_diagnostic_inv set_enabled_inv archive_inv)

lemma connection_step_cases:
  obtains (raises) "connection_step h e db = db"
  | (returns) env now op db' where "e = (env, now, op)" "connection_call (env\<lparr>ce_digest := h\<rparr>) now op db = Inr db'"
      "connection_step h e db = db'"
proof -
  obtain env now op where e: "e = (env, now, op)" by (cases e)
  show thesis
    by (cases "connection_call (env\<lparr>ce_digest := h\<rparr>) now op db") (use e raises returns in auto)
qed

interpretation registry_machine: invariant_machine "connection_step h" "registry_inv h" for h
proof
  show "registry_inv h (connection_step h e db)" if "registry_inv h db" for db e
    by (cases rule: connection_step_cases [of h e db])
      (use that connection_call_inv [where env = "env\<lparr>ce_digest := h\<rparr>" for env] in simp_all)
qed

section \<open>What no operation undoes\<close>

lemma point_alias_keeps: "identity_of f db = Some i \<Longrightarrow> identity_of f (point_alias env now c d db) = Some i"
  by (simp add: point_alias_identity)

lemma connection_call_identities:
  assumes "identity_of f db = Some i" "connection_call env now op db = Inr db'"
  shows "identity_of f db' = Some i"
proof (cases op)
  case (SyncPrimary v demo)
  with assms(2) obtain c d where "db' = point_alias env now c d db"
    by (auto elim: sync_primary_cases)
  with assms(1) show ?thesis by (simp add: point_alias_keeps)
next
  case (UpsertManaged a s v creds)
  with assms(2) have "upsert_managed env now a s v creds db = Inr db'" by simp
  then show ?thesis by (rule upsert_managed_cases) (use assms(1) in \<open>simp add: point_alias_keeps\<close>)
qed (use assms in \<open>auto simp: record_diagnostic_def set_enabled_def archive_def Let_def split: option.splits if_splits\<close>)

text \<open>The admission of a managed connection: waiting for diagnostics, executable, or retired for good.\<close>

datatype admission_state = Pending | Executable | Retired

definition admission_of :: "connection_db \<Rightarrow> string \<Rightarrow> admission_state option" where
  "admission_of db alias = map_option (\<lambda>m. if mg_archived m then Retired else if mg_enabled m then Executable else Pending)
     (managed_of alias db)"

fun admission_moves :: "admission_state \<Rightarrow> admission_state \<Rightarrow> bool" where
  "admission_moves Pending s = (s \<noteq> Pending)"
| "admission_moves Executable s = (s \<noteq> Executable)"
| "admission_moves Retired s = False"

lemma connection_call_managed:
  assumes "managed_of k db = Some m" "connection_call env now op db = Inr db'"
  shows "\<exists>m'. managed_of k db' = Some m' \<and> (mg_archived m \<longrightarrow> mg_archived m')"
proof (cases op)
  case (SyncPrimary v demo)
  with assms(2) obtain c d where "db' = point_alias env now c d db"
    by (auto elim: sync_primary_cases)
  with assms(1) show ?thesis by simp
next
  case (UpsertManaged a s v creds)
  with assms(2) have "upsert_managed env now a s v creds db = Inr db'" by simp
  then obtain c d ca scopes reset where
    "db' = (point_alias env now c d db)\<lparr>cd_scopes := scopes,
       cd_managed := sql_upsert mg_alias (admission_row now (ct_alias c) ca) (readmit now ca reset) (cd_managed db)\<rparr>"
    by (rule upsert_managed_cases) (rule that)
  then show ?thesis using assms(1) by (auto simp: upserted_managed)
next
  case (RecordDiagnostic a f ready checked)
  with assms show ?thesis by (auto simp: record_diagnostic_def Let_def managed_update split: option.splits if_splits)
next
  case (SetEnabled a e)
  with assms show ?thesis by (auto simp: set_enabled_def managed_update split: option.splits if_splits)
next
  case (Archive a)
  then obtain v s where db': "db' = db\<lparr>cd_managed := sql_update (\<lambda>m. mg_alias m = a)
            (\<lambda>m. m\<lparr>mg_enabled := False, mg_archived := True, mg_updated_at := now\<rparr>) (cd_managed db)\<rparr>\<lparr>cd_scopes := s\<rparr>"
    using assms(2) by (auto simp: archive_def split: option.splits if_splits)
  show ?thesis unfolding db' using assms(1) by (simp only: other_tables) (simp add: managed_update)
qed

interpretation registry_revisions: lifecycle "connection_step h" "registry_inv h" "\<lambda>db f. identity_of f db" "\<lambda>a b. False" for h
proof
  show "\<exists>b. identity_of k (connection_step h e s) = Some b \<and> (b = a \<or> False)"
    if "identity_of k s = Some a" for s k a e
    by (cases rule: connection_step_cases [of h e s]) (use connection_call_identities [OF that] that in simp_all)
qed

interpretation registry_admissions: lifecycle "connection_step h" "registry_inv h" admission_of admission_moves for h
proof
  show "\<exists>b. admission_of (connection_step h e s) k = Some b \<and> (b = a \<or> admission_moves a b)"
    if a: "admission_of s k = Some a" for s k a e
  proof -
    from a obtain m where m: "managed_of k s = Some m"
        "a = (if mg_archived m then Retired else if mg_enabled m then Executable else Pending)"
      unfolding admission_of_def by blast
    have "\<exists>m'. managed_of k (connection_step h e s) = Some m' \<and> (mg_archived m \<longrightarrow> mg_archived m')"
      by (cases rule: connection_step_cases [of h e s]) (use connection_call_managed [OF m(1)] m(1) in simp_all)
    then show ?thesis using m by (auto simp: admission_of_def)
  qed
qed

lemma registry_initial: "registry_inv h (initial_connections now)"
  by (simp add: registry_inv_def revisions_inv_def admissions_inv_def initial_connections_def
      alias_of_def identity_of_def managed_of_def sql_first_def)


section \<open>Contracts and drift\<close>

lemma norm_members: "json_norm (JObj kvs) = json_norm (JObj kvs') \<Longrightarrow> (k, v) \<in> set kvs \<Longrightarrow> (k, json_norm v) \<in> set (map (\<lambda>(k, v). (k, json_norm v)) kvs')"
proof -
  assume "json_norm (JObj kvs) = json_norm (JObj kvs')" "(k, v) \<in> set kvs"
  then have "set (sort_key fst (map (\<lambda>(k, v). (k, json_norm v)) kvs)) = set (sort_key fst (map (\<lambda>(k, v). (k, json_norm v)) kvs'))"
    by simp
  moreover have "(k, json_norm v) \<in> set (map (\<lambda>(k, v). (k, json_norm v)) kvs)"
    using \<open>(k, v) \<in> set kvs\<close> by force
  ultimately show ?thesis by (simp only: set_sort)
qed

lemma contract_text_inj: "contract_text c = contract_text c' \<longleftrightarrow> c = c'"
proof
  assume "contract_text c = contract_text c'"
  moreover have "json_wf (contract_json d)" for d by (simp add: contract_json_def)
  ultimately have norm: "json_norm (contract_json c) = json_norm (contract_json c')"
    by (intro json_text_inj) (simp_all add: contract_text_def)
  note fields = norm_members [OF norm [unfolded contract_json_def]]
  have "ct_alias c = ct_alias c'" using fields [of "''alias''" "JStr (ct_alias c)"] by simp
  moreover have "ct_tenant_scope_id c = ct_tenant_scope_id c'"
    using fields [of "''tenant_scope_id''" "JStr (ct_tenant_scope_id c)"] by simp
  moreover have "ct_endpoint c = ct_endpoint c'" using fields [of "''endpoint''" "JStr (ct_endpoint c)"] by simp
  moreover have "ct_verify_tls c = ct_verify_tls c'" using fields [of "''verify_tls''" "JBool (ct_verify_tls c)"] by simp
  moreover have "ct_ca_bundle_digest c = ct_ca_bundle_digest c'"
    using fields [of "''ca_bundle_digest''" "JStr (ct_ca_bundle_digest c)"] by simp
  moreover have "ct_mode c = ct_mode c'" using fields [of "''mode''" "JStr (ct_mode c)"] by simp
  ultimately show "c = c'" by simp
qed simp


section \<open>Properties\<close>

abbreviation registry_after ::
  "(string \<Rightarrow> string) \<Rightarrow> instant \<Rightarrow> (connection_env \<times> instant \<times> connection_op) list \<Rightarrow> connection_db" where
  "registry_after h start es \<equiv> run_ops (connection_step h) (initial_connections start) es"

lemma registry_reachable: "registry_inv h (registry_after h start es)"
  by (intro registry_machine.inv_run registry_initial)

lemma alias_resolves:
  "revisions_inv h db \<Longrightarrow> alias_of a db = Some r \<Longrightarrow> \<exists>i. identity_of (al_current_fingerprint r) db = Some i"
  unfolding revisions_inv_def by blast

lemma binding_ok_cases:
  assumes "validate_binding a f t db = BindingOk"
  obtains r i where "alias_of a db = Some r" "al_current_fingerprint r = f" "identity_of f db = Some i"
    "t = ct_tenant_scope_id (id_contract i)"
    "case managed_of a db of None \<Rightarrow> True | Some m \<Rightarrow> mg_enabled m \<and> \<not> mg_archived m"
proof -
  obtain v where v: "current a db = Some v" "\<not> vw_archived v" "vw_managed v \<longrightarrow> vw_enabled v"
      "t = vw_tenant_scope_id v" "f = vw_fingerprint v"
    using assms by (auto simp: validate_binding_def split: option.splits if_splits)
  from v(1) obtain r i where "alias_of a db = Some r" "identity_of (al_current_fingerprint r) db = Some i"
      "v = identity_view i (al_display_name r) (managed_of a db)" "vw_fingerprint v = al_current_fingerprint r"
    by (rule current_cases)
  with v show thesis by (intro that) (auto simp: identity_view_def split: option.splits)
qed

text \<open>A small estate for the witnesses: one endpoint, the digest keeps the text.\<close>

definition sample_env :: connection_env where
  "sample_env = \<lparr>ce_digest = (\<lambda>s. s), ce_urlsplit = (\<lambda>u. \<lparr>su_scheme = ''https'', su_hostname = Some ''h'', su_port = Inr None,
     su_username = [], su_password = [], su_path = ''/services/mcp'', su_query = []\<rparr>),
     ce_urlunsplit = (\<lambda>a b c d e. a @ ''://'' @ b @ c), ce_path_text = (\<lambda>p. p), ce_read = (\<lambda>p. None)\<rparr>"

definition sample_connection :: splunk_connection where
  "sample_connection = \<lparr>sp_name = ''EU'', sp_url = ''https://h/services/mcp'', sp_verify_ssl = True, sp_ca_bundle = None\<rparr>"

definition sample_fingerprint :: string where
  "sample_fingerprint = contract_text (contract_of sample_env ''eu-prod'' ''eu.prod'' ''https://h/services/mcp'' sample_connection False)"

definition sample_ops :: "(connection_env \<times> instant \<times> connection_op) list" where
  "sample_ops = [(sample_env, 1, UpsertManaged ''EU-prod '' ''eu.prod'' sample_connection False),
     (sample_env, 2, RecordDiagnostic ''eu-prod'' sample_fingerprint True ''t''),
     (sample_env, 3, SetEnabled ''eu-prod'' True)]"


text \<open>Only the primary connection has no managed row.\<close>

definition unmanaged_primary :: "connection_db \<Rightarrow> bool" where
  "unmanaged_primary db = (\<forall>a. alias_of a db \<noteq> None \<longrightarrow> a = PRIMARY_ALIAS \<or> managed_of a db \<noteq> None)"

lemma connection_call_aliases:
  assumes "connection_call env now op db = Inr db'" "unmanaged_primary db"
  shows "unmanaged_primary db'"
proof -
  have kept: "managed_of a db' \<noteq> None" if "managed_of a db \<noteq> None" for a
    using that connection_call_managed [OF _ assms(1)] by blast
  have "alias_of a db \<noteq> None \<or> a = PRIMARY_ALIAS \<or> managed_of a db' \<noteq> None" if "alias_of a db' \<noteq> None" for a
  proof (cases op)
    case (SyncPrimary v demo)
    with assms(1) obtain c d where "db' = point_alias env now c d db" "ct_alias c = PRIMARY_ALIAS"
      by (auto elim: sync_primary_cases)
    then show ?thesis using that by (auto simp: point_alias_alias split: if_splits)
  next
    case (UpsertManaged a0 s0 v creds)
    with assms(1) have "upsert_managed env now a0 s0 v creds db = Inr db'" by simp
    then obtain c d ca scopes reset where
      "db' = (point_alias env now c d db)\<lparr>cd_scopes := scopes,
         cd_managed := sql_upsert mg_alias (admission_row now (ct_alias c) ca) (readmit now ca reset) (cd_managed db)\<rparr>"
      by (rule upsert_managed_cases) (rule that)
    then show ?thesis using that by (auto simp: upserted_managed point_alias_alias split: if_splits option.splits)
  qed (use assms(1) that in \<open>auto simp: record_diagnostic_def set_enabled_def archive_def Let_def
        split: option.splits if_splits\<close>)
  with kept assms(2) show ?thesis unfolding unmanaged_primary_def by metis
qed

interpretation alias_machine: invariant_machine "connection_step h" unmanaged_primary for h
proof
  show "unmanaged_primary (connection_step h e db)" if "unmanaged_primary db" for db e
    by (cases rule: connection_step_cases [of h e db]) (use that connection_call_aliases in simp_all)
qed

lemma registry_unmanaged: "unmanaged_primary (registry_after h start es)"
  by (rule alias_machine.inv_run)
     (simp add: unmanaged_primary_def initial_connections_def alias_of_def sql_first_def)

text \<open>C14. Whatever was done to the registry, it accepts the binding of a durable workflow to an alias exactly
  when the alias points to the bound revision now, that revision is stored under the digest of its
  contract, the tenant scope is the contract's, and the alias is the primary one or a managed connection
  that is enabled, is not archived, and passed its diagnostics at exactly this revision.\<close>

theorem accepted_binding_is_admitted:
  "validate_binding alias f t (registry_after h start es) = BindingOk \<longleftrightarrow>
    (\<exists>r i. alias_of alias (registry_after h start es) = Some r \<and> al_current_fingerprint r = f \<and>
       identity_of f (registry_after h start es) = Some i \<and> f = h (contract_text (id_contract i)) \<and>
       t = ct_tenant_scope_id (id_contract i) \<and>
       (alias = PRIMARY_ALIAS \<or>
        (\<exists>m. managed_of alias (registry_after h start es) = Some m \<and> mg_enabled m \<and> \<not> mg_archived m \<and>
           mg_diagnostics_ready m \<and> mg_diagnostics_fingerprint m = f)))"
    (is "?ok \<longleftrightarrow> ?admitted")
proof
  let ?db = "registry_after h start es"
  have inv: "revisions_inv h ?db" "admissions_inv ?db" "unmanaged_primary ?db"
    using registry_reachable [of h start es] registry_unmanaged by (simp_all add: registry_inv_def)
  {
    assume ?ok
    then obtain r i where ri: "alias_of alias ?db = Some r" "al_current_fingerprint r = f" "identity_of f ?db = Some i"
      "t = ct_tenant_scope_id (id_contract i)"
      "case managed_of alias ?db of None \<Rightarrow> True | Some m \<Rightarrow> mg_enabled m \<and> \<not> mg_archived m"
      by (rule binding_ok_cases)
    have "f = h (contract_text (id_contract i))" using inv(1) ri(3) by (simp add: revisions_inv_def)
    moreover have "alias = PRIMARY_ALIAS \<or> managed_of alias ?db \<noteq> None"
      using inv(3) ri(1) by (simp add: unmanaged_primary_def)
    moreover have "admission_ok m r" if "managed_of alias ?db = Some m" for m
      using inv(2) that ri(1) unfolding admissions_inv_def by (metis option.inject)
    ultimately show ?admitted using ri by (auto simp: admission_ok_def)
  next
    assume ?admitted
    then obtain r i where ri: "alias_of alias ?db = Some r" "al_current_fingerprint r = f" "identity_of f ?db = Some i"
      "t = ct_tenant_scope_id (id_contract i)" "alias = PRIMARY_ALIAS \<or>
        (\<exists>m. managed_of alias ?db = Some m \<and> mg_enabled m \<and> \<not> mg_archived m)" by blast
    have "managed_of PRIMARY_ALIAS ?db = None"
      using inv(2) by (cases "managed_of PRIMARY_ALIAS ?db") (auto simp: admissions_inv_def)
    moreover have "id_fingerprint i = f" by (rule lookup_keys(3) [OF ri(3)])
    ultimately show ?ok
      using ri by (auto simp: validate_binding_def current_def identity_view_def split: option.split)
  }
qed

text \<open>A binding that is accepted: the run that admits the additional connection.\<close>

theorem sample_binding_accepted:
  "validate_binding ''eu-prod'' sample_fingerprint ''eu.prod'' (registry_after (\<lambda>s. s) 0 sample_ops) = BindingOk"
  by code_simp

text \<open>A revision, once stored, is never changed or removed by any later operation of the registry.\<close>

theorem revisions_are_immutable:
  assumes "identity_of f (registry_after h start es) = Some i"
  shows "identity_of f (registry_after h start (es @ later)) = Some i"
  using registry_revisions.status_final [OF registry_reachable assms] by (simp add: run_ops_append)

theorem revisions_are_immutable_witness:
  "identity_of sample_fingerprint (registry_after (\<lambda>s. s) 0 (sample_ops @ [(sample_env, 4, Archive ''eu-prod'')])) =
    Some \<lparr>id_fingerprint = sample_fingerprint,
      id_contract = contract_of sample_env ''eu-prod'' ''eu.prod'' ''https://h/services/mcp'' sample_connection False,
      id_display_name = ''EU'', id_contract_json = sample_fingerprint, id_supersedes = [], id_created_at = 1\<rparr>"
  by (rule revisions_are_immutable) code_simp

text \<open>An archived connection is out for good: after every later sequence of operations the alias is still
  archived, every binding to it is refused as archived, and its alias cannot be admitted again.\<close>

theorem archived_is_final:
  assumes "managed_of alias (registry_after h start es) = Some m" "mg_archived m"
  shows "validate_binding alias f t (registry_after h start (es @ later)) = AliasArchived \<and>
    (\<forall>env now a s v changed db'. lower (strip a) = alias \<longrightarrow>
       upsert_managed env now a s v changed (registry_after h start (es @ later)) \<noteq> Inr db')"
proof -
  let ?db = "registry_after h start (es @ later)"
  have "admission_of (registry_after h start es) alias = Some Retired" using assms by (simp add: admission_of_def)
  then have "admission_of ?db alias = Some Retired"
    using registry_admissions.status_final [OF registry_reachable [of h start es]] by (simp add: run_ops_append)
  then obtain m' where m': "managed_of alias ?db = Some m'" "mg_archived m'"
    by (auto simp: admission_of_def split: if_splits)
  have inv: "registry_inv h ?db" by (rule registry_reachable)
  then obtain r where r: "alias_of alias ?db = Some r"
    using m' by (auto simp: registry_inv_def admissions_inv_def)
  then obtain i where "identity_of (al_current_fingerprint r) ?db = Some i"
    using inv alias_resolves unfolding registry_inv_def by blast
  with r m' have "validate_binding alias f t ?db = AliasArchived"
    by (simp add: validate_binding_def current_def identity_view_def)
  moreover have "upsert_managed env now a s v changed ?db \<noteq> Inr db'" if "lower (strip a) = alias" for env now a s v changed db'
    using that m' by (auto simp: upsert_managed_def Let_def split: sum.split)
  ultimately show ?thesis by blast
qed

theorem archived_is_final_witness:
  "validate_binding ''eu-prod'' sample_fingerprint ''eu.prod''
     (registry_after (\<lambda>s. s) 0 ((sample_ops @ [(sample_env, 4, Archive ''eu-prod'')]) @
        [(sample_env, 5, SetEnabled ''eu-prod'' True)])) = AliasArchived"
proof -
  obtain m where "managed_of ''eu-prod'' (registry_after (\<lambda>s. s) 0 (sample_ops @ [(sample_env, 4, Archive ''eu-prod'')])) = Some m
      \<and> mg_archived m"
  proof
    show "managed_of ''eu-prod'' (registry_after (\<lambda>s. s) 0 (sample_ops @ [(sample_env, 4, Archive ''eu-prod'')])) =
      Some \<lparr>mg_alias = ''eu-prod'', mg_ca_bundle = [], mg_enabled = False, mg_archived = True, mg_diagnostics_ready = True,
        mg_diagnostics_fingerprint = sample_fingerprint, mg_diagnostics_checked_at = ''t'', mg_created_at = 1, mg_updated_at = 4\<rparr>
      \<and> mg_archived \<lparr>mg_alias = ''eu-prod'', mg_ca_bundle = [], mg_enabled = False, mg_archived = True, mg_diagnostics_ready = True,
        mg_diagnostics_fingerprint = sample_fingerprint, mg_diagnostics_checked_at = ''t'', mg_created_at = 1, mg_updated_at = 4\<rparr>"
      by code_simp
  qed
  then show ?thesis using archived_is_final by blast
qed

text \<open>C15. When the digest has no collisions, a workflow bound to an earlier contract of the Primary connection is
  accepted after a synchronisation exactly when the contract is the same in every field (endpoint, TLS
  verification, CA bundle content, mode); any change is refused as a changed revision.\<close>

theorem primary_drift_is_detected:
  assumes inj: "inj h" and env: "ce_digest env = h"
    and sync: "sync_primary env now v demo_mode (registry_after h start es) = Inr db'"
    and endpoint: "normalized_endpoint env (sp_url v) demo_mode = Inr endpoint"
  shows "validate_binding PRIMARY_ALIAS (h (contract_text c)) PRIMARY_TENANT_SCOPE db' =
    (let c' = contract_of env PRIMARY_ALIAS PRIMARY_TENANT_SCOPE endpoint v demo_mode
     in if c = c' then BindingOk else RevisionChanged (take 12 (h (contract_text c'))))"
proof -
  let ?db = "registry_after h start es"
  let ?c = "contract_of env PRIMARY_ALIAS PRIMARY_TENANT_SCOPE endpoint v demo_mode"
  let ?d = "take 240 (or_text (sp_name v) ''Primary Splunk'')"
  have db': "db' = point_alias env now ?c ?d ?db" using sync endpoint by (simp add: sync_primary_def)
  have c: "ct_alias ?c = PRIMARY_ALIAS" "ct_tenant_scope_id ?c = PRIMARY_TENANT_SCOPE" by (simp_all add: contract_of_def)
  have inv: "registry_inv h ?db" by (rule registry_reachable)
  then have managed: "managed_of PRIMARY_ALIAS db' = None"
    by (cases "managed_of PRIMARY_ALIAS ?db") (auto simp: db' registry_inv_def admissions_inv_def)
  have rev: "revisions_inv h db'"
    using inv point_alias_revisions [of env ?db now ?c ?d] env by (simp add: db' registry_inv_def)
  obtain r where r: "alias_of PRIMARY_ALIAS db' = Some r" "al_current_fingerprint r = h (contract_text ?c)"
    by (simp add: db' point_alias_alias c env)
  then obtain i where i: "identity_of (h (contract_text ?c)) db' = Some i"
    using alias_resolves [OF rev] by metis
  then have "id_contract i = ?c" using rev inj unfolding revisions_inv_def by (metis contract_text_inj injD)
  with r i managed have cur: "current PRIMARY_ALIAS db' = Some (identity_view i (al_display_name r) None)"
    by (simp add: current_def)
  have view: "\<not> vw_archived (identity_view i (al_display_name r) None)" "\<not> vw_managed (identity_view i (al_display_name r) None)"
    "vw_tenant_scope_id (identity_view i (al_display_name r) None) = PRIMARY_TENANT_SCOPE"
    "vw_fingerprint (identity_view i (al_display_name r) None) = h (contract_text ?c)"
    using \<open>id_contract i = ?c\<close> c(2) lookup_keys(3) [OF i] by (simp_all add: identity_view_def)
  show ?thesis
  proof (cases "c = ?c")
    case True
    then show ?thesis by (simp add: validate_binding_def cur view Let_def)
  next
    case False
    then have "h (contract_text c) \<noteq> h (contract_text ?c)" using inj by (metis contract_text_inj injD)
    then show ?thesis using False by (simp add: validate_binding_def cur view Let_def)
  qed
qed

theorem primary_drift_is_detected_witness:
  "validate_binding PRIMARY_ALIAS (contract_text (contract_of sample_env PRIMARY_ALIAS PRIMARY_TENANT_SCOPE []
      sample_connection False)) PRIMARY_TENANT_SCOPE
    (point_alias sample_env 7 (contract_of sample_env PRIMARY_ALIAS PRIMARY_TENANT_SCOPE ''demo://isolated'' sample_connection True)
      ''EU'' (registry_after (\<lambda>s. s) 0 [])) =
    (let c' = contract_of sample_env PRIMARY_ALIAS PRIMARY_TENANT_SCOPE ''demo://isolated'' sample_connection True
     in if contract_of sample_env PRIMARY_ALIAS PRIMARY_TENANT_SCOPE [] sample_connection False = c' then BindingOk
        else RevisionChanged (take 12 (contract_text c')))"
  by (rule primary_drift_is_detected [where h = "\<lambda>s. s" and env = sample_env and now = 7 and v = sample_connection and demo_mode = True
      and start = 0 and es = "[]"])
    (simp_all add: sample_env_def eval_nat_numeral sync_primary_def normalized_endpoint_def sample_connection_def or_text_def)

end
