(* ===== verification/Auth_Store.thy ===== *)
theory Auth_Store
  imports Json_Text
begin

text \<open>
  The access database (\<open>auth/store.py\<close>): the policy row, named users, browser sessions, login attempts,
  the enterprise sign-in policy and its one-time transactions. Lists and dictionaries that the code stores
  as JSON text are the values themselves. A user's role and its source are texts, as in the table.
\<close>


section \<open>Rows\<close>

record auth_policy =
  ap_enabled :: bool
  ap_session_hours :: int
  ap_updated_at :: instant

record auth_user =
  au_id :: string
  au_username :: string
  au_display_name :: string
  au_role :: string
  au_password_salt :: string
  au_password_hash :: string
  au_active :: bool
  au_connection_ids :: "string list"
  au_created_at :: instant
  au_updated_at :: instant
  au_last_login_at :: "instant option"
  au_auth_source :: string
  au_external_issuer :: "string option"
  au_external_subject :: "string option"
  au_external_claims :: json

record auth_session =
  se_token_sha256 :: string
  se_user_id :: string
  se_csrf_sha256 :: string
  se_created_at :: instant
  se_expires_at :: instant
  se_revoked_at :: "instant option"

record login_attempt =
  la_username :: string
  la_source :: string
  la_created_at :: instant

record group_mapping =
  gm_connection_alias :: string
  gm_groups :: "string list"

record oidc_policy =
  oi_enabled :: bool
  oi_provider_label :: string
  oi_issuer_url :: string
  oi_client_id :: string
  oi_redirect_uri :: string
  oi_username_claim :: string
  oi_display_name_claim :: string
  oi_groups_claim :: string
  oi_tenant_claim :: string
  oi_allowed_tenant_values :: "string list"
  oi_allowed_groups :: "string list"
  oi_analyst_groups :: "string list"
  oi_admin_groups :: "string list"
  oi_default_role :: string
  oi_grant_primary_connection :: bool
  oi_connection_group_mappings :: "group_mapping list"
  oi_required_acr_values :: "string list"
  oi_required_amr_values :: "string list"
  oi_updated_at :: instant

record oidc_transaction =
  tx_state_sha256 :: string
  tx_nonce_sha256 :: string
  tx_code_verifier :: string
  tx_source :: string
  tx_created_at :: instant
  tx_expires_at :: instant
  tx_consumed_at :: "instant option"

record auth_db =
  db_policy :: auth_policy
  db_users :: "auth_user list"
  db_sessions :: "auth_session list"
  db_attempts :: "login_attempt list"
  db_oidc :: oidc_policy
  db_transactions :: "oidc_transaction list"

definition initial_auth :: "instant \<Rightarrow> auth_db" where
  "initial_auth now =
     \<lparr>db_policy = \<lparr>ap_enabled = False, ap_session_hours = 12, ap_updated_at = now\<rparr>,
      db_users = [], db_sessions = [], db_attempts = [],
      db_oidc = \<lparr>oi_enabled = False, oi_provider_label = ''Enterprise identity'', oi_issuer_url = [],
        oi_client_id = [], oi_redirect_uri = [], oi_username_claim = ''preferred_username'',
        oi_display_name_claim = ''name'', oi_groups_claim = ''groups'', oi_tenant_claim = [],
        oi_allowed_tenant_values = [], oi_allowed_groups = [], oi_analyst_groups = [], oi_admin_groups = [],
        oi_default_role = ''viewer'', oi_grant_primary_connection = False,
        oi_connection_group_mappings = [], oi_required_acr_values = [],
        oi_required_amr_values = [''mfa''], oi_updated_at = now\<rparr>,
      db_transactions = []\<rparr>"


section \<open>Policy and users\<close>

text \<open>\<open>UPDATE auth_sessions SET revoked_at=? WHERE revoked_at IS NULL AND ...\<close>\<close>

definition revoke_where :: "instant \<Rightarrow> (auth_session \<Rightarrow> bool) \<Rightarrow> auth_db \<Rightarrow> auth_db" where
  "revoke_where now p db = db\<lparr>db_sessions :=
     sql_update (\<lambda>s. p s \<and> se_revoked_at s = None) (\<lambda>s. s\<lparr>se_revoked_at := Some now\<rparr>) (db_sessions db)\<rparr>"

definition revoked_count :: "(auth_session \<Rightarrow> bool) \<Rightarrow> auth_db \<Rightarrow> nat" where
  "revoked_count p db = sql_count (\<lambda>s. p s \<and> se_revoked_at s = None) (db_sessions db)"

definition set_access_enabled :: "instant \<Rightarrow> bool \<Rightarrow> auth_db \<Rightarrow> auth_db" where
  "set_access_enabled now enabled db =
     (let db1 = db\<lparr>db_policy := (db_policy db)\<lparr>ap_enabled := enabled, ap_updated_at := now\<rparr>\<rparr>
      in if enabled then db1
         else (revoke_where now (\<lambda>s. True) db1)\<lparr>db_oidc := (db_oidc db)\<lparr>oi_enabled := False, oi_updated_at := now\<rparr>\<rparr>)"

definition user_count :: "auth_db \<Rightarrow> nat" where
  "user_count db = length (db_users db)"

definition active_admin :: "auth_user \<Rightarrow> bool" where
  "active_admin u = (au_active u \<and> au_role u = ''admin'')"

definition local_admin :: "auth_user \<Rightarrow> bool" where
  "local_admin u = (active_admin u \<and> au_auth_source u = ''local'')"

definition active_admin_count :: "auth_db \<Rightarrow> nat" where
  "active_admin_count db = sql_count active_admin (db_users db)"

definition active_local_admin_count :: "auth_db \<Rightarrow> nat" where
  "active_local_admin_count db = sql_count local_admin (db_users db)"

definition get_user :: "string \<Rightarrow> auth_db \<Rightarrow> auth_user option" where
  "get_user i db = sql_first (\<lambda>u. au_id u = i) (db_users db)"

definition get_user_by_username :: "string \<Rightarrow> auth_db \<Rightarrow> auth_user option" where
  "get_user_by_username name db = sql_first (\<lambda>u. au_username u = name) (db_users db)"

definition get_user_by_external_identity :: "string \<Rightarrow> string \<Rightarrow> auth_db \<Rightarrow> auth_user option" where
  "get_user_by_external_identity issuer subject db =
     sql_first (\<lambda>u. au_external_issuer u = Some issuer \<and> au_external_subject u = Some subject) (db_users db)"

text \<open>The primary key, \<open>UNIQUE(username)\<close> and the partial index on the external identity.\<close>

definition conflicts :: "auth_user \<Rightarrow> auth_user \<Rightarrow> bool" where
  "conflicts v u = (au_id u = au_id v \<or> au_username u = au_username v
     \<or> (au_external_issuer v \<noteq> None \<and> au_external_subject v \<noteq> None
        \<and> au_external_issuer u = au_external_issuer v \<and> au_external_subject u = au_external_subject v))"

definition insert_user :: "auth_user \<Rightarrow> auth_db \<Rightarrow> auth_db result" where
  "insert_user v db = (if list_ex (conflicts v) (db_users db)
     then Inl (IntegrityError ''auth_users'') else Inr (db\<lparr>db_users := db_users db @ [v]\<rparr>))"

definition new_user :: "instant \<Rightarrow> string \<Rightarrow> string \<Rightarrow> string \<Rightarrow> string \<Rightarrow> string list \<Rightarrow> auth_user" where
  "new_user now user_id username display_name role connection_ids =
     \<lparr>au_id = user_id, au_username = username, au_display_name = display_name, au_role = role,
      au_password_salt = [], au_password_hash = [], au_active = True, au_connection_ids = connection_ids,
      au_created_at = now, au_updated_at = now, au_last_login_at = None, au_auth_source = ''local'',
      au_external_issuer = None, au_external_subject = None, au_external_claims = JObj []\<rparr>"

definition create_store_user ::
  "instant \<Rightarrow> string \<Rightarrow> string \<Rightarrow> string \<Rightarrow> string \<Rightarrow> string \<Rightarrow> string \<Rightarrow> string list \<Rightarrow> auth_db \<Rightarrow>
    (auth_user \<times> auth_db) result" where
  "create_store_user now user_id username display_name role salt hash connection_ids db =
     (let u = (new_user now user_id username display_name role connection_ids)
         \<lparr>au_password_salt := salt, au_password_hash := hash\<rparr>
      in case insert_user u db of Inl e \<Rightarrow> Inl e | Inr db' \<Rightarrow> Inr (u, db'))"

definition upsert_external_user ::
  "instant \<Rightarrow> string \<Rightarrow> string \<Rightarrow> string \<Rightarrow> string \<Rightarrow> string \<Rightarrow> string \<Rightarrow> string list \<Rightarrow> json \<Rightarrow> auth_db \<Rightarrow>
    (auth_user \<times> auth_db) result" where
  "upsert_external_user now fresh_id issuer subject username display_name role connection_ids claims db =
     (case get_user_by_external_identity issuer subject db of
        Some current \<Rightarrow>
          (let change = (\<lambda>u. u\<lparr>au_display_name := display_name, au_role := role,
                 au_connection_ids := connection_ids, au_external_claims := json_norm claims, au_updated_at := now\<rparr>)
           in Inr (change current, db\<lparr>db_users := sql_update (\<lambda>u. au_id u = au_id current) change (db_users db)\<rparr>))
      | None \<Rightarrow>
          (let u = (new_user now fresh_id username display_name role connection_ids)
                 \<lparr>au_auth_source := ''oidc'', au_external_issuer := Some issuer,
                  au_external_subject := Some subject, au_external_claims := json_norm claims\<rparr>
           in case insert_user u db of Inl e \<Rightarrow> Inl e | Inr db' \<Rightarrow> Inr (u, db')))"

text \<open>\<open>ORDER BY active DESC, role='admin' DESC, username\<close> and \<open>ORDER BY active DESC, updated_at DESC\<close>.\<close>

definition list_users :: "auth_db \<Rightarrow> auth_user list" where
  "list_users db = sort_key (\<lambda>u. \<not> au_active u) (sort_key (\<lambda>u. au_role u \<noteq> ''admin'')
     (sort_key au_username (db_users db)))"

definition external_policy_subjects :: "int \<Rightarrow> auth_db \<Rightarrow> auth_user list" where
  "external_policy_subjects n db = sql_limit (max 1 (min 500 n))
     (sort_key (\<lambda>u. \<not> au_active u) (sql_order_desc au_updated_at
       (filter (\<lambda>u. au_auth_source u = ''oidc'') (db_users db))))"

definition changed_user ::
  "instant \<Rightarrow> string \<Rightarrow> string \<Rightarrow> bool \<Rightarrow> string list \<Rightarrow> string \<Rightarrow> string \<Rightarrow> auth_user \<Rightarrow> auth_user" where
  "changed_user now display_name role active connection_ids salt hash u =
     (let v = u\<lparr>au_display_name := display_name, au_role := role, au_active := active,
            au_connection_ids := connection_ids, au_updated_at := now\<rparr>
      in if salt \<noteq> [] \<and> hash \<noteq> [] then v\<lparr>au_password_salt := salt, au_password_hash := hash\<rparr> else v)"

definition update_store_user ::
  "instant \<Rightarrow> string \<Rightarrow> string \<Rightarrow> string \<Rightarrow> bool \<Rightarrow> string list \<Rightarrow> string \<Rightarrow> string \<Rightarrow> auth_db \<Rightarrow>
    (auth_user option \<times> auth_db) result" where
  "update_store_user now user_id display_name role active connection_ids salt hash db =
     (case get_user user_id db of
        None \<Rightarrow> Inr (None, db)
      | Some current \<Rightarrow>
          (let losing = (active_admin current \<and> (role \<noteq> ''admin'' \<or> \<not> active))
           in if losing \<and> active_admin_count db \<le> 1
              then Inl (ValueError ''SignalRoom must retain at least one active admin'')
              else if losing \<and> au_auth_source current = ''local'' \<and> active_local_admin_count db \<le> 1
              then Inl (ValueError ''SignalRoom must retain one active local break-glass admin'')
              else
                (let db1 = db\<lparr>db_users := sql_update (\<lambda>u. au_id u = user_id)
                       (changed_user now display_name role active connection_ids salt hash) (db_users db)\<rparr>;
                     db2 = (if (salt \<noteq> [] \<and> hash \<noteq> []) \<or> \<not> active
                       then revoke_where now (\<lambda>s. se_user_id s = user_id) db1 else db1)
                 in Inr (get_user user_id db2, db2))))"


section \<open>Sessions\<close>

definition create_session ::
  "instant \<Rightarrow> string \<Rightarrow> string \<Rightarrow> string \<Rightarrow> int \<Rightarrow> auth_db \<Rightarrow> (instant \<times> auth_db) result" where
  "create_session now user_id token_sha256 csrf_sha256 session_hours db =
     (let expires_at = now + hours session_hours;
          s = \<lparr>se_token_sha256 = token_sha256, se_user_id = user_id, se_csrf_sha256 = csrf_sha256,
            se_created_at = now, se_expires_at = expires_at, se_revoked_at = None\<rparr>
      in if list_ex (\<lambda>x. se_token_sha256 x = token_sha256) (db_sessions db)
         then Inl (IntegrityError ''auth_sessions'')
         else Inr (expires_at, db\<lparr>
           db_sessions := sql_delete (\<lambda>x. se_expires_at x < now - days 1 \<or> se_revoked_at x \<noteq> None)
             (db_sessions db @ [s]),
           db_users := sql_update (\<lambda>u. au_id u = user_id)
             (\<lambda>u. u\<lparr>au_last_login_at := Some now, au_updated_at := now\<rparr>) (db_users db)\<rparr>))"

text \<open>The join of a live session with its active user.\<close>

definition live_session :: "instant \<Rightarrow> string \<Rightarrow> auth_db \<Rightarrow> (auth_session \<times> auth_user) option" where
  "live_session now token_sha256 db =
     Option.bind (sql_first (\<lambda>s. se_token_sha256 s = token_sha256 \<and> se_revoked_at s = None \<and> now < se_expires_at s
         \<and> (case get_user (se_user_id s) db of None \<Rightarrow> False | Some u \<Rightarrow> au_active u)) (db_sessions db))
       (\<lambda>s. map_option (\<lambda>u. (s, u)) (get_user (se_user_id s) db))"

definition revoke_session :: "instant \<Rightarrow> string \<Rightarrow> auth_db \<Rightarrow> auth_db" where
  "revoke_session now token_sha256 db = revoke_where now (\<lambda>s. se_token_sha256 s = token_sha256) db"

definition revoke_user_sessions :: "instant \<Rightarrow> string \<Rightarrow> auth_db \<Rightarrow> nat \<times> auth_db" where
  "revoke_user_sessions now user_id db =
     (revoked_count (\<lambda>s. se_user_id s = user_id) db, revoke_where now (\<lambda>s. se_user_id s = user_id) db)"

definition external_user_id :: "auth_db \<Rightarrow> string \<Rightarrow> bool" where
  "external_user_id db i = list_ex (\<lambda>u. au_id u = i \<and> au_auth_source u = ''oidc'') (db_users db)"

definition revoke_external_sessions :: "instant \<Rightarrow> auth_db \<Rightarrow> nat \<times> auth_db" where
  "revoke_external_sessions now db =
     (revoked_count (\<lambda>s. external_user_id db (se_user_id s)) db,
      revoke_where now (\<lambda>s. external_user_id db (se_user_id s)) db)"

definition recover_store_password :: "instant \<Rightarrow> string \<Rightarrow> string \<Rightarrow> string \<Rightarrow> auth_db \<Rightarrow> auth_user option \<times> auth_db" where
  "recover_store_password now user_id salt hash db =
     (case get_user user_id db of
        None \<Rightarrow> (None, db)
      | Some u \<Rightarrow>
          if au_auth_source u \<noteq> ''local'' \<or> \<not> au_active u then (None, db)
          else (let db' = revoke_where now (\<lambda>s. se_user_id s = user_id)
                  (db\<lparr>db_users := sql_update (\<lambda>u. au_id u = user_id)
                    (\<lambda>u. u\<lparr>au_password_salt := salt, au_password_hash := hash, au_updated_at := now\<rparr>) (db_users db)\<rparr>)
                in (get_user user_id db', db')))"


section \<open>Enterprise sign-in and throttling\<close>

definition update_store_oidc :: "instant \<Rightarrow> oidc_policy \<Rightarrow> auth_db \<Rightarrow> auth_db" where
  "update_store_oidc now value db = db\<lparr>db_oidc := value\<lparr>oi_updated_at := now\<rparr>\<rparr>"

definition pending_transaction :: "instant \<Rightarrow> oidc_transaction \<Rightarrow> bool" where
  "pending_transaction now t = (tx_consumed_at t = None \<and> now < tx_expires_at t)"

definition create_oidc_transaction ::
  "instant \<Rightarrow> string \<Rightarrow> string \<Rightarrow> string \<Rightarrow> string \<Rightarrow> auth_db \<Rightarrow> auth_db result" where
  "create_oidc_transaction now state_sha256 nonce_sha256 code_verifier source db =
     (let t = \<lparr>tx_state_sha256 = state_sha256, tx_nonce_sha256 = nonce_sha256, tx_code_verifier = code_verifier,
            tx_source = source, tx_created_at = now, tx_expires_at = now + minutes 10, tx_consumed_at = None\<rparr>
      in if 30 \<le> sql_count (\<lambda>x. tx_source x = source \<and> pending_transaction now x) (db_transactions db)
           \<or> 1000 \<le> sql_count (pending_transaction now) (db_transactions db)
         then Inl (RuntimeError ''Too many enterprise sign-in transactions are pending'')
         else if list_ex (\<lambda>x. tx_state_sha256 x = state_sha256) (db_transactions db)
         then Inl (IntegrityError ''auth_oidc_transactions'')
         else Inr (db\<lparr>db_transactions := sql_delete
           (\<lambda>x. tx_expires_at x < now - hours 1 \<or> tx_consumed_at x \<noteq> None) (db_transactions db @ [t])\<rparr>))"

definition consume_oidc_transaction :: "instant \<Rightarrow> string \<Rightarrow> auth_db \<Rightarrow> oidc_transaction option \<times> auth_db" where
  "consume_oidc_transaction now state_sha256 db =
     (case sql_first (\<lambda>t. tx_state_sha256 t = state_sha256 \<and> pending_transaction now t) (db_transactions db) of
        None \<Rightarrow> (None, db)
      | Some t \<Rightarrow> (Some t, db\<lparr>db_transactions :=
          sql_update (\<lambda>x. tx_state_sha256 x = state_sha256 \<and> tx_consumed_at x = None)
            (\<lambda>x. x\<lparr>tx_consumed_at := Some now\<rparr>) (db_transactions db)\<rparr>))"

definition login_blocked :: "instant \<Rightarrow> string \<Rightarrow> string \<Rightarrow> auth_db \<Rightarrow> bool" where
  "login_blocked now username source db =
     (5 \<le> sql_count (\<lambda>a. la_username a = username \<and> la_source a = source \<and> now - minutes 15 \<le> la_created_at a)
       (db_attempts db))"

definition record_login_attempt :: "instant \<Rightarrow> string \<Rightarrow> string \<Rightarrow> bool \<Rightarrow> auth_db \<Rightarrow> auth_db" where
  "record_login_attempt now username source succeeded db =
     (let rows = (if succeeded
          then sql_delete (\<lambda>a. la_username a = username \<and> la_source a = source) (db_attempts db)
          else db_attempts db @ [\<lparr>la_username = username, la_source = source, la_created_at = now\<rparr>])
      in db\<lparr>db_attempts := sql_delete (\<lambda>a. la_created_at a < now - days 1) rows\<rparr>)"

end
