(* ===== verification/Auth_Service.thy ===== *)
theory Auth_Service
  imports Auth_Store Audit_Chain Python_Values
begin

text \<open>
  Named-user access control (\<open>auth/service.py\<close>) and the request middleware of \<open>app.py\<close> that enforces it:
  credentials, sessions, user administration and the authorisation of a request. Every operation acts on
  the access database and on the audit log, and returns its result with the world it leaves, because an
  operation that raises may already have written (a failed login records its attempt).

  Parameters (record \<open>auth_env\<close>): SHA-256, scrypt, URL-safe base 64 (\<open>None\<close> when it raises), the connection
  provider, the clock, and the random texts an operation draws.
\<close>


section \<open>Environment\<close>

record auth_env =
  ax_digest :: "string \<Rightarrow> string"
  ax_scrypt :: "string \<Rightarrow> string \<Rightarrow> string"
  ax_b64encode :: "string \<Rightarrow> string"
  ax_b64decode :: "string \<Rightarrow> string option"
  ax_connections :: "(string \<times> string) list"
  ax_now :: instant
  ax_now_text :: string
  ax_user_id :: string
  ax_event_id :: string
  ax_salt :: string
  ax_token :: string
  ax_csrf :: string
  ax_bound_actor :: string

record auth_world =
  aw_db :: auth_db
  aw_audit :: audit_db

text \<open>The audit record that ends an operation; its failure leaves what was written before.\<close>

definition audited :: "auth_env \<Rightarrow> audit_request \<Rightarrow> 'a \<Rightarrow> auth_world \<Rightarrow> 'a result \<times> auth_world" where
  "audited env r x w = (let (recorded, log) = record_event (ax_digest env) (ax_event_id env) (ax_now_text env)
       (ax_bound_actor env) r (aw_audit w)
     in (case recorded of Inl e \<Rightarrow> Inl e | Inr _ \<Rightarrow> Inr x, w\<lparr>aw_audit := log\<rparr>))"

definition auth_audit ::
  "string \<Rightarrow> string \<Rightarrow> string \<Rightarrow> string \<Rightarrow> string \<Rightarrow> string \<Rightarrow> (string \<times> pyval) list \<Rightarrow> string \<Rightarrow> audit_request" where
  "auth_audit event_type action target_type target_id outcome summary metadata actor =
     \<lparr>ar_event_type = event_type, ar_action = action, ar_target_type = target_type, ar_target_id = target_id,
      ar_outcome = outcome, ar_summary = summary, ar_metadata = metadata, ar_actor = actor\<rparr>"

definition py_strings :: "string list \<Rightarrow> pyval" where
  "py_strings xs = PyList (map PyStr xs)"


section \<open>Input checks\<close>

definition name_start :: "char \<Rightarrow> bool" where
  "name_start c = ((97 \<le> code c \<and> code c \<le> 122) \<or> (48 \<le> code c \<and> code c \<le> 57))"

fun username_pattern :: "string \<Rightarrow> bool" where
  "username_pattern [] = False"
| "username_pattern (c # cs) = (name_start c \<and> 2 \<le> length cs \<and> length cs \<le> 63
     \<and> list_all (\<lambda>d. name_start d \<or> List.member ''._-'' d) cs)"

definition check_username :: "string \<Rightarrow> string result" where
  "check_username value = (let normalized = casefold (strip value) in
     if username_pattern normalized then Inr normalized
     else Inl (ValueError ''Usernames must be 3-64 lowercase letters, numbers, dots, underscores, or hyphens''))"

definition check_display_name :: "string \<Rightarrow> string result" where
  "check_display_name value = (let normalized = take 120 (squeeze value) in
     if normalized = [] then Inl (ValueError ''A display name is required'') else Inr normalized)"

definition validate_password :: "string \<Rightarrow> unit result" where
  "validate_password value =
     (if length value < 12 then Inl (ValueError ''Passwords must contain at least 12 characters'')
      else if list_all is_space value \<or> list_ex (\<lambda>c. code c = 0) value
      then Inl (ValueError ''The password is not valid'') else Inr ())"

fun normalize_connections :: "string list \<Rightarrow> (string \<times> string) list \<Rightarrow> (string \<times> string) list" where
  "normalize_connections seen [] = []"
| "normalize_connections seen ((i, label) # items) =
     (let connection_id = strip i in
      if connection_id = [] \<or> List.member seen connection_id then normalize_connections seen items
      else (connection_id, if label = [] then connection_id else label)
        # normalize_connections (connection_id # seen) items)"

definition available_connections :: "auth_env \<Rightarrow> (string \<times> string) list" where
  "available_connections env = normalize_connections [] (ax_connections env)"

definition check_connections :: "auth_env \<Rightarrow> string list \<Rightarrow> string list result" where
  "check_connections env values =
     (let normalized = from_keys (map strip values); known = map fst (available_connections env) in
      if list_ex (\<lambda>c. \<not> List.member known c) normalized
      then Inl (ValueError ''The connection assignment is not recognized'') else Inr normalized)"


section \<open>Credentials and sessions\<close>

definition new_password :: "auth_env \<Rightarrow> string \<Rightarrow> string \<times> string" where
  "new_password env password =
     (ax_b64encode env (ax_salt env), ax_b64encode env (ax_scrypt env password (ax_salt env)))"

definition password_matches :: "auth_env \<Rightarrow> string \<Rightarrow> string \<Rightarrow> string \<Rightarrow> bool" where
  "password_matches env password salt expected =
     (case (ax_b64decode env salt, ax_b64decode env expected) of
        (Some salt_bytes, Some expected_bytes) \<Rightarrow> ax_scrypt env password salt_bytes = expected_bytes
      | _ \<Rightarrow> False)"

definition credentials_accepted :: "auth_env \<Rightarrow> string \<Rightarrow> auth_user option \<Rightarrow> bool" where
  "credentials_accepted env password user = (case user of None \<Rightarrow> False
     | Some u \<Rightarrow> au_active u \<and> au_auth_source u = ''local''
         \<and> password_matches env password (au_password_salt u) (au_password_hash u))"

definition verify_credentials ::
  "auth_env \<Rightarrow> string \<Rightarrow> string \<Rightarrow> string \<Rightarrow> auth_world \<Rightarrow> auth_user result \<times> auth_world" where
  "verify_credentials env username password source w =
     (if login_blocked (ax_now env) username source (aw_db w)
      then (Inl (RuntimeError ''Too many failed login attempts. Wait 15 minutes before retrying.''), w)
      else
        (let user = get_user_by_username username (aw_db w);
             accepted = credentials_accepted env password user;
             w' = w\<lparr>aw_db := record_login_attempt (ax_now env) username source accepted (aw_db w)\<rparr>
         in case user of
              None \<Rightarrow> (Inl (PermissionError ''The username or password was not accepted''), w')
            | Some u \<Rightarrow> if \<not> accepted
                then (Inl (PermissionError ''The username or password was not accepted''), w')
                else (Inr u, w')))"

definition public_user :: "auth_user \<Rightarrow> auth_user" where
  "public_user u = u\<lparr>au_password_salt := [], au_password_hash := [], au_external_subject := None,
     au_external_claims := JObj []\<rparr>"

record browser_session =
  bs_token :: string
  bs_csrf_token :: string
  bs_expires_at :: instant
  bs_user :: auth_user

definition new_session :: "auth_env \<Rightarrow> auth_user \<Rightarrow> auth_world \<Rightarrow> browser_session result \<times> auth_world" where
  "new_session env user w =
     (case create_session (ax_now env) (au_id user) (ax_digest env (ax_token env)) (ax_digest env (ax_csrf env))
         (ap_session_hours (db_policy (aw_db w))) (aw_db w) of
        Inl e \<Rightarrow> (Inl e, w)
      | Inr (expires_at, db) \<Rightarrow>
          (Inr \<lparr>bs_token = ax_token env, bs_csrf_token = ax_csrf env, bs_expires_at = expires_at,
             bs_user = public_user user\<rparr>, w\<lparr>aw_db := db\<rparr>))"

definition authenticate :: "auth_env \<Rightarrow> string \<Rightarrow> auth_world \<Rightarrow> (auth_session \<times> auth_user) option" where
  "authenticate env token w =
     (if token = [] then None else live_session (ax_now env) (ax_digest env token) (aw_db w))"

definition verify_csrf :: "auth_env \<Rightarrow> auth_session \<Rightarrow> string \<Rightarrow> bool" where
  "verify_csrf env s csrf_token = (csrf_token \<noteq> [] \<and> se_csrf_sha256 s = ax_digest env csrf_token)"


section \<open>Operations\<close>

text \<open>The second half of \<open>bootstrap\<close>, for the admin that was verified or created.\<close>

definition enable_access ::
  "auth_env \<Rightarrow> bool \<Rightarrow> auth_user \<Rightarrow> auth_world \<Rightarrow> browser_session result \<times> auth_world" where
  "enable_access env existing user w =
     (let w1 = w\<lparr>aw_db := set_access_enabled (ax_now env) True (aw_db w)\<rparr> in
      case new_session env user w1 of
        (Inl e, w2) \<Rightarrow> (Inl e, w2)
      | (Inr session, w2) \<Rightarrow> audited env (auth_audit ''auth.rbac.enabled'' ''enable'' ''access-policy'' ''primary'' ''success''
          ''Named-user RBAC was enabled. Local single-user mode is no longer active.''
          [(''admin_user_id'', PyStr (au_id user)), (''admin_username'', PyStr (au_username user)),
           (''existing_identity_reused'', PyBool existing)] (au_username user)) session w2)"

definition bootstrap ::
  "auth_env \<Rightarrow> string \<Rightarrow> string \<Rightarrow> string \<Rightarrow> string \<Rightarrow> auth_world \<Rightarrow> browser_session result \<times> auth_world" where
  "bootstrap env username0 display0 password source w =
     (if ap_enabled (db_policy (aw_db w)) then (Inl (ValueError ''RBAC is already enabled''), w)
      else case check_username username0 of Inl e \<Rightarrow> (Inl e, w) | Inr username \<Rightarrow>
        (case check_display_name display0 of Inl e \<Rightarrow> (Inl e, w) | Inr display_name \<Rightarrow>
          (case validate_password password of Inl e \<Rightarrow> (Inl e, w) | Inr _ \<Rightarrow>
            (if user_count (aw_db w) \<noteq> 0
             then case verify_credentials env username password source w of
                 (Inl e, w1) \<Rightarrow> (Inl e, w1)
               | (Inr user, w1) \<Rightarrow>
                   if au_role user \<noteq> ''admin''
                   then (Inl (PermissionError ''Only an existing admin can re-enable RBAC''), w1)
                   else enable_access env True user w1
             else
               (let (salt, hash) = new_password env password in
                case create_store_user (ax_now env) (ax_user_id env) username display_name ''admin'' salt hash
                    [''primary''] (aw_db w) of
                  Inl e \<Rightarrow> (Inl (ValueError ''That username is already in use''), w)
                | Inr (user, db) \<Rightarrow> enable_access env False user (w\<lparr>aw_db := db\<rparr>))))))"

definition disable_access :: "auth_env \<Rightarrow> string \<Rightarrow> string \<Rightarrow> auth_world \<Rightarrow> unit result \<times> auth_world" where
  "disable_access env user_id password w =
     (case get_user user_id (aw_db w) of
        None \<Rightarrow> (Inl (PermissionError ''An active admin is required to disable RBAC''), w)
      | Some user \<Rightarrow>
          if \<not> active_admin user then (Inl (PermissionError ''An active admin is required to disable RBAC''), w)
          else if \<not> password_matches env password (au_password_salt user) (au_password_hash user)
          then (Inl (PermissionError ''The admin password was not accepted''), w)
          else audited env (auth_audit ''auth.rbac.disabled'' ''disable'' ''access-policy'' ''primary'' ''warning''
              ''Named-user RBAC was disabled; SignalRoom returned to local single-user mode.'' [] (au_username user))
            () (w\<lparr>aw_db := set_access_enabled (ax_now env) False (aw_db w)\<rparr>))"

definition login ::
  "auth_env \<Rightarrow> string \<Rightarrow> string \<Rightarrow> string \<Rightarrow> auth_world \<Rightarrow> browser_session result \<times> auth_world" where
  "login env username0 password source w =
     (if \<not> ap_enabled (db_policy (aw_db w)) then (Inl (ValueError ''RBAC is disabled; no login is required''), w)
      else case check_username username0 of Inl e \<Rightarrow> (Inl e, w) | Inr username \<Rightarrow>
        (case verify_credentials env username password source w of
           (Inl e, w1) \<Rightarrow> (Inl e, w1)
         | (Inr user, w1) \<Rightarrow>
             (case new_session env user w1 of
                (Inl e, w2) \<Rightarrow> (Inl e, w2)
              | (Inr session, w2) \<Rightarrow> audited env (auth_audit ''auth.session.created'' ''login'' ''auth-user'' (au_id user) ''success''
                  ''A named SignalRoom user established a local browser session.''
                  [(''username'', PyStr (au_username user)), (''role'', PyStr (au_role user))] (au_username user))
                  session w2)))"

definition federated_session :: "auth_env \<Rightarrow> auth_user \<Rightarrow> auth_world \<Rightarrow> browser_session result \<times> auth_world" where
  "federated_session env user w =
     (if \<not> ap_enabled (db_policy (aw_db w)) then (Inl (ValueError ''Named access is disabled''), w)
      else if au_auth_source user \<noteq> ''oidc'' \<or> \<not> au_active user
      then (Inl (PermissionError ''The enterprise identity is not active''), w)
      else new_session env user w)"

definition recover_local_password ::
  "auth_env \<Rightarrow> string \<Rightarrow> string \<Rightarrow> auth_world \<Rightarrow> auth_user result \<times> auth_world" where
  "recover_local_password env username0 password w =
     (case check_username username0 of Inl e \<Rightarrow> (Inl e, w) | Inr username \<Rightarrow>
       (case validate_password password of Inl e \<Rightarrow> (Inl e, w) | Inr _ \<Rightarrow>
         (case get_user_by_username username (aw_db w) of
            None \<Rightarrow> (Inl (ValueError ''An active local account with that username was not found''), w)
          | Some user \<Rightarrow>
              if au_auth_source user \<noteq> ''local'' \<or> \<not> au_active user
              then (Inl (ValueError ''An active local account with that username was not found''), w)
              else
                (let (salt, hash) = new_password env password in
                 case recover_store_password (ax_now env) (au_id user) salt hash (aw_db w) of
                   (None, db) \<Rightarrow> (Inl (ValueError ''The local account could not be recovered''), w\<lparr>aw_db := db\<rparr>)
                 | (Some recovered, db) \<Rightarrow> audited env (auth_audit ''auth.local.password.recovered'' ''recover'' ''auth-user''
                     (au_id user) ''warning'' ''A host-authorized recovery replaced a local account password.''
                     [(''username'', PyStr username), (''sessions_revoked'', PyBool True)] ''host-recovery'')
                     (public_user recovered) (w\<lparr>aw_db := db\<rparr>)))))"

definition logout :: "auth_env \<Rightarrow> string \<Rightarrow> auth_user option \<Rightarrow> auth_world \<Rightarrow> unit result \<times> auth_world" where
  "logout env token user w =
     (let w1 = (if token = [] then w
          else w\<lparr>aw_db := revoke_session (ax_now env) (ax_digest env token) (aw_db w)\<rparr>)
      in case user of None \<Rightarrow> (Inr (), w1)
         | Some u \<Rightarrow> audited env (auth_audit ''auth.session.revoked'' ''logout'' ''auth-user'' (au_id u) ''success''
             ''The local browser session was explicitly ended.'' [] (au_username u)) () w1)"

record user_create =
  uc_username :: string
  uc_display_name :: string
  uc_role :: string
  uc_password :: string
  uc_connection_ids :: "string list"

record user_update =
  uu_display_name :: "string option"
  uu_role :: "string option"
  uu_password :: "string option"
  uu_active :: "bool option"
  uu_connection_ids :: "string list option"

definition create_user :: "auth_env \<Rightarrow> user_create \<Rightarrow> string \<Rightarrow> auth_world \<Rightarrow> auth_user result \<times> auth_world" where
  "create_user env v actor w =
     (case check_username (uc_username v) of Inl e \<Rightarrow> (Inl e, w) | Inr username \<Rightarrow>
       (case check_display_name (uc_display_name v) of Inl e \<Rightarrow> (Inl e, w) | Inr display_name \<Rightarrow>
         (case check_connections env (uc_connection_ids v) of Inl e \<Rightarrow> (Inl e, w) | Inr connections \<Rightarrow>
           (case validate_password (uc_password v) of Inl e \<Rightarrow> (Inl e, w) | Inr _ \<Rightarrow>
             (let (salt, hash) = new_password env (uc_password v) in
              case create_store_user (ax_now env) (ax_user_id env) username display_name (uc_role v) salt hash
                  connections (aw_db w) of
                Inl e \<Rightarrow> (Inl (ValueError ''That username is already in use''), w)
              | Inr (user, db) \<Rightarrow> audited env (auth_audit ''auth.user.created'' ''create'' ''auth-user'' (au_id user) ''success''
                  (''Created named SignalRoom '' @ au_role user @ '' user '' @ au_username user @ ''.'')
                  [(''username'', PyStr (au_username user)), (''role'', PyStr (au_role user)),
                   (''connection_ids'', py_strings (au_connection_ids user))] actor)
                  (public_user user) (w\<lparr>aw_db := db\<rparr>))))))"

text \<open>The values \<open>update_user\<close> writes, and its checks up to the write.\<close>

record user_change =
  ch_display_name :: string
  ch_role :: string
  ch_active :: bool
  ch_connections :: "string list"

definition or_else :: "'a option \<Rightarrow> 'a \<Rightarrow> 'a" where
  "or_else v d = (case v of None \<Rightarrow> d | Some x \<Rightarrow> x)"

definition resolve_change :: "auth_env \<Rightarrow> user_update \<Rightarrow> auth_user \<Rightarrow> user_change result" where
  "resolve_change env v current =
     (case (case uu_display_name v of None \<Rightarrow> Inr (au_display_name current) | Some d \<Rightarrow> check_display_name d) of
        Inl e \<Rightarrow> Inl e
      | Inr display_name \<Rightarrow>
         (case (case uu_connection_ids v of None \<Rightarrow> Inr (au_connection_ids current) | Some cs \<Rightarrow> check_connections env cs) of
            Inl e \<Rightarrow> Inl e
          | Inr connections \<Rightarrow> Inr \<lparr>ch_display_name = display_name,
              ch_role = (case uu_role v of None \<Rightarrow> au_role current | Some r \<Rightarrow> if r = [] then au_role current else r),
              ch_active = or_else (uu_active v) (au_active current), ch_connections = connections\<rparr>))"

definition check_change :: "user_update \<Rightarrow> user_change \<Rightarrow> auth_user \<Rightarrow> auth_db \<Rightarrow> unit result" where
  "check_change v c current db =
     (let losing_admin = (au_role current = ''admin'' \<and> (ch_role c \<noteq> ''admin'' \<or> \<not> ch_active c)) in
      if losing_admin \<and> active_admin_count db \<le> 1
      then Inl (ValueError ''SignalRoom must retain at least one active admin'')
      else if losing_admin \<and> au_auth_source current = ''local'' \<and> active_local_admin_count db \<le> 1
      then Inl (ValueError ''SignalRoom must retain one active local break-glass admin'')
      else if au_auth_source current = ''oidc'' \<and> (uu_role v \<noteq> None \<or> uu_password v \<noteq> None \<or> uu_connection_ids v \<noteq> None)
      then Inl (ValueError ''OIDC role and connection access are managed by enterprise group policy'')
      else case uu_password v of None \<Rightarrow> Inr () | Some p \<Rightarrow> validate_password p)"

definition update_user ::
  "auth_env \<Rightarrow> string \<Rightarrow> user_update \<Rightarrow> string \<Rightarrow> auth_world \<Rightarrow> auth_user result \<times> auth_world" where
  "update_user env user_id v actor w =
     (case get_user user_id (aw_db w) of
        None \<Rightarrow> (Inl (KeyError user_id), w)
      | Some current \<Rightarrow>
         (case resolve_change env v current of Inl e \<Rightarrow> (Inl e, w) | Inr c \<Rightarrow>
           (case check_change v c current (aw_db w) of Inl e \<Rightarrow> (Inl e, w) | Inr _ \<Rightarrow>
             (let (salt, hash) = (case uu_password v of None \<Rightarrow> ([], []) | Some p \<Rightarrow> new_password env p) in
              case update_store_user (ax_now env) user_id (ch_display_name c) (ch_role c) (ch_active c)
                  (ch_connections c) salt hash (aw_db w) of
                Inl e \<Rightarrow> (Inl e, w)
              | Inr (None, db) \<Rightarrow> (Inl AssertionError, w\<lparr>aw_db := db\<rparr>)
              | Inr (Some updated, db) \<Rightarrow>
                 (let db' = (if ch_role c \<noteq> au_role current \<or> ch_connections c \<noteq> au_connection_ids current
                        then snd (revoke_user_sessions (ax_now env) user_id db) else db)
                  in audited env (auth_audit ''auth.user.updated'' ''update'' ''auth-user'' user_id ''success''
                       (''Updated access for SignalRoom user '' @ au_username updated @ ''.'')
                       [(''role'', PyStr (au_role updated)), (''active'', PyBool (au_active updated)),
                        (''connection_ids'', py_strings (au_connection_ids updated)),
                        (''password_replaced'', PyBool (uu_password v \<noteq> None))] actor)
                       (public_user updated) (w\<lparr>aw_db := db'\<rparr>))))))"


section \<open>Authorisation\<close>

definition ROLES :: "string list" where
  "ROLES = [''viewer'', ''analyst'', ''admin'']"

definition UNSAFE_METHODS :: "string list" where
  "UNSAFE_METHODS = [''POST'', ''PUT'', ''PATCH'', ''DELETE'']"

definition ADMIN_MUTATION_PREFIXES :: "string list" where
  "ADMIN_MUTATION_PREFIXES =
     [''/api/auth/users'', ''/api/auth/oidc/'', ''/api/model-setup/pull'', ''/api/model-setup/activate'',
      ''/api/model-setup/troubleshoot'', ''/api/model-lifecycle/'',
      ''/api/model-capabilities/time-series/runtime'', ''/api/model-trust'', ''/api/benchmarks/suites'',
      ''/api/detection-repository/'', ''/api/workload/'', ''/api/audit-export/'', ''/api/audit-operations/'',
      ''/api/connections/'', ''/api/tenant-isolation/'', ''/api/recovery/'', ''/api/retention/'',
      ''/api/operational-acceptance/'']"

definition ADMIN_MUTATION_PATHS :: "string list" where
  "ADMIN_MUTATION_PATHS =
     [''/api/auth/disable'', ''/api/settings'', ''/api/assurance/policy'', ''/api/delivery/policy'', ''/api/delivery/test'']"

definition CONNECTION_MUTATION_PREFIXES :: "string list" where
  "CONNECTION_MUTATION_PREFIXES =
     [''/api/chat'', ''/api/discovery'', ''/api/connection/diagnostics'', ''/api/splunk-models/scan'',
      ''/api/model-capabilities/time-series/forecast'', ''/api/model-capabilities/time-series/schedules'',
      ''/api/assurance/runs'']"

definition starts_with_any :: "string list \<Rightarrow> string \<Rightarrow> bool" where
  "starts_with_any prefixes path = list_ex (\<lambda>p. starts_with p path) prefixes"

definition contains_any :: "string list \<Rightarrow> string \<Rightarrow> bool" where
  "contains_any parts path = list_ex (\<lambda>p. contains p path) parts"

definition admin_required :: "string \<Rightarrow> string \<Rightarrow> bool" where
  "admin_required meth path =
     (List.member UNSAFE_METHODS meth \<and>
       (List.member ADMIN_MUTATION_PATHS path \<or> starts_with_any ADMIN_MUTATION_PREFIXES path
        \<or> (starts_with ''/api/benchmarks/'' path \<and> contains_any [''/baseline'', ''/promote'', ''/rollback''] path)
        \<or> (starts_with ''/api/detections/'' path
           \<and> contains_any [''/repository-'', ''/git-export'', ''/export'', ''/retire''] path)))"

definition connection_required :: "string \<Rightarrow> string \<Rightarrow> bool" where
  "connection_required meth path =
     (List.member UNSAFE_METHODS meth \<and>
       (starts_with_any CONNECTION_MUTATION_PREFIXES path
        \<or> (starts_with ''/api/validations/'' path
           \<and> (ends_with ''/preflight/stream'' path \<or> ends_with ''/run/stream'' path))
        \<or> (starts_with ''/api/detections/'' path \<and> contains ''/deployment-verification/refresh'' path)
        \<or> path = ''/api/test-connection'' \<or> path = ''/mcp''))"

text \<open>\<open>str.upper\<close> on the letters that occur in method names; the other characters never yield one.\<close>

definition upper_method :: "string \<Rightarrow> string" where
  "upper_method s = map (\<lambda>c. if 97 \<le> code c \<and> code c \<le> 122 then char_of (code c - 32) else c) s"

definition authorize :: "auth_user \<Rightarrow> string \<Rightarrow> string \<Rightarrow> bool \<times> string" where
  "authorize user method0 path =
     (let role = au_role user; meth = upper_method method0 in
      if \<not> List.member ROLES role then (False, ''The session role is invalid'')
      else if path = ''/api/auth/logout'' then (True, [])
      else if starts_with ''/api/auth/users'' path \<and> role \<noteq> ''admin''
      then (False, ''Admin access is required for user administration'')
      else if List.member [''GET'', ''HEAD'', ''OPTIONS''] meth then (True, [])
      else if role = ''viewer'' then (False, ''Viewer access is read only'')
      else if admin_required meth path \<and> role \<noteq> ''admin''
      then (False, ''Admin access is required for this operation'')
      else if connection_required meth path \<and> au_connection_ids user = []
      then (False, ''This user is not assigned to Primary Splunk or another admitted connection'')
      else (True, []))"

record permissions =
  pm_can_read :: bool
  pm_can_change :: bool
  pm_can_administer :: bool
  pm_can_use_primary_connection :: bool
  pm_can_use_connection :: bool

definition permissions_of :: "string \<Rightarrow> string list \<Rightarrow> permissions" where
  "permissions_of role connections =
     \<lparr>pm_can_read = List.member ROLES role, pm_can_change = (role = ''analyst'' \<or> role = ''admin''),
      pm_can_administer = (role = ''admin''),
      pm_can_use_primary_connection = List.member connections ''primary'',
      pm_can_use_connection = (connections \<noteq> [])\<rparr>"


text \<open>
  \<open>status\<close>: what a browser is told about the access policy and its own session. The users of the store are
  listed without their passwords, which \<open>public_user\<close> also removes from the principal.
\<close>

record auth_status =
  st_enabled :: bool
  st_mode :: string
  st_authenticated :: bool
  st_bootstrap_required :: bool
  st_reenable_required :: bool
  st_identity_count :: nat
  st_principal :: "auth_user option"
  st_permissions :: permissions
  st_session_expires_at :: "instant option"
  st_users :: "auth_user list"
  st_available_connections :: "(string \<times> string) list"

definition local_operator :: "auth_env \<Rightarrow> auth_user" where
  "local_operator env = (new_user 0 ''local-operator'' ''local-operator'' ''Local operator'' ''admin''
     (map fst (available_connections env)))"

definition listed_users :: "auth_db \<Rightarrow> auth_user list" where
  "listed_users db = map (\<lambda>u. u\<lparr>au_password_salt := [], au_password_hash := [], au_external_claims := JObj []\<rparr>) (list_users db)"

definition auth_status_of :: "auth_env \<Rightarrow> string \<Rightarrow> bool \<Rightarrow> auth_world \<Rightarrow> auth_status" where
  "auth_status_of env token include_users w =
     (let db = aw_db w; n = user_count db; available = available_connections env in
      if \<not> ap_enabled (db_policy db)
      then \<lparr>st_enabled = False, st_mode = ''local-single-user'', st_authenticated = True,
         st_bootstrap_required = (n = 0), st_reenable_required = (0 < n), st_identity_count = n,
         st_principal = Some (local_operator env), st_permissions = permissions_of ''admin'' (map fst available),
         st_session_expires_at = None, st_users = (if include_users then listed_users db else []),
         st_available_connections = available\<rparr>
      else case authenticate env token w of
          None \<Rightarrow> \<lparr>st_enabled = True, st_mode = ''rbac'', st_authenticated = False, st_bootstrap_required = False,
            st_reenable_required = False, st_identity_count = n, st_principal = None,
            st_permissions = permissions_of [] [], st_session_expires_at = None, st_users = [],
            st_available_connections = []\<rparr>
        | Some (session, user) \<Rightarrow> \<lparr>st_enabled = True, st_mode = ''rbac'', st_authenticated = True,
            st_bootstrap_required = False, st_reenable_required = False, st_identity_count = n,
            st_principal = Some (public_user user),
            st_permissions = permissions_of (au_role user) (au_connection_ids user),
            st_session_expires_at = Some (se_expires_at session),
            st_users = (if include_users \<and> au_role user = ''admin'' then listed_users db else []),
            st_available_connections = (if au_role user = ''admin'' then available else [])\<rparr>)"


section \<open>The middleware\<close>

definition AUTH_PUBLIC_PATHS :: "string list" where
  "AUTH_PUBLIC_PATHS = [''/'', ''/api/health'', ''/api/auth/status'', ''/api/auth/bootstrap'', ''/api/auth/login'',
     ''/api/auth/oidc/start'', ''/api/auth/oidc/callback'']"

record http_request =
  rq_method :: string
  rq_path :: string
  rq_session_cookie :: string
  rq_csrf_header :: string
  rq_csrf_cookie :: string

text \<open>What the middleware decides; \<open>Serve\<close> calls the handler with this principal.\<close>

datatype access_decision =
    ServePublic
  | Serve auth_user
  | Unauthenticated
  | CsrfRejected
  | Denied string
  | RecoveryFrozen

definition recovery_mutation_frozen :: "bool \<Rightarrow> http_request \<Rightarrow> bool" where
  "recovery_mutation_frozen pending_marker r =
     (List.member UNSAFE_METHODS (rq_method r) \<and> pending_marker \<and> \<not> starts_with ''/api/recovery/'' (rq_path r)
      \<and> rq_path r \<noteq> ''/api/auth/logout'')"

definition access_control ::
  "auth_env \<Rightarrow> bool \<Rightarrow> http_request \<Rightarrow> auth_world \<Rightarrow> access_decision result \<times> auth_world" where
  "access_control env pending_marker r w =
     (if rq_method r = ''OPTIONS'' \<or> List.member AUTH_PUBLIC_PATHS (rq_path r) \<or> starts_with ''/static/'' (rq_path r)
      then (Inr ServePublic, w)
      else if \<not> ap_enabled (db_policy (aw_db w))
      then (Inr (if recovery_mutation_frozen pending_marker r then RecoveryFrozen else Serve (local_operator env)), w)
      else case authenticate env (rq_session_cookie r) w of
        None \<Rightarrow> (Inr Unauthenticated, w)
      | Some (session, user) \<Rightarrow>
          if List.member UNSAFE_METHODS (rq_method r) \<and> (rq_csrf_header r = [] \<or> rq_csrf_cookie r = []
               \<or> rq_csrf_header r \<noteq> rq_csrf_cookie r \<or> \<not> verify_csrf env session (rq_csrf_header r))
          then (Inr CsrfRejected, w)
          else
            (let (allowed, reason) = authorize user (rq_method r) (rq_path r) in
             if \<not> allowed
             then audited env (auth_audit ''auth.request.denied'' ''authorize'' ''api-route'' (rq_path r) ''denied'' reason
                 [(''method'', PyStr (rq_method r)), (''role'', PyStr (au_role user))] (au_username user))
                 (Denied reason) w
             else (Inr (if recovery_mutation_frozen pending_marker r then RecoveryFrozen else Serve user), w)))"

end
