(* ===== verification/Auth_Oidc.thy ===== *)
theory Auth_Oidc
  imports Auth_Service
begin

text \<open>
  Enterprise sign-in (\<open>auth/oidc.py\<close>): the provider policy, the one-time transaction of a sign-in, the
  checks on the ID token, the admission of verified claims and the session it creates. A sign-in callback
  is two steps, \<open>oidc_callback\<close> before the first await and \<open>oidc_finish\<close> after the last, because the
  provider is asked in between and other requests run meanwhile.

  Parameters (record \<open>oidc_env\<close>): \<open>urlparse\<close>, the loopback test of \<open>ipaddress\<close>, \<open>urlencode\<close>, the text of a
  list or dictionary, the random texts, and PyJWT (the unverified header of a token and its decoding under
  a key, an algorithm, an audience and an issuer). An \<open>OIDCError\<close> is a \<open>RuntimeError\<close>, as in the code.
\<close>


section \<open>Environment\<close>

type_synonym claims = "(string \<times> json) list"

record oidc_env =
  ox_urlparse :: "string \<Rightarrow> parsed_url"
  ox_is_loopback :: "string \<Rightarrow> bool option"
  ox_urlencode :: "(string \<times> string) list \<Rightarrow> string"
  ox_challenge :: "string \<Rightarrow> string"
  ox_repr :: "json \<Rightarrow> string"
  ox_state :: string
  ox_nonce :: string
  ox_verifier :: string
  ox_header :: "string \<Rightarrow> (string \<times> string) option"
  ox_decode :: "string \<Rightarrow> claims \<Rightarrow> string \<Rightarrow> string \<Rightarrow> string \<Rightarrow> claims result"

text \<open>The client secret, from the service environment or the vault.\<close>

record oidc_world =
  ow_auth :: auth_world
  ow_secret_env :: string
  ow_secret_vault :: string

definition client_secret :: "oidc_world \<Rightarrow> string" where
  "client_secret w = (if ow_secret_env w \<noteq> [] then ow_secret_env w else ow_secret_vault w)"

definition lift_auth :: "'a result \<times> auth_world \<Rightarrow> oidc_world \<Rightarrow> 'a result \<times> oidc_world" where
  "lift_auth r w = (fst r, w\<lparr>ow_auth := snd r\<rparr>)"

definition oidc_error :: "string \<Rightarrow> py_error" where
  "oidc_error s = RuntimeError s"

section \<open>Policy\<close>

definition ALLOWED_SIGNING_ALGORITHMS :: "string list" where
  "ALLOWED_SIGNING_ALGORITHMS = [''RS256'', ''RS384'', ''RS512'', ''PS256'', ''PS384'', ''PS512'', ''ES256'', ''ES384'']"

definition claim_name :: "string \<Rightarrow> bool" where
  "claim_name s = (s \<noteq> [] \<and> length s \<le> 120 \<and> list_all (\<lambda>c. let n = code c in
     (65 \<le> n \<and> n \<le> 90) \<or> (97 \<le> n \<and> n \<le> 122) \<or> (48 \<le> n \<and> n \<le> 57) \<or> List.member ''_.:-'' c) s)"

fun csv_values :: "string list \<Rightarrow> string list \<Rightarrow> string list" where
  "csv_values normalized [] = normalized"
| "csv_values normalized (item # items) =
     (let value = take 160 (squeeze item) in
      csv_values (if value \<noteq> [] \<and> \<not> List.member normalized value then normalized @ [value] else normalized) items)"

definition safe_url :: "oidc_env \<Rightarrow> string \<Rightarrow> string \<Rightarrow> string result" where
  "safe_url ox value label =
     (let raw = strip value; parsed = ox_urlparse ox raw in
      if pu_hostname parsed = [] \<or> pu_username parsed \<noteq> [] \<or> pu_password parsed \<noteq> [] \<or> pu_fragment parsed \<noteq> []
      then Inl (ValueError (label @ '' must be an absolute URL without credentials or a fragment''))
      else let loopback = (case ox_is_loopback ox (pu_hostname parsed) of
              Some b \<Rightarrow> b | None \<Rightarrow> casefold (pu_hostname parsed) = ''localhost'')
        in if pu_scheme parsed \<noteq> ''https'' \<and> \<not> (pu_scheme parsed = ''http'' \<and> loopback)
           then Inl (ValueError (label @ '' must use HTTPS; loopback HTTP is accepted for local testing''))
           else Inr raw)"

definition optional_url :: "oidc_env \<Rightarrow> string \<Rightarrow> string \<Rightarrow> string result" where
  "optional_url ox value label = (if value = [] then Inr [] else safe_url ox value label)"

record oidc_update =
  ou_policy :: oidc_policy
  ou_client_secret :: "string option"
  ou_clear_client_secret :: bool

fun check_mappings ::
  "string list \<Rightarrow> string list \<Rightarrow> group_mapping list \<Rightarrow> group_mapping list result" where
  "check_mappings available mapped [] = Inr []"
| "check_mappings available mapped (m # ms) =
     (let alias = strip (gm_connection_alias m); groups = csv_values [] (gm_groups m);
          name = CHR 0x27 # alias @ [CHR 0x27] in
      if List.member mapped alias then Inl (ValueError (''Connection alias '' @ name @ '' is mapped more than once''))
      else if \<not> List.member available alias
      then Inl (ValueError (''Connection alias '' @ name @ '' is not currently configured in SignalRoom''))
      else if groups = [] then Inl (ValueError (''Connection alias '' @ name @ '' requires at least one exact group''))
      else case check_mappings available (alias # mapped) ms of Inl e \<Rightarrow> Inl e
        | Inr rest \<Rightarrow> Inr (\<lparr>gm_connection_alias = alias, gm_groups = groups\<rparr> # rest))"

text \<open>A replacement secret that is given and is not the mask.\<close>

definition new_secret :: "oidc_update \<Rightarrow> string option" where
  "new_secret v = (case ou_client_secret v of None \<Rightarrow> None
     | Some s \<Rightarrow> if s = [] \<or> s = ''***'' then None else Some (strip s))"

definition check_enabled :: "oidc_update \<Rightarrow> string \<Rightarrow> string \<Rightarrow> oidc_policy \<Rightarrow> oidc_world \<Rightarrow> unit result" where
  "check_enabled v issuer redirect_uri p w =
     (if issuer = [] \<or> strip (oi_client_id p) = [] \<or> redirect_uri = []
      then Inl (ValueError ''Issuer URL, client ID, and exact redirect URI are required'')
      else if csv_values [] (oi_required_acr_values p) = [] \<and> csv_values [] (oi_required_amr_values p) = []
      then Inl (ValueError ''Require at least one ACR or AMR value as MFA evidence'')
      else if ou_clear_client_secret v \<and> ow_secret_env w \<noteq> []
      then Inl (ValueError ''Remove SIGNALROOM_OIDC_CLIENT_SECRET from the service environment'')
      else if ou_clear_client_secret v \<and> ou_client_secret v \<noteq> None \<and> ou_client_secret v \<noteq> Some []
      then Inl (ValueError ''Choose either client-secret replacement or removal'')
      else if (case new_secret v of Some s \<Rightarrow> s | None \<Rightarrow> if ou_clear_client_secret v then [] else client_secret w) = []
      then Inl (ValueError ''A client secret is required for this confidential web client'')
      else Inr ())"

definition simple_claim :: "string \<Rightarrow> string \<Rightarrow> unit result" where
  "simple_claim name claim = (if claim_name claim then Inr ()
     else Inl (ValueError (name @ '' claim must be a simple top-level claim name'')))"

definition check_claim_names :: "oidc_policy \<Rightarrow> unit result" where
  "check_claim_names p =
     (case simple_claim ''Username'' (oi_username_claim p) of Inl e \<Rightarrow> Inl e | Inr _ \<Rightarrow>
       (case simple_claim ''Display-name'' (oi_display_name_claim p) of Inl e \<Rightarrow> Inl e | Inr _ \<Rightarrow>
         (case simple_claim ''Groups'' (oi_groups_claim p) of Inl e \<Rightarrow> Inl e | Inr _ \<Rightarrow>
           (if oi_tenant_claim p \<noteq> [] \<and> \<not> claim_name (oi_tenant_claim p)
            then Inl (ValueError ''Tenant claim must be a simple top-level claim name'') else Inr ()))))"

text \<open>The checks of \<open>update_policy\<close>; the result is the policy to store.\<close>

definition check_oidc_policy :: "auth_env \<Rightarrow> oidc_env \<Rightarrow> oidc_update \<Rightarrow> oidc_world \<Rightarrow> oidc_policy result" where
  "check_oidc_policy env ox v w =
     (let p = ou_policy v; db = aw_db (ow_auth w) in
      if \<not> ap_enabled (db_policy db) then Inl (ValueError ''Enable named access before configuring enterprise sign-in'')
      else if active_local_admin_count db < 1
      then Inl (ValueError ''An active local break-glass administrator is required'')
      else case optional_url ox (oi_issuer_url p) ''Issuer URL'' of Inl e \<Rightarrow> Inl e | Inr issuer \<Rightarrow>
       (case optional_url ox (oi_redirect_uri p) ''Redirect URI'' of Inl e \<Rightarrow> Inl e | Inr redirect_uri \<Rightarrow>
        (case check_claim_names p of Inl e \<Rightarrow> Inl e | Inr _ \<Rightarrow>
         (case check_mappings (map fst (available_connections env)) [] (oi_connection_group_mappings p) of
            Inl e \<Rightarrow> Inl e
          | Inr mappings \<Rightarrow>
             (let tenants = csv_values [] (oi_allowed_tenant_values p);
                  label = take 120 (join_words (split_words [] (oi_provider_label p))) in
              if tenants \<noteq> [] \<and> oi_tenant_claim p = []
              then Inl (ValueError ''A tenant claim is required when tenant values are restricted'')
              else case (if oi_enabled p then check_enabled v issuer redirect_uri p w else Inr ()) of
                Inl e \<Rightarrow> Inl e
              | Inr _ \<Rightarrow> Inr (p\<lparr>oi_provider_label := (if label = [] then ''Enterprise identity'' else label),
                  oi_issuer_url := issuer, oi_client_id := strip (oi_client_id p), oi_redirect_uri := redirect_uri,
                  oi_allowed_tenant_values := tenants,
                  oi_allowed_groups := csv_values [] (oi_allowed_groups p),
                  oi_analyst_groups := csv_values [] (oi_analyst_groups p),
                  oi_admin_groups := csv_values [] (oi_admin_groups p),
                  oi_connection_group_mappings := mappings,
                  oi_required_acr_values := csv_values [] (oi_required_acr_values p),
                  oi_required_amr_values := map casefold (csv_values [] (oi_required_amr_values p))\<rparr>))))))"

definition oidc_policy_audit :: "oidc_policy \<Rightarrow> nat \<Rightarrow> string \<Rightarrow> audit_request" where
  "oidc_policy_audit p revoked actor =
     auth_audit ''auth.oidc.policy.updated'' ''update'' ''oidc-policy''
       (if oi_issuer_url p = [] then ''disabled'' else oi_issuer_url p) ''success''
       (if oi_enabled p then ''Enterprise OIDC sign-in was enabled.'' else ''Enterprise OIDC sign-in was disabled.'')
       [(''enabled'', PyBool (oi_enabled p)), (''issuer'', PyStr (oi_issuer_url p)),
        (''provider_label'', PyStr (oi_provider_label p)),
        (''tenant_restrictions'', PyInt (int (length (oi_allowed_tenant_values p)))),
        (''group_admission_rules'', PyInt (int (length (oi_allowed_groups p)))),
        (''analyst_group_rules'', PyInt (int (length (oi_analyst_groups p)))),
        (''admin_group_rules'', PyInt (int (length (oi_admin_groups p)))),
        (''connection_group_mappings'', PyInt (int (length (oi_connection_group_mappings p)))),
        (''mapped_connection_aliases'', py_strings (map gm_connection_alias (oi_connection_group_mappings p))),
        (''required_acr_values'', py_strings (oi_required_acr_values p)),
        (''required_amr_values'', py_strings (oi_required_amr_values p)),
        (''external_sessions_revoked'', PyInt (int revoked))] actor"

definition update_oidc_policy ::
  "auth_env \<Rightarrow> oidc_env \<Rightarrow> oidc_update \<Rightarrow> string \<Rightarrow> oidc_world \<Rightarrow> unit result \<times> oidc_world" where
  "update_oidc_policy env ox v actor w =
     (case check_oidc_policy env ox v w of Inl e \<Rightarrow> (Inl e, w)
      | Inr p \<Rightarrow>
         (let vault = (if ou_clear_client_secret v then [] else ow_secret_vault w);
              vault' = (case new_secret v of None \<Rightarrow> vault | Some s \<Rightarrow> if s = [] \<or> s = ''***'' then vault else s);
              db = update_store_oidc (ax_now env) p (aw_db (ow_auth w));
              (revoked, db') = revoke_external_sessions (ax_now env) db;
              w' = w\<lparr>ow_auth := (ow_auth w)\<lparr>aw_db := db'\<rparr>, ow_secret_vault := vault'\<rparr>
          in lift_auth (audited env (oidc_policy_audit p revoked actor) () (ow_auth w')) w'))"


section \<open>The ID token\<close>

text \<open>The keys of a provider that may verify a token naming this key.\<close>

definition key_usable :: "(json \<Rightarrow> string) \<Rightarrow> string \<Rightarrow> claims \<Rightarrow> bool" where
  "key_usable repr key_id item =
     (str_or_empty repr (map_of item ''kid'') = key_id
      \<and> (case map_of item ''use'' of None \<Rightarrow> True | Some v \<Rightarrow> v = JStr ''sig'')
      \<and> (case map_of item ''key_ops'' of None \<Rightarrow> True
         | Some v \<Rightarrow> \<not> json_true v \<or> (case v of JArr ops \<Rightarrow> List.member ops (JStr ''verify'') | _ \<Rightarrow> False)))"

definition signing_key :: "(json \<Rightarrow> string) \<Rightarrow> string \<Rightarrow> claims list \<Rightarrow> claims list \<Rightarrow> claims result" where
  "signing_key repr key_id keys fresh_keys =
     (let candidates = filter (key_usable repr key_id) keys;
          candidates' = (if candidates = [] then filter (key_usable repr key_id) fresh_keys else candidates)
      in case candidates' of [k] \<Rightarrow> Inr k
         | _ \<Rightarrow> Inl (oidc_error ''The provider signing key could not be selected uniquely''))"

definition check_token_claims :: "auth_env \<Rightarrow> oidc_env \<Rightarrow> oidc_policy \<Rightarrow> string \<Rightarrow> claims \<Rightarrow> claims result" where
  "check_token_claims env ox p nonce_sha256 cs =
     (if ax_digest env (str_or_empty (ox_repr ox) (map_of cs ''nonce'')) \<noteq> nonce_sha256
      then Inl (oidc_error ''The ID token nonce did not match the sign-in transaction'')
      else if (case map_of cs ''aud'' of Some (JArr auds) \<Rightarrow> 1 < length auds | _ \<Rightarrow> False)
          \<and> map_of cs ''azp'' \<noteq> Some (JStr (oi_client_id p))
      then Inl (oidc_error ''The ID token authorized-party claim did not match this client'')
      else Inr cs)"

definition validate_id_token ::
  "auth_env \<Rightarrow> oidc_env \<Rightarrow> oidc_policy \<Rightarrow> string list \<Rightarrow> claims list \<Rightarrow> claims list \<Rightarrow> string \<Rightarrow> string \<Rightarrow> claims result" where
  "validate_id_token env ox p provider_algorithms keys fresh_keys nonce_sha256 token =
     (if 1000000 < length token then Inl (oidc_error ''The ID token exceeded the size limit'')
      else case ox_header ox token of
        None \<Rightarrow> Inl (oidc_error ''The ID token header was invalid'')
      | Some (algorithm, key_id) \<Rightarrow>
          if \<not> List.member ALLOWED_SIGNING_ALGORITHMS algorithm
             \<or> (provider_algorithms \<noteq> [] \<and> \<not> List.member provider_algorithms algorithm)
          then Inl (oidc_error ''The ID token did not use an approved asymmetric signature'')
          else if key_id = [] then Inl (oidc_error ''The ID token did not identify a signing key'')
          else case signing_key (ox_repr ox) key_id keys fresh_keys of Inl e \<Rightarrow> Inl e
            | Inr k \<Rightarrow> (case ox_decode ox token k algorithm (oi_client_id p) (oi_issuer_url p) of Inl e \<Rightarrow> Inl e
                | Inr cs \<Rightarrow> check_token_claims env ox p nonce_sha256 cs))"


section \<open>Admission\<close>

record admission =
  am_groups :: "string list"
  am_tenant :: string
  am_amr :: "string list"
  am_role :: string
  am_matched_groups :: "string list"
  am_connection_ids :: "string list"
  am_connection_matches :: "(string \<times> string list) list"

definition claimed_groups :: "(json \<Rightarrow> string) \<Rightarrow> json option \<Rightarrow> string list result" where
  "claimed_groups repr raw =
     (case raw of
        Some (JStr s) \<Rightarrow> Inr [s]
      | Some (JArr items) \<Rightarrow> if 500 < length items
          then Inl (oidc_error ''The enterprise group claim exceeded the size limit'')
          else Inr (map (json_str repr) (filter (\<lambda>v. case v of JStr s \<Rightarrow> True | JInt n \<Rightarrow> True | JBool b \<Rightarrow> True | _ \<Rightarrow> False) items))
      | _ \<Rightarrow> Inr [])"

text \<open>\<open>sorted(set(xs) & set(ys))\<close>.\<close>

definition sorted_common :: "string list \<Rightarrow> string list \<Rightarrow> string list" where
  "sorted_common xs ys = sort (remdups (filter (List.member ys) xs))"

definition claimed_amr :: "(json \<Rightarrow> string) \<Rightarrow> json option \<Rightarrow> string list" where
  "claimed_amr repr raw = (case raw of Some (JArr items) \<Rightarrow> map (\<lambda>v. casefold (json_str repr v)) items | _ \<Rightarrow> [])"

fun grant_connections ::
  "string list option \<Rightarrow> string list \<Rightarrow> group_mapping list \<Rightarrow> string list \<times> (string \<times> string list) list \<Rightarrow>
    string list \<times> (string \<times> string list) list" where
  "grant_connections available groups [] acc = acc"
| "grant_connections available groups (m # ms) (ids, matched) =
     (let alias = gm_connection_alias m; hits = sorted_common groups (gm_groups m) in
      if alias = [] \<or> (case available of None \<Rightarrow> False | Some av \<Rightarrow> \<not> List.member av alias) \<or> hits = []
      then grant_connections available groups ms (ids, matched)
      else grant_connections available groups ms
        (if List.member ids alias then ids else ids @ [alias], AList.update alias hits matched))"

definition admitted_role :: "oidc_policy \<Rightarrow> string list \<Rightarrow> string \<times> string list" where
  "admitted_role p groups =
     (if sorted_common groups (oi_admin_groups p) \<noteq> [] then (''admin'', sorted_common groups (oi_admin_groups p))
      else if sorted_common groups (oi_analyst_groups p) \<noteq> [] then (''analyst'', sorted_common groups (oi_analyst_groups p))
      else (oi_default_role p, sorted_common groups (oi_allowed_groups p)))"

definition admit :: "(json \<Rightarrow> string) \<Rightarrow> claims \<Rightarrow> oidc_policy \<Rightarrow> string list option \<Rightarrow> admission result" where
  "admit repr cs p available =
     (case claimed_groups repr (map_of cs (oi_groups_claim p)) of Inl e \<Rightarrow> Inl e | Inr groups \<Rightarrow>
       (let tenant = (if oi_tenant_claim p = [] then [] else str_or_empty repr (map_of cs (oi_tenant_claim p)));
            acr = str_or_empty repr (map_of cs ''acr'');
            amr = claimed_amr repr (map_of cs ''amr'');
            primary = (oi_grant_primary_connection p
              \<and> (case available of None \<Rightarrow> True | Some av \<Rightarrow> List.member av ''primary''));
            (role, matched) = admitted_role p groups;
            (ids, hits) = grant_connections available groups (oi_connection_group_mappings p)
              (if primary then ([''primary''], [(''primary'', [''all-admitted-identities''])]) else ([], []))
        in if list_ex (\<lambda>g. 256 < length g) groups
           then Inl (oidc_error ''An enterprise group identifier exceeded the size limit'')
           else if oi_allowed_groups p \<noteq> [] \<and> sorted_common groups (oi_allowed_groups p) = []
           then Inl (oidc_error ''The enterprise identity is not in an admitted SignalRoom group'')
           else if 256 < length tenant
           then Inl (oidc_error ''The enterprise tenant identifier exceeded the size limit'')
           else if oi_allowed_tenant_values p \<noteq> [] \<and> \<not> List.member (oi_allowed_tenant_values p) tenant
           then Inl (oidc_error ''The enterprise identity did not match an admitted tenant'')
           else if oi_required_acr_values p \<noteq> [] \<and> \<not> List.member (oi_required_acr_values p) acr
           then Inl (oidc_error ''The sign-in did not provide an accepted ACR assurance value'')
           else if \<not> list_all (List.member amr) (oi_required_amr_values p)
           then Inl (oidc_error ''The sign-in did not provide the required MFA method evidence'')
           else Inr \<lparr>am_groups = sort groups, am_tenant = tenant, am_amr = sort amr, am_role = role,
             am_matched_groups = matched, am_connection_ids = ids, am_connection_matches = hits\<rparr>))"


section \<open>Sign-in\<close>

definition enabled_policy :: "auth_db \<Rightarrow> oidc_policy result" where
  "enabled_policy db = (if ap_enabled (db_policy db) \<and> oi_enabled (db_oidc db) then Inr (db_oidc db)
     else Inl (oidc_error ''Enterprise sign-in is not enabled''))"

text \<open>\<open>begin\<close>, from the provider metadata on: its challenge methods and its authorization endpoint.\<close>

definition oidc_begin ::
  "auth_env \<Rightarrow> oidc_env \<Rightarrow> oidc_policy \<Rightarrow> string list \<Rightarrow> string \<Rightarrow> string \<Rightarrow> auth_world \<Rightarrow>
    (string \<times> string) result \<times> auth_world" where
  "oidc_begin env ox p methods endpoint source w =
     (if \<not> List.member methods ''S256''
      then (Inl (oidc_error ''The provider does not advertise S256 PKCE''), w)
      else case create_oidc_transaction (ax_now env) (ax_digest env (ox_state ox)) (ax_digest env (ox_nonce ox))
          (ox_verifier ox) source (aw_db w) of
        Inl e \<Rightarrow> (Inl e, w)
      | Inr db \<Rightarrow>
         (let query = ox_urlencode ox [(''response_type'', ''code''), (''client_id'', oi_client_id p),
                (''redirect_uri'', oi_redirect_uri p), (''scope'', ''openid profile email''),
                (''state'', ox_state ox), (''nonce'', ox_nonce ox),
                (''code_challenge'', ox_challenge ox (ox_verifier ox)), (''code_challenge_method'', ''S256''),
                (''response_mode'', ''query'')]
          in (Inr (endpoint @ (if List.member endpoint (CHR ''?'') then ''&'' else ''?'') @ query, ox_state ox),
              w\<lparr>aw_db := db\<rparr>)))"

text \<open>A callback between its transaction and the answers of the provider: the policy it read is its own.\<close>

record sign_in =
  si_policy :: oidc_policy
  si_transaction :: oidc_transaction

definition oidc_callback ::
  "auth_env \<Rightarrow> string \<Rightarrow> string \<Rightarrow> string \<Rightarrow> auth_world \<Rightarrow> sign_in result \<times> auth_world" where
  "oidc_callback env auth_code state state_cookie w =
     (case enabled_policy (aw_db w) of Inl e \<Rightarrow> (Inl e, w) | Inr p \<Rightarrow>
        if auth_code = [] \<or> 4096 < length auth_code \<or> state = [] \<or> 512 < length state
        then (Inl (oidc_error ''The enterprise sign-in callback values were invalid''), w)
        else if state_cookie = [] \<or> state \<noteq> state_cookie
        then (Inl (oidc_error ''The enterprise sign-in state did not match this browser''), w)
        else case consume_oidc_transaction (ax_now env) (ax_digest env state) (aw_db w) of
            (None, db) \<Rightarrow> (Inl (oidc_error ''The enterprise sign-in transaction expired or was already used''), w\<lparr>aw_db := db\<rparr>)
          | (Some t, db) \<Rightarrow> (Inr \<lparr>si_policy = p, si_transaction = t\<rparr>, w\<lparr>aw_db := db\<rparr>))"

text \<open>\<open>re.sub(r"[^a-z0-9._-]+", "-", text)\<close> and the account name of a new external identity.\<close>

fun replace_runs :: "bool \<Rightarrow> string \<Rightarrow> string" where
  "replace_runs run [] = []"
| "replace_runs run (c # cs) = (if name_start c \<or> List.member ''._-'' c then c # replace_runs False cs
     else if run then replace_runs True cs else CHR ''-'' # replace_runs True cs)"

definition strip_chars :: "string \<Rightarrow> string \<Rightarrow> string" where
  "strip_chars cs s = rev (dropWhile (List.member cs) (rev (dropWhile (List.member cs) s)))"

definition external_username :: "(string \<Rightarrow> string) \<Rightarrow> string \<Rightarrow> string \<Rightarrow> string \<Rightarrow> string" where
  "external_username digest raw issuer subject =
     (let slug = strip_chars ''.-_'' (replace_runs False (casefold (take 500 raw)));
          slug' = (if length slug < 3 then ''enterprise-user'' else slug);
          suffix = take 10 (digest (issuer @ CHR 0x00 # subject))
      in take 64 (take 52 slug' @ CHR ''-'' # suffix))"

text \<open>\<open>str(a or b or c)\<close>.\<close>

definition first_claim :: "(json \<Rightarrow> string) \<Rightarrow> json option list \<Rightarrow> string \<Rightarrow> string" where
  "first_claim repr vs d = (case List.find (\<lambda>v. case v of None \<Rightarrow> False | Some x \<Rightarrow> json_true x) vs of
     Some (Some x) \<Rightarrow> json_str repr x | _ \<Rightarrow> d)"

definition safe_claims :: "(json \<Rightarrow> string) \<Rightarrow> admission \<Rightarrow> claims \<Rightarrow> json" where
  "safe_claims repr a cs = JObj [(''tenant'', JStr (am_tenant a)), (''groups'', JArr (map JStr (am_groups a))),
     (''acr'', JStr (str_or_empty repr (map_of cs ''acr''))), (''amr'', JArr (map JStr (am_amr a)))]"

definition deauthorize ::
  "auth_env \<Rightarrow> oidc_policy \<Rightarrow> string \<Rightarrow> py_error \<Rightarrow> auth_world \<Rightarrow> browser_session result \<times> auth_world" where
  "deauthorize env p subject err w =
     (case get_user_by_external_identity (oi_issuer_url p) subject (aw_db w) of
        None \<Rightarrow> (Inl err, w)
      | Some existing \<Rightarrow>
         (let (revoked, db) = revoke_user_sessions (ax_now env) (au_id existing) (aw_db w);
              (recorded, w') = audited env (auth_audit ''auth.oidc.identity.deauthorized'' ''revoke'' ''auth-user''
                (au_id existing) ''warning''
                ''A newly verified provider identity no longer satisfied OIDC admission; its existing SignalRoom sessions were revoked.''
                [(''provider_label'', PyStr (oi_provider_label p)), (''issuer'', PyStr (oi_issuer_url p)),
                 (''sessions_revoked'', PyInt (int revoked))] (au_username existing)) () (w\<lparr>aw_db := db\<rparr>)
          in (case recorded of Inl e \<Rightarrow> Inl e | Inr _ \<Rightarrow> Inl err, w')))"

definition session_audit :: "(json \<Rightarrow> string) \<Rightarrow> sign_in \<Rightarrow> claims \<Rightarrow> admission \<Rightarrow> string \<Rightarrow> auth_user \<Rightarrow> audit_request" where
  "session_audit repr f cs a source user =
     auth_audit ''auth.oidc.session.created'' ''login'' ''auth-user'' (au_id user) ''success''
       ''A verified enterprise identity established a SignalRoom browser session.''
       [(''provider_label'', PyStr (oi_provider_label (si_policy f))), (''issuer'', PyStr (oi_issuer_url (si_policy f))),
        (''role'', PyStr (au_role user)), (''connection_ids'', py_strings (au_connection_ids user)),
        (''tenant'', PyStr (am_tenant a)), (''matched_groups'', py_strings (am_matched_groups a)),
        (''matched_connection_groups'', PyDict (map (\<lambda>(k, gs). (k, py_strings gs)) (am_connection_matches a))),
        (''acr'', PyStr (str_or_empty repr (map_of cs ''acr''))), (''amr'', py_strings (am_amr a)),
        (''source_match'', PyBool (source = tx_source (si_transaction f)))] (au_username user)"

text \<open>\<open>complete\<close> from the verified claims on, in three parts: the session of the stored account, the account, the
  admission.\<close>

definition open_session ::
  "auth_env \<Rightarrow> (json \<Rightarrow> string) \<Rightarrow> sign_in \<Rightarrow> claims \<Rightarrow> admission \<Rightarrow> string \<Rightarrow> auth_user \<Rightarrow> auth_world \<Rightarrow>
    browser_session result \<times> auth_world" where
  "open_session env repr f cs a source user w =
     (if \<not> au_active user then (Inl (oidc_error ''This SignalRoom identity is inactive''), w)
      else case federated_session env user w of
          (Inl e, w') \<Rightarrow> (Inl e, w')
        | (Inr session, w') \<Rightarrow> audited env (session_audit repr f cs a source user) session w')"

definition admitted_session ::
  "auth_env \<Rightarrow> (json \<Rightarrow> string) \<Rightarrow> sign_in \<Rightarrow> claims \<Rightarrow> string \<Rightarrow> admission \<Rightarrow> string \<Rightarrow> auth_world \<Rightarrow>
    browser_session result \<times> auth_world" where
  "admitted_session env repr f cs subject a source w =
     (let p = si_policy f; issuer = oi_issuer_url p;
          username = (case get_user_by_external_identity issuer subject (aw_db w) of
              Some u \<Rightarrow> au_username u
            | None \<Rightarrow> external_username (ax_digest env) (first_claim repr [map_of cs (oi_username_claim p)] subject) issuer subject)
      in case check_display_name (first_claim repr
            [map_of cs (oi_display_name_claim p), map_of cs (oi_username_claim p)] username) of
           Inl e \<Rightarrow> (Inl e, w)
         | Inr display_name \<Rightarrow>
            (case upsert_external_user (ax_now env) (ax_user_id env) issuer subject username display_name
                (am_role a) (am_connection_ids a) (safe_claims repr a cs) (aw_db w) of
               Inl e \<Rightarrow> (Inl (oidc_error ''The external identity could not be assigned a unique local handle''), w)
             | Inr (user, db) \<Rightarrow> open_session env repr f cs a source user (w\<lparr>aw_db := db\<rparr>)))"

definition oidc_finish ::
  "auth_env \<Rightarrow> oidc_env \<Rightarrow> sign_in \<Rightarrow> claims \<Rightarrow> string \<Rightarrow> auth_world \<Rightarrow> browser_session result \<times> auth_world" where
  "oidc_finish env ox f cs source w =
     (case map_of cs ''sub'' of
        Some (JStr subject) \<Rightarrow>
          if subject = [] \<or> 255 < length subject
          then (Inl (oidc_error ''The ID token subject was not a valid immutable identifier''), w)
          else (case admit (ox_repr ox) cs (si_policy f) (Some (map fst (available_connections env))) of
             Inl e \<Rightarrow> deauthorize env (si_policy f) subject e w
           | Inr a \<Rightarrow> admitted_session env (ox_repr ox) f cs subject a source w)
      | _ \<Rightarrow> (Inl (oidc_error ''The ID token subject was not a valid immutable identifier''), w))"


section \<open>Previews\<close>

record catalog_entry =
  ce_id :: string
  ce_label :: string
  ce_groups :: "string list"
  ce_available :: bool

definition connection_catalog :: "auth_env \<Rightarrow> oidc_policy \<Rightarrow> catalog_entry list" where
  "connection_catalog env p =
     (let current = available_connections env;
          mapped = dict_of (map (\<lambda>m. (gm_connection_alias m, gm_groups m)) (oi_connection_group_mappings p))
      in map (\<lambda>(i, label). \<lparr>ce_id = i, ce_label = label,
             ce_groups = (case map_of mapped i of None \<Rightarrow> [] | Some gs \<Rightarrow> gs), ce_available = True\<rparr>) current
         @ map (\<lambda>(alias, gs). \<lparr>ce_id = alias, ce_label = alias, ce_groups = gs, ce_available = False\<rparr>)
             (filter (\<lambda>(alias, gs). \<not> List.member (map fst current) alias) mapped))"

text \<open>The claims that the preview rebuilds from what a sign-in stored.\<close>

definition or_json :: "json option \<Rightarrow> json \<Rightarrow> json" where
  "or_json v d = (case v of None \<Rightarrow> d | Some x \<Rightarrow> if json_true x then x else d)"

definition preview_claims :: "oidc_policy \<Rightarrow> json \<Rightarrow> claims" where
  "preview_claims p safe = dict_of ([(oi_groups_claim p, or_json (json_member ''groups'' safe) (JArr [])),
      (''acr'', or_json (json_member ''acr'' safe) (JStr [])), (''amr'', or_json (json_member ''amr'' safe) (JArr []))]
      @ (if oi_tenant_claim p = [] then [] else [(oi_tenant_claim p, or_json (json_member ''tenant'' safe) (JStr []))]))"

record preview_row =
  pv_user_id :: string
  pv_username :: string
  pv_active :: bool
  pv_admitted :: bool
  pv_current_role :: string
  pv_projected_role :: string
  pv_current_connection_ids :: "string list"
  pv_projected_connection_ids :: "string list"
  pv_connection_matches :: "(string \<times> string list) list"
  pv_reason :: string

definition preview_row_of :: "(json \<Rightarrow> string) \<Rightarrow> oidc_policy \<Rightarrow> string list \<Rightarrow> auth_user \<Rightarrow> preview_row" where
  "preview_row_of repr p available u =
     (case admit repr (preview_claims p (au_external_claims u)) p (Some available) of
        Inr a \<Rightarrow> \<lparr>pv_user_id = au_id u, pv_username = au_username u, pv_active = au_active u, pv_admitted = True,
          pv_current_role = au_role u, pv_projected_role = am_role a,
          pv_current_connection_ids = au_connection_ids u, pv_projected_connection_ids = am_connection_ids a,
          pv_connection_matches = am_connection_matches a,
          pv_reason = ''Last verified claims satisfy the saved policy.''\<rparr>
      | Inl e \<Rightarrow> \<lparr>pv_user_id = au_id u, pv_username = au_username u, pv_active = au_active u, pv_admitted = False,
          pv_current_role = au_role u, pv_projected_role = [],
          pv_current_connection_ids = au_connection_ids u, pv_projected_connection_ids = [],
          pv_connection_matches = [], pv_reason = error_message e\<rparr>)"

definition assignment_preview :: "auth_env \<Rightarrow> oidc_env \<Rightarrow> oidc_policy \<Rightarrow> auth_db \<Rightarrow> preview_row list" where
  "assignment_preview env ox p db =
     map (preview_row_of (ox_repr ox) p (map fst (available_connections env))) (external_policy_subjects 100 db)"

end
