(* ===== verification/Access_Control.thy ===== *)
theory Access_Control
  imports Auth_Oidc
begin

text \<open>
  Access control as one machine: the three access services and the request middleware over the access
  database. \<open>store_step\<close> lists the statements that the services issue; the \<open>_writes\<close> lemmas show that every
  operation is a sequence of them, so that an invariant of the database has to be checked for the
  statements only.
\<close>


section \<open>The statements of the access database\<close>

text \<open>
  Every write of the three services is one of these statements, at the time and with the sign-in state
  that the operation drew. \<open>dec\<close> says whether the operation may decide a user's access: change a role, the
  connections, the active state or the password. The other preconditions are what the services establish: a failed login is recorded
  only where logins are not blocked, and access is enabled only where an active local administrator exists.
\<close>

inductive store_step :: "bool \<Rightarrow> instant \<Rightarrow> string \<Rightarrow> auth_db \<Rightarrow> auth_db \<Rightarrow> bool"
  for dec :: bool and now :: instant and state_sha256 :: string where
  insert: "create_store_user now i name d r salt hash cs db = Inr (u, db') \<Longrightarrow> store_step dec now state_sha256 db db'"
| update: "dec \<Longrightarrow> update_store_user now i d r a cs salt hash db = Inr (x, db') \<Longrightarrow> store_step dec now state_sha256 db db'"
| external: "dec \<Longrightarrow> upsert_external_user now i iss sub name d r cs cl db = Inr (u, db') \<Longrightarrow> store_step dec now state_sha256 db db'"
| recover: "dec \<Longrightarrow> recover_store_password now i salt hash db = (x, db') \<Longrightarrow> store_step dec now state_sha256 db db'"
| session: "create_session now i t c h db = Inr (x, db') \<Longrightarrow> store_step dec now state_sha256 db db'"
| revoke: "store_step dec now state_sha256 db (revoke_where now p db)"
| attempt: "b \<or> \<not> login_blocked now name src db \<Longrightarrow> store_step dec now state_sha256 db (record_login_attempt now name src b db)"
| enable: "0 < active_local_admin_count db \<Longrightarrow> store_step dec now state_sha256 db (set_access_enabled now True db)"
| disable: "store_step dec now state_sha256 db (set_access_enabled now False db)"
| oidc: "store_step dec now state_sha256 db (update_store_oidc now p db)"
| start: "create_oidc_transaction now state_sha256 n v src db = Inr db' \<Longrightarrow> store_step dec now state_sha256 db db'"
| consume: "consume_oidc_transaction now s db = (x, db') \<Longrightarrow> store_step dec now state_sha256 db db'"


section \<open>A local administrator is always left\<close>

definition accounts_inv :: "auth_db \<Rightarrow> bool" where
  "accounts_inv db = (distinct (map au_id (db_users db)) \<and>
     (\<forall>u \<in> set (db_users db). au_auth_source u \<noteq> ''local'' \<or> au_external_issuer u = None))"

definition has_local_admin :: "auth_db \<Rightarrow> bool" where
  "has_local_admin db = list_ex local_admin (db_users db)"

definition access_inv :: "auth_db \<Rightarrow> bool" where
  "access_inv db = (accounts_inv db \<and> (ap_enabled (db_policy db) \<longrightarrow> has_local_admin db))"

lemma admin_count_iff: "0 < active_local_admin_count db \<longleftrightarrow> has_local_admin db"
  by (auto simp: active_local_admin_count_def has_local_admin_def sql_count_def list_ex_iff filter_empty_conv)

lemma other_admin:
  assumes "distinct (map au_id rows)" "1 < sql_count local_admin rows"
  shows "\<exists>u \<in> set rows. local_admin u \<and> au_id u \<noteq> i"
proof (rule ccontr)
  assume "\<not> ?thesis"
  then have "set (map au_id (filter local_admin rows)) \<subseteq> {i}" by auto
  moreover have "distinct (map au_id (filter local_admin rows))" using assms(1) by (rule distinct_map_filter)
  ultimately have "length (map au_id (filter local_admin rows)) \<le> 1"
    using distinct_card card_mono [of "{i}"] by (metis finite.emptyI finite.insertI is_singletonI is_singleton_altdef)
  with assms(2) show False by (simp add: sql_count_def)
qed

text \<open>An update of one account by its id.\<close>

lemma accounts_update:
  assumes "accounts_inv db" "\<And>u. au_id (f u) = au_id u" "\<And>u. au_auth_source (f u) = au_auth_source u"
    "\<And>u. au_external_issuer (f u) = au_external_issuer u"
  shows "accounts_inv (db\<lparr>db_users := sql_update (\<lambda>u. au_id u = i) f (db_users db)\<rparr>)"
  using assms map_sql_update [of "\<lambda>u. au_id u = i" au_id f "db_users db"]
  by (auto simp: accounts_inv_def elim!: in_sql_update_cases)

lemma admin_update_keep:
  assumes "has_local_admin db" "\<And>u. u \<in> set (db_users db) \<Longrightarrow> au_id u = i \<Longrightarrow> local_admin u \<Longrightarrow> local_admin (f u)"
  shows "has_local_admin (db\<lparr>db_users := sql_update (\<lambda>u. au_id u = i) f (db_users db)\<rparr>)"
  using assms by (auto simp: has_local_admin_def list_ex_iff set_sql_update)

lemma admin_update_other:
  assumes "u \<in> set (db_users db)" "local_admin u" "au_id u \<noteq> i"
  shows "has_local_admin (db\<lparr>db_users := sql_update (\<lambda>u. au_id u = i) f (db_users db)\<rparr>)"
  using assms by (auto simp: has_local_admin_def list_ex_iff set_sql_update)

lemma frame_users [simp]:
  "db_users (revoke_where now p db) = db_users db" "db_policy (revoke_where now p db) = db_policy db"
  "db_users (record_login_attempt now name src b db) = db_users db"
  "db_policy (record_login_attempt now name src b db) = db_policy db"
  "db_users (set_access_enabled now b db) = db_users db"
  "db_users (update_store_oidc now q db) = db_users db" "db_policy (update_store_oidc now q db) = db_policy db"
  by (simp_all add: revoke_where_def record_login_attempt_def set_access_enabled_def update_store_oidc_def Let_def)

lemma frame_inv:
  "db_users db' = db_users db \<Longrightarrow> accounts_inv db' = accounts_inv db"
  "db_users db' = db_users db \<Longrightarrow> has_local_admin db' = has_local_admin db"
  by (simp_all add: accounts_inv_def has_local_admin_def)

lemma insert_user_facts:
  assumes "insert_user u db = Inr db'" "accounts_inv db" "au_auth_source u \<noteq> ''local'' \<or> au_external_issuer u = None"
  shows "accounts_inv db'" "has_local_admin db \<Longrightarrow> has_local_admin db'" "db_policy db' = db_policy db"
    "db_users db' = db_users db @ [u]"
proof -
  have db': "db' = db\<lparr>db_users := db_users db @ [u]\<rparr>" and "\<not> list_ex (conflicts u) (db_users db)"
    using assms(1) by (auto simp: insert_user_def split: if_splits)
  then have "au_id u \<notin> au_id ` set (db_users db)" by (auto simp: list_ex_iff conflicts_def)
  then show "accounts_inv db'" "has_local_admin db \<Longrightarrow> has_local_admin db'" "db_policy db' = db_policy db"
    "db_users db' = db_users db @ [u]"
    using assms by (auto simp: db' accounts_inv_def has_local_admin_def)
qed

lemma update_store_user_inv:
  assumes inv: "accounts_inv db" and ok: "update_store_user now i d r a cs salt hash db = Inr (x, db')"
  shows "accounts_inv db' \<and> (has_local_admin db \<longrightarrow> has_local_admin db') \<and> db_policy db' = db_policy db"
proof (cases "get_user i db")
  case None
  then show ?thesis using ok inv by (simp add: update_store_user_def)
next
  case (Some current)
  let ?f = "changed_user now d r a cs salt hash"
  let ?db1 = "db\<lparr>db_users := sql_update (\<lambda>u. au_id u = i) ?f (db_users db)\<rparr>"
  have f: "au_id (?f u) = au_id u" "au_auth_source (?f u) = au_auth_source u"
    "au_external_issuer (?f u) = au_external_issuer u" "au_role (?f u) = r" "au_active (?f u) = a" for u
    by (simp_all add: changed_user_def Let_def)
  have users: "db_users db' = db_users ?db1" "db_policy db' = db_policy db"
    and guard: "active_admin current \<and> (r \<noteq> ''admin'' \<or> \<not> a) \<and> au_auth_source current = ''local''
      \<Longrightarrow> 1 < active_local_admin_count db"
    using ok Some by (auto simp: update_store_user_def Let_def split: if_splits)
  have "accounts_inv ?db1" using inv f by (intro accounts_update) auto
  moreover have "has_local_admin ?db1" if adm: "has_local_admin db"
  proof (cases "local_admin current \<and> (r \<noteq> ''admin'' \<or> \<not> a)")
    case True
    then have "1 < sql_count local_admin (db_users db)"
      using guard by (auto simp: local_admin_def active_local_admin_count_def)
    then show ?thesis using other_admin [of "db_users db" i] inv admin_update_other
      by (auto simp: accounts_inv_def)
  next
    case False
    have "local_admin (?f u)" if "u \<in> set (db_users db)" "au_id u = i" "local_admin u" for u
    proof -
      have "u = current" using that Some inv sql_first_unique [of au_id "db_users db" u i]
        by (auto simp: get_user_def accounts_inv_def)
      then show ?thesis using False that(3) f by (auto simp: local_admin_def active_admin_def)
    qed
    then show ?thesis using adm by (rule admin_update_keep [rotated])
  qed
  ultimately show ?thesis using users frame_inv [OF users(1)] by simp
qed

lemma upsert_external_inv:
  assumes inv: "accounts_inv db" and ok: "upsert_external_user now i iss sub name d r cs cl db = Inr (u, db')"
  shows "accounts_inv db' \<and> (has_local_admin db \<longrightarrow> has_local_admin db') \<and> db_policy db' = db_policy db"
proof (cases "get_user_by_external_identity iss sub db")
  case None
  then show ?thesis using ok inv insert_user_facts
    by (fastforce simp: upsert_external_user_def Let_def new_user_def split: sum.splits)
next
  case (Some current)
  let ?f = "\<lambda>u. u\<lparr>au_display_name := d, au_role := r, au_connection_ids := cs,
     au_external_claims := json_norm cl, au_updated_at := now\<rparr>"
  let ?db1 = "db\<lparr>db_users := sql_update (\<lambda>u. au_id u = au_id current) ?f (db_users db)\<rparr>"
  have db': "db' = ?db1" using ok Some by (simp add: upsert_external_user_def Let_def)
  have cur: "current \<in> set (db_users db)" "au_external_issuer current = Some iss"
    using Some by (auto simp: get_user_by_external_identity_def dest: sql_first_SomeD)
  then have nonlocal: "\<not> local_admin current" using inv by (auto simp: accounts_inv_def local_admin_def)
  have "accounts_inv ?db1" using inv by (intro accounts_update) auto
  moreover have "has_local_admin ?db1" if adm: "has_local_admin db"
  proof -
    obtain v where v: "v \<in> set (db_users db)" "local_admin v"
      using adm unfolding has_local_admin_def list_ex_iff by blast
    then have "au_id v \<noteq> au_id current" using nonlocal cur inv by (metis accounts_inv_def inj_on_def distinct_map)
    with v show ?thesis by (rule admin_update_other)
  qed
  ultimately show ?thesis by (simp add: db')
qed

lemma account_update_inv:
  assumes "accounts_inv db" "\<And>u. au_id (f u) = au_id u" "\<And>u. au_auth_source (f u) = au_auth_source u"
    "\<And>u. au_external_issuer (f u) = au_external_issuer u" "\<And>u. au_role (f u) = au_role u" "\<And>u. au_active (f u) = au_active u"
    "db_users db' = sql_update (\<lambda>u. au_id u = i) f (db_users db)" "db_policy db' = db_policy db"
  shows "accounts_inv db' \<and> (has_local_admin db \<longrightarrow> has_local_admin db') \<and> db_policy db' = db_policy db"
proof -
  let ?db1 = "db\<lparr>db_users := sql_update (\<lambda>u. au_id u = i) f (db_users db)\<rparr>"
  have same: "db_users db' = db_users ?db1" using assms(7) by simp
  have "accounts_inv ?db1" using assms by (intro accounts_update) auto
  moreover have "has_local_admin ?db1" if "has_local_admin db"
    using that by (rule admin_update_keep) (simp add: local_admin_def active_admin_def assms)
  ultimately show ?thesis using frame_inv [OF same] assms(8) by simp
qed

text \<open>No statement removes the last local administrator, and only \<open>enable\<close> switches access on.\<close>

lemma store_step_accounts:
  assumes "store_step dec now h db db'" "accounts_inv db"
  shows "accounts_inv db' \<and> (has_local_admin db \<longrightarrow> has_local_admin db') \<and>
    (db_policy db' = db_policy db \<or> has_local_admin db' \<or> \<not> ap_enabled (db_policy db'))"
  using assms
proof cases
  case (insert i name d r salt hash cs u)
  then show ?thesis using assms(2) insert_user_facts
    by (fastforce simp: create_store_user_def Let_def new_user_def split: sum.splits)
next
  case (update i d r a cs salt hash x)
  then show ?thesis using update_store_user_inv [OF assms(2)] by blast
next
  case (external i iss sub name d r cs cl u)
  then show ?thesis using upsert_external_inv [OF assms(2)] by blast
next
  case (recover i salt hash x)
  then show ?thesis
  proof (cases "db' = db")
    case False
    with recover have upd: "db_users db' = sql_update (\<lambda>u. au_id u = i)
        (\<lambda>u. u\<lparr>au_password_salt := salt, au_password_hash := hash, au_updated_at := now\<rparr>) (db_users db)"
      "db_policy db' = db_policy db"
      by (auto simp: recover_store_password_def Let_def split: option.splits if_splits)
    have "accounts_inv db' \<and> (has_local_admin db \<longrightarrow> has_local_admin db') \<and> db_policy db' = db_policy db"
      by (rule account_update_inv [OF assms(2) _ _ _ _ _ upd]) simp_all
    then show ?thesis by simp
  qed (use assms in auto)
next
  case (session i t c hrs x)
  then have upd: "db_users db' = sql_update (\<lambda>u. au_id u = i)
      (\<lambda>u. u\<lparr>au_last_login_at := Some now, au_updated_at := now\<rparr>) (db_users db)" "db_policy db' = db_policy db"
    by (auto simp: create_session_def Let_def split: if_splits)
  have "accounts_inv db' \<and> (has_local_admin db \<longrightarrow> has_local_admin db') \<and> db_policy db' = db_policy db"
    by (rule account_update_inv [OF assms(2) _ _ _ _ _ upd]) simp_all
  then show ?thesis by simp
next
  case enable
  then show ?thesis using assms(2) admin_count_iff [of db] frame_inv [of db' db] by simp
next
  case disable
  then have "\<not> ap_enabled (db_policy db')" by (simp add: set_access_enabled_def Let_def)
  then show ?thesis using disable assms(2) frame_inv [of db' db] by simp
next
  case (start n v src)
  then have "db_users db' = db_users db" "db_policy db' = db_policy db"
    by (auto simp: create_oidc_transaction_def Let_def split: if_splits)
  then show ?thesis using assms(2) frame_inv [of db' db] by simp
next
  case (consume s x)
  then have "db_users db' = db_users db" "db_policy db' = db_policy db"
    by (auto simp: consume_oidc_transaction_def split: option.splits)
  then show ?thesis using assms(2) frame_inv [of db' db] by simp
qed (use assms(2) frame_inv [of db' db] in simp_all)

lemma store_steps_inv: "(store_step dec now h)\<^sup>*\<^sup>* db db' \<Longrightarrow> access_inv db \<Longrightarrow> access_inv db'"
proof (induction rule: rtranclp_induct)
  case (step x y)
  then show ?case using store_step_accounts [of dec now h x y] unfolding access_inv_def by metis
qed


section \<open>The services act through these statements\<close>

abbreviation writes :: "bool \<Rightarrow> instant \<Rightarrow> string \<Rightarrow> auth_world \<Rightarrow> auth_world \<Rightarrow> bool" where
  "writes dec now h w w' \<equiv> (store_step dec now h)\<^sup>*\<^sup>* (aw_db w) (aw_db w')"

lemma two_steps: "store_step dec now h a b \<Longrightarrow> store_step dec now h b c \<Longrightarrow> (store_step dec now h)\<^sup>*\<^sup>* a c"
  by (meson converse_rtranclp_into_rtranclp r_into_rtranclp)

lemma writes_step: "store_step dec now h (aw_db w) db \<Longrightarrow> writes dec now h w (w\<lparr>aw_db := db\<rparr>)" by auto

lemma audited_db [simp]: "aw_db (snd (audited env r x w)) = aw_db w"
  by (simp add: audited_def split: prod.split sum.split)

lemma audited_eq: "audited env r x w = (y, w') \<Longrightarrow> aw_db w' = aw_db w"
  using audited_db [of env r x w] by simp

lemma verify_credentials_writes: "writes dec (ax_now env) h w (snd (verify_credentials env name pw src w))"
  by (auto simp: verify_credentials_def Let_def intro!: writes_step store_step.attempt split: option.split)

lemma verify_credentials_user:
  assumes "verify_credentials env name pw src w = (Inr u, w')"
  shows "get_user_by_username name (aw_db w) = Some u" "au_active u" "au_auth_source u = ''local''"
    "password_matches env pw (au_password_salt u) (au_password_hash u)" "db_users (aw_db w') = db_users (aw_db w)"
  using assms by (auto simp: verify_credentials_def credentials_accepted_def Let_def split: option.splits if_splits)

lemma new_session_writes: "writes dec (ax_now env) h w (snd (new_session env u w))"
  by (auto simp: new_session_def intro!: writes_step intro: store_step.session split: sum.split)

lemma writes_trans: "writes dec t h w1 w2 \<Longrightarrow> writes dec t h w2 w3 \<Longrightarrow> writes dec t h w1 w3" by (rule rtranclp_trans)

lemma enable_access_writes:
  assumes "has_local_admin (aw_db w)"
  shows "writes dec (ax_now env) h w (snd (enable_access env b u w))"
proof -
  let ?w1 = "w\<lparr>aw_db := set_access_enabled (ax_now env) True (aw_db w)\<rparr>"
  have 1: "writes dec (ax_now env) h w ?w1" using assms admin_count_iff by (intro writes_step store_step.enable) auto
  have 2: "writes dec (ax_now env) h ?w1 (snd (new_session env u ?w1))" by (rule new_session_writes)
  have "aw_db (snd (enable_access env b u w)) = aw_db (snd (new_session env u ?w1))"
    by (auto simp: enable_access_def Let_def split: prod.split sum.split)
  then show ?thesis using writes_trans [OF 1 2] by simp
qed

lemma bootstrap_writes: "writes dec (ax_now env) h w (snd (bootstrap env name d pw src w))"
proof (cases "ap_enabled (db_policy (aw_db w)) \<or> \<not> is_ok (check_username name) \<or> \<not> is_ok (check_display_name d)
    \<or> \<not> is_ok (validate_password pw)")
  case True
  then show ?thesis by (auto simp: bootstrap_def split: sum.split)
next
  case False
  then obtain username display where ok: "\<not> ap_enabled (db_policy (aw_db w))" "check_username name = Inr username"
      "check_display_name d = Inr display" "validate_password pw = Inr ()"
    by (auto simp: is_ok_iff)
  show ?thesis
  proof (cases "user_count (aw_db w) = 0")
    case True
    obtain salt hash where p: "new_password env pw = (salt, hash)" by fastforce
    show ?thesis
    proof (cases "create_store_user (ax_now env) (ax_user_id env) username display ''admin'' salt hash [''primary''] (aw_db w)")
      case (Inl e)
      then show ?thesis by (simp add: bootstrap_def ok True p)
    next
      case (Inr r)
      then obtain u db where r: "create_store_user (ax_now env) (ax_user_id env) username display ''admin'' salt hash
          [''primary''] (aw_db w) = Inr (u, db)" by (cases r) auto
      then have "local_admin u \<and> u \<in> set (db_users db)"
        by (auto simp: create_store_user_def Let_def insert_user_def new_user_def local_admin_def active_admin_def
            split: sum.splits if_splits)
      then have "has_local_admin (aw_db (w\<lparr>aw_db := db\<rparr>))" by (auto simp: has_local_admin_def list_ex_iff)
      then have "writes dec (ax_now env) h (w\<lparr>aw_db := db\<rparr>) (snd (enable_access env False u (w\<lparr>aw_db := db\<rparr>)))"
        by (rule enable_access_writes)
      moreover have "writes dec (ax_now env) h w (w\<lparr>aw_db := db\<rparr>)" using r by (intro writes_step store_step.insert)
      ultimately show ?thesis using writes_trans by (simp add: bootstrap_def ok True p r)
    qed
  next
    case False
    obtain res w1 where v: "verify_credentials env username pw src w = (res, w1)" by fastforce
    then have w1: "writes dec (ax_now env) h w w1" using verify_credentials_writes [of dec env h w username pw src] by simp
    show ?thesis
    proof (cases "\<exists>u. res = Inr u \<and> au_role u = ''admin''")
      case True
      then obtain u where u: "res = Inr u" "au_role u = ''admin''" by blast
      note facts = verify_credentials_user [OF v [unfolded u(1)]]
      have "u \<in> set (db_users (aw_db w))"
        using facts(1) by (auto simp: get_user_by_username_def dest: sql_first_SomeD)
      then have "has_local_admin (aw_db w1)"
        using facts u(2) by (auto simp: has_local_admin_def list_ex_iff local_admin_def active_admin_def)
      then have "writes dec (ax_now env) h w1 (snd (enable_access env True u w1))" by (rule enable_access_writes)
      with w1 have "writes dec (ax_now env) h w (snd (enable_access env True u w1))" by (rule writes_trans)
      then show ?thesis using False by (simp add: bootstrap_def ok v u)
    next
      case False
      then show ?thesis using w1 \<open>user_count (aw_db w) \<noteq> 0\<close> by (auto simp: bootstrap_def ok v split: sum.split)
    qed
  qed
qed

lemma disable_access_writes: "writes dec (ax_now env) h w (snd (disable_access env i pw w))"
  by (auto simp: disable_access_def intro: store_step.disable split: option.split)

lemma login_writes: "writes dec (ax_now env) h w (snd (login env name pw src w))"
proof -
  have "writes dec (ax_now env) h w (snd (login env name pw src w))" if "check_username name = Inr username" "ap_enabled (db_policy (aw_db w))"
    for username
  proof -
    obtain res w1 where v: "verify_credentials env username pw src w = (res, w1)" by fastforce
    then have w1: "writes dec (ax_now env) h w w1" using verify_credentials_writes [of dec env h w username pw src] by simp
    obtain res2 w2 where n: "new_session env (projr res) w1 = (res2, w2)" by fastforce
    then have "writes dec (ax_now env) h w1 w2" using new_session_writes [of dec env h w1 "projr res"] by simp
    with w1 have w2: "writes dec (ax_now env) h w w2" by (rule writes_trans)
    show ?thesis
      using that w1 w2 n by (cases res; cases res2) (simp_all add: login_def v)
  qed
  then show ?thesis by (cases "check_username name") (auto simp: login_def)
qed

lemma federated_session_writes: "writes dec (ax_now env) h w (snd (federated_session env u w))"
  using new_session_writes by (simp add: federated_session_def)

lemma recover_local_password_writes: "writes True (ax_now env) h w (snd (recover_local_password env name pw w))"
  by (auto simp: recover_local_password_def Let_def intro: store_step.recover
      split: sum.split option.split prod.split)

lemma logout_writes: "writes dec (ax_now env) h w (snd (logout env t u w))"
  by (auto simp: logout_def Let_def revoke_session_def intro: store_step.revoke split: option.split)

lemma create_user_writes: "writes dec (ax_now env) h w (snd (create_user env v actor w))"
  by (auto simp: create_user_def intro: store_step.insert split: sum.split prod.split)

lemma update_user_writes: "writes True (ax_now env) h w (snd (update_user env i v actor w))"
proof -
  have rev: "store_step True (ax_now env) h db0 db \<Longrightarrow> (store_step True (ax_now env) h)\<^sup>*\<^sup>* db0 (snd (revoke_user_sessions (ax_now env) i db))" for db0 db
    by (simp add: revoke_user_sessions_def two_steps store_step.revoke)
  show ?thesis
    by (auto simp: update_user_def Let_def intro: store_step.update rev split: sum.split prod.split option.split)
qed

lemma access_control_writes: "writes dec (ax_now env) h w (snd (access_control env b r w))"
  by (auto simp: access_control_def split: option.split prod.split)


lemma update_oidc_policy_writes: "writes dec (ax_now env) h (ow_auth w) (ow_auth (snd (update_oidc_policy env ox v actor w)))"
  by (auto simp: update_oidc_policy_def lift_auth_def revoke_external_sessions_def Let_def split: sum.split
      intro: two_steps [OF store_step.oidc store_step.revoke])

lemma oidc_begin_writes: "writes dec (ax_now env) (ax_digest env (ox_state ox)) w (snd (oidc_begin env ox p ms ep src w))"
  by (auto simp: oidc_begin_def Let_def intro: store_step.start split: sum.split)

lemma oidc_callback_writes: "writes dec (ax_now env) h w (snd (oidc_callback env c st ck w))"
  by (auto simp: oidc_callback_def intro: store_step.consume split: sum.split prod.split option.split)

lemma deauthorize_writes: "writes dec (ax_now env) h w (snd (deauthorize env p sub e w))"
proof -
  have "aw_db w' = db" if "audited env r () (w\<lparr>aw_db := db\<rparr>) = (y, w')" for env r db y w'
    using audited_eq [OF that] by simp
  then show ?thesis
    by (auto simp: deauthorize_def revoke_user_sessions_def Let_def intro: store_step.revoke split: option.split prod.split)
qed

lemma open_session_writes: "writes dec (ax_now env) h w (snd (open_session env repr f cs a src u w))"
proof -
  obtain y w' where fed: "federated_session env u w = (y, w')" by fastforce
  then have "writes dec (ax_now env) h w w'" using federated_session_writes [of dec env h w u] by simp
  then show ?thesis by (cases y) (simp_all add: open_session_def fed)
qed

lemma admitted_session_writes: "writes True (ax_now env) h w (snd (admitted_session env repr f cs sub a src w))"
proof -
  have "writes True (ax_now env) h w (snd (open_session env repr f cs a src u (w\<lparr>aw_db := db\<rparr>)))" if "store_step True (ax_now env) h (aw_db w) db" for u db
    using that open_session_writes [of True env h "w\<lparr>aw_db := db\<rparr>" repr f cs a src u]
    by (simp add: converse_rtranclp_into_rtranclp)
  then show ?thesis
    unfolding admitted_session_def Let_def by (auto intro: store_step.external split: sum.split prod.split)
qed

lemma oidc_finish_writes: "writes True (ax_now env) h w (snd (oidc_finish env ox f cs src w))"
  using deauthorize_writes admitted_session_writes
  by (auto simp: oidc_finish_def split: option.split json.split sum.split)


section \<open>Access control as a machine\<close>

text \<open>
  Every request that reaches the access services, in any order; each draws its own time and random texts
  from its environment. A sign-in callback that has consumed its transaction waits in the list of flights
  until the provider has answered.
\<close>

record access_world =
  cw_oidc :: oidc_world
  cw_flights :: "sign_in list"

definition cw_db :: "access_world \<Rightarrow> auth_db" where
  "cw_db w = aw_db (ow_auth (cw_oidc w))"

datatype access_op =
    Bootstrap string string string string
  | Disable string string
  | Login string string string
  | Recover string string
  | Logout string "auth_user option"
  | CreateUser user_create string
  | UpdateUser string user_update string
  | UpdateOidc oidc_update string
  | BeginSignIn oidc_policy "string list" string string
  | Callback string string string
  | FinishSignIn nat claims string
  | HandleRequest bool http_request

definition on_auth :: "(auth_world \<Rightarrow> 'a \<times> auth_world) \<Rightarrow> access_world \<Rightarrow> access_world" where
  "on_auth f w = w\<lparr>cw_oidc := (cw_oidc w)\<lparr>ow_auth := snd (f (ow_auth (cw_oidc w)))\<rparr>\<rparr>"

fun access_step :: "auth_env \<times> oidc_env \<times> access_op \<Rightarrow> access_world \<Rightarrow> access_world" where
  "access_step (env, ox, Bootstrap name d pw src) w = on_auth (bootstrap env name d pw src) w"
| "access_step (env, ox, Disable i pw) w = on_auth (disable_access env i pw) w"
| "access_step (env, ox, Login name pw src) w = on_auth (login env name pw src) w"
| "access_step (env, ox, Recover name pw) w = on_auth (recover_local_password env name pw) w"
| "access_step (env, ox, Logout token u) w = on_auth (logout env token u) w"
| "access_step (env, ox, CreateUser v actor) w = on_auth (create_user env v actor) w"
| "access_step (env, ox, UpdateUser i v actor) w = on_auth (update_user env i v actor) w"
| "access_step (env, ox, UpdateOidc v actor) w = w\<lparr>cw_oidc := snd (update_oidc_policy env ox v actor (cw_oidc w))\<rparr>"
| "access_step (env, ox, BeginSignIn p ms ep src) w = on_auth (oidc_begin env ox p ms ep src) w"
| "access_step (env, ox, Callback c st ck) w =
     (case oidc_callback env c st ck (ow_auth (cw_oidc w)) of
        (Inl e, aw) \<Rightarrow> w\<lparr>cw_oidc := (cw_oidc w)\<lparr>ow_auth := aw\<rparr>\<rparr>
      | (Inr f, aw) \<Rightarrow> w\<lparr>cw_oidc := (cw_oidc w)\<lparr>ow_auth := aw\<rparr>, cw_flights := cw_flights w @ [f]\<rparr>)"
| "access_step (env, ox, FinishSignIn n cs src) w =
     (if n < length (cw_flights w)
      then (on_auth (oidc_finish env ox (cw_flights w ! n) cs src) w)
        \<lparr>cw_flights := take n (cw_flights w) @ drop (Suc n) (cw_flights w)\<rparr>
      else w)"
| "access_step (env, ox, HandleRequest b r) w = on_auth (access_control env b r) w"

lemma on_auth_db [simp]: "cw_db (on_auth f w) = aw_db (snd (f (ow_auth (cw_oidc w))))"
  by (simp add: on_auth_def cw_db_def)

text \<open>The operations that decide a user's access.\<close>

fun decides_access :: "access_op \<Rightarrow> bool" where
  "decides_access (UpdateUser i v actor) = True"
| "decides_access (Recover name pw) = True"
| "decides_access (FinishSignIn n cs src) = True"
| "decides_access _ = False"

lemma access_step_writes:
  assumes "e = (env, ox, op)" "decides_access op \<Longrightarrow> dec"
  shows "(store_step dec (ax_now env) (ax_digest env (ox_state ox)))\<^sup>*\<^sup>* (cw_db w) (cw_db (access_step e w))"
proof -
  let ?h = "ax_digest env (ox_state ox)"
  have callback: "(store_step dec (ax_now env) ?h)\<^sup>*\<^sup>* (aw_db aw0) (aw_db aw)"
    if "oidc_callback env c st ck aw0 = (y, aw)" for c st ck aw0 y aw
    using oidc_callback_writes [of dec env ?h aw0 c st ck] that by simp
  have finish: "cw_db (on_auth f w\<lparr>cw_flights := fs\<rparr>) = aw_db (snd (f (ow_auth (cw_oidc w))))"
    for f :: "auth_world \<Rightarrow> 'a \<times> auth_world" and fs
    by (simp add: on_auth_def cw_db_def)
  show ?thesis
    unfolding assms
    by (cases dec; cases op)
      (use assms(2) in \<open>auto simp: cw_db_def [of w] finish bootstrap_writes disable_access_writes login_writes recover_local_password_writes
        logout_writes create_user_writes update_user_writes oidc_begin_writes oidc_finish_writes access_control_writes
        cw_db_def [of "_\<lparr>cw_oidc := _\<rparr>"] update_oidc_policy_writes cw_db_def [of "_\<lparr>cw_oidc := _, cw_flights := _\<rparr>"]
        dest: callback split: prod.split sum.split\<close>)
qed

lemma access_step_all:
  "e = (env, ox, op) \<Longrightarrow>
    (store_step True (ax_now env) (ax_digest env (ox_state ox)))\<^sup>*\<^sup>* (cw_db w) (cw_db (access_step e w))"
  by (rule access_step_writes) simp_all

interpretation access_machine: invariant_machine access_step "\<lambda>w. access_inv (cw_db w)"
proof
  show "access_inv (cw_db (access_step e w))" if "access_inv (cw_db w)" for w e
    using store_steps_inv [OF access_step_all that] by (cases e) blast
qed


section \<open>Throttling\<close>

text \<open>The failed attempts for one name and source in the quarter of an hour up to \<open>t\<close>.\<close>

definition failures_until :: "instant \<Rightarrow> string \<Rightarrow> string \<Rightarrow> auth_db \<Rightarrow> nat" where
  "failures_until t name src db = sql_count (\<lambda>a. la_username a = name \<and> la_source a = src \<and>
     t - minutes 15 \<le> la_created_at a \<and> la_created_at a \<le> t) (db_attempts db)"

definition throttle_inv :: "instant \<Rightarrow> auth_db \<Rightarrow> bool" where
  "throttle_inv now db = ((\<forall>a \<in> set (db_attempts db). la_created_at a \<le> now) \<and>
     (\<forall>t name src. failures_until t name src db \<le> 5))"

lemma count_delete: "sql_count p (sql_delete q rows) \<le> sql_count p rows"
  by (induction rows) (auto simp: sql_count_def sql_delete_def)

lemma count_mono: "(\<And>r. r \<in> set rows \<Longrightarrow> p r \<Longrightarrow> q r) \<Longrightarrow> sql_count p rows \<le> sql_count q rows"
  by (induction rows) (auto simp: sql_count_def)

lemma throttle_later: "t \<le> now \<Longrightarrow> throttle_inv t db \<Longrightarrow> throttle_inv now db"
  by (fastforce simp: throttle_inv_def)

lemma throttle_attempt:
  assumes inv: "throttle_inv now db" and b: "b \<or> \<not> login_blocked now name src db"
  shows "throttle_inv now (record_login_attempt now name src b db)"
proof -
  let ?rows = "if b then sql_delete (\<lambda>a. la_username a = name \<and> la_source a = src) (db_attempts db)
    else db_attempts db @ [\<lparr>la_username = name, la_source = src, la_created_at = now\<rparr>]"
  have rows: "db_attempts (record_login_attempt now name src b db) = sql_delete (\<lambda>a. la_created_at a < now - days 1) ?rows"
    by (simp add: record_login_attempt_def Let_def)
  have old: "\<forall>a \<in> set (db_attempts db). la_created_at a \<le> now" using inv by (simp add: throttle_inv_def)
  have bound: "failures_until t n s (db\<lparr>db_attempts := ?rows\<rparr>) \<le> 5" for t n s
  proof (cases "b \<or> n \<noteq> name \<or> s \<noteq> src \<or> t < now \<or> now < t - minutes 15")
    case True
    then have "failures_until t n s (db\<lparr>db_attempts := ?rows\<rparr>) \<le> failures_until t n s db"
      by (auto simp: failures_until_def sql_simps count_delete)
    also have "\<dots> \<le> 5" using inv by (simp add: throttle_inv_def)
    finally show ?thesis .
  next
    case False
    then have "\<not> login_blocked now name src db" using b by simp
    then have "sql_count (\<lambda>a. la_username a = name \<and> la_source a = src \<and> now - minutes 15 \<le> la_created_at a) (db_attempts db) < 5"
      by (simp add: login_blocked_def)
    moreover have "failures_until t n s db \<le>
        sql_count (\<lambda>a. la_username a = name \<and> la_source a = src \<and> now - minutes 15 \<le> la_created_at a) (db_attempts db)"
      unfolding failures_until_def by (rule count_mono) (use False in auto)
    ultimately show ?thesis using False by (auto simp: failures_until_def sql_simps)
  qed
  have "failures_until t n s (record_login_attempt now name src b db) \<le> failures_until t n s (db\<lparr>db_attempts := ?rows\<rparr>)" for t n s
    by (simp add: failures_until_def rows count_delete)
  with bound have "failures_until t n s (record_login_attempt now name src b db) \<le> 5" for t n s
    using le_trans by blast
  moreover have "\<forall>a \<in> set (db_attempts (record_login_attempt now name src b db)). la_created_at a \<le> now"
    using old by (auto simp: rows sql_simps split: if_splits)
  ultimately show ?thesis unfolding throttle_inv_def by blast
qed

text \<open>The statements on accounts leave attempts and sign-in transactions alone.\<close>

abbreviation same_logins :: "auth_db \<Rightarrow> auth_db \<Rightarrow> bool" where
  "same_logins db db' \<equiv> db_attempts db' = db_attempts db \<and> db_transactions db' = db_transactions db"

lemma insert_user_logins: "insert_user u db = Inr db' \<Longrightarrow> same_logins db db'"
  by (auto simp: insert_user_def split: if_splits)

lemma create_store_user_logins: "create_store_user now i n d r sa ha cs db = Inr (u, db') \<Longrightarrow> same_logins db db'"
  unfolding create_store_user_def Let_def by (auto dest: insert_user_logins split: sum.splits)

lemma revoke_logins: "same_logins db (revoke_where now p db)"
  by (simp add: revoke_where_def)

lemma update_store_user_logins: "update_store_user now i d r a cs sa ha db = Inr (x, db') \<Longrightarrow> same_logins db db'"
  unfolding update_store_user_def Let_def by (auto simp: revoke_logins split: option.splits if_splits)

lemma upsert_external_logins: "upsert_external_user now i iss sub n d r cs cl db = Inr (u, db') \<Longrightarrow> same_logins db db'"
  unfolding upsert_external_user_def Let_def by (auto dest: insert_user_logins split: option.splits sum.splits)

lemma recover_logins: "recover_store_password now i sa ha db = (x, db') \<Longrightarrow> same_logins db db'"
  unfolding recover_store_password_def Let_def by (auto simp: revoke_logins split: option.splits if_splits)

lemma session_logins: "create_session now i t c hrs db = Inr (x, db') \<Longrightarrow> same_logins db db'"
  unfolding create_session_def Let_def by (auto split: if_splits)

lemma access_logins: "same_logins db (set_access_enabled now b db)" "same_logins db (update_store_oidc now q db)"
  by (simp_all add: set_access_enabled_def update_store_oidc_def revoke_logins Let_def)

lemma store_step_logins:
  assumes "store_step dec now h db db'"
  obtains (others) "same_logins db db'"
  | (attempt) b name src where "db' = record_login_attempt now name src b db" "b \<or> \<not> login_blocked now name src db"
  | (start) n v src where "create_oidc_transaction now h n v src db = Inr db'"
  | (consume) s x where "consume_oidc_transaction now s db = (x, db')"
  using assms
proof cases
  case insert then show thesis by (rule others [OF create_store_user_logins])
next
  case update then show thesis by (intro others) (rule update_store_user_logins)
next
  case external then show thesis by (intro others) (rule upsert_external_logins)
next
  case recover then show thesis by (intro others) (rule recover_logins)
next
  case session then show thesis by (rule others [OF session_logins])
next
  case (attempt b name src) then show thesis by (rule that(2))
next
  case (start n v src) then show thesis by (rule that(3))
next
  case (consume s x) then show thesis by (rule that(4))
qed (use others in \<open>simp_all add: revoke_logins access_logins\<close>)

lemma throttle_frame: "db_attempts db' = db_attempts db \<Longrightarrow> throttle_inv now db' = throttle_inv now db"
  by (simp add: throttle_inv_def failures_until_def)

lemma throttle_steps: "(store_step dec now h)\<^sup>*\<^sup>* db db' \<Longrightarrow> throttle_inv now db \<Longrightarrow> throttle_inv now db'"
proof (induction rule: rtranclp_induct)
  case (step x y)
  have x: "throttle_inv now x" using step by simp
  from step.hyps(2) show ?case
  proof (cases rule: store_step_logins)
    case others
    then show ?thesis using x throttle_frame by blast
  next
    case (attempt b name src)
    then show ?thesis using x throttle_attempt by blast
  next
    case (start n v src)
    then have "db_attempts y = db_attempts x"
      unfolding create_oidc_transaction_def Let_def by (auto split: if_splits)
    then show ?thesis using x throttle_frame by blast
  next
    case (consume s r)
    then have "db_attempts y = db_attempts x"
      unfolding consume_oidc_transaction_def by (auto split: option.splits)
    then show ?thesis using x throttle_frame by blast
  qed
qed

abbreviation op_time :: "auth_env \<times> oidc_env \<times> access_op \<Rightarrow> instant" where
  "op_time e \<equiv> ax_now (fst e)"

interpretation throttling: timed_machine access_step op_time "\<lambda>t w. throttle_inv t (cw_db w)"
proof
  show "throttle_inv (op_time e) (cw_db (access_step e w))" if "t \<le> op_time e" "throttle_inv t (cw_db w)" for t e w
    using throttle_steps [OF access_step_all throttle_later [OF that]] by (cases e) auto
qed


section \<open>Sign-in transactions\<close>

text \<open>No transaction with this state can still be consumed.\<close>

definition spent :: "string \<Rightarrow> auth_db \<Rightarrow> bool" where
  "spent s db = (\<forall>t \<in> set (db_transactions db). tx_state_sha256 t = s \<longrightarrow> tx_consumed_at t \<noteq> None)"

lemma spent_steps: "(store_step dec now h)\<^sup>*\<^sup>* db db' \<Longrightarrow> h \<noteq> s \<Longrightarrow> spent s db \<Longrightarrow> spent s db'"
proof (induction rule: rtranclp_induct)
  case (step x y)
  have x: "spent s x" using step by simp
  from step.hyps(2) show ?case
  proof (cases rule: store_step_logins)
    case others
    then show ?thesis using x by (simp add: spent_def)
  next
    case (attempt b name src)
    then show ?thesis using x by (simp add: spent_def record_login_attempt_def Let_def)
  next
    case (start n v src)
    then have "set (db_transactions y) \<subseteq> insert \<lparr>tx_state_sha256 = h, tx_nonce_sha256 = n, tx_code_verifier = v,
        tx_source = src, tx_created_at = now, tx_expires_at = now + minutes 10, tx_consumed_at = None\<rparr> (set (db_transactions x))"
      unfolding create_oidc_transaction_def Let_def by (auto simp: sql_simps split: if_splits)
    then show ?thesis using x step.prems unfolding spent_def by fastforce
  next
    case (consume st r)
    then show ?thesis
    proof (cases "db_transactions y = db_transactions x")
      case True
      then show ?thesis using x by (simp add: spent_def)
    next
      case False
      with consume have "db_transactions y = sql_update (\<lambda>t. tx_state_sha256 t = st \<and> tx_consumed_at t = None)
          (\<lambda>t. t\<lparr>tx_consumed_at := Some now\<rparr>) (db_transactions x)"
        unfolding consume_oidc_transaction_def by (auto split: option.splits)
      then show ?thesis using x by (auto simp: spent_def set_sql_update)
    qed
  qed
qed simp

lemma spent_run:
  "spent s (cw_db w) \<Longrightarrow> list_all (\<lambda>(env, ox, op). ax_digest env (ox_state ox) \<noteq> s) es \<Longrightarrow>
    spent s (cw_db (run_ops access_step w es))"
proof (induction es arbitrary: w)
  case (Cons e es)
  obtain env ox op where e: "e = (env, ox, op)" by (cases e)
  have "spent s (cw_db (access_step e w))"
    using spent_steps [OF access_step_all [OF e]] Cons.prems by (simp add: e)
  then show ?case using Cons by simp
qed simp

lemma consumed_is_spent:
  assumes "consume_oidc_transaction now s db = (Some t, db')"
  shows "spent s db'"
  unfolding spent_def
proof (intro ballI impI)
  fix x
  assume x: "x \<in> set (db_transactions db')" "tx_state_sha256 x = s"
  have "db_transactions db' = sql_update (\<lambda>t. tx_state_sha256 t = s \<and> tx_consumed_at t = None)
      (\<lambda>t. t\<lparr>tx_consumed_at := Some now\<rparr>) (db_transactions db)"
    using assms unfolding consume_oidc_transaction_def by (auto split: option.splits)
  with x(1) have "x \<in> set (sql_update (\<lambda>t. tx_state_sha256 t = s \<and> tx_consumed_at t = None)
      (\<lambda>t. t\<lparr>tx_consumed_at := Some now\<rparr>) (db_transactions db))" by simp
  then show "tx_consumed_at x \<noteq> None"
    using x(2) by (cases rule: in_sql_update_cases) auto
qed

lemma spent_consume: "spent s db \<Longrightarrow> consume_oidc_transaction now s db = (None, db)"
proof -
  assume "spent s db"
  then have "sql_first (\<lambda>t. tx_state_sha256 t = s \<and> pending_transaction now t) (db_transactions db) = None"
    unfolding sql_first_None spent_def pending_transaction_def by blast
  then show ?thesis by (simp add: consume_oidc_transaction_def)
qed

lemma spent_refused: "spent (ax_digest env st) (aw_db w) \<Longrightarrow> \<not> is_ok (fst (oidc_callback env c st ck w))"
  using spent_consume [of "ax_digest env st" "aw_db w" "ax_now env"]
  by (auto simp: oidc_callback_def split: sum.split)

lemma callback_spends:
  assumes "oidc_callback env c st ck w = (Inr f, w')"
  shows "spent (ax_digest env st) (aw_db w')"
proof -
  obtain t db where "consume_oidc_transaction (ax_now env) (ax_digest env st) (aw_db w) = (Some t, db)" "w' = w\<lparr>aw_db := db\<rparr>"
    using assms by (auto simp: oidc_callback_def split: sum.splits prod.splits option.splits if_splits)
  then show ?thesis using consumed_is_spent by simp
qed


section \<open>Authorisation and roles\<close>

text \<open>The three roles in the order of their rights.\<close>

datatype access_role = Viewer | Analyst | Admin

fun role_rank :: "access_role \<Rightarrow> nat" where
  "role_rank Viewer = 0"
| "role_rank Analyst = 1"
| "role_rank Admin = 2"

fun role_text :: "access_role \<Rightarrow> string" where
  "role_text Viewer = ''viewer''"
| "role_text Analyst = ''analyst''"
| "role_text Admin = ''admin''"

instantiation access_role :: linorder
begin

definition less_eq_access_role :: "access_role \<Rightarrow> access_role \<Rightarrow> bool" where
  "less_eq_access_role r s = (role_rank r \<le> role_rank s)"

definition less_access_role :: "access_role \<Rightarrow> access_role \<Rightarrow> bool" where
  "less_access_role r s = (role_rank r < role_rank s)"

instance
proof
  fix r s t :: access_role
  show "r < s \<longleftrightarrow> r \<le> s \<and> \<not> s \<le> r" by (auto simp: less_eq_access_role_def less_access_role_def)
  show "r \<le> r" by (simp add: less_eq_access_role_def)
  show "r \<le> s \<Longrightarrow> s \<le> t \<Longrightarrow> r \<le> t" by (simp add: less_eq_access_role_def)
  show "r \<le> s \<Longrightarrow> s \<le> r \<Longrightarrow> r = s" by (cases r; cases s) (simp_all add: less_eq_access_role_def)
  show "r \<le> s \<or> s \<le> r" by (auto simp: less_eq_access_role_def)
qed

end

lemma role_order [simp]:
  "Viewer \<le> r" "Analyst \<le> Admin" "r \<le> r" "\<not> Admin \<le> Analyst" "\<not> Analyst \<le> Viewer" "\<not> Admin \<le> Viewer" "r \<le> Admin"
  by (cases r; simp add: less_eq_access_role_def)+

text \<open>What a request needs: a role, and for some mutations a connection.\<close>

definition safe_method :: "string \<Rightarrow> bool" where
  "safe_method meth = List.member [''GET'', ''HEAD'', ''OPTIONS''] (upper_method meth)"

definition required_role :: "string \<Rightarrow> string \<Rightarrow> access_role" where
  "required_role meth path =
     (if path = ''/api/auth/logout'' then Viewer
      else if starts_with ''/api/auth/users'' path then Admin
      else if safe_method meth then Viewer
      else if admin_required (upper_method meth) path then Admin else Analyst)"

definition needs_connection :: "string \<Rightarrow> string \<Rightarrow> bool" where
  "needs_connection meth path = (path \<noteq> ''/api/auth/logout'' \<and> \<not> safe_method meth
     \<and> connection_required (upper_method meth) path)"


lemma role_text_ROLES: "List.member ROLES r \<longleftrightarrow> (\<exists>role. r = role_text role)"
proof
  assume "List.member ROLES r"
  then have "r = role_text Viewer \<or> r = role_text Analyst \<or> r = role_text Admin"
    by (auto simp: ROLES_def)
  then show "\<exists>role. r = role_text role" by blast
next
  assume "\<exists>role. r = role_text role"
  then obtain role where "r = role_text role" by blast
  then show "List.member ROLES r" by (cases role) (simp_all add: ROLES_def)
qed

lemma role_text_inj: "role_text r = role_text s \<longleftrightarrow> r = s"
  by (cases r; cases s) auto

lemma authorize_role:
  assumes "au_role user = role_text role"
  shows "fst (authorize user meth path) \<longleftrightarrow> required_role meth path \<le> role
    \<and> (needs_connection meth path \<longrightarrow> au_connection_ids user \<noteq> [])"
proof -
  have "List.member ROLES (role_text role)" using role_text_ROLES by blast
  then show ?thesis
    using assms
    by (cases role) (auto simp: authorize_def required_role_def needs_connection_def safe_method_def Let_def)
qed


text \<open>C17. The chain of checks of \<open>authorize\<close> is the comparison of the user's role, in the order viewer, analyst,
  admin, with the least role the method and path need, together with the demand for a connection: the
  request is allowed exactly when the role is one of the three and high enough and, where a connection is
  needed, the user has one.\<close>

theorem authorize_is_role_order:
  "fst (authorize user meth path) =
    ((\<exists>role. au_role user = role_text role \<and> required_role meth path \<le> role)
     \<and> (if needs_connection meth path then au_connection_ids user \<noteq> [] else True))"
proof (cases "List.member ROLES (au_role user)")
  case True
  then obtain role where "au_role user = role_text role" using role_text_ROLES by blast
  then show ?thesis using authorize_role [of user role meth path] by (auto simp: role_text_inj)
next
  case False
  then show ?thesis using role_text_ROLES [of "au_role user"] by (auto simp: authorize_def Let_def)
qed

lemma authorize_mono:
  assumes "fst (authorize user meth path)" "au_role user = role_text r" "r \<le> s"
  shows "fst (authorize (user\<lparr>au_role := role_text s\<rparr>) meth path)"
  using assms authorize_role [of user r meth path] authorize_role [of "user\<lparr>au_role := role_text s\<rparr>" s meth path]
  by auto


section \<open>Served requests\<close>

lemma live_session_cases:
  assumes "live_session now t db = Some (s, u)"
  shows "se_token_sha256 s = t" "se_revoked_at s = None" "now < se_expires_at s" "get_user (se_user_id s) db = Some u"
    "au_active u" "s \<in> set (db_sessions db)"
  using assms by (auto simp: live_session_def bind_eq_Some_conv dest!: sql_first_SomeD split: option.splits)


text \<open>A request that is handed over as a named user.\<close>

lemma served_user_is_authorized:
  assumes "access_control env pending r w = (Inr (Serve user), w')" "ap_enabled (db_policy (aw_db w))"
  shows "\<exists>s \<in> set (db_sessions (aw_db w)). se_token_sha256 s = ax_digest env (rq_session_cookie r)
    \<and> se_revoked_at s = None \<and> ax_now env < se_expires_at s
    \<and> get_user (se_user_id s) (aw_db w) = Some user \<and> au_active user
    \<and> (\<exists>role. au_role user = role_text role \<and> required_role (rq_method r) (rq_path r) \<le> role)
    \<and> (if needs_connection (rq_method r) (rq_path r) then au_connection_ids user \<noteq> [] else True)
    \<and> (if List.member UNSAFE_METHODS (rq_method r)
       then rq_csrf_header r = rq_csrf_cookie r \<and> se_csrf_sha256 s = ax_digest env (rq_csrf_header r) else True)"
proof -
  obtain s u where au: "authenticate env (rq_session_cookie r) w = Some (s, u)"
    and csrf: "\<not> (List.member UNSAFE_METHODS (rq_method r) \<and> (rq_csrf_header r = [] \<or> rq_csrf_cookie r = []
       \<or> rq_csrf_header r \<noteq> rq_csrf_cookie r \<or> \<not> verify_csrf env s (rq_csrf_header r)))"
    and u: "u = user" "fst (authorize u (rq_method r) (rq_path r))"
  proof (cases "authenticate env (rq_session_cookie r) w")
    case None
    then show ?thesis using assms by (auto simp: access_control_def split: if_splits)
  next
    case (Some su)
    obtain s u where su: "su = (s, u)" by (cases su)
    obtain allowed reason where a: "authorize u (rq_method r) (rq_path r) = (allowed, reason)" by fastforce
    have "fst (audited env q (Denied reason) w) \<noteq> Inr (Serve user)" for q
      by (auto simp: audited_def split: prod.split sum.split)
    then have "allowed \<and> u = user \<and> \<not> (List.member UNSAFE_METHODS (rq_method r) \<and> (rq_csrf_header r = [] \<or> rq_csrf_cookie r = []
       \<or> rq_csrf_header r \<noteq> rq_csrf_cookie r \<or> \<not> verify_csrf env s (rq_csrf_header r)))"
      using assms Some su a by (auto simp: access_control_def split: if_splits dest: arg_cong [of _ _ fst])
    then show ?thesis using that Some su a by simp
  qed
  have live: "live_session (ax_now env) (ax_digest env (rq_session_cookie r)) (aw_db w) = Some (s, user)"
    using au u(1) by (auto simp: authenticate_def split: if_splits)
  note facts = live_session_cases [OF live]
  show ?thesis
    using facts csrf u authorize_is_role_order [of user "rq_method r" "rq_path r"]
    by (intro bexI [of _ s]) (auto simp: verify_csrf_def)
qed


text \<open>C16. With named access on, the middleware hands a request to its handler only if it is public - an OPTIONS
  request, one of the seven public paths, or a static file - and then without a user, or it is not public
  and it acts as a named user: the session cookie names a session that is neither revoked nor expired, the
  user is that session's user and is active, the role suffices for the method and path (and a connection
  is assigned where one is needed), and for POST, PUT, PATCH and DELETE the CSRF header equals the CSRF
  cookie and is the session's token.\<close>

theorem served_request_is_authorized:
  assumes "access_control env pending r w = (Inr decision, w')" "ap_enabled (db_policy (aw_db w))"
    and "decision = ServePublic \<or> (\<exists>u. decision = Serve u)"
    and public: "public = (rq_method r = ''OPTIONS'' \<or> starts_with ''/static/'' (rq_path r) \<or>
      rq_path r \<in> {''/'', ''/api/health'', ''/api/auth/status'', ''/api/auth/bootstrap'', ''/api/auth/login'',
        ''/api/auth/oidc/start'', ''/api/auth/oidc/callback''})"
  shows "if public then decision = ServePublic \<and> w' = w
    else \<exists>user. decision = Serve user \<and>
      (\<exists>s \<in> set (db_sessions (aw_db w)). se_token_sha256 s = ax_digest env (rq_session_cookie r)
        \<and> se_revoked_at s = None \<and> ax_now env < se_expires_at s
        \<and> get_user (se_user_id s) (aw_db w) = Some user \<and> au_active user
        \<and> (\<exists>role. au_role user = role_text role \<and> required_role (rq_method r) (rq_path r) \<le> role)
        \<and> (if needs_connection (rq_method r) (rq_path r) then au_connection_ids user \<noteq> [] else True)
        \<and> (if rq_method r \<in> {''POST'', ''PUT'', ''PATCH'', ''DELETE''}
           then rq_csrf_header r = rq_csrf_cookie r \<and> se_csrf_sha256 s = ax_digest env (rq_csrf_header r) else True))"
proof (cases public)
  case True
  then show ?thesis using assms(1)
    by (auto simp: public access_control_def AUTH_PUBLIC_PATHS_def List.member_iff)
next
  case False
  have unsafe: "List.member UNSAFE_METHODS (rq_method r) \<longleftrightarrow> rq_method r \<in> {''POST'', ''PUT'', ''PATCH'', ''DELETE''}"
    by (simp add: UNSAFE_METHODS_def List.member_iff)
  have "decision \<noteq> ServePublic"
  proof
    assume "decision = ServePublic"
    moreover have "fst (audited env q (Denied reason) w) \<noteq> Inr ServePublic" for q reason
      by (auto simp: audited_def split: prod.split sum.split)
    moreover have "\<not> (rq_method r = ''OPTIONS'' \<or> List.member AUTH_PUBLIC_PATHS (rq_path r) \<or> starts_with ''/static/'' (rq_path r))"
      using False by (auto simp: public AUTH_PUBLIC_PATHS_def List.member_iff)
    ultimately show False using assms(1,2)
      by (auto simp: access_control_def split: if_splits option.splits prod.splits dest: arg_cong [of _ _ fst])
  qed
  then obtain user where user: "decision = Serve user" using assms(3) by blast
  show ?thesis
    using served_user_is_authorized [OF assms(1) [unfolded user] assms(2), unfolded unsafe]
    unfolding if_not_P [OF False] user by (intro exI [of _ user] conjI refl)
qed


section \<open>A small site for the witnesses\<close>

definition start_world :: "instant \<Rightarrow> string \<Rightarrow> access_world" where
  "start_world now secret = \<lparr>cw_oidc = \<lparr>ow_auth = \<lparr>aw_db = initial_auth now, aw_audit = empty_audit\<rparr>,
     ow_secret_env = secret, ow_secret_vault = []\<rparr>, cw_flights = []\<rparr>"

definition site_env :: "instant \<Rightarrow> string \<Rightarrow> auth_env" where
  "site_env now fresh = \<lparr>ax_digest = (\<lambda>s. if length s < 4 then s else int_text (int (length s))),
     ax_scrypt = (\<lambda>p salt. p), ax_b64encode = (\<lambda>s. s), ax_b64decode = Some,
     ax_connections = [(''primary'', ''P'')], ax_now = now, ax_now_text = [],
     ax_user_id = fresh, ax_event_id = fresh, ax_salt = ''s'', ax_token = fresh, ax_csrf = fresh, ax_bound_actor = []\<rparr>"

definition site_oidc :: oidc_env where
  "site_oidc = \<lparr>ox_urlparse = (\<lambda>u. \<lparr>pu_scheme = ''https'', pu_hostname = ''h'', pu_port = Inr None, pu_username = [],
       pu_password = [], pu_path = [], pu_params = [], pu_query = [], pu_fragment = []\<rparr>),
     ox_is_loopback = (\<lambda>h. None), ox_urlencode = (\<lambda>q. []), ox_challenge = (\<lambda>v. v), ox_repr = (\<lambda>v. []),
     ox_state = ''S'', ox_nonce = ''N'', ox_verifier = ''V'', ox_header = (\<lambda>t. None), ox_decode = (\<lambda>t k a c i. Inr [])\<rparr>"

definition site_bootstrap :: "auth_env \<times> oidc_env \<times> access_op" where
  "site_bootstrap = (site_env 1 ''a'', site_oidc, Bootstrap ''admin'' ''Admin'' ''correct horse'' ''src'')"

definition site_demotion :: user_update where
  "site_demotion = \<lparr>uu_display_name = None, uu_role = Some ''viewer'', uu_password = None, uu_active = None,
     uu_connection_ids = None\<rparr>"

lemma start_inv: "access_inv (cw_db (start_world now secret))"
  by (simp add: access_inv_def accounts_inv_def cw_db_def start_world_def initial_auth_def)

lemma start_throttle: "throttle_inv now (cw_db (start_world now secret))"
  by (simp add: throttle_inv_def failures_until_def cw_db_def start_world_def initial_auth_def sql_simps)


section \<open>Properties of access control\<close>

lemma admin_run:
  assumes "access_inv (cw_db w)" "has_local_admin (cw_db w)"
  shows "has_local_admin (cw_db (run_ops access_step w es))"
  using assms
proof (induction es arbitrary: w)
  case (Cons e es)
  obtain env ox op where e: "e = (env, ox, op)" by (cases e)
  have steps: "(store_step True now h)\<^sup>*\<^sup>* db db' \<Longrightarrow> accounts_inv db \<Longrightarrow> has_local_admin db \<Longrightarrow> has_local_admin db'" for now h db db'
  proof (induction rule: rtranclp_induct)
    case (step x y)
    have "accounts_inv db \<Longrightarrow> accounts_inv x" using step.hyps(1)
      by (induction rule: rtranclp_induct) (auto dest: store_step_accounts)
    then show ?case using step store_step_accounts [of True now h x y] by blast
  qed
  have "has_local_admin (cw_db (access_step e w))"
    using steps [OF access_step_all [OF e]] Cons.prems by (simp add: access_inv_def)
  then show ?case using Cons.IH access_machine.inv_step [OF Cons.prems(1)] by simp
qed simp


text \<open>C18. Once named access is on, an active local administrator exists, and from then on at every later moment,
  whatever requests are served - users demoted or deactivated, enterprise identities re-mapped by their
  provider, access switched off and on again.\<close>

theorem break_glass_admin_remains:
  assumes "ap_enabled (db_policy (cw_db (run_ops access_step (start_world start secret) es)))"
  shows "\<exists>u \<in> set (db_users (cw_db (run_ops access_step (start_world start secret) (es @ later)))).
    au_active u \<and> au_role u = ''admin'' \<and> au_auth_source u = ''local''"
proof -
  let ?w = "run_ops access_step (start_world start secret) es"
  have inv: "access_inv (cw_db ?w)" by (rule access_machine.inv_run [OF start_inv])
  then have "has_local_admin (cw_db ?w)" using assms by (simp add: access_inv_def)
  then have "has_local_admin (cw_db (run_ops access_step (start_world start secret) (es @ later)))"
    using admin_run [OF inv] by (simp add: run_ops_append)
  then show ?thesis by (auto simp: has_local_admin_def list_ex_iff local_admin_def active_admin_def)
qed

theorem break_glass_admin_remains_witness:
  "\<exists>u \<in> set (db_users (cw_db (run_ops access_step (start_world 0 []) ([site_bootstrap] @
      [(site_env 2 ''b'', site_oidc, UpdateUser ''a'' site_demotion ''admin'')])))).
    au_active u \<and> au_role u = ''admin'' \<and> au_auth_source u = ''local''"
  by (rule break_glass_admin_remains) code_simp


text \<open>C19. As time goes forward, at most five failed logins of a name from a source fall into any quarter of an hour,
  whatever else happens, and once five have been counted the next attempt is refused without looking at the
  password or writing anything.\<close>

theorem failed_logins_are_throttled:
  assumes "sorted (start # map op_time es)"
    and "w = run_ops access_step (start_world start secret) es"
  shows "failures_until t name src (cw_db w) \<le> 5 \<and>
    (if failures_until (ax_now env) name src (cw_db w) = 5
     then verify_credentials env name password src (ow_auth (cw_oidc w)) =
       (Inl (RuntimeError ''Too many failed login attempts. Wait 15 minutes before retrying.''), ow_auth (cw_oidc w))
     else True)"
proof -
  have "throttle_inv (last (start # map op_time es)) (cw_db w)"
    using throttling.inv_timed_run [OF assms(1)] start_throttle assms(2) by simp
  then have 1: "failures_until t name src (cw_db w) \<le> 5" for t by (simp add: throttle_inv_def)
  have "login_blocked (ax_now env) name src (cw_db w)" if "failures_until (ax_now env) name src (cw_db w) = 5"
  proof -
    have "failures_until (ax_now env) name src (cw_db w) \<le> sql_count (\<lambda>a. la_username a = name \<and> la_source a = src
        \<and> ax_now env - minutes 15 \<le> la_created_at a) (db_attempts (cw_db w))"
      unfolding failures_until_def by (rule count_mono) auto
    with that show ?thesis by (simp add: login_blocked_def)
  qed
  then show ?thesis using 1 by (simp add: verify_credentials_def cw_db_def)
qed

definition guess :: "instant \<Rightarrow> auth_env \<times> oidc_env \<times> access_op" where
  "guess now = (site_env now ''g'', site_oidc, Login ''admin'' ''wrong horse'' ''src'')"

theorem failed_logins_are_throttled_witness:
  "let w = run_ops access_step (start_world 0 []) [site_bootstrap, guess 2, guess 3]
   in failures_until 3 ''admin'' ''src'' (cw_db w) = 2 \<and> failures_until 3 ''admin'' ''src'' (cw_db w) \<le> 5 \<and>
     (if failures_until (ax_now (site_env 8 ''x'')) ''admin'' ''src'' (cw_db w) = 5
      then verify_credentials (site_env 8 ''x'') ''admin'' ''correct horse'' ''src'' (ow_auth (cw_oidc w)) =
        (Inl (RuntimeError ''Too many failed login attempts. Wait 15 minutes before retrying.''), ow_auth (cw_oidc w))
      else True)"
proof -
  let ?es = "[site_bootstrap, guess 2, guess 3]"
  have sorted: "sorted (0 # map op_time ?es)" by (simp add: site_bootstrap_def guess_def site_env_def)
  have "failures_until 3 ''admin'' ''src'' (cw_db (run_ops access_step (start_world 0 []) ?es)) = 2" by code_simp
  then show ?thesis
    using failed_logins_are_throttled [OF sorted refl, where t = 3 and name = "''admin''" and src = "''src''"
      and env = "site_env 8 ''x''" and password = "''correct horse''" and secret = "[]"] unfolding Let_def by blast
qed


text \<open>C20. A sign-in callback that was accepted has used up its state: as long as no new sign-in draws a state with the
  same digest, every later callback with this state is refused, whatever happened in between.\<close>

theorem sign_in_state_is_single_use:
  assumes "oidc_callback env auth_code st cookie (ow_auth (cw_oidc w0)) = (Inr f, ow_auth (cw_oidc w))"
    and "list_all (\<lambda>(env', ox, op). ax_digest env' (ox_state ox) \<noteq> ax_digest env st) later"
    and "ax_digest env2 st2 = ax_digest env st"
  shows "\<not> is_ok (fst (oidc_callback env2 auth_code2 st2 cookie2 (ow_auth (cw_oidc (run_ops access_step w later)))))"
proof -
  have "spent (ax_digest env st) (cw_db w)" using callback_spends [OF assms(1)] by (simp add: cw_db_def)
  then have "spent (ax_digest env2 st2) (cw_db (run_ops access_step w later))"
    using spent_run [OF _ assms(2)] assms(3) by simp
  then show ?thesis by (intro spent_refused) (simp add: cw_db_def)
qed

definition open_sign_in :: access_world where
  "open_sign_in = (let w = start_world 0 []; db = cw_db w in
     w\<lparr>cw_oidc := (cw_oidc w)\<lparr>ow_auth := (ow_auth (cw_oidc w))\<lparr>aw_db := db\<lparr>
         db_policy := (db_policy db)\<lparr>ap_enabled := True\<rparr>, db_oidc := (db_oidc db)\<lparr>oi_enabled := True\<rparr>,
         db_transactions := [\<lparr>tx_state_sha256 = ''S'', tx_nonce_sha256 = ''N'', tx_code_verifier = ''V'', tx_source = ''src'',
            tx_created_at = 0, tx_expires_at = 100, tx_consumed_at = None\<rparr>]\<rparr>\<rparr>\<rparr>\<rparr>)"

theorem sign_in_state_is_single_use_witness:
  "\<not> is_ok (fst (oidc_callback (site_env 3 ''c'') ''code'' ''S'' ''S''
     (ow_auth (cw_oidc (run_ops access_step (access_step (site_env 2 ''b'', site_oidc, Callback ''code'' ''S'' ''S'') open_sign_in)
       [(site_env 3 ''d'', site_oidc\<lparr>ox_state := ''T''\<rparr>, Logout ''t'' None)])))))"
proof -
  obtain f where f: "oidc_callback (site_env 2 ''b'') ''code'' ''S'' ''S'' (ow_auth (cw_oidc open_sign_in)) =
      (Inr f, ow_auth (cw_oidc (access_step (site_env 2 ''b'', site_oidc, Callback ''code'' ''S'' ''S'') open_sign_in)))"
  proof -
    let ?r = "oidc_callback (site_env 2 ''b'') ''code'' ''S'' ''S'' (ow_auth (cw_oidc open_sign_in))"
    obtain y aw where r: "?r = (y, aw)" by fastforce
    moreover have "is_ok (fst ?r)" by code_simp
    ultimately obtain f where f: "?r = (Inr f, aw)" by (auto simp: is_ok_iff)
    then have "ow_auth (cw_oidc (access_step (site_env 2 ''b'', site_oidc, Callback ''code'' ''S'' ''S'') open_sign_in)) = aw"
      by simp
    with f show ?thesis by (intro that) simp
  qed
  show ?thesis
    by (rule sign_in_state_is_single_use [OF f]) (simp_all add: site_env_def)
qed


text \<open>The served-request theorem at a concrete site: an analyst posts with the session's token.\<close>

definition site_user :: auth_user where
  "site_user = (new_user 0 ''u'' ''ana'' ''Ana'' ''analyst'' [''primary''])"

definition session_world :: auth_world where
  "session_world = (let db = initial_auth 0 in \<lparr>aw_db = db\<lparr>db_policy := (db_policy db)\<lparr>ap_enabled := True\<rparr>,
     db_users := [site_user], db_sessions := [\<lparr>se_token_sha256 = ''t'', se_user_id = ''u'', se_csrf_sha256 = ''c'',
       se_created_at = 0, se_expires_at = 100, se_revoked_at = None\<rparr>]\<rparr>, aw_audit = empty_audit\<rparr>)"

definition chat_request :: http_request where
  "chat_request = \<lparr>rq_method = ''POST'', rq_path = ''/api/chat'', rq_session_cookie = ''t'', rq_csrf_header = ''c'',
     rq_csrf_cookie = ''c''\<rparr>"

theorem served_request_is_authorized_witness:
  "\<exists>user. Serve site_user = Serve user \<and> (\<exists>s \<in> set (db_sessions (aw_db session_world)). se_token_sha256 s = ''t''
    \<and> se_revoked_at s = None \<and> 1 < se_expires_at s
    \<and> get_user (se_user_id s) (aw_db session_world) = Some user \<and> au_active user
    \<and> (\<exists>role. au_role user = role_text role \<and> required_role ''POST'' ''/api/chat'' \<le> role))"
proof -
  have "access_control (site_env 1 ''r'') False chat_request session_world = (Inr (Serve site_user), session_world)"
    by code_simp
  moreover have "ap_enabled (db_policy (aw_db session_world))" by code_simp
  ultimately show ?thesis
    by (drule_tac served_request_is_authorized [where public = False])
       (auto simp: chat_request_def site_env_def starts_with_def)
qed


section \<open>Changes of access\<close>

lemma audited_ok: "audited env r x w = (Inr y, w') \<Longrightarrow> y = x \<and> aw_db w' = aw_db w"
  by (auto simp: audited_def split: prod.splits sum.splits)

lemma authenticate_none:
  assumes "\<And>s. s \<in> set (db_sessions (aw_db w)) \<Longrightarrow> se_user_id s = i \<Longrightarrow> se_revoked_at s \<noteq> None"
  shows "case authenticate env token w of None \<Rightarrow> True | Some (s, x) \<Rightarrow> se_user_id s \<noteq> i"
proof (cases "live_session (ax_now env) (ax_digest env token) (aw_db w)")
  case None
  then show ?thesis by (simp add: authenticate_def)
next
  case (Some a)
  obtain s x where a: "a = (s, x)" by fastforce
  from live_session_cases [OF Some [unfolded a]] have "s \<in> set (db_sessions (aw_db w))" "se_revoked_at s = None" by blast+
  with assms [of s] have "se_user_id s \<noteq> i" by blast
  then show ?thesis using Some a by (simp add: authenticate_def)
qed


text \<open>What a change of access may change: role, active state, connections and password.\<close>

definition access_of :: "auth_user \<Rightarrow> string \<times> bool \<times> string list \<times> string \<times> string" where
  "access_of u = (au_role u, au_active u, au_connection_ids u, au_password_salt u, au_password_hash u)"

definition keeps_access :: "string \<Rightarrow> auth_db \<Rightarrow> auth_db \<Rightarrow> bool" where
  "keeps_access i db db' = (\<forall>u. get_user i db = Some u \<longrightarrow> (\<exists>u'. get_user i db' = Some u' \<and> access_of u' = access_of u
     \<and> au_auth_source u' = au_auth_source u))"

lemma keeps_access_refl [simp]: "keeps_access i db db"
  by (simp add: keeps_access_def)

lemma keeps_access_trans: "keeps_access i db db' \<Longrightarrow> keeps_access i db' db'' \<Longrightarrow> keeps_access i db db''"
  unfolding keeps_access_def by metis

lemma keeps_access_users: "db_users db' = db_users db \<Longrightarrow> keeps_access i db db'"
  by (simp add: keeps_access_def get_user_def)

lemma keeps_access_update:
  assumes "db_users db' = sql_update (\<lambda>u. au_id u = k) f (db_users db)" "\<And>u. au_id (f u) = au_id u"
    and "i \<noteq> k \<or> (\<forall>u. access_of (f u) = access_of u \<and> au_auth_source (f u) = au_auth_source u)"
  shows "keeps_access i db db'"
  using assms sql_first_update [of "\<lambda>u. au_id u = k" au_id f i "db_users db"]
  by (auto simp: keeps_access_def get_user_def dest: sql_first_SomeD)

lemma keeps_access_insert: "insert_user u db = Inr db' \<Longrightarrow> keeps_access i db db'"
  by (auto simp: insert_user_def keeps_access_def get_user_def sql_first_append split: if_splits)

lemma store_step_access:
  assumes "store_step False now h db db'"
  shows "keeps_access i db db'"
  using assms
proof cases
  case insert then show ?thesis
    by (auto simp: create_store_user_def Let_def intro: keeps_access_insert split: sum.splits)
next
  case (session k t c hrs x)
  then have "db_users db' = sql_update (\<lambda>u. au_id u = k) (\<lambda>u. u\<lparr>au_last_login_at := Some now, au_updated_at := now\<rparr>) (db_users db)"
    by (auto simp: create_session_def Let_def split: if_splits)
  then show ?thesis by (rule keeps_access_update) (simp_all add: access_of_def)
next
  case (start n v src) then show ?thesis
    by (intro keeps_access_users) (auto simp: create_oidc_transaction_def Let_def split: if_splits)
next
  case (consume s x) then show ?thesis
    by (intro keeps_access_users) (auto simp: consume_oidc_transaction_def split: option.splits)
qed (auto intro: keeps_access_users)

lemma store_steps_access: "(store_step False now h)\<^sup>*\<^sup>* db db' \<Longrightarrow> keeps_access i db db'"
  by (induction rule: rtranclp_induct) (auto intro: keeps_access_trans store_step_access)

text \<open>A user's sessions are all revoked.\<close>

definition sessions_ended :: "string \<Rightarrow> auth_db \<Rightarrow> bool" where
  "sessions_ended i db = (\<forall>s \<in> set (db_sessions db). se_user_id s = i \<longrightarrow> se_revoked_at s \<noteq> None)"

lemma revoked_sessions:
  "s \<in> set (db_sessions (revoke_where now p db)) \<Longrightarrow> p s \<Longrightarrow> (\<And>s t. p (s\<lparr>se_revoked_at := t\<rparr>) = p s) \<Longrightarrow> se_revoked_at s \<noteq> None"
  by (auto simp: revoke_where_def set_sql_update)

lemma revoke_user_ends: "sessions_ended i (revoke_where now (\<lambda>s. se_user_id s = i) db)"
  unfolding sessions_ended_def
proof (intro ballI impI)
  fix s assume "s \<in> set (db_sessions (revoke_where now (\<lambda>s. se_user_id s = i) db))" "se_user_id s = i"
  then show "se_revoked_at s \<noteq> None" by (rule revoked_sessions) simp
qed

lemma changed_user_access:
  "access_of (changed_user now d r a cs salt hash u) \<noteq> access_of u \<Longrightarrow>
    r \<noteq> au_role u \<or> cs \<noteq> au_connection_ids u \<or> a \<noteq> au_active u \<or> (salt \<noteq> [] \<and> hash \<noteq> [])"
  by (auto simp: changed_user_def access_of_def Let_def split: if_splits)

lemma update_user_ends:
  assumes "get_user i (aw_db w) = Some u" "get_user i (aw_db (snd (update_user env k v actor w))) = Some u'"
    and "access_of u' \<noteq> access_of u" "au_active u \<or> \<not> au_active u'"
  shows "sessions_ended i (aw_db (snd (update_user env k v actor w)))"
proof -
  have same: "aw_db (snd (update_user env k v actor w)) \<noteq> aw_db w" using assms(1-3) by auto
  obtain current where cur: "get_user k (aw_db w) = Some current"
    using same by (cases "get_user k (aw_db w)") (auto simp: update_user_def)
  obtain c where c: "resolve_change env v current = Inr c" "check_change v c current (aw_db w) = Inr ()"
    using same cur by (auto simp: update_user_def split: sum.splits)
  obtain salt hash where p: "(case uu_password v of None \<Rightarrow> ([], []) | Some p \<Rightarrow> new_password env p) = (salt, hash)"
    by fastforce
  let ?f = "changed_user (ax_now env) (ch_display_name c) (ch_role c) (ch_active c) (ch_connections c) salt hash"
  let ?db1 = "(aw_db w)\<lparr>db_users := sql_update (\<lambda>u. au_id u = k) ?f (db_users (aw_db w))\<rparr>"
  let ?ends = "(salt \<noteq> [] \<and> hash \<noteq> []) \<or> \<not> ch_active c"
  let ?db2 = "if ?ends then revoke_where (ax_now env) (\<lambda>s. se_user_id s = k) ?db1 else ?db1"
  let ?db3 = "if ch_role c \<noteq> au_role current \<or> ch_connections c \<noteq> au_connection_ids current
    then revoke_where (ax_now env) (\<lambda>s. se_user_id s = k) ?db2 else ?db2"
  have f: "au_id (?f x) = au_id x" for x by (simp add: changed_user_def Let_def)
  have look: "get_user j ?db1 = (if j = k then map_option ?f (get_user j (aw_db w)) else get_user j (aw_db w))" for j
    using sql_first_update [of "\<lambda>u. au_id u = k" au_id ?f j "db_users (aw_db w)"] f
    by (cases "get_user j (aw_db w)") (auto simp: get_user_def dest: sql_first_SomeD)
  have look2: "get_user j ?db2 = get_user j ?db1" "get_user j ?db3 = get_user j ?db1" for j
    by (simp_all add: get_user_def)
  have "update_store_user (ax_now env) k (ch_display_name c) (ch_role c) (ch_active c) (ch_connections c) salt hash (aw_db w)
      = Inr (get_user k ?db2, ?db2)"
    using same cur c p by (auto simp: update_user_def update_store_user_def Let_def split: if_splits)
  then have db': "aw_db (snd (update_user env k v actor w)) = ?db3"
    using cur c p look [of k] look2(1) [of k] by (simp add: update_user_def revoke_user_sessions_def Let_def)
  have k: "i = k" using assms(1-3) unfolding db' look2 look by (auto split: if_splits)
  then have u: "current = u" "u' = ?f u" using assms(1,2) cur unfolding db' look2 look by auto
  from changed_user_access assms(3) have
    "ch_role c \<noteq> au_role u \<or> ch_connections c \<noteq> au_connection_ids u \<or> ch_active c \<noteq> au_active u \<or> (salt \<noteq> [] \<and> hash \<noteq> [])"
    unfolding u(2) by blast
  moreover have "au_active u' = ch_active c" by (simp add: u(2) changed_user_def Let_def)
  ultimately have "(ch_role c \<noteq> au_role current \<or> ch_connections c \<noteq> au_connection_ids current) \<or> ?ends"
    using assms(4) u(1) by auto
  then show ?thesis unfolding db' k using revoke_user_ends by auto
qed

lemma recover_ends:
  assumes "get_user i (aw_db w) = Some u" "get_user i (aw_db (snd (recover_local_password env name pw w))) = Some u'"
    and "access_of u' \<noteq> access_of u"
  shows "sessions_ended i (aw_db (snd (recover_local_password env name pw w)))"
proof -
  let ?db' = "aw_db (snd (recover_local_password env name pw w))"
  have "?db' = aw_db w \<or> (\<exists>k salt hash. ?db' = snd (recover_store_password (ax_now env) k salt hash (aw_db w)))"
    by (simp add: recover_local_password_def case_prod_beta split: sum.split option.split) metis
  then obtain k salt hash where db': "?db' = snd (recover_store_password (ax_now env) k salt hash (aw_db w))"
    using assms by auto
  let ?f = "\<lambda>u. u\<lparr>au_password_salt := salt, au_password_hash := hash, au_updated_at := ax_now env\<rparr>"
  let ?db1 = "(aw_db w)\<lparr>db_users := sql_update (\<lambda>u. au_id u = k) ?f (db_users (aw_db w))\<rparr>"
  have "?db' = revoke_where (ax_now env) (\<lambda>s. se_user_id s = k) ?db1"
    using assms db' by (auto simp: recover_store_password_def Let_def split: option.splits if_splits)
  moreover from this have "i = k"
    using assms keeps_access_update [of ?db' k ?f "aw_db w" i] by (auto simp: keeps_access_def)
  ultimately show ?thesis using revoke_user_ends by simp
qed

text \<open>A sign-in decides the access of enterprise identities only.\<close>

lemma external_keeps_local:
  assumes "upsert_external_user now k iss sub name d r cs cl db = Inr (x, db')" "accounts_inv db"
    and "get_user i db = Some u" "au_auth_source u = ''local''"
  shows "keeps_access i db db'"
proof (cases "get_user_by_external_identity iss sub db")
  case None
  then show ?thesis using assms(1)
    by (auto simp: upsert_external_user_def Let_def intro: keeps_access_insert split: sum.splits)
next
  case (Some current)
  have cur: "current \<in> set (db_users db)" "au_external_issuer current = Some iss"
    using Some by (auto simp: get_user_by_external_identity_def dest: sql_first_SomeD)
  have u: "u \<in> set (db_users db)" "au_id u = i" using assms(3) by (auto simp: get_user_def dest: sql_first_SomeD)
  then have "au_external_issuer u = None" using assms(2,4) by (auto simp: accounts_inv_def)
  then have "i \<noteq> au_id current" using cur u assms(2) by (metis accounts_inv_def distinct_map inj_onD option.distinct(1))
  then show ?thesis
    using assms(1) Some
    by (intro keeps_access_update [where k = "au_id current" and f = "\<lambda>u. u\<lparr>au_display_name := d, au_role := r,
          au_connection_ids := cs, au_external_claims := json_norm cl, au_updated_at := now\<rparr>"])
       (auto simp: upsert_external_user_def Let_def)
qed

lemma oidc_finish_local:
  assumes "accounts_inv (aw_db w)" "get_user i (aw_db w) = Some u" "au_auth_source u = ''local''"
  shows "keeps_access i (aw_db w) (aw_db (snd (oidc_finish env ox f cs src w)))"
proof -
  have "keeps_access i (aw_db w) (aw_db (snd (deauthorize env p sub e w)))" for p sub e
    by (rule store_steps_access [OF deauthorize_writes])
  moreover have "keeps_access i (aw_db w) (aw_db (snd (open_session env repr f cs a src x (w\<lparr>aw_db := db\<rparr>))))"
    if "upsert_external_user (ax_now env) k iss sub name d r cns cl (aw_db w) = Inr (x, db)"
    for repr a k iss sub name d r cns cl x db
    using external_keeps_local [OF that assms]
      store_steps_access [OF open_session_writes [of False env _ "w\<lparr>aw_db := db\<rparr>" repr f cs a src x], of i]
    by (simp add: keeps_access_trans)
  then have "keeps_access i (aw_db w) (aw_db (snd (admitted_session env repr f cs sub a src w)))" for repr sub a
    by (auto simp: admitted_session_def Let_def split: sum.split prod.split)
  ultimately show ?thesis by (auto simp: oidc_finish_def split: option.split json.split sum.split)
qed

lemma access_step_finish:
  "cw_db (access_step (env, ox, FinishSignIn n cs src) w) = cw_db w \<or>
   (\<exists>f. cw_db (access_step (env, ox, FinishSignIn n cs src) w) =
      aw_db (snd (oidc_finish env ox f cs src (ow_auth (cw_oidc w)))))"
  by (auto simp: cw_db_def on_auth_def)

text \<open>C21. Whatever request changes a user's role, connections or password or deactivates the user, every session of
  that user is revoked when it is done, and no cookie of that user authenticates any more. The one
  exception is an enterprise sign-in that completes: it may remap the enterprise identity that signs in.\<close>

theorem access_change_ends_sessions:
  assumes "access_inv (cw_db w)" "w' = access_step (env, ox, op) w"
    and "get_user i (cw_db w) = Some u" "get_user i (cw_db w') = Some u'"
    and "au_role u' \<noteq> au_role u \<or> au_connection_ids u' \<noteq> au_connection_ids u \<or> au_password_salt u' \<noteq> au_password_salt u
      \<or> au_password_hash u' \<noteq> au_password_hash u \<or> \<not> au_active u'"
    and "au_active u" "au_auth_source u = ''local'' \<or> (\<forall>n cs src. op \<noteq> FinishSignIn n cs src)"
  shows "(\<forall>s \<in> set (db_sessions (cw_db w')). se_user_id s = i \<longrightarrow> se_revoked_at s \<noteq> None) \<and>
    (case authenticate env' token (ow_auth (cw_oidc w')) of None \<Rightarrow> True | Some (s, x) \<Rightarrow> se_user_id s \<noteq> i)"
proof -
  have changed: "access_of u' \<noteq> access_of u" using assms(5,6) by (auto simp: access_of_def)
  then have other: "\<not> keeps_access i (cw_db w) (cw_db w')" using assms(3,4) by (auto simp: keeps_access_def)
  have "decides_access op"
  proof (rule ccontr)
    assume "\<not> decides_access op"
    then show False using other store_steps_access [OF access_step_writes [OF refl, of op False env ox w]] assms(2) by simp
  qed
  then have "sessions_ended i (cw_db w')"
  proof (cases op)
    case (UpdateUser k v actor)
    then show ?thesis using update_user_ends [of i "ow_auth (cw_oidc w)" u] assms(2-6) changed
      by (simp add: cw_db_def [of w])
  next
    case (Recover name pw)
    then show ?thesis using recover_ends [of i "ow_auth (cw_oidc w)" u] assms(2-4) changed by (simp add: cw_db_def [of w])
  next
    case (FinishSignIn n cs src)
    then have "keeps_access i (cw_db w) (cw_db w')"
      using access_step_finish [of env ox n cs src w] oidc_finish_local [of "ow_auth (cw_oidc w)" i u env ox _ cs src]
        assms(1-3,7) by (auto simp: cw_db_def [of w] access_inv_def simp del: access_step.simps)
    with other show ?thesis by simp
  qed simp_all
  then show ?thesis
    using authenticate_none [of "ow_auth (cw_oidc w')" i env' token] by (simp add: sessions_ended_def cw_db_def)
qed

definition demotion_world :: access_world where
  "demotion_world = \<lparr>cw_oidc = \<lparr>ow_auth = session_world\<lparr>aw_db := (aw_db session_world)\<lparr>db_users := [site_user,
     (new_user 0 ''a'' ''root'' ''Root'' ''admin'' [])]\<rparr>\<rparr>, ow_secret_env = [], ow_secret_vault = []\<rparr>, cw_flights = []\<rparr>"

theorem access_change_ends_sessions_witness:
  "filter (\<lambda>s. se_user_id s = ''u'' \<and> se_revoked_at s = None)
    (db_sessions (cw_db (access_step (site_env 2 ''e'', site_oidc, UpdateUser ''u'' site_demotion ''admin'') demotion_world))) = []"
proof -
  let ?w' = "access_step (site_env 2 ''e'', site_oidc, UpdateUser ''u'' site_demotion ''admin'') demotion_world"
  have "list_ex local_admin (db_users (cw_db demotion_world)) \<and> distinct (map au_id (db_users (cw_db demotion_world))) \<and>
      list_all (\<lambda>u. au_external_issuer u = None) (db_users (cw_db demotion_world))" by code_simp
  then have "access_inv (cw_db demotion_world)"
    by (simp add: access_inv_def accounts_inv_def has_local_admin_def list_all_iff)
  moreover have "get_user ''u'' (cw_db demotion_world) = Some site_user" "au_role site_user = ''analyst''" "au_active site_user"
    by code_simp+
  moreover have "case get_user ''u'' (cw_db ?w') of None \<Rightarrow> False | Some x \<Rightarrow> au_role x = ''viewer''" by code_simp
  then obtain x where "get_user ''u'' (cw_db ?w') = Some x" "au_role x = ''viewer''" by (auto split: option.splits)
  ultimately have "\<forall>s \<in> set (db_sessions (cw_db ?w')). se_user_id s = ''u'' \<longrightarrow> se_revoked_at s \<noteq> None"
    using access_change_ends_sessions [OF _ refl, of demotion_world "''u''" site_user "site_env 2 ''e''" site_oidc
        "UpdateUser ''u'' site_demotion ''admin''" x] by auto
  then show ?thesis by (auto simp: filter_empty_conv)
qed


section \<open>A sign-in in flight\<close>

text \<open>The same world under another provider policy.\<close>

abbreviation with_oidc :: "oidc_policy \<Rightarrow> auth_db \<Rightarrow> auth_db" where
  "with_oidc q db \<equiv> db\<lparr>db_oidc := q\<rparr>"

abbreviation with_policy :: "oidc_policy \<Rightarrow> auth_world \<Rightarrow> auth_world" where
  "with_policy q w \<equiv> w\<lparr>aw_db := with_oidc q (aw_db w)\<rparr>"

lemma audited_fst: "aw_audit w = aw_audit w' \<Longrightarrow> fst (audited env r x w) = fst (audited env r x w')"
  by (simp add: audited_def split: prod.split)

lemma session_oidc: "create_session now i t c h (with_oidc q db) = map_sum id (apsnd (with_oidc q)) (create_session now i t c h db)"
  by (simp add: create_session_def Let_def)

lemma upsert_oidc: "upsert_external_user now i iss sub n d r cs cl (with_oidc q db) =
    map_sum id (apsnd (with_oidc q)) (upsert_external_user now i iss sub n d r cs cl db)"
  by (simp add: upsert_external_user_def get_user_by_external_identity_def insert_user_def Let_def split: option.split)

lemma federated_oidc:
  "fst (federated_session env u (with_policy q w)) = fst (federated_session env u w) \<and>
    aw_audit (snd (federated_session env u (with_policy q w))) = aw_audit (snd (federated_session env u w))"
  by (simp add: federated_session_def new_session_def session_oidc split: sum.split)

lemma open_session_oidc: "fst (open_session env repr f cs a src u (with_policy q w)) = fst (open_session env repr f cs a src u w)"
proof -
  obtain y w1 y' w1' where r: "federated_session env u w = (y, w1)" "federated_session env u (with_policy q w) = (y', w1')"
    by fastforce
  then have "y' = y" "aw_audit w1' = aw_audit w1" using federated_oidc [of env u q w] by simp_all
  then show ?thesis using r by (auto simp: open_session_def intro: audited_fst split: sum.split)
qed

lemma admitted_session_oidc:
  "fst (admitted_session env repr f cs sub a src (with_policy q w)) = fst (admitted_session env repr f cs sub a src w)"
  using open_session_oidc [of env repr f cs a src _ q "w\<lparr>aw_db := _\<rparr>"]
  by (simp add: admitted_session_def upsert_oidc get_user_by_external_identity_def Let_def split: sum.split prod.split)

lemma deauthorize_oidc: "fst (deauthorize env p sub e (with_policy q w)) = fst (deauthorize env p sub e w)"
proof -
  have canon: "fst (audited env r () (w\<lparr>aw_db := d\<rparr>)) = fst (audited env r () w)" for r d
    by (rule audited_fst) simp
  show ?thesis
    by (simp add: deauthorize_def get_user_by_external_identity_def revoke_user_sessions_def revoked_count_def Let_def
        case_prod_beta canon split: option.split)
qed


text \<open>C24. A sign-in that is waiting for its provider is decided by the provider policy it read when it began: whatever
  policy is stored meanwhile - even one that switches enterprise sign-in off - its outcome is the same, so a
  session can be created under a policy that no longer applies.\<close>

theorem sign_in_ignores_new_policy:
  "fst (oidc_finish env ox f cs src (w\<lparr>aw_db := (aw_db w)\<lparr>db_oidc := q\<rparr>\<rparr>)) = fst (oidc_finish env ox f cs src w)"
  by (simp add: oidc_finish_def admitted_session_oidc deauthorize_oidc split: option.split json.split sum.split)

end
