(* ===== verification/Oidc_Admission.thy ===== *)
theory Oidc_Admission
  imports Access_Control
begin

text \<open>
  What an enterprise sign-in promises (\<open>auth/oidc.py\<close>, definitions in \<open>Auth_Oidc\<close>): an admission is justified
  by the verified claims, the account and session it opens carry exactly the admitted role and connections,
  and the assignment preview, which decides again from the claims a sign-in stored, agrees with the sign-in.
\<close>


section \<open>Groups\<close>

lemma set_sorted_common [simp]: "set (sorted_common xs ys) = set xs \<inter> set ys"
  by (auto simp: sorted_common_def)

lemma sorted_common_empty [simp]: "sorted_common xs ys = [] \<longleftrightarrow> set xs \<inter> set ys = {}"
  using set_sorted_common [of xs ys] by (metis set_empty)

lemma sorted_common_set: "set xs = set xs' \<Longrightarrow> sorted_common xs ys = sorted_common xs' ys"
  by (metis (no_types) distinct_remdups distinct_sort set_sorted_common sorted_common_def sorted_distinct_set_unique sorted_sort)

lemma grant_connections_set:
  assumes "set xs = set xs'"
  shows "grant_connections av xs ms acc = grant_connections av xs' ms acc"
proof (induction ms arbitrary: acc)
  case (Cons m ms)
  then show ?case by (cases acc) (simp only: grant_connections.simps Let_def sorted_common_set [OF assms])
qed simp

lemma admitted_role_set: "set xs = set xs' \<Longrightarrow> admitted_role p xs = admitted_role p xs'"
  by (simp add: admitted_role_def sorted_common_set [of xs xs'])

lemma admitted_role_cases:
  "fst (admitted_role p gs) = (if set gs \<inter> set (oi_admin_groups p) \<noteq> {} then ''admin''
     else if set gs \<inter> set (oi_analyst_groups p) \<noteq> {} then ''analyst'' else oi_default_role p)"
  by (simp add: admitted_role_def)

lemma grant_connections_iff:
  "i \<in> set (fst (grant_connections av gs ms acc)) \<longleftrightarrow> i \<in> set (fst acc) \<or>
    (i \<noteq> [] \<and> (case av of None \<Rightarrow> True | Some a \<Rightarrow> i \<in> set a) \<and>
     (\<exists>m \<in> set ms. gm_connection_alias m = i \<and> set gs \<inter> set (gm_groups m) \<noteq> {}))"
proof (induction av gs ms acc rule: grant_connections.induct)
  case (1 av gs acc)
  then show ?case by simp
next
  case (2 av gs m ms ids matched)
  define hits where "hits = sorted_common gs (gm_groups m)"
  define skip where "skip \<longleftrightarrow> gm_connection_alias m = [] \<or>
    (case av of None \<Rightarrow> False | Some a \<Rightarrow> \<not> List.member a (gm_connection_alias m)) \<or> hits = []"
  show ?case
  proof (cases skip)
    case True
    then have "i \<noteq> gm_connection_alias m \<or> i = [] \<or> \<not> (case av of None \<Rightarrow> True | Some a \<Rightarrow> i \<in> set a) \<or>
        set gs \<inter> set (gm_groups m) = {}"
      by (auto simp: skip_def hits_def split: option.splits)
    with True 2 show ?thesis by (auto simp: Let_def hits_def skip_def)
  next
    case False
    then have here: "gm_connection_alias m \<noteq> []" "case av of None \<Rightarrow> True | Some a \<Rightarrow> gm_connection_alias m \<in> set a"
      "set gs \<inter> set (gm_groups m) \<noteq> {}"
      by (auto simp: skip_def hits_def split: option.splits)
    have "i \<in> set (fst (grant_connections av gs (m # ms) (ids, matched))) \<longleftrightarrow>
      i \<in> set (if List.member ids (gm_connection_alias m) then ids else ids @ [gm_connection_alias m]) \<or>
      (i \<noteq> [] \<and> (case av of None \<Rightarrow> True | Some a \<Rightarrow> i \<in> set a) \<and>
       (\<exists>m \<in> set ms. gm_connection_alias m = i \<and> set gs \<inter> set (gm_groups m) \<noteq> {}))"
      using 2 False by (simp add: Let_def hits_def skip_def)
    with here show ?thesis by (auto split: if_splits)
  qed
qed



section \<open>Admission\<close>

lemma admit_cases:
  assumes "admit repr cs p av = Inr a"
  obtains groups where "claimed_groups repr (map_of cs (oi_groups_claim p)) = Inr groups"
    "am_groups a = sort groups"
    "am_tenant a = (if oi_tenant_claim p = [] then [] else str_or_empty repr (map_of cs (oi_tenant_claim p)))"
    "am_amr a = sort (claimed_amr repr (map_of cs ''amr''))"
    "am_role a = fst (admitted_role p groups)" "am_matched_groups a = snd (admitted_role p groups)"
    "(am_connection_ids a, am_connection_matches a) =
      grant_connections av groups (oi_connection_group_mappings p)
        (if oi_grant_primary_connection p \<and> (case av of None \<Rightarrow> True | Some ids \<Rightarrow> List.member ids ''primary'')
         then ([''primary''], [(''primary'', [''all-admitted-identities''])]) else ([], []))"
    "\<not> list_ex (\<lambda>g. 256 < length g) groups" "length (am_tenant a) \<le> 256"
    "oi_allowed_groups p = [] \<or> set groups \<inter> set (oi_allowed_groups p) \<noteq> {}"
    "oi_allowed_tenant_values p = [] \<or> am_tenant a \<in> set (oi_allowed_tenant_values p)"
    "oi_required_acr_values p = [] \<or> str_or_empty repr (map_of cs ''acr'') \<in> set (oi_required_acr_values p)"
    "list_all (List.member (claimed_amr repr (map_of cs ''amr''))) (oi_required_amr_values p)"
  using assms that
  by (auto simp: admit_def Let_def split: sum.splits prod.splits if_splits)



text \<open>C22. Whoever the admission lets in satisfied every restriction of the policy - an admitted group, tenant and
  ACR value where the policy lists any, and all required AMR values - on the groups claimed. The role is
  admin exactly with an admin group, else analyst with an analyst group, else the default role of the
  policy; and the connections granted are exactly the available ones that are the primary one, where the
  policy grants it to everyone, or that are mapped to a group of the identity.\<close>

theorem admission_is_justified:
  assumes "admit repr cs p (Some av) = Inr a"
  shows "\<exists>gs. claimed_groups repr (map_of cs (oi_groups_claim p)) = Inr gs \<and> am_groups a = sort gs
    \<and> (oi_allowed_groups p = [] \<or> set gs \<inter> set (oi_allowed_groups p) \<noteq> {})
    \<and> (oi_allowed_tenant_values p = [] \<or> am_tenant a \<in> set (oi_allowed_tenant_values p))
    \<and> (oi_required_acr_values p = [] \<or> str_or_empty repr (map_of cs ''acr'') \<in> set (oi_required_acr_values p))
    \<and> set (oi_required_amr_values p) \<subseteq> set (claimed_amr repr (map_of cs ''amr''))
    \<and> am_role a = (if set gs \<inter> set (oi_admin_groups p) \<noteq> {} then ''admin''
        else if set gs \<inter> set (oi_analyst_groups p) \<noteq> {} then ''analyst'' else oi_default_role p)
    \<and> set (am_connection_ids a) = {i \<in> set av. (i = ''primary'' \<and> oi_grant_primary_connection p)
        \<or> (i \<noteq> [] \<and> (\<exists>m \<in> set (oi_connection_group_mappings p). gm_connection_alias m = i
             \<and> set gs \<inter> set (gm_groups m) \<noteq> {}))}"
proof -
  obtain groups where f: "claimed_groups repr (map_of cs (oi_groups_claim p)) = Inr groups" "am_groups a = sort groups"
    "am_role a = fst (admitted_role p groups)"
    "(am_connection_ids a, am_connection_matches a) = grant_connections (Some av) groups (oi_connection_group_mappings p)
        (if oi_grant_primary_connection p \<and> List.member av ''primary''
         then ([''primary''], [(''primary'', [''all-admitted-identities''])]) else ([], []))"
    "oi_allowed_groups p = [] \<or> set groups \<inter> set (oi_allowed_groups p) \<noteq> {}"
    "oi_allowed_tenant_values p = [] \<or> am_tenant a \<in> set (oi_allowed_tenant_values p)"
    "oi_required_acr_values p = [] \<or> str_or_empty repr (map_of cs ''acr'') \<in> set (oi_required_acr_values p)"
    "list_all (List.member (claimed_amr repr (map_of cs ''amr''))) (oi_required_amr_values p)"
    by (rule admit_cases [OF assms], rule that) (simp_all only: option.case)
  have ids: "am_connection_ids a = fst (grant_connections (Some av) groups (oi_connection_group_mappings p)
        (if oi_grant_primary_connection p \<and> List.member av ''primary''
         then ([''primary''], [(''primary'', [''all-admitted-identities''])]) else ([], [])))"
    using f(4) by (metis fst_conv)
  have "set (am_connection_ids a) = {i \<in> set av. (i = ''primary'' \<and> oi_grant_primary_connection p)
        \<or> (i \<noteq> [] \<and> (\<exists>m \<in> set (oi_connection_group_mappings p). gm_connection_alias m = i
             \<and> set groups \<inter> set (gm_groups m) \<noteq> {}))}"
    unfolding ids by (auto simp: set_eq_iff grant_connections_iff)
  moreover have "set (oi_required_amr_values p) \<subseteq> set (claimed_amr repr (map_of cs ''amr''))"
    using f(8) by (auto simp: list_all_iff)
  ultimately show ?thesis using f by (intro exI [of _ groups] conjI) (simp_all only: admitted_role_cases)
qed


section \<open>Preview\<close>

lemma lower_char_idem: "lower_char (lower_char c) = lower_char c"
  by (auto simp: lower_char_def Let_def)

lemma lower_char_sharp: "code (lower_char c) = 223 \<longleftrightarrow> code c = 223"
  by (auto simp: lower_char_def Let_def)

lemma casefold_append: "casefold (xs @ ys) = casefold xs @ casefold ys"
  by (simp add: casefold_def)

lemma casefold_char: "casefold (if code c = 223 then ''ss'' else [lower_char c]) = (if code c = 223 then ''ss'' else [lower_char c])"
proof (cases "code c = 223")
  case True
  have "casefold ''ss'' = ''ss''" by code_simp
  then show ?thesis using True by simp
next
  case False
  then show ?thesis by (simp add: casefold_def lower_char_sharp lower_char_idem)
qed

lemma casefold_idem: "casefold (casefold s) = casefold s"
proof (induction s)
  case (Cons c s)
  have "casefold (c # s) = (if code c = 223 then ''ss'' else [lower_char c]) @ casefold s" by (simp add: casefold_def)
  then show ?case using Cons casefold_char [of c] by (simp only: casefold_append)
qed (simp add: casefold_def)

lemma map_of_sorted: "distinct (map fst kvs) \<Longrightarrow> map_of (sort_key fst kvs) = map_of kvs"
  by (rule map_of_inject_set [THEN iffD2]) (auto simp: distinct_map inj_on_def)



text \<open>The admission reads the claims only through these four values, the lists up to their order.\<close>

lemma admit_cong:
  assumes "claimed_groups repr (map_of cs (oi_groups_claim p)) = Inr gs"
    "claimed_groups repr (map_of cs' (oi_groups_claim p)) = Inr gs'" "sort gs' = sort gs"
    "oi_tenant_claim p = [] \<or> str_or_empty repr (map_of cs' (oi_tenant_claim p)) = str_or_empty repr (map_of cs (oi_tenant_claim p))"
    "str_or_empty repr (map_of cs' ''acr'') = str_or_empty repr (map_of cs ''acr'')"
    "sort (claimed_amr repr (map_of cs' ''amr'')) = sort (claimed_amr repr (map_of cs ''amr''))"
  shows "admit repr cs' p av = admit repr cs p av"
proof -
  have sets: "set gs' = set gs" "set (claimed_amr repr (map_of cs' ''amr'')) = set (claimed_amr repr (map_of cs ''amr''))"
    using assms(3,6) by (metis set_sort)+
  have members: "List.member (claimed_amr repr (map_of cs' ''amr'')) = List.member (claimed_amr repr (map_of cs ''amr''))"
    "list_ex (\<lambda>g. 256 < length g) gs' = list_ex (\<lambda>g. 256 < length g) gs"
    using sets by (auto simp: fun_eq_iff list_ex_iff)
  have tenant: "(if oi_tenant_claim p = [] then [] else str_or_empty repr (map_of cs' (oi_tenant_claim p)))
      = (if oi_tenant_claim p = [] then [] else str_or_empty repr (map_of cs (oi_tenant_claim p)))"
    using assms(4) by auto
  show ?thesis
    unfolding admit_def assms(1,2) sum.case Let_def tenant assms(3,5,6) members
      admitted_role_set [OF sets(1)] grant_connections_set [OF sets(1)] sorted_common_set [OF sets(1)] ..
qed

lemma stored_claims:
  "json_member ''tenant'' (json_norm (safe_claims repr a cs)) = Some (JStr (am_tenant a))"
  "json_member ''groups'' (json_norm (safe_claims repr a cs)) = Some (JArr (map JStr (am_groups a)))"
  "json_member ''acr'' (json_norm (safe_claims repr a cs)) = Some (JStr (str_or_empty repr (map_of cs ''acr'')))"
  "json_member ''amr'' (json_norm (safe_claims repr a cs)) = Some (JArr (map JStr (am_amr a)))"
  by (simp_all add: safe_claims_def map_of_sorted comp_def)

lemma or_json_simps: "or_json (Some (JStr s)) (JStr []) = JStr s" "or_json (Some (JArr vs)) (JArr []) = JArr vs"
  by (simp_all add: or_json_def)

lemma strings_claimed:
  "length gs \<le> 500 \<Longrightarrow> claimed_groups repr (Some (JArr (map JStr gs))) = Inr gs"
  "claimed_amr repr (Some (JArr (map JStr gs))) = map casefold gs"
  "str_or_empty repr (Some (JStr t)) = t"
  by (simp_all add: claimed_groups_def claimed_amr_def str_or_empty_def filter_map comp_def)

lemma claimed_groups_length: "claimed_groups repr v = Inr gs \<Longrightarrow> length gs \<le> 500"
  by (auto simp: claimed_groups_def split: option.splits json.splits if_splits) (meson length_filter_le le_trans not_less)

lemma claimed_amr_folded: "map casefold (sort (claimed_amr repr v)) = sort (claimed_amr repr v)"
proof -
  have "x \<in> set (claimed_amr repr v) \<Longrightarrow> casefold x = x" for x
    by (auto simp: claimed_amr_def casefold_idem split: option.splits json.splits)
  then show ?thesis by (intro map_idI) simp
qed

text \<open>The claims that the preview reads under distinct names.\<close>

lemma preview_claims_of:
  assumes "oi_groups_claim p \<notin> {''acr'', ''amr''}" "oi_tenant_claim p \<notin> {''acr'', ''amr'', oi_groups_claim p}"
  shows "map_of (preview_claims p s) (oi_groups_claim p) = Some (or_json (json_member ''groups'' s) (JArr []))"
    "map_of (preview_claims p s) ''acr'' = Some (or_json (json_member ''acr'' s) (JStr []))"
    "map_of (preview_claims p s) ''amr'' = Some (or_json (json_member ''amr'' s) (JArr []))"
    "oi_tenant_claim p \<noteq> [] \<Longrightarrow> map_of (preview_claims p s) (oi_tenant_claim p) = Some (or_json (json_member ''tenant'' s) (JStr []))"
  using assms by (auto simp: preview_claims_def dict_of_def update_conv)

text \<open>C23. Deciding again from the claims that a sign-in stored reproduces the sign-in: the preview under an unchanged
  policy and connection list admits the identity with the same role, connections and matching groups. This
  needs a policy whose groups claim and tenant claim are different claims, neither of them \<open>acr\<close> or \<open>amr\<close>:
  the preview writes the stored values under these names into one dictionary, where a name that is used
  twice keeps only one value.\<close>

theorem preview_reproduces_admission:
  assumes "admit repr cs p (Some av) = Inr a" "au_external_claims u = json_norm (safe_claims repr a cs)"
    and "oi_groups_claim p \<notin> {''acr'', ''amr''}" "oi_tenant_claim p \<notin> {''acr'', ''amr'', oi_groups_claim p}"
  shows "admit repr (preview_claims p (au_external_claims u)) p (Some av) = Inr a \<and>
    pv_admitted (preview_row_of repr p av u) \<and> pv_projected_role (preview_row_of repr p av u) = am_role a \<and>
    pv_projected_connection_ids (preview_row_of repr p av u) = am_connection_ids a"
proof -
  obtain groups where f: "claimed_groups repr (map_of cs (oi_groups_claim p)) = Inr groups" "am_groups a = sort groups"
    "am_tenant a = (if oi_tenant_claim p = [] then [] else str_or_empty repr (map_of cs (oi_tenant_claim p)))"
    "am_amr a = sort (claimed_amr repr (map_of cs ''amr''))"
    by (rule admit_cases [OF assms(1)], rule that) (simp_all only: option.case)
  have "admit repr (preview_claims p (au_external_claims u)) p (Some av) = admit repr cs p (Some av)"
    unfolding assms(2)
    by (rule admit_cong [OF f(1), of _ "sort groups"])
      (use f claimed_groups_length [OF f(1)] in
        \<open>simp_all add: preview_claims_of [OF assms(3,4)] stored_claims or_json_simps strings_claimed claimed_amr_folded
          sort_key_id_if_sorted disj_imp\<close>)
  with assms(1) show ?thesis by (simp add: preview_row_of_def)
qed



section \<open>The account and its session\<close>

lemma external_identity_update:
  assumes "\<And>u. au_external_issuer (f u) = au_external_issuer u" "\<And>u. au_external_subject (f u) = au_external_subject u"
    "get_user_by_external_identity iss sub db = Some u"
  shows "get_user_by_external_identity iss sub (db\<lparr>db_users := sql_update q f (db_users db)\<rparr>) = Some (if q u then f u else u)"
proof -
  have "sql_first (\<lambda>u. au_external_issuer u = Some iss \<and> au_external_subject u = Some sub) (sql_update q f rows)
      = map_option (\<lambda>u. if q u then f u else u) (sql_first (\<lambda>u. au_external_issuer u = Some iss \<and> au_external_subject u = Some sub) rows)" for rows
    using assms(1,2) by (induction rows) (auto simp: sql_update_def sql_first_def)
  then show ?thesis using assms(3) by (simp add: get_user_by_external_identity_def)
qed

lemma upsert_external_result:
  assumes "upsert_external_user now i iss sub n d r cs cl db = Inr (u, db')"
  shows "get_user_by_external_identity iss sub db' = Some u" "au_role u = r" "au_connection_ids u = cs"
    "au_external_claims u = json_norm cl"
proof -
  show "get_user_by_external_identity iss sub db' = Some u"
  proof (cases "get_user_by_external_identity iss sub db")
    case None
    then show ?thesis using assms
      by (auto simp: upsert_external_user_def get_user_by_external_identity_def insert_user_def new_user_def Let_def
          sql_first_append sql_first_single split: sum.splits if_splits)
  next
    case (Some current)
    let ?f = "\<lambda>u. u\<lparr>au_display_name := d, au_role := r, au_connection_ids := cs,
       au_external_claims := json_norm cl, au_updated_at := now\<rparr>"
    show ?thesis using assms external_identity_update [of ?f iss sub db current "\<lambda>u. au_id u = au_id current"] Some
      by (simp add: upsert_external_user_def Let_def)
  qed
  show "au_role u = r" "au_connection_ids u = cs" "au_external_claims u = json_norm cl"
    using assms by (auto simp: upsert_external_user_def new_user_def Let_def split: option.splits sum.splits)
qed



lemma federated_session_result:
  assumes "federated_session env u w = (Inr session, w')" "0 < ap_session_hours (db_policy (aw_db w))"
    "get_user_by_external_identity iss sub (aw_db w) = Some u"
  shows "au_active u" "\<exists>v. get_user_by_external_identity iss sub (aw_db w') = Some v \<and> au_id v = au_id u \<and> au_active v
      \<and> au_role v = au_role u \<and> au_connection_ids v = au_connection_ids u \<and> au_external_claims v = au_external_claims u"
    "\<exists>s \<in> set (db_sessions (aw_db w')). se_user_id s = au_id u \<and> se_token_sha256 s = ax_digest env (bs_token session)
      \<and> se_revoked_at s = None \<and> se_expires_at s = bs_expires_at session \<and> ax_now env < se_expires_at s"
proof -
  let ?hours = "ap_session_hours (db_policy (aw_db w))"
  let ?exp = "ax_now env + hours ?hours"
  let ?f = "\<lambda>u. u\<lparr>au_last_login_at := Some (ax_now env), au_updated_at := ax_now env\<rparr>"
  let ?s = "\<lparr>se_token_sha256 = ax_digest env (ax_token env), se_user_id = au_id u, se_csrf_sha256 = ax_digest env (ax_csrf env),
            se_created_at = ax_now env, se_expires_at = ?exp, se_revoked_at = None\<rparr>"
  have act: "au_active u" and db: "db_sessions (aw_db w') = sql_delete (\<lambda>x. se_expires_at x < ax_now env - days 1 \<or> se_revoked_at x \<noteq> None)
      (db_sessions (aw_db w) @ [?s])" "db_users (aw_db w') = sql_update (\<lambda>x. au_id x = au_id u) ?f (db_users (aw_db w))"
    and se: "bs_token session = ax_token env" "bs_expires_at session = ?exp"
    using assms(1) by (auto simp: federated_session_def new_session_def create_session_def Let_def split: if_splits)
  show "au_active u" by (rule act)
  have "get_user_by_external_identity iss sub ((aw_db w)\<lparr>db_users := sql_update (\<lambda>x. au_id x = au_id u) ?f (db_users (aw_db w))\<rparr>)
      = Some (?f u)"
    using external_identity_update [of ?f iss sub "aw_db w" u "\<lambda>x. au_id x = au_id u"] assms(3) by simp
  then show "\<exists>v. get_user_by_external_identity iss sub (aw_db w') = Some v \<and> au_id v = au_id u \<and> au_active v
      \<and> au_role v = au_role u \<and> au_connection_ids v = au_connection_ids u \<and> au_external_claims v = au_external_claims u"
    using db(2) act by (auto simp: get_user_by_external_identity_def)
  have later: "ax_now env < ?exp" using assms(2) by (simp add: hours_def seconds_def)
  then have "?s \<in> set (db_sessions (aw_db w'))" unfolding db(1)
    by (auto simp: sql_delete_def days_def seconds_def)
  then show "\<exists>s \<in> set (db_sessions (aw_db w')). se_user_id s = au_id u \<and> se_token_sha256 s = ax_digest env (bs_token session)
      \<and> se_revoked_at s = None \<and> se_expires_at s = bs_expires_at session \<and> ax_now env < se_expires_at s"
    by (rule bexI [rotated]) (use se later in simp)
qed


text \<open>An enterprise sign-in that returns a session opened it for the account of the verified subject, which is
  active and has exactly the role and connections that the policy admits these claims to; the session is
  stored, live and not yet expired.\<close>

theorem external_session_is_admitted:
  assumes "oidc_finish env ox f cs source w = (Inr session, w')" "0 < ap_session_hours (db_policy (aw_db w))"
  shows "\<exists>subject a u. map_of cs ''sub'' = Some (JStr subject) \<and>
    admit (ox_repr ox) cs (si_policy f) (Some (map fst (available_connections env))) = Inr a \<and>
    get_user_by_external_identity (oi_issuer_url (si_policy f)) subject (aw_db w') = Some u \<and>
    au_active u \<and> au_role u = am_role a \<and> au_connection_ids u = am_connection_ids a \<and>
    au_external_claims u = json_norm (safe_claims (ox_repr ox) a cs) \<and>
    (\<exists>s \<in> set (db_sessions (aw_db w')). se_user_id s = au_id u \<and> se_token_sha256 s = ax_digest env (bs_token session)
      \<and> se_revoked_at s = None \<and> se_expires_at s = bs_expires_at session \<and> ax_now env < se_expires_at s)"
proof -
  let ?av = "Some (map fst (available_connections env))"
  obtain subject a where a: "map_of cs ''sub'' = Some (JStr subject)" "admit (ox_repr ox) cs (si_policy f) ?av = Inr a"
    and adm: "admitted_session env (ox_repr ox) f cs subject a source w = (Inr session, w')"
    using assms(1) by (auto simp: oidc_finish_def deauthorize_def Let_def case_prod_beta
        split: option.splits json.splits if_splits sum.splits)
  obtain n d u db where up: "upsert_external_user (ax_now env) (ax_user_id env) (oi_issuer_url (si_policy f)) subject n d
      (am_role a) (am_connection_ids a) (safe_claims (ox_repr ox) a cs) (aw_db w) = Inr (u, db)"
    and op: "open_session env (ox_repr ox) f cs a source u (w\<lparr>aw_db := db\<rparr>) = (Inr session, w')"
    using adm by (auto simp: admitted_session_def Let_def split: sum.splits)
  obtain w1 where fed: "federated_session env u (w\<lparr>aw_db := db\<rparr>) = (Inr session, w1)" and w': "aw_db w' = aw_db w1"
    using op by (auto simp: open_session_def split: if_splits sum.splits prod.splits dest: audited_ok)
  have pol: "db_policy db = db_policy (aw_db w)"
    using up by (auto simp: upsert_external_user_def insert_user_def Let_def split: option.splits sum.splits if_splits)
  note user = upsert_external_result [OF up]
  note ses = federated_session_result [OF fed, of "oi_issuer_url (si_policy f)" subject]
  obtain v where "get_user_by_external_identity (oi_issuer_url (si_policy f)) subject (aw_db w') = Some v" "au_id v = au_id u"
      "au_active v" "au_role v = am_role a" "au_connection_ids v = am_connection_ids a"
      "au_external_claims v = json_norm (safe_claims (ox_repr ox) a cs)"
    using ses(2) user assms(2) pol w' by auto
  with a ses(3) user assms(2) pol w' show ?thesis by auto
qed



section \<open>A small provider for the witnesses\<close>

definition staff_policy :: oidc_policy where
  "staff_policy = (db_oidc (initial_auth 0))\<lparr>oi_enabled := True, oi_allowed_groups := [''staff''], oi_admin_groups := [''ops''],
     oi_tenant_claim := ''tid'', oi_allowed_tenant_values := [''acme''], oi_grant_primary_connection := True\<rparr>"

definition staff_claims :: claims where
  "staff_claims = [(''sub'', JStr ''s1''), (''name'', JStr ''Ana''), (''groups'', JArr [JStr ''staff'', JStr ''ops'']),
     (''tid'', JStr ''acme''), (''amr'', JArr [JStr ''MFA''])]"

definition staff_admission :: admission where
  "staff_admission = \<lparr>am_groups = [''ops'', ''staff''], am_tenant = ''acme'', am_amr = [''mfa''], am_role = ''admin'',
     am_matched_groups = [''ops''], am_connection_ids = [''primary''],
     am_connection_matches = [(''primary'', [''all-admitted-identities''])]\<rparr>"

lemma staff_admitted: "admit (\<lambda>v. []) staff_claims staff_policy (Some [''primary'']) = Inr staff_admission"
  by code_simp

theorem admission_is_justified_witness:
  "am_role staff_admission = ''admin'' \<and> set (am_connection_ids staff_admission) = {''primary''} \<and>
    am_tenant staff_admission = ''acme''"
proof -
  have claimed: "claimed_groups (\<lambda>v. []) (map_of staff_claims (oi_groups_claim staff_policy)) = Inr [''staff'', ''ops'']"
    by code_simp
  have policy: "oi_admin_groups staff_policy = [''ops'']" "oi_grant_primary_connection staff_policy"
    "oi_allowed_tenant_values staff_policy = [''acme'']" "oi_connection_group_mappings staff_policy = []"
    by (simp_all add: staff_policy_def initial_auth_def)
  obtain gs where gs: "claimed_groups (\<lambda>v. []) (map_of staff_claims (oi_groups_claim staff_policy)) = Inr gs"
    "oi_allowed_tenant_values staff_policy = [] \<or> am_tenant staff_admission \<in> set (oi_allowed_tenant_values staff_policy)"
    "am_role staff_admission = (if set gs \<inter> set (oi_admin_groups staff_policy) \<noteq> {} then ''admin''
        else if set gs \<inter> set (oi_analyst_groups staff_policy) \<noteq> {} then ''analyst'' else oi_default_role staff_policy)"
    "set (am_connection_ids staff_admission) = {i \<in> set [''primary'']. (i = ''primary'' \<and> oi_grant_primary_connection staff_policy)
        \<or> (i \<noteq> [] \<and> (\<exists>m \<in> set (oi_connection_group_mappings staff_policy). gm_connection_alias m = i
             \<and> set gs \<inter> set (gm_groups m) \<noteq> {}))}"
    using admission_is_justified [OF staff_admitted] by (elim exE conjE) (rule that)
  have "gs = [''staff'', ''ops'']" using gs(1) claimed by simp
  then have "am_role staff_admission = ''admin''" using gs(3) policy(1) by simp
  moreover have "am_tenant staff_admission = ''acme''" using gs(2) policy(3) by simp
  moreover have "set (am_connection_ids staff_admission) = {''primary''}"
    unfolding gs(4) using policy(2) by auto
  ultimately show ?thesis by simp
qed

definition staff_user :: auth_user where
  "staff_user = (new_user 0 ''u'' ''ana'' ''Ana'' ''viewer'' [])
     \<lparr>au_external_claims := json_norm (safe_claims (\<lambda>v. []) staff_admission staff_claims)\<rparr>"

theorem preview_reproduces_admission_witness:
  "pv_projected_role (preview_row_of (\<lambda>v. []) staff_policy [''primary''] staff_user) = ''admin''"
proof -
  have "au_external_claims staff_user = json_norm (safe_claims (\<lambda>v. []) staff_admission staff_claims)"
    "oi_groups_claim staff_policy = ''groups''" "oi_tenant_claim staff_policy = ''tid''" "am_role staff_admission = ''admin''"
    by (simp_all add: staff_user_def staff_policy_def initial_auth_def staff_admission_def)
  then show ?thesis using preview_reproduces_admission [OF staff_admitted, of staff_user] by simp
qed

definition staff_world :: auth_world where
  "staff_world = (let db = initial_auth 0 in
     \<lparr>aw_db = db\<lparr>db_policy := (db_policy db)\<lparr>ap_enabled := True\<rparr>\<rparr>, aw_audit = empty_audit\<rparr>)"

definition staff_flight :: sign_in where
  "staff_flight = \<lparr>si_policy = staff_policy, si_transaction = \<lparr>tx_state_sha256 = ''S'', tx_nonce_sha256 = ''N'',
     tx_code_verifier = ''V'', tx_source = ''src'', tx_created_at = 0, tx_expires_at = 10, tx_consumed_at = Some 1\<rparr>\<rparr>"

text \<open>With an empty audit log every event is recorded, so the outcome does not depend on its text.\<close>

lemma audited_first: "ad_events (aw_audit w) = [] \<Longrightarrow> is_ok (fst (audited env r x w))"
  by (simp add: audited_def record_event_def Let_def)

lemma federated_session_audit: "aw_audit (snd (federated_session env u w)) = aw_audit w"
  by (simp add: federated_session_def new_session_def split: sum.split)

lemma open_session_ok:
  assumes "ad_events (aw_audit w) = []"
  shows "is_ok (fst (open_session env repr f cs a src u w)) = (au_active u \<and> is_ok (fst (federated_session env u w)))"
proof -
  obtain r w' where "federated_session env u w = (r, w')" by fastforce
  moreover from this have "ad_events (aw_audit w') = []" using assms federated_session_audit [of env u w] by simp
  ultimately show ?thesis by (simp add: open_session_def audited_first split: sum.split)
qed

definition admitted_ok :: "auth_env \<Rightarrow> (json \<Rightarrow> string) \<Rightarrow> sign_in \<Rightarrow> claims \<Rightarrow> string \<Rightarrow> admission \<Rightarrow> auth_world \<Rightarrow> bool" where
  "admitted_ok env repr f cs subject a w =
     (let p = si_policy f; issuer = oi_issuer_url p;
          username = (case get_user_by_external_identity issuer subject (aw_db w) of
              Some u \<Rightarrow> au_username u
            | None \<Rightarrow> external_username (ax_digest env) (first_claim repr [map_of cs (oi_username_claim p)] subject) issuer subject)
      in case check_display_name (first_claim repr
            [map_of cs (oi_display_name_claim p), map_of cs (oi_username_claim p)] username) of
           Inl e \<Rightarrow> False
         | Inr display_name \<Rightarrow>
            (case upsert_external_user (ax_now env) (ax_user_id env) issuer subject username display_name
                (am_role a) (am_connection_ids a) (safe_claims repr a cs) (aw_db w) of
               Inl e \<Rightarrow> False
             | Inr (user, db) \<Rightarrow> au_active user \<and> is_ok (fst (federated_session env user (w\<lparr>aw_db := db\<rparr>)))))"

lemma admitted_session_ok:
  "ad_events (aw_audit w) = [] \<Longrightarrow> is_ok (fst (admitted_session env repr f cs sub a src w)) = admitted_ok env repr f cs sub a w"
  by (simp add: admitted_session_def admitted_ok_def Let_def open_session_ok split: sum.split)

theorem external_session_is_admitted_witness:
  "\<exists>u. get_user_by_external_identity (oi_issuer_url staff_policy) ''s1''
      (aw_db (snd (oidc_finish (site_env 2 ''e'') site_oidc staff_flight staff_claims ''src'' staff_world))) = Some u
    \<and> au_active u \<and> au_role u = ''admin''"
proof -
  obtain r w' where r: "oidc_finish (site_env 2 ''e'') site_oidc staff_flight staff_claims ''src'' staff_world = (r, w')"
    by fastforce
  have "is_ok (fst (oidc_finish (site_env 2 ''e'') site_oidc staff_flight staff_claims ''src'' staff_world))"
  proof -
    have "admitted_ok (site_env 2 ''e'') (\<lambda>v. []) staff_flight staff_claims ''s1'' staff_admission staff_world" by code_simp
    moreover have "ad_events (aw_audit staff_world) = []" by code_simp
    moreover have "available_connections (site_env 2 ''e'') = [(''primary'', ''P'')]" "length ''s1'' \<le> 255" by code_simp+
    ultimately show ?thesis using staff_admitted
      by (simp add: oidc_finish_def staff_claims_def staff_flight_def site_oidc_def admitted_session_ok)
  qed

  then obtain s where s: "r = Inr s" using r by (auto simp: is_ok_iff)
  have hours: "0 < ap_session_hours (db_policy (aw_db staff_world))" by code_simp
  have "si_policy staff_flight = staff_policy" "ox_repr site_oidc = (\<lambda>v. [])" "map fst (available_connections (site_env 2 ''e'')) = [''primary'']"
    "map_of staff_claims ''sub'' = Some (JStr ''s1'')" "am_role staff_admission = ''admin''"
    by (simp_all add: staff_flight_def site_oidc_def staff_claims_def staff_admission_def) code_simp
  then show ?thesis
    using external_session_is_admitted [OF r [unfolded s] hours] staff_admitted r by auto
qed


section \<open>A sign-in of an identity that is already signed in\<close>

lemma federated_session_keeps:
  assumes "federated_session env u w = (Inr session, w')" "s \<in> set (db_sessions (aw_db w))"
    "se_revoked_at s = None" "ax_now env - days 1 \<le> se_expires_at s"
  shows "s \<in> set (db_sessions (aw_db w'))"
  using assms by (auto simp: federated_session_def new_session_def create_session_def sql_delete_def Let_def split: if_splits)

text \<open>C25. An enterprise sign-in ends no earlier session of the account that signs in. Every session of it that is
  not revoked and has not expired is still there when the sign-in is done, and from then on acts with the
  role and the connections that the new sign-in was granted, whatever they were before.\<close>

theorem sign_in_keeps_earlier_sessions:
  assumes "oidc_finish env ox f cs source w = (Inr session, w')" "access_inv (aw_db w)"
    and "map_of cs ''sub'' = Some (JStr subject)"
    and "get_user_by_external_identity (oi_issuer_url (si_policy f)) subject (aw_db w) = Some old"
    and "s \<in> set (db_sessions (aw_db w))" "se_user_id s = au_id old" "se_revoked_at s = None" "ax_now env < se_expires_at s"
  shows "s \<in> set (db_sessions (aw_db w')) \<and> (\<exists>u a. get_user (se_user_id s) (aw_db w') = Some u \<and> au_active u \<and>
    admit (ox_repr ox) cs (si_policy f) (Some (map fst (available_connections env))) = Inr a \<and>
    au_role u = am_role a \<and> au_connection_ids u = am_connection_ids a)"
proof -
  obtain a where a: "admit (ox_repr ox) cs (si_policy f) (Some (map fst (available_connections env))) = Inr a"
    and adm: "admitted_session env (ox_repr ox) f cs subject a source w = (Inr session, w')"
    using assms(1,3) by (auto simp: oidc_finish_def deauthorize_def Let_def case_prod_beta
        split: option.splits json.splits if_splits sum.splits)
  obtain n d u db where up: "upsert_external_user (ax_now env) (ax_user_id env) (oi_issuer_url (si_policy f)) subject n d
      (am_role a) (am_connection_ids a) (safe_claims (ox_repr ox) a cs) (aw_db w) = Inr (u, db)"
    and op: "open_session env (ox_repr ox) f cs a source u (w\<lparr>aw_db := db\<rparr>) = (Inr session, w')"
    using adm by (auto simp: admitted_session_def Let_def split: sum.splits)
  obtain w1 where act: "au_active u" and fed: "federated_session env u (w\<lparr>aw_db := db\<rparr>) = (Inr session, w1)"
    and w': "aw_db w' = aw_db w1"
    using op by (auto simp: open_session_def split: if_splits sum.splits prod.splits dest: audited_ok)
  have same: "db_sessions db = db_sessions (aw_db w)" "au_id u = au_id old"
    using up assms(4) by (auto simp: upsert_external_user_def Let_def)
  then have kept: "s \<in> set (db_sessions (aw_db w'))"
    using federated_session_keeps [OF fed, of s] assms(5-8) by (simp add: w' days_def seconds_def)
  have inv: "accounts_inv db" using upsert_external_inv [OF _ up] assms(2) by (simp add: access_inv_def)
  have "u \<in> set (db_users db)"
    using upsert_external_result(1) [OF up] by (auto simp: get_user_by_external_identity_def dest: sql_first_SomeD)
  then have "get_user (au_id u) db = Some u"
    using inv by (simp add: get_user_def accounts_inv_def sql_first_unique)
  then obtain v where v: "get_user (au_id u) (aw_db w1) = Some v" "access_of v = access_of u"
    using store_steps_access [OF federated_session_writes [of False env _ "w\<lparr>aw_db := db\<rparr>" u], of "au_id u"]
    by (auto simp: fed keeps_access_def)
  then show ?thesis
    using kept act a same(2) assms(6) upsert_external_result(2,3) [OF up] by (auto simp: w' access_of_def)
qed

definition earlier_session :: auth_session where
  "earlier_session = \<lparr>se_token_sha256 = ''old'', se_user_id = ''u1'', se_csrf_sha256 = ''c'', se_created_at = 0,
     se_expires_at = 100, se_revoked_at = None\<rparr>"

text \<open>The identity signed in as a viewer before and is an administrator by its groups now.\<close>

definition signed_in_world :: auth_world where
  "signed_in_world = staff_world\<lparr>aw_db := (aw_db staff_world)\<lparr>db_users :=
     [(new_user 0 ''u1'' ''ana'' ''Ana'' ''viewer'' [])\<lparr>au_auth_source := ''oidc'',
        au_external_issuer := Some (oi_issuer_url staff_policy), au_external_subject := Some ''s1''\<rparr>,
      new_user 0 ''u2'' ''root'' ''Root'' ''admin'' []],
     db_sessions := [earlier_session]\<rparr>\<rparr>"

theorem sign_in_keeps_earlier_sessions_witness:
  "\<exists>w' u. snd (oidc_finish (site_env 2 ''e'') site_oidc staff_flight staff_claims ''src'' signed_in_world) = w' \<and>
    earlier_session \<in> set (db_sessions (aw_db w')) \<and> get_user ''u1'' (aw_db w') = Some u \<and> au_role u = ''admin''"
proof -
  obtain r w' where r: "oidc_finish (site_env 2 ''e'') site_oidc staff_flight staff_claims ''src'' signed_in_world = (r, w')"
    by fastforce
  have "admitted_ok (site_env 2 ''e'') (\<lambda>v. []) staff_flight staff_claims ''s1'' staff_admission signed_in_world" by code_simp
  moreover have "ad_events (aw_audit signed_in_world) = []" by code_simp
  moreover have "available_connections (site_env 2 ''e'') = [(''primary'', ''P'')]" "length ''s1'' \<le> 255" by code_simp+
  ultimately have "is_ok (fst (oidc_finish (site_env 2 ''e'') site_oidc staff_flight staff_claims ''src'' signed_in_world))"
    using staff_admitted by (simp add: oidc_finish_def staff_claims_def staff_flight_def site_oidc_def admitted_session_ok)
  then obtain b where b: "r = Inr b" using r by (auto simp: is_ok_iff)
  have "list_ex local_admin (db_users (aw_db signed_in_world)) \<and> distinct (map au_id (db_users (aw_db signed_in_world))) \<and>
      list_all (\<lambda>u. au_auth_source u \<noteq> ''local'' \<or> au_external_issuer u = None) (db_users (aw_db signed_in_world))" by code_simp
  then have "access_inv (aw_db signed_in_world)"
    by (simp add: access_inv_def accounts_inv_def has_local_admin_def list_all_iff)
  moreover have "earlier_session \<in> set (db_sessions (aw_db signed_in_world))" "se_revoked_at earlier_session = None"
    "ax_now (site_env 2 ''e'') < se_expires_at earlier_session" "se_user_id earlier_session = ''u1''" by code_simp+
  moreover have "map_of staff_claims ''sub'' = Some (JStr ''s1'')"
    "map_option au_id (get_user_by_external_identity (oi_issuer_url (si_policy staff_flight)) ''s1'' (aw_db signed_in_world)) = Some ''u1''"
    by code_simp+
  moreover have "ox_repr site_oidc = (\<lambda>v. [])" "si_policy staff_flight = staff_policy"
    "map fst (available_connections (site_env 2 ''e'')) = [''primary'']" "am_role staff_admission = ''admin''"
    by (simp_all add: site_oidc_def staff_flight_def staff_admission_def) code_simp
  ultimately show ?thesis
    using sign_in_keeps_earlier_sessions [OF r [unfolded b], of "''s1''" _ earlier_session] staff_admitted r by auto
qed

end
