(* ===== verification/Validation_Store.thy ===== *)
theory Validation_Store
  imports Python_Values Guardrails
begin

text \<open>
  The validation queue (\<open>validation/store.py\<close>): tasks that an analyst approves before their query runs on
  Splunk. A row has the columns of the table; JSON columns are the values themselves. Times are the stored
  \<open>isoformat\<close> texts, because \<open>expires_at\<close> is whatever text a client sent and is compared as text. An operation
  reads the clock once here where the code reads it for every statement.
\<close>


section \<open>Rows\<close>

datatype task_status = TDraft | TApproved | TRunning | TComplete | TError | TExpired

record validation_task =
  vt_id :: string
  vt_title :: string
  vt_rationale :: string
  vt_spl :: string
  vt_earliest_time :: string
  vt_latest_time :: string
  vt_row_limit :: int
  vt_evidence_refs :: "string list"
  vt_result_contract :: json
  vt_source_run_id :: string
  vt_source_finding_ref :: string
  vt_case_id :: "string option"
  vt_expires_at :: "string option"
  vt_assurance_package_id :: string
  vt_approval_scope :: string
  vt_status :: task_status
  vt_query_fingerprint :: string
  vt_result_count :: int
  vt_result_preview :: "json list"
  vt_preflight_receipt :: json
  vt_execution_receipt :: json
  vt_artifact_id :: string
  vt_error :: string
  vt_approved_at :: "string option"
  vt_started_at :: "string option"
  vt_completed_at :: "string option"
  vt_connection_alias :: string
  vt_connection_fingerprint :: string
  vt_tenant_scope_id :: string
  vt_created_at :: string
  vt_updated_at :: string

type_synonym validation_db = "validation_task list"

text \<open>\<open>ValidationTaskCreate\<close> and \<open>ValidationTaskUpdate\<close>.\<close>

record task_create =
  tc_title :: string
  tc_rationale :: string
  tc_spl :: string
  tc_earliest_time :: string
  tc_latest_time :: string
  tc_row_limit :: int
  tc_evidence_refs :: "string list"
  tc_result_contract :: json
  tc_source_run_id :: string
  tc_source_finding_ref :: string
  tc_case_id :: "string option"
  tc_expires_at :: "string option"
  tc_assurance_package_id :: string
  tc_approval_scope :: string
  tc_connection_alias :: string
  tc_connection_fingerprint :: string
  tc_tenant_scope_id :: string

text \<open>The bounds that \<open>ValidationTaskCreate\<close> checks.\<close>

definition task_create_ok :: "task_create \<Rightarrow> bool" where
  "task_create_ok v = (tc_title v \<noteq> [] \<and> length (tc_title v) \<le> 240 \<and> tc_rationale v \<noteq> [] \<and> length (tc_rationale v) \<le> 4000
     \<and> tc_spl v \<noteq> [] \<and> length (tc_spl v) \<le> 20000 \<and> 2 \<le> length (tc_earliest_time v) \<and> length (tc_earliest_time v) \<le> 64
     \<and> tc_latest_time v \<noteq> [] \<and> length (tc_latest_time v) \<le> 64 \<and> 1 \<le> tc_row_limit v \<and> tc_row_limit v \<le> 500
     \<and> length (tc_evidence_refs v) \<le> 16 \<and> length (tc_source_run_id v) \<le> 120 \<and> length (tc_source_finding_ref v) \<le> 40
     \<and> (case tc_case_id v of None \<Rightarrow> True | Some c \<Rightarrow> length c \<le> 120) \<and> length (tc_assurance_package_id v) \<le> 120
     \<and> tc_approval_scope v = ''single-execution'' \<and> tc_connection_alias v \<noteq> [] \<and> length (tc_connection_alias v) \<le> 120
     \<and> length (tc_connection_fingerprint v) \<le> 64 \<and> tc_tenant_scope_id v \<noteq> [] \<and> length (tc_tenant_scope_id v) \<le> 160)"

record task_update =
  tu_title :: "string option"
  tu_rationale :: "string option"
  tu_spl :: "string option"
  tu_earliest_time :: "string option"
  tu_latest_time :: "string option"
  tu_row_limit :: "int option"
  tu_evidence_refs :: "string list option"
  tu_case_id :: "string option"


section \<open>Expiry and lookup\<close>

definition task_fingerprint :: "(string \<Rightarrow> string) \<Rightarrow> string \<Rightarrow> string \<Rightarrow> string \<Rightarrow> int \<Rightarrow> string" where
  "task_fingerprint digest spl earliest latest row_limit =
     digest (json_text (JObj [(''spl'', JStr (strip spl)), (''earliest_time'', JStr (strip earliest)),
       (''latest_time'', JStr (strip latest)), (''row_limit'', JInt row_limit)]))"

definition expirable :: "string \<Rightarrow> string list \<Rightarrow> validation_task \<Rightarrow> bool" where
  "expirable now excluded t =
     ((case vt_expires_at t of None \<Rightarrow> False | Some e \<Rightarrow> e \<le> now)
      \<and> List.member [TDraft, TApproved, TError] (vt_status t) \<and> \<not> List.member excluded (vt_tenant_scope_id t))"

definition expire_due :: "string \<Rightarrow> string list \<Rightarrow> validation_db \<Rightarrow> nat \<times> validation_db" where
  "expire_due now excluded db =
     (sql_count (expirable now excluded) db,
      sql_update (expirable now excluded) (\<lambda>t. t\<lparr>vt_status := TExpired,
        vt_error := ''The assurance response window expired before execution.'', vt_updated_at := now\<rparr>) db)"

definition in_tenant :: "string option \<Rightarrow> validation_task \<Rightarrow> bool" where
  "in_tenant tenant t = (case tenant of None \<Rightarrow> True | Some s \<Rightarrow> vt_tenant_scope_id t = s)"

definition find_task :: "string \<Rightarrow> validation_db \<Rightarrow> validation_task option" where
  "find_task i db = sql_first (\<lambda>t. vt_id t = i) db"

text \<open>\<open>get\<close> first expires what is due, so it also changes the table.\<close>

definition get_task :: "string \<Rightarrow> string \<Rightarrow> validation_db \<Rightarrow> validation_task option \<times> validation_db" where
  "get_task now i db = (let db' = snd (expire_due now [] db) in (find_task i db', db'))"

definition get_scoped_task ::
  "string \<Rightarrow> string \<Rightarrow> string \<Rightarrow> validation_db \<Rightarrow> validation_task option \<times> validation_db" where
  "get_scoped_task now i tenant db =
     (let db' = snd (expire_due now [] db)
      in (sql_first (\<lambda>t. vt_id t = i \<and> vt_tenant_scope_id t = tenant) db', db'))"

fun status_rank :: "task_status \<Rightarrow> nat" where
  "status_rank TRunning = 0"
| "status_rank TApproved = 1"
| "status_rank TDraft = 2"
| "status_rank TError = 3"
| "status_rank TExpired = 4"
| "status_rank TComplete = 5"

definition list_tasks ::
  "string \<Rightarrow> int \<Rightarrow> string option \<Rightarrow> validation_db \<Rightarrow> validation_task list \<times> validation_db" where
  "list_tasks now limit tenant db =
     (let db' = snd (expire_due now [] db)
      in (sql_limit limit (sort_key (\<lambda>t. status_rank (vt_status t))
            (text_order_desc vt_updated_at (filter (in_tenant tenant) db'))), db'))"

definition find_reusable ::
  "string \<Rightarrow> string \<Rightarrow> string option \<Rightarrow> validation_db \<Rightarrow> validation_task option \<times> validation_db" where
  "find_reusable now fingerprint tenant db =
     (let db' = snd (expire_due now [] db)
      in (sql_first (\<lambda>t. True) (text_order_desc vt_updated_at (filter (\<lambda>t. vt_query_fingerprint t = fingerprint
            \<and> List.member [TDraft, TApproved, TRunning] (vt_status t) \<and> in_tenant tenant t) db')), db'))"

text \<open>\<open>ORDER BY completed_at DESC\<close>: a missing time sorts last, below every text.\<close>

definition find_latest_complete ::
  "string \<Rightarrow> string \<Rightarrow> string option \<Rightarrow> validation_db \<Rightarrow> validation_task option" where
  "find_latest_complete fingerprint exclude tenant db =
     sql_first (\<lambda>t. True) (sort_key (\<lambda>t. vt_completed_at t = None)
       (text_order_desc (\<lambda>t. case vt_completed_at t of None \<Rightarrow> [] | Some s \<Rightarrow> s)
         (filter (\<lambda>t. vt_query_fingerprint t = fingerprint \<and> vt_status t = TComplete \<and> vt_id t \<noteq> exclude
            \<and> in_tenant tenant t) db)))"


section \<open>Opening\<close>

definition bind_unbound :: "string \<Rightarrow> string \<Rightarrow> string \<Rightarrow> validation_db \<Rightarrow> nat \<times> validation_db" where
  "bind_unbound alias fingerprint tenant db =
     (let unbound = (\<lambda>t. vt_connection_fingerprint t = []) in
      (sql_count unbound db, sql_update unbound (\<lambda>t. t\<lparr>
         vt_connection_alias := (if alias = [] then ''primary'' else alias),
         vt_connection_fingerprint := fingerprint,
         vt_tenant_scope_id := (if tenant = [] then ''workspace-primary'' else tenant)\<rparr>) db))"

definition recover_interrupted :: "string \<Rightarrow> string list \<Rightarrow> validation_db \<Rightarrow> nat \<times> validation_db" where
  "recover_interrupted now excluded db =
     (let interrupted = (\<lambda>t. vt_status t = TRunning \<and> \<not> List.member excluded (vt_tenant_scope_id t)) in
      (sql_count interrupted db, sql_update interrupted (\<lambda>t. t\<lparr>vt_status := TApproved,
         vt_error := ''Execution was interrupted by a SignalRoom restart; approval was preserved.'',
         vt_started_at := None, vt_updated_at := now\<rparr>) db))"

definition open_validations :: "string \<Rightarrow> validation_db \<Rightarrow> validation_db" where
  "open_validations now db = snd (expire_due now [] (snd (recover_interrupted now [] db)))"


section \<open>Drafts and approval\<close>

text \<open>\<open>sorted(set(refs))\<close>.\<close>

definition sorted_refs :: "string list \<Rightarrow> string list" where
  "sorted_refs refs = sort (remdups refs)"

definition new_task :: "(string \<Rightarrow> string) \<Rightarrow> string \<Rightarrow> string \<Rightarrow> task_create \<Rightarrow> validation_task" where
  "new_task digest now i v = \<lparr>vt_id = i, vt_title = strip (tc_title v), vt_rationale = strip (tc_rationale v),
     vt_spl = strip (tc_spl v), vt_earliest_time = strip (tc_earliest_time v),
     vt_latest_time = strip (tc_latest_time v), vt_row_limit = tc_row_limit v,
     vt_evidence_refs = sorted_refs (tc_evidence_refs v), vt_result_contract = json_norm (tc_result_contract v),
     vt_source_run_id = tc_source_run_id v, vt_source_finding_ref = tc_source_finding_ref v,
     vt_case_id = tc_case_id v, vt_expires_at = tc_expires_at v,
     vt_assurance_package_id = tc_assurance_package_id v, vt_approval_scope = tc_approval_scope v,
     vt_status = TDraft,
     vt_query_fingerprint =
       task_fingerprint digest (tc_spl v) (tc_earliest_time v) (tc_latest_time v) (tc_row_limit v),
     vt_result_count = 0, vt_result_preview = [], vt_preflight_receipt = JObj [], vt_execution_receipt = JObj [],
     vt_artifact_id = [], vt_error = [], vt_approved_at = None, vt_started_at = None, vt_completed_at = None,
     vt_connection_alias = tc_connection_alias v, vt_connection_fingerprint = tc_connection_fingerprint v,
     vt_tenant_scope_id = tc_tenant_scope_id v, vt_created_at = now, vt_updated_at = now\<rparr>"

definition create_task ::
  "(string \<Rightarrow> string) \<Rightarrow> string \<Rightarrow> string \<Rightarrow> task_create \<Rightarrow> validation_db \<Rightarrow> (validation_task \<times> validation_db) result" where
  "create_task digest now i v db =
     (if list_ex (\<lambda>t. vt_id t = i) db then Inl (IntegrityError ''validation_tasks'')
      else case get_task now i (db @ [new_task digest now i v]) of
          (None, db') \<Rightarrow> Inl AssertionError
        | (Some t, db') \<Rightarrow> Inr (t, db'))"

definition no_fields :: "task_update \<Rightarrow> bool" where
  "no_fields v = (tu_title v = None \<and> tu_rationale v = None \<and> tu_spl v = None \<and> tu_earliest_time v = None
     \<and> tu_latest_time v = None \<and> tu_row_limit v = None \<and> tu_evidence_refs v = None \<and> tu_case_id v = None)"

definition merged_task :: "task_update \<Rightarrow> validation_task \<Rightarrow> validation_task" where
  "merged_task v t = t\<lparr>vt_title := given_else (tu_title v) (vt_title t), vt_rationale := given_else (tu_rationale v) (vt_rationale t),
     vt_spl := given_else (tu_spl v) (vt_spl t), vt_earliest_time := given_else (tu_earliest_time v) (vt_earliest_time t),
     vt_latest_time := given_else (tu_latest_time v) (vt_latest_time t), vt_row_limit := given_else (tu_row_limit v) (vt_row_limit t),
     vt_evidence_refs := (case tu_evidence_refs v of None \<Rightarrow> vt_evidence_refs t | Some rs \<Rightarrow> sorted_refs rs),
     vt_case_id := (case tu_case_id v of None \<Rightarrow> vt_case_id t | Some c \<Rightarrow> Some c)\<rparr>"

definition redrafted :: "(string \<Rightarrow> string) \<Rightarrow> string \<Rightarrow> task_update \<Rightarrow> validation_task \<Rightarrow> validation_task" where
  "redrafted digest now v t = (let m = merged_task v t in m\<lparr>vt_status := TDraft, vt_approved_at := None,
     vt_started_at := None, vt_completed_at := None, vt_result_count := 0, vt_result_preview := [],
     vt_preflight_receipt := JObj [], vt_execution_receipt := JObj [], vt_artifact_id := [], vt_error := [],
     vt_query_fingerprint :=
       task_fingerprint digest (vt_spl m) (vt_earliest_time m) (vt_latest_time m) (vt_row_limit m),
     vt_result_contract := (if tu_spl v = None then vt_result_contract t else JObj []), vt_updated_at := now\<rparr>)"

definition update_task ::
  "(string \<Rightarrow> string) \<Rightarrow> string \<Rightarrow> string \<Rightarrow> task_update \<Rightarrow> validation_db \<Rightarrow>
    validation_task option result \<times> validation_db" where
  "update_task digest now i v db =
     (case get_task now i db of
        (None, db1) \<Rightarrow> (Inr None, db1)
      | (Some t, db1) \<Rightarrow>
          if \<not> List.member [TDraft, TError] (vt_status t)
          then (Inl (ValueError ''Only draft or failed validation tasks can be edited''), db1)
          else if no_fields v then (Inr (Some t), db1)
          else let (found, db2) = get_task now i (sql_update (\<lambda>x. vt_id x = i) (redrafted digest now v) db1)
            in (Inr found, db2))"

definition approve_task :: "string \<Rightarrow> string \<Rightarrow> validation_db \<Rightarrow> validation_task option result \<times> validation_db" where
  "approve_task now i db =
     (case get_task now i db of
        (None, db1) \<Rightarrow> (Inr None, db1)
      | (Some t, db1) \<Rightarrow>
          if vt_status t = TExpired
          then (Inl (ValueError ''This validation draft expired and cannot be approved''), db1)
          else if \<not> List.member [TDraft, TError, TApproved] (vt_status t)
          then (Inl (ValueError ''Only draft or failed validation tasks can be approved''), db1)
          else let (found, db2) = get_task now i (sql_update (\<lambda>x. vt_id x = i)
              (\<lambda>x. x\<lparr>vt_status := TApproved, vt_error := [], vt_updated_at := now,
                 vt_approved_at := Some (case vt_approved_at t of None \<Rightarrow> now | Some a \<Rightarrow> if a = [] then now else a)\<rparr>) db1)
            in (Inr found, db2))"

definition delete_task :: "string \<Rightarrow> validation_db \<Rightarrow> bool \<times> validation_db" where
  "delete_task i db = (list_ex (\<lambda>t. vt_id t = i \<and> vt_status t \<noteq> TRunning) db,
     sql_delete (\<lambda>t. vt_id t = i \<and> vt_status t \<noteq> TRunning) db)"


section \<open>Execution\<close>

definition mark_running :: "string \<Rightarrow> string \<Rightarrow> validation_db \<Rightarrow> validation_task option \<times> validation_db" where
  "mark_running now i db =
     (let db1 = snd (expire_due now [] db); ready = (\<lambda>t. vt_id t = i \<and> vt_status t = TApproved);
          db2 = sql_update ready (\<lambda>t. t\<lparr>vt_status := TRunning, vt_started_at := Some now,
            vt_completed_at := None, vt_error := [], vt_updated_at := now\<rparr>) db1
      in if list_ex ready db1 then get_task now i db2 else (None, db2))"

definition set_preflight :: "string \<Rightarrow> string \<Rightarrow> json \<Rightarrow> validation_db \<Rightarrow> validation_task option \<times> validation_db" where
  "set_preflight now i receipt db =
     (case get_task now i db of
        (None, db1) \<Rightarrow> (None, db1)
      | (Some t, db1) \<Rightarrow>
          if \<not> List.member [TDraft, TError, TApproved] (vt_status t) then (None, db1)
          else get_task now i (sql_update (\<lambda>x. vt_id x = i)
            (\<lambda>x. x\<lparr>vt_preflight_receipt := receipt, vt_updated_at := now\<rparr>) db1))"

definition complete_task ::
  "string \<Rightarrow> string \<Rightarrow> int \<Rightarrow> json list \<Rightarrow> string \<Rightarrow> json \<Rightarrow> validation_db \<Rightarrow> validation_task option \<times> validation_db" where
  "complete_task now i count preview artifact receipt db =
     (let running = (\<lambda>t. vt_id t = i \<and> vt_status t = TRunning);
          db1 = sql_update running (\<lambda>t. t\<lparr>vt_status := TComplete, vt_result_count := count,
            vt_result_preview := preview, vt_artifact_id := artifact, vt_execution_receipt := receipt,
            vt_error := [], vt_completed_at := Some now, vt_updated_at := now\<rparr>) db
      in if list_ex running db then get_task now i db1 else (None, db1))"

definition fail_task :: "string \<Rightarrow> string \<Rightarrow> string \<Rightarrow> validation_db \<Rightarrow> validation_db" where
  "fail_task now i err db = snd (get_task now i (sql_update (\<lambda>t. vt_id t = i)
     (\<lambda>t. t\<lparr>vt_status := TError, vt_error := take 4000 err, vt_completed_at := Some now, vt_updated_at := now\<rparr>) db))"

definition requeue_interrupted :: "string \<Rightarrow> string \<Rightarrow> string \<Rightarrow> validation_db \<Rightarrow> validation_db" where
  "requeue_interrupted now i reason db = snd (get_task now i (sql_update (\<lambda>t. vt_id t = i)
     (\<lambda>t. t\<lparr>vt_status := TApproved, vt_error := take 4000 reason, vt_started_at := None, vt_updated_at := now\<rparr>) db))"

end
