(* ===== verification/Validation_Service.thy ===== *)
theory Validation_Service
  imports Validation_Store Audit_Chain
begin

text \<open>
  The approval and execution of validation tasks (\<open>validation/service.py\<close>) with the routes of \<open>app.py\<close> that
  drive them. A request that awaits is a flight: \<open>resume_flight\<close> runs it from one await to the next, and between
  two of its steps every other request may run.

  Parameters (record \<open>validation_env\<close>): SHA-256, the clock, the fresh id, the binding validator, the result-shape
  comparison of the query adapter, and the text of a list or dictionary. What an await yields is the argument
  \<open>awaited\<close>: the preflight receipt, the result of the query, the id of the stored evidence artifact (the answer of
  the evidence and case stores, in one await with the report before it), an exception, or a cancellation.
\<close>


section \<open>Contract, rows and preview\<close>

record validation_env =
  vx_digest :: "string \<Rightarrow> string"
  vx_now :: string
  vx_task_id :: string
  vx_binding :: "string \<Rightarrow> string \<Rightarrow> string \<Rightarrow> bool \<times> string"
  vx_shape :: "validation_task \<Rightarrow> json list \<Rightarrow> json"
  vx_repr :: "json \<Rightarrow> string"

datatype awaited = Returned json | Raised string | Cancelled

definition check_contract :: "validation_task \<Rightarrow> unit result" where
  "check_contract t = validate_contract (vt_spl t) (vt_earliest_time t) (vt_latest_time t) (vt_row_limit t)"

definition truthy :: "json option \<Rightarrow> bool" where
  "truthy v = (case v of None \<Rightarrow> False | Some x \<Rightarrow> json_true x)"

text \<open>\<open>_rows\<close>: the rows in a reply, or the failure that the reply reports.\<close>

definition reply_detail :: "(json \<Rightarrow> string) \<Rightarrow> json \<Rightarrow> string" where
  "reply_detail repr v =
     (if truthy (json_member ''content'' v) then str_or_empty repr (json_member ''content'' v)
      else if truthy (json_member ''error'' v) then str_or_empty repr (json_member ''error'' v)
      else ''The query was rejected'')"

fun first_list :: "string list \<Rightarrow> json \<Rightarrow> json list" where
  "first_list [] v = []"
| "first_list (k # ks) v = (case json_member k v of Some (JArr xs) \<Rightarrow> xs | _ \<Rightarrow> first_list ks v)"

fun result_rows :: "(json \<Rightarrow> string) \<Rightarrow> json \<Rightarrow> json list result" where
  "result_rows repr (JArr xs) = Inr xs"
| "result_rows repr (JObj kvs) =
     (let v = JObj kvs; code = json_member ''status_code'' v;
          failed = (case Option.bind code py_int of None \<Rightarrow> False | Some n \<Rightarrow> 400 \<le> n)
      in if failed then Inl (ValueError (''Splunk MCP query failed ('' @ json_str repr (the code) @ ''): '' @ reply_detail repr v))
         else if truthy (json_member ''error'' v)
         then Inl (ValueError (''Splunk MCP query failed: '' @ str_or_empty repr (json_member ''error'' v)))
         else Inr (first_list [''results'', ''items'', ''data''] v))"
| "result_rows repr _ = Inr []"

text \<open>A dictionary comprehension is \<open>dict_of\<close>: the place of the first equal key, the value of the last.\<close>

definition bounded_value :: "(json \<Rightarrow> string) \<Rightarrow> json \<Rightarrow> json" where
  "bounded_value repr v = (case v of JInt n \<Rightarrow> v | JNum t \<Rightarrow> v | JBool b \<Rightarrow> v | _ \<Rightarrow> JStr (take 4000 (json_str repr v)))"

definition bounded_row :: "(json \<Rightarrow> string) \<Rightarrow> json \<Rightarrow> json" where
  "bounded_row repr row = (case row of
     JObj kvs \<Rightarrow> JObj (dict_of (map (\<lambda>(k, v). (take 160 k, bounded_value repr v)) (take 80 kvs)))
   | _ \<Rightarrow> JStr (take 4000 (json_str repr row)))"

fun preview_from :: "(json \<Rightarrow> string) \<Rightarrow> nat \<Rightarrow> json list \<Rightarrow> json list" where
  "preview_from repr used [] = []"
| "preview_from repr used (row # rows) =
     (let bounded = bounded_row repr row; size = length (dumps bounded) in
      if 100000 < used + size then [] else bounded # preview_from repr (used + size) rows)"

definition bounded_preview :: "(json \<Rightarrow> string) \<Rightarrow> json list \<Rightarrow> json list" where
  "bounded_preview repr rows = preview_from repr 0 (take 50 rows)"

definition check_detail :: "(json \<Rightarrow> string) \<Rightarrow> json \<Rightarrow> string list" where
  "check_detail repr item = (if json_member ''status'' item = Some (JStr ''blocked'')
     then [str_or_empty repr (json_member ''detail'' item)] else [])"

definition preflight_detail :: "(json \<Rightarrow> string) \<Rightarrow> json \<Rightarrow> string" where
  "preflight_detail repr receipt =
     (let checks = (case json_member ''checks'' receipt of Some (JArr xs) \<Rightarrow> xs | _ \<Rightarrow> []);
          blocked = join_with '' '' (concat (map (check_detail repr) checks));
          summary = (case json_member ''parser'' receipt of None \<Rightarrow> []
            | Some parser \<Rightarrow> str_or_empty repr (json_member ''summary'' parser))
      in take 4000 (if blocked \<noteq> [] then blocked else if summary \<noteq> [] then summary
           else ''Splunk validation preflight completed.''))"

definition bound_client :: "validation_env \<Rightarrow> validation_task \<Rightarrow> unit result" where
  "bound_client env t =
     (let (valid, reason) = vx_binding env (vt_connection_alias t) (vt_connection_fingerprint t) (vt_tenant_scope_id t)
      in if valid then Inr () else Inl (ValueError (''Validation target is no longer executable: '' @ reason)))"


section \<open>Drafts and approval\<close>

definition create_validation ::
  "validation_env \<Rightarrow> task_create \<Rightarrow> validation_db \<Rightarrow> (validation_task \<times> validation_db) result" where
  "create_validation env v db =
     (case validate_contract (tc_spl v) (tc_earliest_time v) (tc_latest_time v) (tc_row_limit v) of
        Inl e \<Rightarrow> Inl e
      | Inr _ \<Rightarrow> create_task (vx_digest env) (vx_now env) (vx_task_id env) v db)"

definition update_validation ::
  "validation_env \<Rightarrow> string \<Rightarrow> task_update \<Rightarrow> validation_db \<Rightarrow> validation_task option result \<times> validation_db" where
  "update_validation env i v db =
     (case get_task (vx_now env) i db of
        (None, db1) \<Rightarrow> (Inr None, db1)
      | (Some t, db1) \<Rightarrow>
         (case check_contract (merged_task v t) of Inl e \<Rightarrow> (Inl e, db1)
          | Inr _ \<Rightarrow> update_task (vx_digest env) (vx_now env) i v db1))"

definition approve_validation ::
  "validation_env \<Rightarrow> string \<Rightarrow> validation_db \<Rightarrow> validation_task option result \<times> validation_db" where
  "approve_validation env i db =
     (case get_task (vx_now env) i db of
        (None, db1) \<Rightarrow> (Inr None, db1)
      | (Some t, db1) \<Rightarrow>
         (case check_contract t of Inl e \<Rightarrow> (Inl e, db1) | Inr _ \<Rightarrow> approve_task (vx_now env) i db1))"


section \<open>Flights\<close>

text \<open>Why a preflight was asked for, and the await at which the request stands.\<close>

datatype flight_kind = PreflightOnly | ThenApprove | ThenExecute

datatype flight_phase =
    CapabilityReport
  | AdapterCall
  | ReceiptReport json
  | GuardrailReport     \<comment> \<open>after \<open>mark_running\<close>, before the \<open>try\<close>\<close>
  | SplunkReport
  | QueryCall           \<comment> \<open>the query is running on Splunk\<close>
  | PreserveReport "json list" json
  | CompleteReport validation_task

record flight =
  fl_kind :: flight_kind
  fl_task :: validation_task
  fl_phase :: flight_phase

datatype segment_end = Going flight | Done "validation_task option result"

definition at_phase :: "flight \<Rightarrow> flight_phase \<Rightarrow> segment_end" where
  "at_phase f ph = Going (f\<lparr>fl_phase := ph\<rparr>)"

text \<open>A failed preflight: only \<open>execute\<close> records it in the task, and not for a cancellation.\<close>

definition preflight_failed ::
  "validation_env \<Rightarrow> flight_kind \<Rightarrow> string \<Rightarrow> py_error \<Rightarrow> validation_db \<Rightarrow> segment_end \<times> validation_db" where
  "preflight_failed env kind i err db = (Done (Inl err),
     if kind = ThenExecute \<and> err \<noteq> CancelledError then fail_task (vx_now env) i (error_message err) db else db)"

definition not_found :: "string \<Rightarrow> py_error" where
  "not_found i = KeyError (''Validation task not found: '' @ i)"

definition start_preflight ::
  "validation_env \<Rightarrow> flight_kind \<Rightarrow> string \<Rightarrow> validation_db \<Rightarrow> segment_end \<times> validation_db" where
  "start_preflight env kind i db =
     (case get_task (vx_now env) i db of
        (None, db1) \<Rightarrow> preflight_failed env kind i (not_found i) db1
      | (Some t, db1) \<Rightarrow>
         (case check_contract t of Inl e \<Rightarrow> preflight_failed env kind i e db1
          | Inr _ \<Rightarrow> (case bound_client env t of Inl e \<Rightarrow> preflight_failed env kind i e db1
             | Inr _ \<Rightarrow> (Going \<lparr>fl_kind = kind, fl_task = t, fl_phase = CapabilityReport\<rparr>, db1))))"

definition receipt_text :: "string \<Rightarrow> json \<Rightarrow> string option" where
  "receipt_text k receipt = (case json_member k receipt of Some (JStr s) \<Rightarrow> Some s | _ \<Rightarrow> None)"

definition receipt_current :: "bool \<Rightarrow> validation_task \<Rightarrow> bool" where
  "receipt_current include_saia t =
     (let receipt = vt_preflight_receipt t in
      receipt_text ''query_fingerprint'' receipt = Some (vt_query_fingerprint t)
      \<and> receipt_text ''connection_fingerprint'' receipt = Some (vt_connection_fingerprint t)
      \<and> List.member [Some ''passed'', Some ''advisory-only''] (receipt_text ''status'' receipt)
      \<and> (\<not> include_saia \<or> (case json_member ''saia'' receipt of None \<Rightarrow> False
           | Some saia \<Rightarrow> List.member [Some ''passed'', Some ''unavailable'', Some ''error''] (receipt_text ''status'' saia))))"

definition ensure_preflight ::
  "validation_env \<Rightarrow> flight_kind \<Rightarrow> string \<Rightarrow> bool \<Rightarrow> bool \<Rightarrow> validation_db \<Rightarrow> segment_end \<times> validation_db" where
  "ensure_preflight env kind i include_saia refresh db =
     (case get_task (vx_now env) i db of
        (None, db1) \<Rightarrow> preflight_failed env kind i (not_found i) db1
      | (Some t, db1) \<Rightarrow>
          if receipt_current include_saia t \<and> \<not> refresh then (Done (Inr (Some t)), db1)
          else start_preflight env kind i db1)"

definition approved_end :: "validation_env \<Rightarrow> string \<Rightarrow> validation_db \<Rightarrow> segment_end \<times> validation_db" where
  "approved_end env i db = (let (r, db') = approve_validation env i db in (Done r, db'))"

text \<open>The requests \<open>/preflight/stream\<close>, \<open>/approve\<close> and \<open>/run/stream\<close> up to their first await.\<close>

definition start_approve :: "validation_env \<Rightarrow> string \<Rightarrow> validation_db \<Rightarrow> segment_end \<times> validation_db" where
  "start_approve env i db =
     (case ensure_preflight env ThenApprove i False False db of
        (Done (Inr (Some t)), db1) \<Rightarrow> approved_end env i db1
      | r \<Rightarrow> r)"

definition start_execute :: "validation_env \<Rightarrow> string \<Rightarrow> validation_db \<Rightarrow> segment_end \<times> validation_db" where
  "start_execute env i db =
     (case get_task (vx_now env) i db of
        (None, db1) \<Rightarrow> (Done (Inl (not_found i)), db1)
      | (Some t, db1) \<Rightarrow>
         (case check_contract t of Inl e \<Rightarrow> (Done (Inl e), db1)
          | Inr _ \<Rightarrow> if vt_status t \<noteq> TApproved
              then (Done (Inl (ValueError ''Validation task must be explicitly approved before execution'')), db1)
              else ensure_preflight env ThenExecute i False True db1))"

text \<open>What follows a passed preflight.\<close>

definition after_preflight :: "validation_env \<Rightarrow> flight \<Rightarrow> validation_db \<Rightarrow> segment_end \<times> validation_db" where
  "after_preflight env f db =
     (let i = vt_id (fl_task f) in
      case fl_kind f of
        PreflightOnly \<Rightarrow> (Done (Inr (Some (fl_task f))), db)
      | ThenApprove \<Rightarrow> approved_end env i db
      | ThenExecute \<Rightarrow>
         (case mark_running (vx_now env) i db of
            (None, db1) \<Rightarrow> (Done (Inl (ValueError ''Validation task must be explicitly approved before execution'')), db1)
          | (Some running, db1) \<Rightarrow> (Going \<lparr>fl_kind = ThenExecute, fl_task = running, fl_phase = GuardrailReport\<rparr>, db1)))"

text \<open>The two handlers of the \<open>try\<close> of \<open>execute\<close>; neither looks at the status the task has by then.\<close>

definition run_failed :: "validation_env \<Rightarrow> flight \<Rightarrow> py_error \<Rightarrow> validation_db \<Rightarrow> segment_end \<times> validation_db" where
  "run_failed env f err db = (Done (Inl err), fail_task (vx_now env) (vt_id (fl_task f)) (error_message err) db)"

definition run_cancelled :: "validation_env \<Rightarrow> flight \<Rightarrow> validation_db \<Rightarrow> segment_end \<times> validation_db" where
  "run_cancelled env f db = (Done (Inl CancelledError), requeue_interrupted (vx_now env) (vt_id (fl_task f))
     ''Execution was cancelled; approval is preserved for a retry.'' db)"

definition continue_preflight ::
  "validation_env \<Rightarrow> flight \<Rightarrow> flight_phase \<Rightarrow> json \<Rightarrow> validation_db \<Rightarrow> segment_end \<times> validation_db" where
  "continue_preflight env f ph v db =
     (let i = vt_id (fl_task f) in
      case ph of
        CapabilityReport \<Rightarrow> (at_phase f AdapterCall, db)
      | AdapterCall \<Rightarrow>
         (case set_preflight (vx_now env) i v db of
            (None, db1) \<Rightarrow> preflight_failed env (fl_kind f) i
              (ValueError ''This validation task cannot be preflighted in its current state'') db1
          | (Some t, db1) \<Rightarrow> (at_phase (f\<lparr>fl_task := t\<rparr>) (ReceiptReport v), db1))
      | ReceiptReport receipt \<Rightarrow>
          if receipt_text ''status'' receipt = Some ''blocked''
          then preflight_failed env (fl_kind f) i (ValueError (preflight_detail (vx_repr env) receipt)) db
          else after_preflight env f db
      | _ \<Rightarrow> (Done (Inl AssertionError), db))"

definition continue_run ::
  "validation_env \<Rightarrow> flight \<Rightarrow> flight_phase \<Rightarrow> json \<Rightarrow> validation_db \<Rightarrow> segment_end \<times> validation_db" where
  "continue_run env f ph v db =
     (case ph of
        GuardrailReport \<Rightarrow>
         (case bound_client env (fl_task f) of Inl e \<Rightarrow> run_failed env f e db | Inr _ \<Rightarrow> (at_phase f SplunkReport, db))
      | SplunkReport \<Rightarrow> (at_phase f QueryCall, db)
      | QueryCall \<Rightarrow>
         (case result_rows (vx_repr env) v of Inl e \<Rightarrow> run_failed env f e db
          | Inr rows \<Rightarrow> (at_phase f (PreserveReport rows (vx_shape env (fl_task f) rows)), db))
      | PreserveReport rows receipt \<Rightarrow>
         (case complete_task (vx_now env) (vt_id (fl_task f)) (int (length rows)) (bounded_preview (vx_repr env) rows)
             (str_or_empty (vx_repr env) (Some v)) receipt db of
            (None, db1) \<Rightarrow> run_failed env f AssertionError db1
          | (Some t, db1) \<Rightarrow> (at_phase f (CompleteReport t), db1))
      | CompleteReport t \<Rightarrow> (Done (Inr (Some t)), db)
      | _ \<Rightarrow> (Done (Inl AssertionError), db))"

fun in_preflight :: "flight_phase \<Rightarrow> bool" where
  "in_preflight CapabilityReport = True"
| "in_preflight AdapterCall = True"
| "in_preflight (ReceiptReport r) = True"
| "in_preflight _ = False"

definition resume_flight ::
  "validation_env \<Rightarrow> flight \<Rightarrow> awaited \<Rightarrow> validation_db \<Rightarrow> segment_end \<times> validation_db" where
  "resume_flight env f a db =
     (let ph = fl_phase f; i = vt_id (fl_task f) in
      if in_preflight ph
      then (case a of Returned v \<Rightarrow> continue_preflight env f ph v db
        | Raised m \<Rightarrow> preflight_failed env (fl_kind f) i (RuntimeError m) db
        | Cancelled \<Rightarrow> preflight_failed env (fl_kind f) i CancelledError db)
      else if ph = GuardrailReport
      then (case a of Returned v \<Rightarrow> continue_run env f ph v db
        | Raised m \<Rightarrow> (Done (Inl (RuntimeError m)), db)
        | Cancelled \<Rightarrow> (Done (Inl CancelledError), db))
      else (case a of Returned v \<Rightarrow> continue_run env f ph v db
        | Raised m \<Rightarrow> run_failed env f (RuntimeError m) db
        | Cancelled \<Rightarrow> run_cancelled env f db))"

end
