(* ===== verification/Validation_Lifecycle.thy ===== *)
theory Validation_Lifecycle
  imports Validation_Service
begin

text \<open>
  What the validation queue promises over every interleaving of its requests (definitions in \<open>Validation_Store\<close>
  and \<open>Validation_Service\<close>). The table is used through the lookup by id: every operation is a function of the
  lookups, which the \<open>find_\<close> lemmas state, and the theorems follow from these equations.
\<close>


section \<open>The table as a map\<close>

definition expired :: "string \<Rightarrow> validation_task \<Rightarrow> validation_task" where
  "expired now t = (if expirable now [] t then t\<lparr>vt_status := TExpired,
     vt_error := ''The assurance response window expired before execution.'', vt_updated_at := now\<rparr> else t)"

lemma expired_simps [simp]:
  "vt_id (expired now t) = vt_id t" "vt_spl (expired now t) = vt_spl t"
  "vt_earliest_time (expired now t) = vt_earliest_time t" "vt_latest_time (expired now t) = vt_latest_time t"
  "vt_row_limit (expired now t) = vt_row_limit t" "vt_query_fingerprint (expired now t) = vt_query_fingerprint t"
  "vt_result_preview (expired now t) = vt_result_preview t" "expired now (expired now t) = expired now t"
  "vt_status t = TRunning \<Longrightarrow> expired now t = t" "vt_status t = TComplete \<Longrightarrow> expired now t = t"
  by (auto simp: expired_def expirable_def)

lemma expired_status: "vt_status (expired now t) = vt_status t
    \<or> vt_status (expired now t) = TExpired \<and> vt_status t \<in> {TDraft, TApproved, TError}"
  by (auto simp: expired_def expirable_def)

lemma not_expired: "vt_status (expired now t) \<noteq> TExpired \<Longrightarrow> expired now t = t"
  by (cases "expirable now [] t") (simp_all add: expired_def)

lemma find_id: "find_task i db = Some t \<Longrightarrow> vt_id t = i"
  by (auto simp: find_task_def dest: sql_first_SomeD)

lemma find_update:
  "(\<And>t. p t \<Longrightarrow> vt_id (f t) = vt_id t) \<Longrightarrow>
    find_task j (sql_update p f db) = map_option (\<lambda>t. if p t then f t else t) (find_task j db)"
  by (simp add: find_task_def sql_first_update)

lemma find_row:
  "(\<And>t. vt_id (f t) = vt_id t) \<Longrightarrow>
    find_task j (sql_update (\<lambda>t. vt_id t = i) f db) = (if j = i then map_option f (find_task i db) else find_task j db)"
  using find_id [of j db] by (cases "find_task j db") (auto simp: find_update)

lemma find_expire [simp]: "find_task j (snd (expire_due now [] db)) = map_option (expired now) (find_task j db)"
  by (simp add: expire_due_def find_update expired_def [abs_def])

lemma find_get: "get_task now i db = (map_option (expired now) (find_task i db), snd (expire_due now [] db))"
  by (simp add: get_task_def Let_def)

lemma find_append:
  "find_task j (db @ [t]) = (case find_task j db of None \<Rightarrow> if vt_id t = j then Some t else None | Some x \<Rightarrow> Some x)"
  by (simp add: find_task_def sql_first_append sql_first_single split: option.split)

lemma none_absent: "find_task i db = None \<longleftrightarrow> i \<notin> set (map vt_id db)"
  by (auto simp: find_task_def sql_first_None)

lemma find_delete:
  assumes "distinct (map vt_id db)"
  shows "find_task j (snd (delete_task i db)) =
    (if j = i \<and> (case find_task i db of None \<Rightarrow> False | Some t \<Rightarrow> vt_status t \<noteq> TRunning) then None else find_task j db)"
  using assms
proof (induction db)
  case (Cons t db)
  have none: "find_task (vt_id t) db = None"
    using Cons.prems by (simp add: none_absent)
  show ?case using Cons none
    by (auto simp: delete_task_def sql_delete_def find_task_def sql_first_def split: option.splits)
qed (simp add: delete_task_def sql_delete_def find_task_def sql_first_def)

lemma ids_update: "(\<And>t. p t \<Longrightarrow> vt_id (f t) = vt_id t) \<Longrightarrow> map vt_id (sql_update p f db) = map vt_id db"
  by (rule map_sql_update)

lemma ids_expire [simp]: "map vt_id (snd (expire_due now [] db)) = map vt_id db"
  by (simp add: expire_due_def ids_update)


section \<open>The operations on the map\<close>

lemma find_set:
  assumes "\<And>t. vt_id (f t) = vt_id t"
  shows "find_task j (snd (expire_due now [] (sql_update (\<lambda>t. vt_id t = i) f db)))
    = map_option (expired now) (if j = i then map_option f (find_task i db) else find_task j db)"
  using find_row [of f j i db, OF assms] by simp

definition failed :: "string \<Rightarrow> string \<Rightarrow> validation_task \<Rightarrow> validation_task" where
  "failed now e t = t\<lparr>vt_status := TError, vt_error := take 4000 e, vt_completed_at := Some now, vt_updated_at := now\<rparr>"

definition requeued :: "string \<Rightarrow> string \<Rightarrow> validation_task \<Rightarrow> validation_task" where
  "requeued now e t = t\<lparr>vt_status := TApproved, vt_error := take 4000 e, vt_started_at := None, vt_updated_at := now\<rparr>"

lemma failed_simps [simp]:
  "vt_id (failed now e t) = vt_id t"
  "vt_spl (failed now e t) = vt_spl t"
  "vt_earliest_time (failed now e t) = vt_earliest_time t"
  "vt_latest_time (failed now e t) = vt_latest_time t"
  "vt_row_limit (failed now e t) = vt_row_limit t"
  "vt_query_fingerprint (failed now e t) = vt_query_fingerprint t"
  "vt_result_preview (failed now e t) = vt_result_preview t"
  "vt_artifact_id (failed now e t) = vt_artifact_id t"
  "vt_expires_at (failed now e t) = vt_expires_at t"
  "vt_status (failed now e t) = TError" "length (vt_error (failed now e t)) \<le> 4000"
  by (simp_all add: failed_def)

lemma requeued_simps [simp]:
  "vt_id (requeued now e t) = vt_id t"
  "vt_spl (requeued now e t) = vt_spl t"
  "vt_earliest_time (requeued now e t) = vt_earliest_time t"
  "vt_latest_time (requeued now e t) = vt_latest_time t"
  "vt_row_limit (requeued now e t) = vt_row_limit t"
  "vt_query_fingerprint (requeued now e t) = vt_query_fingerprint t"
  "vt_result_preview (requeued now e t) = vt_result_preview t"
  "vt_artifact_id (requeued now e t) = vt_artifact_id t"
  "vt_expires_at (requeued now e t) = vt_expires_at t"
  "vt_status (requeued now e t) = TApproved" "length (vt_error (requeued now e t)) \<le> 4000"
  by (simp_all add: requeued_def)

lemma find_fail:
  "find_task j (fail_task now i e db)
    = map_option (expired now) (if j = i then map_option (failed now e) (find_task i db) else find_task j db)"
  unfolding fail_task_def find_get snd_conv failed_def [symmetric] by (rule find_set) simp

lemma find_requeue:
  "find_task j (requeue_interrupted now i e db)
    = map_option (expired now) (if j = i then map_option (requeued now e) (find_task i db) else find_task j db)"
  unfolding requeue_interrupted_def find_get snd_conv requeued_def [symmetric] by (rule find_set) simp

lemma ids_fail [simp]: "map vt_id (fail_task now i e db) = map vt_id db"
  by (simp add: fail_task_def find_get ids_update)

lemma ids_requeue [simp]: "map vt_id (requeue_interrupted now i e db) = map vt_id db"
  by (simp add: requeue_interrupted_def find_get ids_update)

lemma ex_row:
  assumes "distinct (map vt_id db)"
  shows "list_ex (\<lambda>t. vt_id t = i \<and> q t) db \<longleftrightarrow> (\<exists>t. find_task i db = Some t \<and> q t)"
  using sql_first_key_iff [OF assms, of i] by (auto simp: list_ex_iff find_task_def)

lemma find_update_q:
  assumes "\<And>t. vt_id (f t) = vt_id t"
  shows "find_task j (sql_update (\<lambda>t. vt_id t = i \<and> q t) f db) =
    (if j = i then map_option (\<lambda>t. if q t then f t else t) (find_task i db) else find_task j db)"
  using find_id [of j db] assms by (cases "find_task j db") (auto simp: find_update)

definition running :: "string \<Rightarrow> validation_task \<Rightarrow> validation_task" where
  "running now t = t\<lparr>vt_status := TRunning, vt_started_at := Some now, vt_completed_at := None,
     vt_error := [], vt_updated_at := now\<rparr>"

lemma running_simps [simp]:
  "vt_id (running now t) = vt_id t"
  "vt_spl (running now t) = vt_spl t"
  "vt_earliest_time (running now t) = vt_earliest_time t"
  "vt_latest_time (running now t) = vt_latest_time t"
  "vt_row_limit (running now t) = vt_row_limit t"
  "vt_query_fingerprint (running now t) = vt_query_fingerprint t"
  "vt_status (running now t) = TRunning"
  by (simp_all add: running_def)

lemma mark_running_cases:
  assumes "mark_running now i db = (r, db')" "distinct (map vt_id db)"
  obtains (refused) "r = None" "\<And>j. find_task j db' = map_option (expired now) (find_task j db)" "map vt_id db' = map vt_id db"
  | (started) t where "find_task i db = Some t" "vt_status t = TApproved" "expired now t = t" "r = Some (running now t)"
      "\<And>j. find_task j db' = (if j = i then Some (running now t) else map_option (expired now) (find_task j db))"
      "map vt_id db' = map vt_id db"
proof -
  let ?db1 = "snd (expire_due now [] db)"
  let ?db2 = "sql_update (\<lambda>t. vt_id t = i \<and> vt_status t = TApproved) (running now) ?db1"
  have ids: "map vt_id ?db2 = map vt_id db" by (simp add: ids_update)
  have ex: "list_ex (\<lambda>t. vt_id t = i \<and> vt_status t = TApproved) ?db1 \<longleftrightarrow>
      (\<exists>t. find_task i db = Some t \<and> vt_status (expired now t) = TApproved)"
    using ex_row [of ?db1] assms(2) by auto
  have "mark_running now i db = (if list_ex (\<lambda>t. vt_id t = i \<and> vt_status t = TApproved) ?db1 then get_task now i ?db2 else (None, ?db2))"
    by (simp only: mark_running_def Let_def running_def [abs_def])
  note m = this [unfolded assms(1)]
  have find2: "find_task j ?db2 = (if j = i then map_option (\<lambda>t. if vt_status t = TApproved then running now t else t)
      (find_task i ?db1) else find_task j ?db1)" for j
    by (rule find_update_q) simp
  show thesis
  proof (cases "list_ex (\<lambda>t. vt_id t = i \<and> vt_status t = TApproved) ?db1")
    case True
    then obtain t where t: "find_task i db = Some t" "vt_status (expired now t) = TApproved" using ex by blast
    then have same: "expired now t = t" "vt_status t = TApproved" using not_expired [of now t] by auto
    have run: "expired now (running now t) = running now t" by (rule expired_simps(9)) simp
    have "r = Some (running now t)" "\<And>j. find_task j db' = (if j = i then Some (running now t) else map_option (expired now) (find_task j db))"
      "map vt_id db' = map vt_id db"
      using m True t same run ids by (simp_all add: find_get find2 option.map_comp comp_def)
    then show ?thesis using started t same by blast
  next
    case False
    then have "find_task j db' = map_option (expired now) (find_task j db)" for j
      using m ex find2 [of j] by (cases "find_task i db") auto
    then show ?thesis using refused m False ids by auto
  qed
qed

lemma set_preflight_cases:
  assumes "set_preflight now i receipt db = (r, db')"
  obtains (refused) "r = None" "\<And>j. find_task j db' = map_option (expired now) (find_task j db)" "map vt_id db' = map vt_id db"
  | (stored) t t' where "find_task i db = Some t" "vt_status (expired now t) \<in> {TDraft, TError, TApproved}" "r = Some t'"
      "t' = expired now ((expired now t)\<lparr>vt_preflight_receipt := receipt, vt_updated_at := now\<rparr>)"
      "\<And>j. find_task j db' = (if j = i then Some t' else map_option (expired now) (find_task j db))"
      "map vt_id db' = map vt_id db"
proof -
  let ?db1 = "snd (expire_due now [] db)"
  let ?db2 = "sql_update (\<lambda>t. vt_id t = i) (\<lambda>x. x\<lparr>vt_preflight_receipt := receipt, vt_updated_at := now\<rparr>) ?db1"
  have ids: "map vt_id ?db2 = map vt_id db" by (simp add: ids_update)
  show thesis
  proof (cases "find_task i db")
    case None
    then show ?thesis using assms by (intro refused) (auto simp: set_preflight_def find_get)
  next
    case (Some t)
    show ?thesis
    proof (cases "List.member [TDraft, TError, TApproved] (vt_status (expired now t))")
      case True
      then have "get_task now i ?db2 = (r, db')" using assms Some by (simp add: set_preflight_def find_get)
      then show ?thesis using stored [OF Some _ _ refl] True Some ids
        by (auto simp: find_get find_row option.map_comp comp_def)
    next
      case False
      then show ?thesis using assms Some by (intro refused) (auto simp: set_preflight_def find_get)
    qed
  qed
qed

definition completed :: "string \<Rightarrow> int \<Rightarrow> json list \<Rightarrow> string \<Rightarrow> json \<Rightarrow> validation_task \<Rightarrow> validation_task" where
  "completed now n preview artifact receipt t = t\<lparr>vt_status := TComplete, vt_result_count := n,
     vt_result_preview := preview, vt_artifact_id := artifact, vt_execution_receipt := receipt, vt_error := [],
     vt_completed_at := Some now, vt_updated_at := now\<rparr>"

lemma completed_simps [simp]:
  "vt_id (completed now n preview artifact receipt t) = vt_id t"
  "vt_spl (completed now n preview artifact receipt t) = vt_spl t"
  "vt_earliest_time (completed now n preview artifact receipt t) = vt_earliest_time t"
  "vt_latest_time (completed now n preview artifact receipt t) = vt_latest_time t"
  "vt_row_limit (completed now n preview artifact receipt t) = vt_row_limit t"
  "vt_query_fingerprint (completed now n preview artifact receipt t) = vt_query_fingerprint t"
  "vt_status (completed now n preview artifact receipt t) = TComplete"
  by (simp_all add: completed_def)

lemma complete_task_cases:
  assumes "complete_task now i n preview artifact receipt db = (r, db')" "distinct (map vt_id db)"
  obtains (refused) "r = None" "db' = db"
  | (finished) t where "find_task i db = Some t" "vt_status t = TRunning"
      "r = Some (completed now n preview artifact receipt t)"
      "\<And>j. find_task j db' = (if j = i then Some (completed now n preview artifact receipt t)
         else map_option (expired now) (find_task j db))"
      "map vt_id db' = map vt_id db"
proof -
  let ?f = "completed now n preview artifact receipt"
  let ?db1 = "sql_update (\<lambda>t. vt_id t = i \<and> vt_status t = TRunning) ?f db"
  have ids: "map vt_id ?db1 = map vt_id db" by (simp add: ids_update)
  have find1: "find_task j ?db1 = (if j = i then map_option (\<lambda>t. if vt_status t = TRunning then ?f t else t)
      (find_task i db) else find_task j db)" for j
    by (rule find_update_q) simp
  have "complete_task now i n preview artifact receipt db = (if list_ex (\<lambda>t. vt_id t = i \<and> vt_status t = TRunning) db then get_task now i ?db1 else (None, ?db1))"
    by (simp only: complete_task_def Let_def completed_def [abs_def])
  note m = this [unfolded assms(1)]
  show thesis
  proof (cases "list_ex (\<lambda>t. vt_id t = i \<and> vt_status t = TRunning) db")
    case True
    then obtain t where t: "find_task i db = Some t" "vt_status t = TRunning" using ex_row [OF assms(2), of i "\<lambda>t. vt_status t = TRunning"] by blast
    have fin: "expired now (?f t) = ?f t" by (rule expired_simps(10)) simp
    have "r = Some (?f t)" "\<And>j. find_task j db' = (if j = i then Some (?f t) else map_option (expired now) (find_task j db))"
      "map vt_id db' = map vt_id db"
      using m True t fin ids by (simp_all add: find_get find1)
    then show ?thesis using finished t by blast
  next
    case False
    then have "?db1 = db" by (intro sql_update_other) (auto simp: list_ex_iff)
    then show ?thesis using refused m False by simp
  qed
qed

definition approved :: "string \<Rightarrow> validation_task \<Rightarrow> validation_task" where
  "approved now t = t\<lparr>vt_status := TApproved, vt_error := [], vt_updated_at := now,
     vt_approved_at := Some (case vt_approved_at t of None \<Rightarrow> now | Some a \<Rightarrow> if a = [] then now else a)\<rparr>"

lemma approved_simps [simp]:
  "vt_id (approved now t) = vt_id t"
  "vt_spl (approved now t) = vt_spl t"
  "vt_earliest_time (approved now t) = vt_earliest_time t"
  "vt_latest_time (approved now t) = vt_latest_time t"
  "vt_row_limit (approved now t) = vt_row_limit t"
  "vt_query_fingerprint (approved now t) = vt_query_fingerprint t"
  "vt_status (approved now t) = TApproved"
  by (simp_all add: approved_def)

text \<open>The three outcomes of an approval: nothing found, refused, or approved (and perhaps expired at once).\<close>

lemma approve_validation_cases:
  assumes "approve_validation env i db = (r, db')"
  obtains (refused) "\<And>t. r \<noteq> Inr (Some t)"
      "\<And>j. find_task j db' = map_option (expired (vx_now env)) (find_task j db)" "map vt_id db' = map vt_id db"
  | (approved) t t' where "find_task i db = Some t" "vt_status (expired (vx_now env) t) \<in> {TDraft, TError, TApproved}"
      "check_contract t = Inr ()" "r = Inr (Some t')"
      "t' = expired (vx_now env) (approved (vx_now env) (expired (vx_now env) t))"
      "\<And>j. find_task j db' = (if j = i then Some t' else map_option (expired (vx_now env)) (find_task j db))"
      "map vt_id db' = map vt_id db"
proof -
  let ?now = "vx_now env"
  let ?E = "snd (expire_due ?now [] db)"
  let ?EE = "snd (expire_due ?now [] ?E)"
  show thesis
  proof (cases "find_task i db")
    case None
    then show ?thesis using assms by (intro refused) (auto simp: approve_validation_def find_get)
  next
    case (Some t)
    have same: "check_contract (expired ?now t) = check_contract t" by (simp add: check_contract_def)
    show ?thesis
    proof (cases "check_contract t = Inr () \<and> List.member [TDraft, TError, TApproved] (vt_status (expired ?now t))")
      case True
      let ?f = "approved ?now"
      have upd: "(\<lambda>x. x\<lparr>vt_status := TApproved, vt_error := [], vt_updated_at := ?now, vt_approved_at :=
          Some (case vt_approved_at (expired ?now t) of None \<Rightarrow> ?now | Some a \<Rightarrow> if a = [] then ?now else a)\<rparr>) (expired ?now t)
        = ?f (expired ?now t)" by (simp add: approved_def)
      let ?g = "\<lambda>x. x\<lparr>vt_status := TApproved, vt_error := [], vt_updated_at := ?now, vt_approved_at :=
          Some (case vt_approved_at (expired ?now t) of None \<Rightarrow> ?now | Some a \<Rightarrow> if a = [] then ?now else a)\<rparr>"
      have "get_task ?now i (sql_update (\<lambda>x. vt_id x = i) ?g ?EE) = (case r of Inr x \<Rightarrow> x | Inl e \<Rightarrow> None, db')
          \<and> is_ok r"
        using assms True Some same
        by (auto simp: approve_validation_def approve_task_def find_get split: if_splits)
      then have g: "get_task ?now i (sql_update (\<lambda>x. vt_id x = i) ?g ?EE) = (case r of Inr x \<Rightarrow> x | Inl e \<Rightarrow> None, db')"
        and ok: "is_ok r" by blast+
      have fnd: "find_task j (sql_update (\<lambda>x. vt_id x = i) ?g ?EE) =
          (if j = i then Some (?f (expired ?now t)) else map_option (expired ?now) (find_task j db))" for j
        using find_row [of ?g j i ?EE] Some upd by (simp add: option.map_comp comp_def)
      show ?thesis
      proof (rule approved [OF Some])
        show "r = Inr (Some (expired ?now (?f (expired ?now t))))"
          using g ok fnd [of i] by (auto simp: find_get is_ok_iff)
        show "find_task j db' = (if j = i then Some (expired ?now (?f (expired ?now t))) else map_option (expired ?now) (find_task j db))" for j
          using g fnd [of j] by (auto simp: find_get option.map_comp comp_def)
        show "map vt_id db' = map vt_id db" using g by (auto simp: find_get ids_update)
      qed (use True in auto)
    next
      case False
      then show ?thesis using assms Some same
        by (intro refused) (auto simp: approve_validation_def approve_task_def find_get option.map_comp comp_def
            split: sum.splits if_splits)
    qed
  qed
qed

lemma redrafted_simps [simp]:
  "vt_id (redrafted digest now v t) = vt_id t" "vt_status (redrafted digest now v t) = TDraft"
  "check_contract (redrafted digest now v t) = check_contract (merged_task v t)"
  by (simp_all add: redrafted_def merged_task_def Let_def check_contract_def)

lemma update_validation_cases:
  assumes "update_validation env i v db = (r, db')"
  obtains (kept) "\<And>j. find_task j db' = map_option (expired (vx_now env)) (find_task j db)" "map vt_id db' = map vt_id db"
  | (redrafted) t t' where "find_task i db = Some t" "vt_status (expired (vx_now env) t) \<in> {TDraft, TError}"
      "t' = redrafted (vx_digest env) (vx_now env) v (expired (vx_now env) t)" "check_contract t' = Inr ()"
      "\<And>j. find_task j db' = map_option (expired (vx_now env)) (if j = i then Some t' else find_task j db)"
      "map vt_id db' = map vt_id db"
proof -
  let ?now = "vx_now env"
  show thesis
  proof (cases "find_task i db")
    case None
    then show ?thesis using assms by (intro kept) (auto simp: update_validation_def find_get)
  next
    case (Some t)
    let ?f = "redrafted (vx_digest env) ?now v"
    show ?thesis
    proof (cases "is_ok (check_contract (merged_task v (expired ?now t)))
        \<and> List.member [TDraft, TError] (vt_status (expired ?now t)) \<and> \<not> no_fields v")
      case True
      let ?EE = "snd (expire_due ?now [] (snd (expire_due ?now [] db)))"
      have "db' = snd (expire_due ?now [] (sql_update (\<lambda>x. vt_id x = i) ?f ?EE))"
        using assms True Some by (auto simp: update_validation_def update_task_def find_get Let_def is_ok_iff)
      moreover have "find_task j (snd (expire_due ?now [] (sql_update (\<lambda>x. vt_id x = i) ?f ?EE)))
          = map_option (expired ?now) (if j = i then Some (?f (expired ?now t)) else find_task j db)" for j
        using find_set [of ?f j ?now i ?EE] Some by (simp add: option.map_comp comp_def)
      ultimately show ?thesis using True
        by (intro redrafted [OF Some _ refl]) (auto simp: ids_update is_ok_iff)
    next
      case False
      then show ?thesis using assms Some
        by (intro kept) (auto simp: update_validation_def update_task_def find_get option.map_comp comp_def
            split: sum.splits if_splits)
    qed
  qed
qed

lemma contract_strip: "validate_contract (strip spl) (strip e) (strip l) n = validate_contract spl e l n"
  by (simp add: validate_contract_def validate_read_only_spl_def strip_idem Let_def)

lemma create_validation_cases:
  assumes "create_validation env v db = Inr (t, db')"
  obtains "check_contract (new_task (vx_digest env) (vx_now env) (vx_task_id env) v) = Inr ()"
    "vx_task_id env \<notin> set (map vt_id db)"
    "\<And>j. find_task j db' = map_option (expired (vx_now env)) (if j = vx_task_id env
       then Some (new_task (vx_digest env) (vx_now env) (vx_task_id env) v) else find_task j db)"
    "map vt_id db' = map vt_id db @ [vx_task_id env]"
proof -
  let ?new = "new_task (vx_digest env) (vx_now env) (vx_task_id env) v"
  have ok: "validate_contract (tc_spl v) (tc_earliest_time v) (tc_latest_time v) (tc_row_limit v) = Inr ()"
    and fresh: "\<not> list_ex (\<lambda>t. vt_id t = vx_task_id env) db"
    and db': "db' = snd (expire_due (vx_now env) [] (db @ [?new]))"
    using assms by (auto simp: create_validation_def create_task_def find_get split: sum.splits option.splits if_splits)
  have new: "vt_id ?new = vx_task_id env" by (simp add: new_task_def)
  have absent: "vx_task_id env \<notin> set (map vt_id db)" using fresh by (auto simp: list_ex_iff)
  then have none: "find_task (vx_task_id env) db = None" by (simp add: none_absent)
  show thesis
  proof (rule that [OF _ absent])
    show "check_contract ?new = Inr ()" using ok by (simp add: check_contract_def new_task_def contract_strip)
    show "find_task j db' = map_option (expired (vx_now env)) (if j = vx_task_id env then Some ?new else find_task j db)" for j
      using none new by (auto simp: db' find_append split: option.split)
    show "map vt_id db' = map vt_id db @ [vx_task_id env]" using new by (simp add: db')
  qed
qed


section \<open>The queue as a machine\<close>

text \<open>
  The table, the requests that await, and two histories: the queries sent to Splunk with the task they ran for,
  and the tasks as analysts approved them. A restart loses the flights.
\<close>

record validation_world =
  vw_tasks :: validation_db
  vw_flights :: "flight list"
  vw_calls :: "validation_task list"
  vw_approved :: "validation_task list"

datatype validation_op =
    CreateTask task_create
  | UpdateTask string task_update
  | ApproveTask string
  | PreflightTask string bool
  | ExecuteTask string
  | DeleteTask string
  | Resume nat awaited
  | RestartService

fun new_flights :: "segment_end \<Rightarrow> flight list" where
  "new_flights (Going f) = [f]"
| "new_flights (Done r) = []"

fun new_calls :: "segment_end \<Rightarrow> validation_task list" where
  "new_calls (Going f) = (if fl_phase f = QueryCall then [fl_task f] else [])"
| "new_calls (Done r) = []"

fun new_approvals :: "flight_kind \<Rightarrow> segment_end \<Rightarrow> validation_task list" where
  "new_approvals ThenApprove (Done (Inr (Some t))) = [t]"
| "new_approvals _ _ = []"

text \<open>The world after a segment of a request of kind \<open>kind\<close>, which replaces the flights by \<open>before\<close> and \<open>after\<close>.\<close>

definition settle ::
  "flight_kind \<Rightarrow> flight list \<Rightarrow> flight list \<Rightarrow> segment_end \<times> validation_db \<Rightarrow> validation_world \<Rightarrow> validation_world" where
  "settle kind before after r w = w\<lparr>vw_tasks := snd r, vw_flights := before @ new_flights (fst r) @ after,
     vw_calls := vw_calls w @ new_calls (fst r), vw_approved := vw_approved w @ new_approvals kind (fst r)\<rparr>"

fun validation_step :: "validation_env \<times> validation_op \<Rightarrow> validation_world \<Rightarrow> validation_world" where
  "validation_step (env, CreateTask v) w =
     (case create_validation env v (vw_tasks w) of Inl e \<Rightarrow> w | Inr (t, db) \<Rightarrow> w\<lparr>vw_tasks := db\<rparr>)"
| "validation_step (env, UpdateTask i v) w = w\<lparr>vw_tasks := snd (update_validation env i v (vw_tasks w))\<rparr>"
| "validation_step (env, ApproveTask i) w =
     settle ThenApprove (vw_flights w) [] (start_approve env i (vw_tasks w)) w"
| "validation_step (env, PreflightTask i saia) w =
     settle PreflightOnly (vw_flights w) [] (ensure_preflight env PreflightOnly i saia True (vw_tasks w)) w"
| "validation_step (env, ExecuteTask i) w =
     settle ThenExecute (vw_flights w) [] (start_execute env i (vw_tasks w)) w"
| "validation_step (env, DeleteTask i) w = w\<lparr>vw_tasks := snd (delete_task i (vw_tasks w))\<rparr>"
| "validation_step (env, Resume n a) w =
     (if n < length (vw_flights w)
      then let f = vw_flights w ! n
        in settle (fl_kind f) (take n (vw_flights w)) (drop (Suc n) (vw_flights w))
             (resume_flight env f a (vw_tasks w)) w
      else w)"
| "validation_step (env, RestartService) w =
     w\<lparr>vw_tasks := open_validations (vx_now env) (vw_tasks w), vw_flights := []\<rparr>"

definition empty_queue :: validation_world where
  "empty_queue = \<lparr>vw_tasks = [], vw_flights = [], vw_calls = [], vw_approved = []\<rparr>"

text \<open>One execution of a task at a time, and a fresh id is not the id of a task that a request still holds.\<close>

definition executions :: "validation_world \<Rightarrow> string list" where
  "executions w = map (\<lambda>f. vt_id (fl_task f)) (filter (\<lambda>f. fl_kind f = ThenExecute) (vw_flights w))"

fun serial_op :: "validation_env \<times> validation_op \<Rightarrow> validation_world \<Rightarrow> bool" where
  "serial_op (env, ExecuteTask i) w = (\<not> List.member (executions w) i)"
| "serial_op (env, CreateTask v) w = (\<not> List.member (executions w) (vx_task_id env))"
| "serial_op _ w = True"

fun serial_run :: "(validation_env \<times> validation_op) list \<Rightarrow> validation_world \<Rightarrow> bool" where
  "serial_run [] w = True"
| "serial_run (e # es) w = (serial_op e w \<and> serial_run es (validation_step e w))"


section \<open>Only approved contracts run\<close>

definition contract_of :: "validation_task \<Rightarrow> string \<times> string \<times> string \<times> string \<times> int" where
  "contract_of t = (vt_id t, vt_spl t, vt_earliest_time t, vt_latest_time t, vt_row_limit t)"

text \<open>A status that an approval of the present contract stands behind.\<close>

definition live :: "task_status \<Rightarrow> bool" where
  "live s = (s \<in> {TApproved, TRunning, TComplete})"

definition backed :: "validation_task list \<Rightarrow> validation_task \<Rightarrow> bool" where
  "backed as t = (contract_of t \<in> contract_of ` set as)"

definition row_ok :: "validation_task list \<Rightarrow> validation_task \<Rightarrow> bool" where
  "row_ok as t = (check_contract t = Inr () \<and> (live (vt_status t) \<longrightarrow> backed as t))"

definition flight_ok :: "validation_task list \<Rightarrow> validation_db \<Rightarrow> flight \<Rightarrow> bool" where
  "flight_ok as db f = (in_preflight (fl_phase f) \<or>
     fl_kind f = ThenExecute \<and> backed as (fl_task f) \<and> check_contract (fl_task f) = Inr () \<and>
     (let s = map_option vt_status (find_task (vt_id (fl_task f)) db) in
      case fl_phase f of CompleteReport t \<Rightarrow> s \<in> {None, Some TComplete} | _ \<Rightarrow> s = Some TRunning))"

definition queue_inv :: "validation_world \<Rightarrow> bool" where
  "queue_inv w = (distinct (map vt_id (vw_tasks w)) \<and> distinct (executions w) \<and>
     (\<forall>i t. find_task i (vw_tasks w) = Some t \<longrightarrow> row_ok (vw_approved w) t) \<and>
     (\<forall>f \<in> set (vw_flights w). flight_ok (vw_approved w) (vw_tasks w) f) \<and>
     (\<forall>c \<in> set (vw_calls w). backed (vw_approved w) c \<and> check_contract c = Inr ()))"


text \<open>A task that no segment of its own changes is the same or has expired.\<close>

definition aged :: "string \<Rightarrow> validation_task option \<Rightarrow> validation_task option \<Rightarrow> bool" where
  "aged now x y = (y = x \<or> y = map_option (expired now) x)"

definition idle :: "string \<Rightarrow> validation_db \<Rightarrow> validation_db \<Rightarrow> bool" where
  "idle now db db' = (map vt_id db' = map vt_id db \<and> (\<forall>j. aged now (find_task j db) (find_task j db')))"

lemma aged_trans: "aged now x y \<Longrightarrow> aged now y z \<Longrightarrow> aged now x z"
  by (auto simp: aged_def option.map_comp comp_def)

lemma aged_simps [simp]: "aged now x x" "aged now x (map_option (expired now) x)"
  by (simp_all add: aged_def)

lemma idle_simps [simp]: "idle now db db" "idle now db (snd (expire_due now [] db))"
  by (simp_all add: idle_def)

lemma idle_trans: "idle now db db1 \<Longrightarrow> idle now db1 db2 \<Longrightarrow> idle now db db2"
  unfolding idle_def by (metis aged_trans)

lemma check_expired [simp]: "check_contract (expired now t) = check_contract t"
  by (simp add: check_contract_def)

lemma contract_expired [simp]: "contract_of (expired now t) = contract_of t"
  by (simp add: contract_of_def)

lemma backed_mono: "backed as t \<Longrightarrow> backed (as @ bs) t"
  by (auto simp: backed_def)

lemma row_ok_mono: "row_ok as t \<Longrightarrow> row_ok (as @ bs) t"
  by (auto simp: row_ok_def backed_mono)

lemma row_ok_expired: "row_ok as t \<Longrightarrow> row_ok as (expired now t)"
  using expired_status [of now t] by (auto simp: row_ok_def live_def backed_def)

lemma aged_row_ok: "aged now x (Some t') \<Longrightarrow> (\<And>t. x = Some t \<Longrightarrow> row_ok as t) \<Longrightarrow> row_ok as t'"
  by (cases x) (auto simp: aged_def row_ok_expired)

lemma aged_busy:
  assumes "aged now x y"
  shows "map_option vt_status x = Some TRunning \<Longrightarrow> map_option vt_status y = Some TRunning"
    "map_option vt_status x \<in> {None, Some TComplete} \<Longrightarrow> map_option vt_status y \<in> {None, Some TComplete}"
  using assms by (cases x; auto simp: aged_def)+

lemma flight_ok_aged:
  assumes "flight_ok as db f" "aged now (find_task (vt_id (fl_task f)) db) (find_task (vt_id (fl_task f)) db')"
  shows "flight_ok (as @ bs) db' f"
  using assms(1) aged_busy [OF assms(2)] unfolding flight_ok_def Let_def
  by (cases "fl_phase f") (auto dest: backed_mono)

text \<open>What a segment on task \<open>i\<close> keeps: the other tasks, the row, its flight, and a status that a run depends on.\<close>

definition calm :: "validation_db \<Rightarrow> validation_db \<Rightarrow> string \<Rightarrow> bool" where
  "calm db db' i = (\<forall>t. find_task i db = Some t \<longrightarrow> vt_status t \<in> {TRunning, TComplete} \<longrightarrow>
     map_option vt_status (find_task i db') = Some (vt_status t))"

definition segment_ok ::
  "validation_task list \<Rightarrow> flight_kind \<Rightarrow> string \<Rightarrow> string \<Rightarrow> validation_db \<Rightarrow> segment_end \<times> validation_db \<Rightarrow> bool" where
  "segment_ok as kind now i db r = (map vt_id (snd r) = map vt_id db \<and>
     (\<forall>j. j \<noteq> i \<longrightarrow> aged now (find_task j db) (find_task j (snd r))) \<and>
     (\<forall>t. find_task i (snd r) = Some t \<longrightarrow> row_ok (as @ new_approvals kind (fst r)) t) \<and>
     (\<forall>f \<in> set (new_flights (fst r)). vt_id (fl_task f) = i \<and> fl_kind f = kind \<and> flight_ok as (snd r) f) \<and>
     (\<forall>c \<in> set (new_calls (fst r)). backed as c \<and> check_contract c = Inr ()) \<and>
     (kind \<noteq> ThenExecute \<longrightarrow> calm db (snd r) i))"

lemma aged_calm: "aged now (find_task i db) (find_task i db') \<Longrightarrow> calm db db' i"
  by (auto simp: aged_def calm_def)

lemma settle_inv:
  assumes inv: "queue_inv w" and seg: "segment_ok (vw_approved w) kind now i (vw_tasks w) r"
    and fs: "vw_flights w = before @ old @ after"
    and old: "\<forall>f \<in> set old. vt_id (fl_task f) = i"
    and alone: "kind = ThenExecute \<Longrightarrow> \<forall>g \<in> set (before @ after). fl_kind g = ThenExecute \<longrightarrow> vt_id (fl_task g) \<noteq> i"
  shows "queue_inv (settle kind before after r w)"
proof -
  let ?as = "vw_approved w @ new_approvals kind (fst r)"
  have row: "row_ok ?as t" if "find_task j (snd r) = Some t" for j t
  proof (cases "j = i")
    case True
    then show ?thesis using seg that by (auto simp: segment_ok_def)
  next
    case False
    then have "aged now (find_task j (vw_tasks w)) (find_task j (snd r))" using seg by (simp add: segment_ok_def)
    then have "aged now (find_task j (vw_tasks w)) (Some t)" using that by simp
    then show ?thesis
    proof (rule aged_row_ok)
      show "row_ok ?as t0" if "find_task j (vw_tasks w) = Some t0" for t0
        using inv that by (simp add: queue_inv_def row_ok_mono)
    qed
  qed
  have others: "flight_ok ?as (snd r) g" if g: "g \<in> set (before @ after)" for g
  proof -
    have ok: "flight_ok (vw_approved w) (vw_tasks w) g" using inv fs g by (auto simp: queue_inv_def)
    show ?thesis
    proof (cases "vt_id (fl_task g) = i")
      case False
      then show ?thesis using ok seg by (auto simp: segment_ok_def intro: flight_ok_aged)
    next
      case True
      show ?thesis
      proof (cases "in_preflight (fl_phase g)")
        case False
        then have "fl_kind g = ThenExecute" using ok by (simp add: flight_ok_def)
        with alone g True have "kind \<noteq> ThenExecute" by blast
        then have calm: "calm (vw_tasks w) (snd r) i" and ids: "map vt_id (snd r) = map vt_id (vw_tasks w)"
          using seg by (simp_all add: segment_ok_def)
        have "find_task i (vw_tasks w) = None \<Longrightarrow> find_task i (snd r) = None" using ids by (simp add: none_absent)
        with ok False calm True show ?thesis unfolding flight_ok_def Let_def calm_def
          by (cases "find_task i (vw_tasks w)"; cases "fl_phase g") (auto dest: backed_mono)
      qed (simp add: flight_ok_def)
    qed
  qed
  have mine: "flight_ok ?as (snd r) f" if "f \<in> set (new_flights (fst r))" for f
    using seg that flight_ok_aged [of "vw_approved w" "snd r" f now "snd r" "new_approvals kind (fst r)"]
    by (auto simp: segment_ok_def)
  have calls: "backed ?as c \<and> check_contract c = Inr ()" if "c \<in> set (vw_calls w @ new_calls (fst r))" for c
    using that inv seg by (auto simp: queue_inv_def segment_ok_def intro: backed_mono)
  have "distinct (executions (settle kind before after r w))"
  proof -
    let ?ex = "\<lambda>fs. map (\<lambda>f. vt_id (fl_task f)) (filter (\<lambda>f. fl_kind f = ThenExecute) fs)"
    have d: "distinct (?ex before @ ?ex after)" using inv fs by (auto simp: queue_inv_def executions_def)
    have e: "executions (settle kind before after r w) = ?ex before @ ?ex (new_flights (fst r)) @ ?ex after"
      by (simp add: executions_def settle_def)
    show ?thesis
    proof (cases "fst r")
      case (Done x)
      then show ?thesis using d e by simp
    next
      case (Going f)
      then have f: "vt_id (fl_task f) = i" "fl_kind f = kind" using seg by (auto simp: segment_ok_def)
      show ?thesis using d e Going f alone by (cases "kind = ThenExecute") auto
    qed
  qed
  with row others mine calls inv seg show ?thesis
    unfolding queue_inv_def by (auto simp: settle_def segment_ok_def)
qed


section \<open>Every segment keeps the invariant\<close>

definition rows_ok :: "validation_task list \<Rightarrow> string \<Rightarrow> validation_db \<Rightarrow> bool" where
  "rows_ok as i db = (distinct (map vt_id db) \<and> (\<forall>t. find_task i db = Some t \<longrightarrow> row_ok as t))"

lemma rows_ok_idle: "idle now db db1 \<Longrightarrow> rows_ok as i db \<Longrightarrow> rows_ok as i db1"
  unfolding rows_ok_def idle_def by (metis aged_row_ok)

lemma idle_all: "map vt_id db' = map vt_id db \<Longrightarrow> (\<And>j. find_task j db' = map_option (expired now) (find_task j db)) \<Longrightarrow> idle now db db'"
  by (simp add: idle_def)

lemma segment_done:
  assumes "idle now db db'" "rows_ok as i db"
  shows "segment_ok as kind now i db (Done r, db')"
  using assms rows_ok_idle [OF assms] aged_calm [of now i db db']
  by (auto simp: segment_ok_def idle_def rows_ok_def intro: row_ok_mono)

lemma segment_after_idle:
  assumes "idle now db db1" "segment_ok as kind now i db1 r"
  shows "segment_ok as kind now i db r"
proof -
  have "aged now (find_task j db) (find_task j (snd r))" if "j \<noteq> i" for j
    using assms that aged_trans [of now "find_task j db" "find_task j db1"] by (auto simp: idle_def segment_ok_def)
  moreover have "calm db (snd r) i" if "kind \<noteq> ThenExecute"
  proof -
    have "calm db1 (snd r) i" using assms(2) that by (simp add: segment_ok_def)
    moreover have "aged now (find_task i db) (find_task i db1)" using assms(1) by (simp add: idle_def)
    ultimately show ?thesis by (auto simp: calm_def aged_def)
  qed
  ultimately show ?thesis using assms by (auto simp: segment_ok_def idle_def)
qed

lemma segment_fail:
  assumes "rows_ok as i db"
  shows "segment_ok as ThenExecute now i db (Done r, fail_task now i e db)"
proof -
  have "row_ok as (failed now e t)" if "row_ok as t" for t
    using that by (simp add: row_ok_def check_contract_def live_def)
  then show ?thesis using assms
    by (auto simp: segment_ok_def find_fail rows_ok_def intro!: row_ok_mono row_ok_expired)
qed

lemma segment_preflight_failed:
  assumes "rows_ok as i db"
  shows "segment_ok as kind (vx_now env) i db (preflight_failed env kind i e db)"
  using segment_fail [OF assms] segment_done [OF idle_simps(1) assms] unfolding preflight_failed_def by auto

lemma segment_going:
  assumes "idle now db db'" "rows_ok as i db" "vt_id (fl_task f) = i" "fl_kind f = kind" "flight_ok as db' f" "fl_phase f \<noteq> QueryCall"
  shows "segment_ok as kind now i db (Going f, db')"
  using segment_done [OF assms(1,2), of kind "Inl AssertionError"] rows_ok_idle [OF assms(1,2)] assms(3-)
  by (simp add: segment_ok_def rows_ok_def)

lemma flight_ok_preflight [simp]: "in_preflight (fl_phase f) \<Longrightarrow> flight_ok as db f"
  by (simp add: flight_ok_def)

lemma get_cases:
  obtains "get_task now i db = (None, snd (expire_due now [] db))"
  | t where "get_task now i db = (Some t, snd (expire_due now [] db))" "vt_id t = i"
      "find_task i (snd (expire_due now [] db)) = Some t"
  using find_id [of i db] by (cases "find_task i db") (auto simp: find_get)

lemma segment_start_preflight:
  assumes "rows_ok as i db"
  shows "segment_ok as kind (vx_now env) i db (start_preflight env kind i db)"
proof -
  let ?db1 = "snd (expire_due (vx_now env) [] db)"
  have rows: "rows_ok as i ?db1" by (rule rows_ok_idle [OF idle_simps(2) assms])
  note failed = segment_after_idle [OF idle_simps(2) segment_preflight_failed [OF rows]]
  show ?thesis
  proof (rule get_cases [of "vx_now env" i db])
    fix t
    assume t: "get_task (vx_now env) i db = (Some t, ?db1)" "vt_id t = i"
    have "segment_ok as kind (vx_now env) i db (Going \<lparr>fl_kind = kind, fl_task = t, fl_phase = CapabilityReport\<rparr>, ?db1)"
      by (rule segment_going [OF idle_simps(2) assms]) (simp_all add: t(2))
    then show ?thesis using failed by (simp add: start_preflight_def t(1) split: sum.split)
  qed (simp add: start_preflight_def failed)
qed

lemma segment_ensure_preflight:
  assumes "rows_ok as i db"
  shows "segment_ok as kind (vx_now env) i db (ensure_preflight env kind i saia refresh db)"
proof -
  let ?db1 = "snd (expire_due (vx_now env) [] db)"
  have rows: "rows_ok as i ?db1" by (rule rows_ok_idle [OF idle_simps(2) assms])
  note failed = segment_after_idle [OF idle_simps(2) segment_preflight_failed [OF rows]]
    segment_after_idle [OF idle_simps(2) segment_start_preflight [OF rows]]
  show ?thesis
    by (rule get_cases [of "vx_now env" i db]) (auto simp: ensure_preflight_def failed segment_done [OF idle_simps(2) assms])
qed

lemma segment_approved_end:
  assumes "rows_ok as i db"
  shows "segment_ok as ThenApprove (vx_now env) i db (approved_end env i db)"
proof -
  obtain r db' where r: "approve_validation env i db = (r, db')" by fastforce
  then show ?thesis
  proof (cases rule: approve_validation_cases)
    case refused
    then show ?thesis using r segment_done [OF idle_all assms] by (simp add: approved_end_def)
  next
    case (approved t t')
    have "row_ok (as @ [t']) t'" using approved(3,5)
      by (auto simp: row_ok_def backed_def check_contract_def approved_def)
    moreover have "vt_status t \<notin> {TRunning, TComplete}" using approved(2) by auto
    ultimately show ?thesis using r approved(1,4,6,7)
      by (auto simp: approved_end_def segment_ok_def calm_def)
  qed
qed

lemma segment_start_approve:
  assumes "rows_ok as i db"
  shows "segment_ok as ThenApprove (vx_now env) i db (start_approve env i db)"
proof -
  obtain e db1 where e: "ensure_preflight env ThenApprove i False False db = (e, db1)" by fastforce
  note seg = segment_ensure_preflight [OF assms, of ThenApprove env False False, unfolded e]
  show ?thesis
  proof (cases "\<exists>t. e = Done (Inr (Some t))")
    case True
    then obtain t where t: "e = Done (Inr (Some t))" by blast
    have "idle (vx_now env) db db1"
      using e t by (rule_tac get_cases [of "vx_now env" i db])
        (auto simp: ensure_preflight_def preflight_failed_def start_preflight_def find_get split: sum.splits if_splits option.splits)
    then show ?thesis using e t segment_approved_end [OF rows_ok_idle [OF _ assms]]
      by (simp add: start_approve_def segment_after_idle)
  next
    case False
    then have "start_approve env i db = (e, db1)"
      using e by (auto simp: start_approve_def split: segment_end.split sum.split option.split)
    with seg show ?thesis by simp
  qed
qed

lemma segment_start_execute:
  assumes "rows_ok as i db"
  shows "segment_ok as ThenExecute (vx_now env) i db (start_execute env i db)"
proof -
  let ?db1 = "snd (expire_due (vx_now env) [] db)"
  have rows: "rows_ok as i ?db1" by (rule rows_ok_idle [OF idle_simps(2) assms])
  note failed = segment_after_idle [OF idle_simps(2) segment_ensure_preflight [OF rows]] segment_done [OF idle_simps(2) assms]
  show ?thesis
    by (rule get_cases [of "vx_now env" i db]) (auto simp: start_execute_def failed split: sum.split)
qed

lemma row_ok_same:
  "row_ok as t \<Longrightarrow> live (vt_status t) \<Longrightarrow> contract_of t' = contract_of t \<Longrightarrow> row_ok as t' \<and> backed as t' \<and> check_contract t' = Inr ()"
  by (auto simp: row_ok_def backed_def contract_of_def check_contract_def)

lemma segment_cancel:
  assumes "rows_ok as i db" "\<And>t. find_task i db = Some t \<Longrightarrow> live (vt_status t)"
  shows "segment_ok as ThenExecute now i db (Done r, requeue_interrupted now i reason db)"
proof -
  have "row_ok as (requeued now reason t)" if "row_ok as t" "live (vt_status t)" for t
    using row_ok_same [of as t "requeued now reason t"] that by (simp add: contract_of_def)
  then show ?thesis using assms
    by (auto simp: segment_ok_def find_requeue rows_ok_def intro!: row_ok_mono row_ok_expired)
qed

lemma segment_mark_running:
  assumes "rows_ok as i db" "mark_running now i db = (Some t', db')"
  shows "segment_ok as ThenExecute now i db
    (Going \<lparr>fl_kind = ThenExecute, fl_task = t', fl_phase = GuardrailReport\<rparr>, db')"
proof -
  have "distinct (map vt_id db)" using assms(1) by (simp add: rows_ok_def)
  with assms(2) show ?thesis
  proof (cases rule: mark_running_cases)
    case (started t)
    have id: "vt_id t = i" by (rule find_id [OF started(1)])
    have "row_ok as t' \<and> backed as t' \<and> check_contract t' = Inr ()"
      using assms(1) started(1,2,4) by (intro row_ok_same [of as t]) (auto simp: rows_ok_def live_def contract_of_def)
    then show ?thesis using started(4,5,6) id by (auto simp: segment_ok_def flight_ok_def row_ok_mono)
  qed simp
qed

lemma segment_complete:
  assumes "rows_ok as i db" "complete_task now i n preview artifact receipt db = (Some t', db')"
    and f: "vt_id (fl_task f) = i" "fl_kind f = ThenExecute" "backed as (fl_task f)" "check_contract (fl_task f) = Inr ()"
  shows "segment_ok as ThenExecute now i db (at_phase f (CompleteReport t'), db')"
proof -
  have "distinct (map vt_id db)" using assms(1) by (simp add: rows_ok_def)
  with assms(2) show ?thesis
  proof (cases rule: complete_task_cases)
    case (finished t)
    have "row_ok as t' \<and> backed as t' \<and> check_contract t' = Inr ()"
      using assms(1) finished(1-3) by (intro row_ok_same [of as t]) (auto simp: rows_ok_def live_def contract_of_def)
    then show ?thesis using finished(3-5) f by (auto simp: segment_ok_def flight_ok_def at_phase_def row_ok_mono)
  qed simp
qed

lemma segment_after_preflight:
  assumes rows: "rows_ok as (vt_id (fl_task f)) db"
  shows "segment_ok as (fl_kind f) (vx_now env) (vt_id (fl_task f)) db (after_preflight env f db)"
proof -
  let ?i = "vt_id (fl_task f)"
  have dist: "distinct (map vt_id db)" using rows by (simp add: rows_ok_def)
  show ?thesis
  proof (cases "fl_kind f")
    case PreflightOnly
    then show ?thesis using segment_done [OF idle_simps(1) rows] by (simp add: after_preflight_def)
  next
    case ThenApprove
    then show ?thesis using segment_approved_end [OF rows] by (simp add: after_preflight_def)
  next
    case ThenExecute
    obtain r db' where m: "mark_running (vx_now env) ?i db = (r, db')" by fastforce
    show ?thesis
    proof (cases r)
      case None
      from m [unfolded None] dist have "idle (vx_now env) db db'"
        by (cases rule: mark_running_cases) (auto intro: idle_all)
      then show ?thesis using m None ThenExecute segment_done [OF _ rows] by (simp add: after_preflight_def)
    next
      case (Some t')
      then show ?thesis using m ThenExecute segment_mark_running [OF rows] by (simp add: after_preflight_def)
    qed
  qed
qed

lemma segment_continue_preflight:
  assumes rows: "rows_ok as (vt_id (fl_task f)) db"
  shows "segment_ok as (fl_kind f) (vx_now env) (vt_id (fl_task f)) db (continue_preflight env f (fl_phase f) v db)"
proof (cases "fl_phase f")
  case CapabilityReport
  then show ?thesis using segment_going [OF idle_simps(1) rows]
    by (simp add: continue_preflight_def at_phase_def)
next
  case AdapterCall
  let ?i = "vt_id (fl_task f)"
  obtain r db' where m: "set_preflight (vx_now env) ?i v db = (r, db')" by fastforce
  then show ?thesis
  proof (cases rule: set_preflight_cases)
    case refused
    have idle: "idle (vx_now env) db db'" by (rule idle_all [OF refused(3,2)])
    show ?thesis
      using segment_after_idle [OF idle segment_preflight_failed [OF rows_ok_idle [OF idle rows]]] m refused(1) AdapterCall
      by (simp add: continue_preflight_def)
  next
    case (stored t t')
    have id: "vt_id t = ?i" "vt_id t' = ?i" using find_id [OF stored(1)] stored(4) by simp_all
    have "row_ok as ((expired (vx_now env) t)\<lparr>vt_preflight_receipt := v, vt_updated_at := vx_now env\<rparr>)"
      using row_ok_expired [of as t "vx_now env"] rows stored(1)
      by (auto simp: rows_ok_def row_ok_def check_contract_def backed_def contract_of_def)
    then have "row_ok as t'" unfolding stored(4) by (rule row_ok_expired)
    moreover have "vt_status t \<notin> {TRunning, TComplete}" using stored(2) by auto
    ultimately show ?thesis using m stored(1,3,5,6) id AdapterCall
      by (auto simp: continue_preflight_def at_phase_def segment_ok_def calm_def row_ok_mono)
  qed
next
  case (ReceiptReport receipt)
  then show ?thesis using segment_preflight_failed [OF rows] segment_after_preflight [OF rows]
    by (simp add: continue_preflight_def)
qed (use segment_done [OF idle_simps(1) rows] in \<open>simp_all add: continue_preflight_def\<close>)

lemma segment_continue_run:
  assumes rows: "rows_ok as (vt_id (fl_task f)) db" and f: "flight_ok as db f" "\<not> in_preflight (fl_phase f)"
  shows "segment_ok as (fl_kind f) (vx_now env) (vt_id (fl_task f)) db (continue_run env f (fl_phase f) v db)"
proof -
  let ?i = "vt_id (fl_task f)"
  have run: "fl_kind f = ThenExecute" "backed as (fl_task f)" "check_contract (fl_task f) = Inr ()"
    using f by (auto simp: flight_ok_def)
  have failed: "segment_ok as (fl_kind f) (vx_now env) ?i db (run_failed env f e db)" for e
    using segment_fail [OF rows] run(1) by (simp add: run_failed_def)
  have moved: "segment_ok as (fl_kind f) (vx_now env) ?i db (at_phase f ph, db)"
    if "map_option vt_status (find_task ?i db) = Some TRunning" "\<forall>t. ph \<noteq> CompleteReport t" for ph
  proof -
    have "flight_ok as db (f\<lparr>fl_phase := ph\<rparr>)"
      using that run by (auto simp: flight_ok_def split: flight_phase.split)
    then show ?thesis using segment_done [OF idle_simps(1) rows, of "fl_kind f" _ "Inl AssertionError"] rows run
      by (simp add: segment_ok_def at_phase_def rows_ok_def)
  qed
  have status: "map_option vt_status (find_task ?i db) = Some TRunning" if "\<forall>t. fl_phase f \<noteq> CompleteReport t"
    using f that by (auto simp: flight_ok_def Let_def split: flight_phase.splits)
  show ?thesis
  proof (cases "fl_phase f")
    case (PreserveReport rs receipt)
    obtain r db' where m: "complete_task (vx_now env) ?i (int (length rs)) (bounded_preview (vx_repr env) rs)
        (str_or_empty (vx_repr env) (Some v)) receipt db = (r, db')" by fastforce
    show ?thesis
    proof (cases r)
      case None
      have "distinct (map vt_id db)" using rows by (simp add: rows_ok_def)
      with m [unfolded None] have "db' = db" by (cases rule: complete_task_cases) auto
      then show ?thesis using m None PreserveReport failed by (simp add: continue_run_def)
    next
      case (Some t')
      then show ?thesis using m PreserveReport segment_complete [OF rows _ refl run] run(1) by (simp add: continue_run_def)
    qed
  qed (use f status moved failed segment_done [OF idle_simps(1) rows] in \<open>auto simp: continue_run_def split: sum.split\<close>)
qed

lemma segment_resume:
  assumes rows: "rows_ok as (vt_id (fl_task f)) db" and f: "flight_ok as db f"
  shows "segment_ok as (fl_kind f) (vx_now env) (vt_id (fl_task f)) db (resume_flight env f a db)"
proof (cases "in_preflight (fl_phase f)")
  case True
  then show ?thesis using segment_continue_preflight [OF rows] segment_preflight_failed [OF rows]
    by (cases a) (simp_all add: resume_flight_def)
next
  case False
  have kind: "fl_kind f = ThenExecute" using f False by (simp add: flight_ok_def)
  have "live (vt_status t)" if "find_task (vt_id (fl_task f)) db = Some t" for t
    using f False that by (auto simp: flight_ok_def Let_def live_def split: flight_phase.splits)
  then have cancelled: "segment_ok as (fl_kind f) (vx_now env) (vt_id (fl_task f)) db (run_cancelled env f db)"
    using segment_cancel [OF rows] kind by (simp add: run_cancelled_def)
  have failed: "segment_ok as (fl_kind f) (vx_now env) (vt_id (fl_task f)) db (run_failed env f e db)" for e
    using segment_fail [OF rows] kind by (simp add: run_failed_def)
  show ?thesis using False cancelled failed segment_continue_run [OF rows f False] segment_done [OF idle_simps(1) rows]
    by (cases a; cases "fl_phase f = GuardrailReport") (simp_all add: resume_flight_def Let_def)
qed


lemma inv_rows: "queue_inv w \<Longrightarrow> rows_ok (vw_approved w) i (vw_tasks w)"
  by (simp add: queue_inv_def rows_ok_def)

lemma queue_inv_idle:
  assumes inv: "queue_inv w" and idle: "map vt_id db' = map vt_id (vw_tasks w)"
    "\<And>j. aged now (find_task j (vw_tasks w)) (find_task j db') \<or> (\<exists>t'. find_task j db' = Some t' \<and> row_ok (vw_approved w) t'
      \<and> map_option vt_status (find_task j (vw_tasks w)) \<notin> {None, Some TRunning, Some TComplete})"
  shows "queue_inv (w\<lparr>vw_tasks := db'\<rparr>)"
proof -
  have row: "row_ok (vw_approved w) t" if "find_task j db' = Some t" for j t
    using idle(2) [of j] that inv aged_row_ok [of now "find_task j (vw_tasks w)" t] by (auto simp: queue_inv_def)
  have flight: "flight_ok (vw_approved w) db' f" if f: "f \<in> set (vw_flights w)" for f
  proof -
    let ?i = "vt_id (fl_task f)"
    have ok: "flight_ok (vw_approved w) (vw_tasks w) f" using inv f by (simp add: queue_inv_def)
    show ?thesis
    proof (cases "aged now (find_task ?i (vw_tasks w)) (find_task ?i db')")
      case True
      then show ?thesis using flight_ok_aged [OF ok True, of "[]"] by simp
    next
      case False
      then have "map_option vt_status (find_task ?i (vw_tasks w)) \<notin> {None, Some TRunning, Some TComplete}" using idle(2) by blast
      with ok show ?thesis by (auto simp: flight_ok_def Let_def split: flight_phase.splits)
    qed
  qed
  show ?thesis using inv idle(1) row flight by (simp add: queue_inv_def executions_def)
qed

lemma queue_inv_create:
  assumes inv: "queue_inv w" and c: "create_validation env v (vw_tasks w) = Inr (t, db')"
    and fresh: "vx_task_id env \<notin> set (executions w)"
  shows "queue_inv (w\<lparr>vw_tasks := db'\<rparr>)"
  using c
proof (cases rule: create_validation_cases)
  case 1
  let ?new = "new_task (vx_digest env) (vx_now env) (vx_task_id env) v"
  have "row_ok (vw_approved w) ?new" using 1(1) by (simp add: row_ok_def live_def new_task_def)
  then have row: "row_ok (vw_approved w) t" if "find_task j db' = Some t" for j t
    using that inv unfolding 1(3) by (auto simp: queue_inv_def row_ok_expired split: if_splits)
  have flight: "flight_ok (vw_approved w) db' f" if f: "f \<in> set (vw_flights w)" for f
  proof -
    have ok: "flight_ok (vw_approved w) (vw_tasks w) f" using inv f by (simp add: queue_inv_def)
    show ?thesis
    proof (cases "in_preflight (fl_phase f)")
      case False
      then have "fl_kind f = ThenExecute" using ok by (simp add: flight_ok_def)
      then have "vt_id (fl_task f) \<noteq> vx_task_id env" using fresh f by (force simp: executions_def)
      then show ?thesis using flight_ok_aged [OF ok, of "vx_now env" db' "[]"] 1(3) by simp
    qed simp
  qed
  show ?thesis using inv 1(2,4) row flight by (simp add: queue_inv_def executions_def)
qed

lemma queue_inv_update:
  assumes inv: "queue_inv w" and u: "update_validation env i v (vw_tasks w) = (r, db')"
  shows "queue_inv (w\<lparr>vw_tasks := db'\<rparr>)"
  using u
proof (cases rule: update_validation_cases)
  case kept
  then show ?thesis by (intro queue_inv_idle [OF inv, where now = "vx_now env"]) simp_all
next
  case (redrafted t t')
  have "row_ok (vw_approved w) t'" using redrafted(3,4) by (simp add: row_ok_def live_def)
  moreover have "vt_status t \<notin> {TRunning, TComplete}" using redrafted(2) by auto
  ultimately show ?thesis using redrafted(1,5,6)
    by (intro queue_inv_idle [OF inv, where now = "vx_now env"]) (auto simp: row_ok_expired)
qed

lemma queue_inv_delete:
  assumes inv: "queue_inv w"
  shows "queue_inv (w\<lparr>vw_tasks := snd (delete_task i (vw_tasks w))\<rparr>)"
proof -
  have dist: "distinct (map vt_id (vw_tasks w))" using inv by (simp add: queue_inv_def)
  note find = find_delete [OF dist]
  have flight: "flight_ok (vw_approved w) (snd (delete_task i (vw_tasks w))) f" if f: "f \<in> set (vw_flights w)" for f
  proof -
    have ok: "flight_ok (vw_approved w) (vw_tasks w) f" using inv f by (simp add: queue_inv_def)
    let ?i = "vt_id (fl_task f)"
    show ?thesis
    proof (cases "in_preflight (fl_phase f)")
      case False
      have "find_task ?i (snd (delete_task i (vw_tasks w))) = find_task ?i (vw_tasks w)
          \<or> find_task ?i (snd (delete_task i (vw_tasks w))) = None \<and> map_option vt_status (find_task ?i (vw_tasks w)) \<noteq> Some TRunning"
        by (auto simp: find split: option.splits)
      then show ?thesis using ok False unfolding flight_ok_def Let_def by (cases "fl_phase f") auto
    qed simp
  qed
  have "distinct (map vt_id (snd (delete_task i (vw_tasks w))))"
    using dist by (simp add: delete_task_def distinct_sql_delete)
  then show ?thesis using inv flight by (simp add: queue_inv_def executions_def find)
qed

lemma queue_inv_restart:
  assumes inv: "queue_inv w"
  shows "queue_inv (w\<lparr>vw_tasks := open_validations now (vw_tasks w), vw_flights := []\<rparr>)"
proof -
  let ?p = "\<lambda>t. vt_status t = TRunning"
  let ?f = "\<lambda>t. t\<lparr>vt_status := TApproved, vt_error := ''Execution was interrupted by a SignalRoom restart; approval was preserved.'',
    vt_started_at := None, vt_updated_at := now\<rparr>"
  have db: "open_validations now (vw_tasks w) = snd (expire_due now [] (sql_update ?p ?f (vw_tasks w)))"
    by (simp add: open_validations_def recover_interrupted_def Let_def)
  have "row_ok (vw_approved w) (?f t)" if "row_ok (vw_approved w) t" "?p t" for t
    using row_ok_same [of "vw_approved w" t "?f t"] that by (simp add: live_def contract_of_def)
  then have "row_ok (vw_approved w) t'" if "find_task j (open_validations now (vw_tasks w)) = Some t'" for j t'
    using that inv unfolding db by (auto simp: find_update queue_inv_def intro!: row_ok_expired split: if_splits)
  then show ?thesis using inv unfolding db by (simp add: queue_inv_def executions_def ids_update)
qed

lemma distinct_mid:
  "distinct (map k (filter p (xs @ [x] @ ys))) \<Longrightarrow> p x \<Longrightarrow> \<forall>g \<in> set (xs @ ys). p g \<longrightarrow> k g \<noteq> k x"
  by (auto simp: image_iff Ball_def)

lemma queue_inv_step:
  assumes inv: "queue_inv w" and serial: "serial_op e w"
  shows "queue_inv (validation_step e w)"
proof -
  obtain env op where e: "e = (env, op)" by fastforce
  show ?thesis
  proof (cases op)
    case (CreateTask v)
    then show ?thesis using e serial queue_inv_create [OF inv] inv by (auto split: sum.split)
  next
    case (UpdateTask i v)
    then show ?thesis using e queue_inv_update [OF inv, of env i v "fst (update_validation env i v (vw_tasks w))"] by simp
  next
    case (ApproveTask i)
    then show ?thesis using e settle_inv [OF inv segment_start_approve [OF inv_rows [OF inv]], of "vw_flights w" "[]" "[]"] by simp
  next
    case (PreflightTask i saia)
    then show ?thesis
      using e settle_inv [OF inv segment_ensure_preflight [OF inv_rows [OF inv], of PreflightOnly], of "vw_flights w" "[]" "[]"] by simp
  next
    case (ExecuteTask i)
    then show ?thesis
      using e serial settle_inv [OF inv segment_start_execute [OF inv_rows [OF inv]], of "vw_flights w" "[]" "[]"]
      by (force simp: executions_def)
  next
    case (DeleteTask i)
    then show ?thesis using e queue_inv_delete [OF inv] by simp
  next
    case (Resume n a)
    show ?thesis
    proof (cases "n < length (vw_flights w)")
      case True
      let ?f = "vw_flights w ! n"
      have split: "vw_flights w = take n (vw_flights w) @ [?f] @ drop (Suc n) (vw_flights w)"
        using True by (simp add: Cons_nth_drop_Suc)
      have ok: "flight_ok (vw_approved w) (vw_tasks w) ?f" using inv True by (simp add: queue_inv_def)
      have "distinct (executions w)" using inv by (simp add: queue_inv_def)
      then have alone: "\<forall>g \<in> set (take n (vw_flights w) @ drop (Suc n) (vw_flights w)). fl_kind g = ThenExecute \<longrightarrow>
          vt_id (fl_task g) \<noteq> vt_id (fl_task ?f)" if "fl_kind ?f = ThenExecute"
        using distinct_mid [of "\<lambda>f. vt_id (fl_task f)" "\<lambda>f. fl_kind f = ThenExecute", OF _ that]
        unfolding executions_def by (subst (asm) split) blast
      show ?thesis
        using settle_inv [OF inv segment_resume [OF inv_rows [OF inv] ok] split _ alone] e Resume True by (simp add: Let_def)
    qed (use e Resume inv in simp)
  next
    case RestartService
    then show ?thesis using e queue_inv_restart [OF inv] by simp
  qed
qed

lemma queue_inv_run: "queue_inv w \<Longrightarrow> serial_run es w \<Longrightarrow> queue_inv (run_ops validation_step w es)"
  by (induction es arbitrary: w) (auto intro: queue_inv_step)

lemma empty_queue_inv: "queue_inv empty_queue"
  by (simp add: queue_inv_def empty_queue_def executions_def find_task_def sql_first_def)


text \<open>C26. As long as a task has at most one execution at a time, every query that reaches Splunk is one an analyst
  approved, letter for letter with its window and row limit, and it passes the contract check - over every
  interleaving of edits, approvals, executions, failures, cancellations and restarts.\<close>

theorem executed_query_was_approved:
  assumes "serial_run es empty_queue" "c \<in> set (vw_calls (run_ops validation_step empty_queue es))"
  shows "(\<exists>a \<in> set (vw_approved (run_ops validation_step empty_queue es)). contract_of a = contract_of c) \<and>
    validate_contract (vt_spl c) (vt_earliest_time c) (vt_latest_time c) (vt_row_limit c) = Inr ()"
proof -
  have "queue_inv (run_ops validation_step empty_queue es)" by (rule queue_inv_run [OF empty_queue_inv assms(1)])
  with assms(2) have "backed (vw_approved (run_ops validation_step empty_queue es)) c \<and> check_contract c = Inr ()"
    by (simp add: queue_inv_def)
  then show ?thesis by (auto simp: backed_def check_contract_def image_iff eq_commute)
qed


section \<open>A small queue for the witnesses\<close>

definition desk :: "string \<Rightarrow> validation_env" where
  "desk i = \<lparr>vx_digest = (\<lambda>s. s), vx_now = ''t'', vx_task_id = i, vx_binding = (\<lambda>a f t. (True, [])),
     vx_shape = (\<lambda>t rows. JObj []), vx_repr = (\<lambda>v. [])\<rparr>"

definition draft :: task_create where
  "draft = \<lparr>tc_title = ''T'', tc_rationale = ''R'', tc_spl = ''a'', tc_earliest_time = ''-1h'', tc_latest_time = ''now'',
     tc_row_limit = 10, tc_evidence_refs = [], tc_result_contract = JObj [], tc_source_run_id = [],
     tc_source_finding_ref = [], tc_case_id = None, tc_expires_at = None, tc_assurance_package_id = [],
     tc_approval_scope = ''single-execution'', tc_connection_alias = ''primary'', tc_connection_fingerprint = ''f'',
     tc_tenant_scope_id = ''w''\<rparr>"


definition passed :: json where
  "passed = JObj [(''status'', JStr ''passed'')]"

definition go :: "nat \<Rightarrow> validation_env \<times> validation_op" where
  "go n = (desk ''x'', Resume n (Returned passed))"

text \<open>Draft, approve with its preflight; then execute up to the query.\<close>

definition approve_ops :: "(validation_env \<times> validation_op) list" where
  "approve_ops = [(desk ''x'', CreateTask draft), (desk ''x'', ApproveTask ''x''), go 0, go 0, go 0]"

definition execute_ops :: "(validation_env \<times> validation_op) list" where
  "execute_ops = [(desk ''x'', ExecuteTask ''x''), go 0, go 0, go 0, go 0, go 0]"

lemma sample_runs:
  "map vt_spl (vw_calls (run_ops validation_step empty_queue (approve_ops @ execute_ops))) = [''a'']
    \<and> serial_run (approve_ops @ execute_ops) empty_queue"
  by code_simp

theorem executed_query_was_approved_witness:
  "let w = run_ops validation_step empty_queue (approve_ops @ execute_ops)
   in \<exists>c \<in> set (vw_calls w). vt_spl c = ''a'' \<and> (\<exists>a \<in> set (vw_approved w). contract_of a = contract_of c)"
proof -
  let ?es = "approve_ops @ execute_ops"
  obtain c where "c \<in> set (vw_calls (run_ops validation_step empty_queue ?es))" "vt_spl c = ''a''"
    using sample_runs by (auto simp: map_eq_Cons_conv)
  then show ?thesis
    using executed_query_was_approved [OF conjunct2 [OF sample_runs]] unfolding Let_def by blast
qed








text \<open>C29. A cancellation while the last progress report is delivered puts a task whose result is already stored back to
  approved, so that the one approval, whose scope is a single execution, covers another one.\<close>

theorem cancelled_report_reopens_completed_task:
  assumes "fl_phase f = CompleteReport c" "find_task (vt_id (fl_task f)) db = Some t"
    "vt_status t = TComplete" "vt_expires_at t = None"
  shows "\<exists>t'. find_task (vt_id (fl_task f)) (snd (resume_flight env f Cancelled db)) = Some t' \<and> vt_status t' = TApproved
    \<and> contract_of t' = contract_of t \<and> vt_artifact_id t' = vt_artifact_id t"
  using assms
  by (simp add: resume_flight_def Let_def run_cancelled_def find_requeue expired_def expirable_def contract_of_def)

definition finish_ops :: "(validation_env \<times> validation_op) list" where
  "finish_ops = approve_ops @ execute_ops @ [go 0, (desk ''x'', Resume 0 (Returned (JStr ''e'')))]"

theorem cancelled_report_reopens_completed_task_witness:
  "let w = run_ops validation_step empty_queue finish_ops in
   \<exists>t'. find_task ''x'' (snd (resume_flight (desk ''x'') (hd (vw_flights w)) Cancelled (vw_tasks w))) = Some t' \<and>
     vt_status t' = TApproved \<and> vt_artifact_id t' = ''e''"
proof -
  let ?w = "run_ops validation_step empty_queue finish_ops"
  let ?f = "hd (vw_flights ?w)"
  have "vt_id (fl_task ?f) = ''x'' \<and> (case fl_phase ?f of CompleteReport c \<Rightarrow> True | _ \<Rightarrow> False) \<and>
      (case find_task ''x'' (vw_tasks ?w) of None \<Rightarrow> False
       | Some t \<Rightarrow> vt_status t = TComplete \<and> vt_expires_at t = None \<and> vt_artifact_id t = ''e'')" by code_simp
  then obtain c t where "vt_id (fl_task ?f) = ''x''" "fl_phase ?f = CompleteReport c"
    "find_task ''x'' (vw_tasks ?w) = Some t" "vt_status t = TComplete" "vt_expires_at t = None" "vt_artifact_id t = ''e''"
    by (auto split: flight_phase.splits option.splits)
  then show ?thesis using cancelled_report_reopens_completed_task [of ?f c "vw_tasks ?w" t "desk ''x''"]
    unfolding Let_def by metis
qed


section \<open>What is stored\<close>

lemma preview_length: "length (preview_from repr n rows) \<le> length rows"
  by (induction repr n rows rule: preview_from.induct) (auto simp: Let_def)

lemma preview_size: "n \<le> 100000 \<Longrightarrow> n + sum_list (map (\<lambda>r. length (dumps r)) (preview_from repr n rows)) \<le> 100000"
  by (induction repr n rows rule: preview_from.induct) (auto simp: Let_def add.assoc)

definition preview_ok :: "json list \<Rightarrow> bool" where
  "preview_ok rows = (length rows \<le> 50 \<and> sum_list (map (\<lambda>r. length (dumps r)) rows) \<le> 100000)"

lemma bounded_preview_ok: "preview_ok (bounded_preview repr rows)"
  using preview_length [of repr 0 "take 50 rows"] preview_size [of 0 repr "take 50 rows"]
  by (simp add: preview_ok_def bounded_preview_def)

definition task_typed :: "(string \<Rightarrow> string) \<Rightarrow> validation_task \<Rightarrow> bool" where
  "task_typed digest t = (check_contract t = Inr () \<and> preview_ok (vt_result_preview t) \<and> length (vt_error t) \<le> 4000 \<and>
     vt_query_fingerprint t = task_fingerprint digest (vt_spl t) (vt_earliest_time t) (vt_latest_time t) (vt_row_limit t))"

definition table_typed :: "(string \<Rightarrow> string) \<Rightarrow> validation_db \<Rightarrow> bool" where
  "table_typed digest db = (distinct (map vt_id db) \<and> (\<forall>i t. find_task i db = Some t \<longrightarrow> task_typed digest t))"

text \<open>The columns that the type looks at.\<close>

lemma task_typed_cong:
  "task_typed d t \<Longrightarrow> vt_spl t' = vt_spl t \<Longrightarrow> vt_earliest_time t' = vt_earliest_time t \<Longrightarrow> vt_latest_time t' = vt_latest_time t
    \<Longrightarrow> vt_row_limit t' = vt_row_limit t \<Longrightarrow> vt_query_fingerprint t' = vt_query_fingerprint t
    \<Longrightarrow> preview_ok (vt_result_preview t') \<Longrightarrow> length (vt_error t') \<le> 4000 \<Longrightarrow> task_typed d t'"
  by (simp add: task_typed_def check_contract_def)

lemma typed_expired: "task_typed d t \<Longrightarrow> task_typed d (expired now t)"
  by (rule task_typed_cong [of d t]) (auto simp: task_typed_def expired_def)

lemma typed_expire: "table_typed d db \<Longrightarrow> table_typed d (snd (expire_due now [] db))"
  by (auto simp: table_typed_def typed_expired)

text \<open>A statement that maps the rows by a typed function.\<close>

lemma typed_lookups:
  assumes "table_typed d db" "map vt_id db' = map vt_id db"
    "\<And>j t'. find_task j db' = Some t' \<Longrightarrow> (\<exists>t. find_task j db = Some t \<and> t' = expired now t) \<or> task_typed d t'"
  shows "table_typed d db'"
  using assms unfolding table_typed_def by (metis typed_expired)

lemma typed_aged:
  "table_typed d db \<Longrightarrow> (\<And>j. find_task j db' = map_option (expired now) (find_task j db)) \<Longrightarrow>
    map vt_id db' = map vt_id db \<Longrightarrow> table_typed d db'"
  by (auto simp: table_typed_def typed_expired)

lemma typed_row:
  assumes "table_typed d db" "map vt_id db' = map vt_id db" "\<And>t. task_typed d t \<Longrightarrow> task_typed d (f t)"
    "\<And>j. find_task j db' = map_option (expired now) (if j = i then map_option f (find_task i db) else find_task j db)"
  shows "table_typed d db'"
  using assms by (auto simp: table_typed_def intro!: typed_expired split: if_splits)

lemma typed_fail: "table_typed d db \<Longrightarrow> table_typed d (fail_task now i e db)"
  by (rule typed_row [where f = "failed now e"]) (auto simp: find_fail task_typed_def check_contract_def)

lemma typed_requeue: "table_typed d db \<Longrightarrow> table_typed d (requeue_interrupted now i e db)"
  by (rule typed_row [where f = "requeued now e"]) (auto simp: find_requeue task_typed_def check_contract_def)

lemma typed_running: "task_typed d t \<Longrightarrow> task_typed d (running now t)"
  by (rule task_typed_cong [of d t]) (auto simp: task_typed_def running_def)

lemma typed_approved: "task_typed d t \<Longrightarrow> task_typed d (approved now t)"
  by (rule task_typed_cong [of d t]) (auto simp: task_typed_def approved_def)

lemma typed_completed: "task_typed d t \<Longrightarrow> preview_ok preview \<Longrightarrow> task_typed d (completed now n preview artifact receipt t)"
  by (rule task_typed_cong [of d t]) (auto simp: task_typed_def completed_def)

lemma typed_mark_running:
  assumes "table_typed d db" "mark_running now i db = (r, db')"
  shows "table_typed d db' \<and> (case r of None \<Rightarrow> True | Some t \<Rightarrow> task_typed d t)"
proof -
  have "distinct (map vt_id db)" using assms(1) by (simp add: table_typed_def)
  with assms(2) show ?thesis
  proof (cases rule: mark_running_cases)
    case refused
    then show ?thesis using typed_aged [OF assms(1)] by simp
  next
    case (started t)
    have t: "task_typed d (running now t)" using assms(1) started(1) by (auto simp: table_typed_def intro: typed_running)
    then show ?thesis using started(4-6) by (auto intro!: typed_lookups [OF assms(1), where now = now] split: if_splits)
  qed
qed

lemma typed_set_preflight:
  assumes "table_typed d db" "set_preflight now i receipt db = (r, db')"
  shows "table_typed d db' \<and> (case r of None \<Rightarrow> True | Some t \<Rightarrow> task_typed d t)"
  using assms(2)
proof (cases rule: set_preflight_cases)
  case refused
  then show ?thesis using typed_aged [OF assms(1)] by simp
next
  case (stored t t')
  have "task_typed d (expired now t)" using assms(1) stored(1) by (auto simp: table_typed_def intro: typed_expired)
  then have "task_typed d ((expired now t)\<lparr>vt_preflight_receipt := receipt, vt_updated_at := now\<rparr>)"
    by (rule task_typed_cong) (use \<open>task_typed d (expired now t)\<close> in \<open>auto simp: task_typed_def\<close>)
  then have t: "task_typed d t'" unfolding stored(4) by (rule typed_expired)
  then show ?thesis using stored(3,5,6) by (auto intro!: typed_lookups [OF assms(1), where now = now] split: if_splits)
qed

lemma typed_complete:
  assumes "table_typed d db" "complete_task now i n preview artifact receipt db = (r, db')" "preview_ok preview"
  shows "table_typed d db' \<and> (case r of None \<Rightarrow> True | Some t \<Rightarrow> task_typed d t)"
proof -
  have "distinct (map vt_id db)" using assms(1) by (simp add: table_typed_def)
  with assms(2) show ?thesis
  proof (cases rule: complete_task_cases)
    case refused
    then show ?thesis using assms(1) by simp
  next
    case (finished t)
    have t: "task_typed d (completed now n preview artifact receipt t)"
      using assms(1,3) finished(1) by (auto simp: table_typed_def intro: typed_completed)
    then show ?thesis using finished(3-5) by (auto intro!: typed_lookups [OF assms(1), where now = now] split: if_splits)
  qed
qed

lemma typed_approve:
  assumes "table_typed d db" "approve_validation env i db = (r, db')"
  shows "table_typed d db'"
  using assms(2)
proof (cases rule: approve_validation_cases)
  case refused
  then show ?thesis using typed_aged [OF assms(1)] by simp
next
  case (approved t t')
  have "task_typed d t'" unfolding approved(5)
    using assms(1) approved(1) by (auto simp: table_typed_def intro!: typed_expired typed_approved)
  then show ?thesis using approved(6,7) by (auto intro!: typed_lookups [OF assms(1), where now = "vx_now env"] split: if_splits)
qed

lemma typed_update:
  assumes "table_typed d db" "update_validation env i v db = (r, db')" "vx_digest env = d"
  shows "table_typed d db'"
  using assms(2)
proof (cases rule: update_validation_cases)
  case kept
  then show ?thesis using typed_aged [OF assms(1)] by simp
next
  case (redrafted t t')
  have "task_typed d t'" using redrafted(4) assms(3) unfolding redrafted(3)
    by (auto simp: task_typed_def redrafted_def Let_def preview_ok_def merged_task_def)
  then show ?thesis using redrafted(5,6) by (auto intro!: typed_lookups [OF assms(1)] typed_expired split: if_splits)
qed

lemma typed_create:
  assumes "table_typed d db" "create_validation env v db = Inr (t, db')" "vx_digest env = d"
  shows "table_typed d db'"
  using assms(2)
proof (cases rule: create_validation_cases)
  case 1
  have "task_typed d (new_task (vx_digest env) (vx_now env) (vx_task_id env) v)" using 1(1) assms(3)
    by (auto simp: task_typed_def new_task_def preview_ok_def task_fingerprint_def strip_idem)
  then show ?thesis using assms(1) 1(2-4) by (auto simp: table_typed_def typed_expired)
qed

lemma typed_delete: "table_typed d db \<Longrightarrow> table_typed d (snd (delete_task i db))"
  using find_delete [of db _ i]
  by (auto simp: table_typed_def delete_task_def distinct_sql_delete)

lemma typed_restart:
  assumes "table_typed d db"
  shows "table_typed d (open_validations now db)"
proof -
  let ?f = "\<lambda>t. t\<lparr>vt_status := TApproved, vt_error := ''Execution was interrupted by a SignalRoom restart; approval was preserved.'',
    vt_started_at := None, vt_updated_at := now\<rparr>"
  have f: "task_typed d (?f t)" if "task_typed d t" for t
    by (rule task_typed_cong [OF that]) (use that in \<open>simp_all add: task_typed_def\<close>)
  have "table_typed d (sql_update (\<lambda>t. vt_status t = TRunning) ?f db)"
    using assms f by (auto simp: table_typed_def ids_update find_update split: if_splits)
  then show ?thesis by (simp add: open_validations_def recover_interrupted_def Let_def typed_expire)
qed

text \<open>A segment of a request over a typed table, with the task it holds.\<close>

definition segment_typed :: "(string \<Rightarrow> string) \<Rightarrow> segment_end \<times> validation_db \<Rightarrow> bool" where
  "segment_typed d r = (table_typed d (snd r) \<and> (\<forall>f \<in> set (new_flights (fst r)). task_typed d (fl_task f)))"

lemma segment_typed_simps [simp]:
  "segment_typed d (Done r, db) = table_typed d db"
  "segment_typed d (Going f, db) = (table_typed d db \<and> task_typed d (fl_task f))"
  "segment_typed d (at_phase f ph, db) = (table_typed d db \<and> task_typed d (fl_task f))"
  by (auto simp: segment_typed_def at_phase_def)

lemma typed_get:
  assumes "table_typed d db" "get_task now i db = (r, db1)"
  shows "table_typed d db1 \<and> (case r of None \<Rightarrow> True | Some t \<Rightarrow> task_typed d t)"
  using assms typed_expire [of d db now] by (auto simp: find_get table_typed_def intro: typed_expired split: option.splits)

lemma typed_preflight_failed: "table_typed d db \<Longrightarrow> segment_typed d (preflight_failed env kind i e db)"
  by (simp add: preflight_failed_def typed_fail)

lemma typed_start_preflight: "table_typed d db \<Longrightarrow> segment_typed d (start_preflight env kind i db)"
  by (auto simp: start_preflight_def typed_preflight_failed dest: typed_get split: prod.split option.splits sum.split)

lemma typed_ensure_preflight: "table_typed d db \<Longrightarrow> segment_typed d (ensure_preflight env kind i saia refresh db)"
  by (auto simp: ensure_preflight_def typed_preflight_failed typed_start_preflight dest: typed_get split: prod.split option.splits)

lemma typed_approved_end: "table_typed d db \<Longrightarrow> segment_typed d (approved_end env i db)"
  by (auto simp: approved_end_def typed_approve split: prod.split)

lemma typed_start_approve:
  assumes "table_typed d db"
  shows "segment_typed d (start_approve env i db)"
proof -
  obtain e db1 where e: "ensure_preflight env ThenApprove i False False db = (e, db1)" by fastforce
  then have seg: "segment_typed d (e, db1)" using typed_ensure_preflight [OF assms] by metis
  then have "table_typed d db1" by (simp add: segment_typed_def)
  then show ?thesis using e seg typed_approved_end
    by (auto simp: start_approve_def split: segment_end.split sum.split option.split)
qed

lemma typed_start_execute: "table_typed d db \<Longrightarrow> segment_typed d (start_execute env i db)"
  by (auto simp: start_execute_def typed_ensure_preflight dest: typed_get split: prod.split option.splits sum.split)

lemma typed_after_preflight:
  "table_typed d db \<Longrightarrow> task_typed d (fl_task f) \<Longrightarrow> segment_typed d (after_preflight env f db)"
  by (auto simp: after_preflight_def Let_def typed_approved_end dest: typed_mark_running split: flight_kind.split prod.split option.splits)

lemma typed_continue_preflight:
  "table_typed d db \<Longrightarrow> task_typed d (fl_task f) \<Longrightarrow> segment_typed d (continue_preflight env f ph v db)"
  by (auto simp: continue_preflight_def Let_def typed_preflight_failed typed_after_preflight dest: typed_set_preflight
      split: flight_phase.split prod.split option.splits)

lemma typed_continue_run:
  "table_typed d db \<Longrightarrow> task_typed d (fl_task f) \<Longrightarrow> segment_typed d (continue_run env f ph v db)"
  by (auto simp: continue_run_def run_failed_def typed_fail dest: typed_complete [OF _ _ bounded_preview_ok]
      split: flight_phase.split prod.split option.splits sum.split)

lemma typed_resume:
  "table_typed d db \<Longrightarrow> task_typed d (fl_task f) \<Longrightarrow> segment_typed d (resume_flight env f a db)"
  by (auto simp: resume_flight_def Let_def typed_preflight_failed typed_continue_preflight typed_continue_run run_failed_def
      run_cancelled_def typed_fail typed_requeue split: awaited.split)

definition queue_typed :: "(string \<Rightarrow> string) \<Rightarrow> validation_world \<Rightarrow> bool" where
  "queue_typed d w = (table_typed d (vw_tasks w) \<and> (\<forall>f \<in> set (vw_flights w). task_typed d (fl_task f))
     \<and> (\<forall>c \<in> set (vw_calls w). task_typed d c))"

lemma settle_typed:
  assumes "queue_typed d w" "segment_typed d r" "set before \<union> set after \<subseteq> set (vw_flights w)"
  shows "queue_typed d (settle kind before after r w)"
proof -
  have "task_typed d c" if "c \<in> set (new_calls (fst r))" for c
    using that assms(2) by (cases "fst r") (auto simp: segment_typed_def split: if_splits)
  then show ?thesis using assms by (auto simp: queue_typed_def settle_def segment_typed_def)
qed

interpretation queue: invariant_machine "\<lambda>e. validation_step (case e of (env, op) \<Rightarrow> (env\<lparr>vx_digest := d\<rparr>, op))" "queue_typed d" for d
proof
  fix w and e :: "validation_env \<times> validation_op"
  assume typed: "queue_typed d w"
  obtain env op where e: "e = (env, op)" by fastforce
  let ?env = "env\<lparr>vx_digest := d\<rparr>"
  have tasks: "table_typed d (vw_tasks w)" using typed by (simp add: queue_typed_def)
  have set_tasks: "table_typed d db \<Longrightarrow> queue_typed d (w\<lparr>vw_tasks := db\<rparr>)" for db using typed by (simp add: queue_typed_def)
  have "queue_typed d (validation_step (?env, op) w)"
  proof (cases op)
    case (CreateTask v)
    then show ?thesis using typed_create [OF tasks, of ?env v] set_tasks typed by (auto split: sum.split)
  next
    case (UpdateTask i v)
    then show ?thesis using typed_update [OF tasks prod.collapse [symmetric], of ?env i v] set_tasks by simp
  next
    case (Resume n a)
    show ?thesis
    proof (cases "n < length (vw_flights w)")
      case True
      then have "task_typed d (fl_task (vw_flights w ! n))" using typed by (simp add: queue_typed_def)
      then show ?thesis using Resume True settle_typed [OF typed typed_resume [OF tasks]]
        by (simp add: Let_def set_take_subset set_drop_subset)
    qed (use Resume typed in simp)
  qed (use tasks set_tasks settle_typed [OF typed] typed_start_approve typed_ensure_preflight typed_start_execute
      typed_delete in \<open>simp_all\<close>, use typed typed_restart [OF tasks] in \<open>simp add: queue_typed_def\<close>)
  then show "queue_typed d (validation_step (case e of (env, op) \<Rightarrow> (env\<lparr>vx_digest := d\<rparr>, op)) w)" by (simp add: e)
qed

text \<open>C27. Whatever the interleaving of edits, approvals, runs, failures, cancellations and restarts - overlapping
  executions included - every stored task is well formed: its id is its own, its query passes the contract check,
  its fingerprint is the one of its present query, its preview is within the limits and its error is bounded; and
  every query sent to Splunk was well formed when it was sent. (\<open>d\<close> is the digest function, the same in every request.)\<close>

theorem stored_tasks_are_well_formed:
  "queue_typed d (run_ops (\<lambda>(env, op). validation_step (env\<lparr>vx_digest := d\<rparr>, op)) empty_queue es)"
proof -
  have "queue_typed d empty_queue"
    by (simp add: queue_typed_def table_typed_def empty_queue_def find_task_def sql_first_def)
  then have "queue_typed d (run_ops (\<lambda>e. validation_step (case e of (env, op) \<Rightarrow> (env\<lparr>vx_digest := d\<rparr>, op))) empty_queue es)"
    by (rule queue.inv_run)
  moreover have "(\<lambda>e. validation_step (case e of (env, op) \<Rightarrow> (env\<lparr>vx_digest := d\<rparr>, op)))
      = (\<lambda>(env, op). validation_step (env\<lparr>vx_digest := d\<rparr>, op))" by (simp add: fun_eq_iff split: prod.split)
  ultimately show ?thesis by simp
qed

end
