(* ===== verification/Evidence_Store.thy ===== *)
theory Evidence_Store
  imports Python_Values
begin

text \<open>
  The evidence library (\<open>rag/store.py\<close>): artifacts, the chunks their text is cut into, the rows of the full-text
  index and the embeddings of the chunks. \<open>add\<close>, \<open>update\<close> and \<open>delete\<close> keep the four tables together;
  \<open>pending_embeddings\<close> and \<open>embedding_status\<close> read them. Metadata and vectors are JSON values. SHA-256 and the
  clock are parameters. The ranked searches rest on SQLite's full-text engine and on floating point and are not
  modelled.
\<close>


section \<open>Rows\<close>

record artifact =
  ar_id :: string
  ar_title :: string
  ar_kind :: string
  ar_source :: string
  ar_tags :: "string list"
  ar_content :: string
  ar_metadata :: json
  ar_connection_alias :: string
  ar_connection_fingerprint :: string
  ar_tenant_scope_id :: string
  ar_created_at :: string
  ar_updated_at :: string

record chunk =
  ck_id :: string
  ck_artifact :: string
  ck_ordinal :: nat
  ck_title :: string
  ck_content :: string

record fts_row =
  ft_chunk :: string
  ft_artifact :: string
  ft_title :: string
  ft_content :: string

record embedding =
  em_chunk :: string
  em_profile :: string
  em_vector :: json
  em_updated_at :: string

record scope_binding =
  sb_alias :: string
  sb_fingerprint :: string
  sb_tenant :: string

record evidence_db =
  ev_artifacts :: "artifact list"
  ev_chunks :: "chunk list"
  ev_fts :: "fts_row list"
  ev_embeddings :: "embedding list"
  ev_default :: "scope_binding option"

definition empty_evidence :: evidence_db where
  "empty_evidence = \<lparr>ev_artifacts = [], ev_chunks = [], ev_fts = [], ev_embeddings = [], ev_default = None\<rparr>"

text \<open>\<open>ArtifactCreate\<close> with the metadata argument of \<open>add\<close>, and \<open>ArtifactUpdate\<close>.\<close>

record artifact_create =
  ac_title :: string
  ac_kind :: string
  ac_source :: string
  ac_tags :: "string list"
  ac_content :: string
  ac_metadata :: json
  ac_connection_alias :: string
  ac_connection_fingerprint :: string
  ac_tenant_scope_id :: string

text \<open>The bounds that \<open>ArtifactCreate\<close> checks.\<close>

definition artifact_create_ok :: "artifact_create \<Rightarrow> bool" where
  "artifact_create_ok v = (ac_title v \<noteq> [] \<and> length (ac_title v) \<le> 240 \<and> ac_content v \<noteq> []
     \<and> int (length (ac_content v)) \<le> 2000000 \<and> length (ac_source v) \<le> 240 \<and> ac_connection_alias v \<noteq> []
     \<and> length (ac_connection_alias v) \<le> 120 \<and> length (ac_connection_fingerprint v) \<le> 64
     \<and> ac_tenant_scope_id v \<noteq> [] \<and> length (ac_tenant_scope_id v) \<le> 160)"

record artifact_update =
  au_title :: "string option"
  au_kind :: "string option"
  au_source :: "string option"
  au_tags :: "string list option"
  au_content :: "string option"
  au_metadata :: "json option"


section \<open>Chunks\<close>

text \<open>
  \<open>re.split(r"\n\s*\n", content)\<close>: a separator starts at a line feed whose run of white space holds another
  one, and ends with the last line feed of that run. \<open>separator s\<close> is its length when \<open>s\<close> starts with one.
\<close>

definition separator :: "string \<Rightarrow> nat option" where
  "separator s = (case s of [] \<Rightarrow> None | c # cs \<Rightarrow>
     if c \<noteq> newline then None
     else let run = takeWhile is_space cs; upto = dropWhile (\<lambda>x. x \<noteq> newline) (rev run)
       in if upto = [] then None else Some (Suc (length upto)))"

function split_blocks :: "string \<Rightarrow> string \<Rightarrow> string list" where
  "split_blocks part [] = [part]"
| "split_blocks part (c # cs) = (case separator (c # cs) of
     None \<Rightarrow> split_blocks (part @ [c]) cs
   | Some n \<Rightarrow> part # split_blocks [] (drop n (c # cs)))"
  by pat_completeness auto
termination
  by (relation "measure (\<lambda>(part, s). length s)")
    (auto simp: separator_def Let_def split: if_splits)

definition text_blocks :: "string \<Rightarrow> string list" where
  "text_blocks content = map strip (filter (\<lambda>p. strip p \<noteq> []) (split_blocks [] content))"

definition sentence_breaks :: "string \<Rightarrow> nat list" where
  "sentence_breaks tail = concat (map (\<lambda>m. case find_text m tail of None \<Rightarrow> [] | Some n \<Rightarrow> [n])
     [''. '', ''! '', ''? '', [newline]])"

text \<open>What the next chunk repeats: at most 160 characters, from the first sentence or the first word.\<close>

definition overlap_of :: "string \<Rightarrow> string" where
  "overlap_of current =
     (let tail = drop (length current - 160) current; breaks = sentence_breaks tail;
          word = dropWhile (\<lambda>c. \<not> is_space c) tail
      in if breaks \<noteq> [] then lstrip (drop (Suc (Min (set breaks))) tail)
         else if word \<noteq> [] then dropWhile is_space word else tail)"

definition join_blocks :: "string \<Rightarrow> string \<Rightarrow> string" where
  "join_blocks a b = strip (a @ [newline, newline] @ b)"

fun pack_blocks :: "string \<Rightarrow> string list \<Rightarrow> string list" where
  "pack_blocks current [] = (if current = [] then [] else [current])"
| "pack_blocks current (b # bs) =
     (if current \<noteq> [] \<and> 1100 < length current + length b + 2
      then current # pack_blocks (join_blocks (overlap_of current) b) bs
      else pack_blocks (join_blocks current b) bs)"

definition chunks_of :: "string \<Rightarrow> string list" where
  "chunks_of content = (let cs = pack_blocks [] (text_blocks content) in if cs = [] then [take 1100 content] else cs)"


section \<open>Operations\<close>

definition bind_artifacts :: "scope_binding \<Rightarrow> evidence_db \<Rightarrow> evidence_db" where
  "bind_artifacts b db =
     (let bound = \<lparr>sb_alias = (if sb_alias b = [] then ''primary'' else sb_alias b), sb_fingerprint = sb_fingerprint b,
            sb_tenant = (if sb_tenant b = [] then ''workspace-primary'' else sb_tenant b)\<rparr>
      in db\<lparr>ev_default := Some bound, ev_artifacts := sql_update (\<lambda>a. ar_connection_fingerprint a = [])
           (\<lambda>a. a\<lparr>ar_connection_alias := sb_alias bound, ar_connection_fingerprint := sb_fingerprint bound,
              ar_tenant_scope_id := sb_tenant bound\<rparr>) (ev_artifacts db)\<rparr>)"

definition find_artifact :: "string \<Rightarrow> evidence_db \<Rightarrow> artifact option" where
  "find_artifact i db = sql_first (\<lambda>a. ar_id a = i) (ev_artifacts db)"

definition get_artifact :: "string \<Rightarrow> string option \<Rightarrow> evidence_db \<Rightarrow> artifact option" where
  "get_artifact i tenant db = sql_first (\<lambda>a. ar_id a = i \<and> (case tenant of None \<Rightarrow> True | Some t \<Rightarrow> ar_tenant_scope_id a = t))
     (ev_artifacts db)"

definition list_artifacts :: "int \<Rightarrow> string option \<Rightarrow> string option \<Rightarrow> string option \<Rightarrow> evidence_db \<Rightarrow> artifact list" where
  "list_artifacts limit tenant alias fingerprint db =
     (let wanted = (\<lambda>f v. case v of None \<Rightarrow> True | Some x \<Rightarrow> f = x) in
      sql_limit limit (text_order_desc ar_updated_at (filter (\<lambda>a. wanted (ar_tenant_scope_id a) tenant
        \<and> wanted (ar_connection_alias a) alias \<and> wanted (ar_connection_fingerprint a) fingerprint) (ev_artifacts db))))"

definition artifact_digest :: "(string \<Rightarrow> string) \<Rightarrow> artifact_create \<Rightarrow> string" where
  "artifact_digest digest v = take 16 (digest (ac_tenant_scope_id v @ [CHR 0x00] @ ac_connection_alias v @ [CHR 0x00]
     @ ac_connection_fingerprint v @ [CHR 0x00] @ ac_title v @ [CHR 0x00] @ ac_content v))"

definition default_scope :: "evidence_db \<Rightarrow> artifact_create \<Rightarrow> artifact_create" where
  "default_scope db v = (case ev_default db of None \<Rightarrow> v | Some b \<Rightarrow>
     if ac_connection_fingerprint v \<noteq> [] then v
     else v\<lparr>ac_connection_alias := sb_alias b, ac_connection_fingerprint := sb_fingerprint b, ac_tenant_scope_id := sb_tenant b\<rparr>)"

definition chunk_rows :: "artifact \<Rightarrow> chunk list" where
  "chunk_rows a = map (\<lambda>(n, text). \<lparr>ck_id = ar_id a @ '':'' @ nat_text n, ck_artifact = ar_id a, ck_ordinal = n,
     ck_title = ar_title a, ck_content = text\<rparr>) (enumerate 0 (chunks_of (ar_content a)))"

definition fts_of :: "chunk \<Rightarrow> fts_row" where
  "fts_of c = \<lparr>ft_chunk = ck_id c, ft_artifact = ck_artifact c, ft_title = ck_title c, ft_content = ck_content c\<rparr>"

text \<open>The statements that replace the chunks of an artifact.\<close>

definition drop_chunks :: "string \<Rightarrow> evidence_db \<Rightarrow> evidence_db" where
  "drop_chunks i db = db\<lparr>ev_chunks := sql_delete (\<lambda>c. ck_artifact c = i) (ev_chunks db),
     ev_fts := sql_delete (\<lambda>f. ft_artifact f = i) (ev_fts db)\<rparr>"

definition drop_embeddings :: "string \<Rightarrow> evidence_db \<Rightarrow> evidence_db" where
  "drop_embeddings i db = (let ids = map ck_id (filter (\<lambda>c. ck_artifact c = i) (ev_chunks db)) in
     db\<lparr>ev_embeddings := sql_delete (\<lambda>e. List.member ids (em_chunk e)) (ev_embeddings db)\<rparr>)"

definition insert_chunks :: "artifact \<Rightarrow> evidence_db \<Rightarrow> evidence_db" where
  "insert_chunks a db = db\<lparr>ev_chunks := ev_chunks db @ chunk_rows a, ev_fts := ev_fts db @ map fts_of (chunk_rows a)\<rparr>"

text \<open>\<open>INSERT OR REPLACE\<close> deletes the row with that key and inserts the new one.\<close>

definition add_artifact :: "(string \<Rightarrow> string) \<Rightarrow> string \<Rightarrow> artifact_create \<Rightarrow> evidence_db \<Rightarrow> artifact \<times> evidence_db" where
  "add_artifact digest now v0 db =
     (let v = default_scope db v0; i = artifact_digest digest v;
          a = \<lparr>ar_id = i, ar_title = strip (ac_title v), ar_kind = ac_kind v, ar_source = ac_source v,
            ar_tags = sort (remdups (ac_tags v)), ar_content = strip (ac_content v), ar_metadata = ac_metadata v,
            ar_connection_alias = ac_connection_alias v, ar_connection_fingerprint = ac_connection_fingerprint v,
            ar_tenant_scope_id = ac_tenant_scope_id v,
            ar_created_at = (case find_artifact i db of None \<Rightarrow> now | Some x \<Rightarrow> ar_created_at x), ar_updated_at = now\<rparr>
      in (a, insert_chunks a (drop_chunks i
            (db\<lparr>ev_artifacts := sql_delete (\<lambda>x. ar_id x = i) (ev_artifacts db) @ [a]\<rparr>))))"

definition no_changes :: "artifact_update \<Rightarrow> bool" where
  "no_changes v = (au_title v = None \<and> au_kind v = None \<and> au_source v = None \<and> au_tags v = None
     \<and> au_content v = None \<and> au_metadata v = None)"

definition updated_artifact :: "string \<Rightarrow> artifact_update \<Rightarrow> artifact \<Rightarrow> artifact" where
  "updated_artifact now v a =
     (let source = strip (given_else (au_source v) (ar_source a)) in
      a\<lparr>ar_title := strip (given_else (au_title v) (ar_title a)), ar_kind := given_else (au_kind v) (ar_kind a),
        ar_source := (if source = [] then ''operator'' else source),
        ar_tags := sort (remdups (given_else (au_tags v) (ar_tags a))),
        ar_content := strip (given_else (au_content v) (ar_content a)),
        ar_metadata := given_else (au_metadata v) (ar_metadata a), ar_updated_at := now\<rparr>)"

definition update_artifact ::
  "string \<Rightarrow> string \<Rightarrow> artifact_update \<Rightarrow> string option \<Rightarrow> evidence_db \<Rightarrow> artifact option \<times> evidence_db" where
  "update_artifact now i v tenant db =
     (case get_artifact i tenant db of None \<Rightarrow> (None, db)
      | Some a \<Rightarrow>
          if no_changes v then (Some a, db)
          else let b = updated_artifact now v a; db1 = drop_chunks i (drop_embeddings i db)
            in (Some b, insert_chunks b (db1\<lparr>ev_artifacts := sql_update (\<lambda>x. ar_id x = i)
                 (\<lambda>x. x\<lparr>ar_title := ar_title b, ar_kind := ar_kind b, ar_source := ar_source b, ar_tags := ar_tags b,
                    ar_content := ar_content b, ar_metadata := ar_metadata b, ar_updated_at := ar_updated_at b\<rparr>)
                 (ev_artifacts db1)\<rparr>)))"

definition delete_artifact :: "string \<Rightarrow> string option \<Rightarrow> evidence_db \<Rightarrow> bool \<times> evidence_db" where
  "delete_artifact i tenant db =
     (case get_artifact i tenant db of None \<Rightarrow> (False, db)
      | Some a \<Rightarrow> (True, let db1 = drop_chunks i (drop_embeddings i db) in
          db1\<lparr>ev_artifacts := sql_delete (\<lambda>x. ar_id x = i) (ev_artifacts db1)\<rparr>))"

text \<open>The primary key of the table of embeddings is the chunk and the model profile.\<close>

definition save_embeddings :: "string \<Rightarrow> string \<Rightarrow> (string \<times> json list) list \<Rightarrow> evidence_db \<Rightarrow> evidence_db" where
  "save_embeddings now profile values db =
     db\<lparr>ev_embeddings := fold (\<lambda>(c, vector) rows. sql_delete (\<lambda>e. em_chunk e = c \<and> em_profile e = profile) rows
          @ [\<lparr>em_chunk = c, em_profile = profile, em_vector = JArr vector, em_updated_at = now\<rparr>])
        (filter (\<lambda>(c, vector). vector \<noteq> []) values) (ev_embeddings db)\<rparr>"

definition in_scope :: "string option \<Rightarrow> string option \<Rightarrow> string option \<Rightarrow> evidence_db \<Rightarrow> chunk \<Rightarrow> bool" where
  "in_scope tenant alias fingerprint db c =
     (let wanted = (\<lambda>f v. case v of None \<Rightarrow> True | Some x \<Rightarrow> f = x) in
      case find_artifact (ck_artifact c) db of None \<Rightarrow> False
      | Some a \<Rightarrow> wanted (ar_tenant_scope_id a) tenant \<and> wanted (ar_connection_alias a) alias
          \<and> wanted (ar_connection_fingerprint a) fingerprint)"

definition embedded :: "string \<Rightarrow> evidence_db \<Rightarrow> chunk \<Rightarrow> bool" where
  "embedded profile db c = list_ex (\<lambda>e. em_chunk e = ck_id c \<and> em_profile e = profile) (ev_embeddings db)"

definition pending_embeddings ::
  "string \<Rightarrow> int \<Rightarrow> string option \<Rightarrow> string option \<Rightarrow> string option \<Rightarrow> evidence_db \<Rightarrow> (string \<times> string) list" where
  "pending_embeddings profile limit tenant alias fingerprint db =
     map (\<lambda>c. (ck_id c, ck_content c)) (sql_limit limit (sort_key ck_id
       (filter (\<lambda>c. \<not> embedded profile db c \<and> in_scope tenant alias fingerprint db c) (ev_chunks db))))"

text \<open>The three counts of \<open>embedding_status\<close>: all chunks, indexed chunks, pending chunks.\<close>

definition embedding_status :: "string \<Rightarrow> string option \<Rightarrow> evidence_db \<Rightarrow> int \<times> int \<times> int" where
  "embedding_status profile tenant db =
     (let total = (case tenant of None \<Rightarrow> length (ev_chunks db)
            | Some t \<Rightarrow> sql_count (in_scope tenant None None db) (ev_chunks db));
          mine = filter (\<lambda>e. em_profile e = profile) (ev_embeddings db);
          indexed = (case tenant of None \<Rightarrow> length mine
            | Some t \<Rightarrow> sum_list (map (\<lambda>e. sql_count (\<lambda>c. ck_id c = em_chunk e \<and> in_scope tenant None None db c) (ev_chunks db)) mine))
      in (int total, min (int indexed) (int total), max 0 (int total - int indexed)))"


section \<open>The chunks hold the text\<close>

lemma contains_refl: "contains s s"
  using contains_iff [of s s] by (metis append.left_neutral append.right_neutral)

lemma contains_trans: "contains a b \<Longrightarrow> contains b c \<Longrightarrow> contains a c"
  unfolding contains_iff by (metis append.assoc)

text \<open>A part that does not start or end with white space survives \<open>strip\<close>.\<close>

lemma contains_strip:
  assumes "contains b s" "b \<noteq> []" "\<not> is_space (hd b)" "\<not> is_space (last b)"
  shows "contains b (strip s)"
proof -
  obtain x y where s: "s = x @ b @ y" using assms(1) by (auto simp: contains_iff)
  obtain c cs where b: "b = c # cs" using assms(2) by (cases b) auto
  have "\<exists>x'. lstrip s = x' @ b @ y"
    using assms(3) by (simp add: lstrip_def s dropWhile_append b)
  then obtain x' where l: "lstrip s = x' @ b @ y" by blast
  obtain d ds where d: "rev b = d # ds" "\<not> is_space d" using assms(2,4) by (cases "rev b") (auto simp: hd_rev [symmetric])
  have "\<exists>y'. dropWhile is_space (rev y @ rev b @ rev x') = y' @ rev b @ rev x'"
    using d by (simp add: dropWhile_append)
  then obtain y' where "dropWhile is_space (rev (lstrip s)) = y' @ rev b @ rev x'" by (auto simp: l)
  then have "strip s = x' @ b @ rev y'" by (simp add: strip_def rstrip_def)
  then show ?thesis unfolding contains_iff by blast
qed

definition plain_edges :: "string \<Rightarrow> bool" where
  "plain_edges b = (b \<noteq> [] \<and> \<not> is_space (hd b) \<and> \<not> is_space (last b))"

lemma strip_plain: "strip b \<noteq> [] \<Longrightarrow> plain_edges (strip b)"
  using strip_edges by (simp add: plain_edges_def)

lemma join_blocks_contains:
  "plain_edges b \<Longrightarrow> contains b (join_blocks a b)"
  "plain_edges a \<Longrightarrow> contains a (join_blocks a b)"
proof -
  have "a @ [newline, newline] @ b = (a @ [newline, newline]) @ b @ []" by simp
  then have "contains b (a @ [newline, newline] @ b)" unfolding contains_iff by blast
  moreover have "a @ [newline, newline] @ b = [] @ a @ ([newline, newline] @ b)" by simp
  then have "contains a (a @ [newline, newline] @ b)" unfolding contains_iff by blast
  ultimately show "plain_edges b \<Longrightarrow> contains b (join_blocks a b)" "plain_edges a \<Longrightarrow> contains a (join_blocks a b)"
    unfolding join_blocks_def plain_edges_def by (blast intro: contains_strip)+
qed

lemma join_blocks_plain: "plain_edges b \<Longrightarrow> plain_edges (join_blocks a b)"
  using join_blocks_contains(1) [of b a] strip_plain [of "a @ [newline, newline] @ b"]
  by (fastforce simp: join_blocks_def plain_edges_def contains_iff)

lemma pack_blocks_keep:
  "\<forall>b \<in> set bs. plain_edges b \<Longrightarrow> current = [] \<or> plain_edges current \<Longrightarrow> b \<in> set bs \<or> b = current \<and> b \<noteq> [] \<Longrightarrow>
    \<exists>c \<in> set (pack_blocks current bs). contains b c"
proof (induction bs arbitrary: current b)
  case (Cons d bs)
  let ?split = "current \<noteq> [] \<and> 1100 < length current + length d + 2"
  let ?next = "join_blocks (if ?split then overlap_of current else current) d"
  have rest: "set (pack_blocks ?next bs) \<subseteq> set (pack_blocks current (d # bs))" by auto
  have plain: "plain_edges ?next" using Cons.prems(1) by (intro join_blocks_plain) simp
  have ne: "?next \<noteq> []" using plain by (simp add: plain_edges_def)
  have IH: "\<exists>c \<in> set (pack_blocks ?next bs). contains e c" if "e \<in> set bs \<or> e = ?next" for e
    using Cons.IH [of ?next e] Cons.prems(1) plain ne that by auto
  have carried: "contains b ?next \<Longrightarrow> \<exists>c \<in> set (pack_blocks current (d # bs)). contains b c"
    using IH [of ?next] rest contains_trans by blast
  consider "b = d" | "b \<in> set bs" | "b = current" "b \<noteq> []" using Cons.prems(3) by auto
  then show ?case
  proof cases
    case 1
    then show ?thesis using carried join_blocks_contains(1) [of d] Cons.prems(1) by simp
  next
    case 2
    then show ?thesis using IH [of b] rest by blast
  next
    case 3
    show ?thesis
    proof (cases ?split)
      case True
      then show ?thesis using 3 contains_refl by auto
    next
      case False
      then show ?thesis using carried join_blocks_contains(2) [of current d] 3 Cons.prems(2) by simp
    qed
  qed
qed (auto intro: contains_refl)

lemma text_blocks_plain: "b \<in> set (text_blocks s) \<Longrightarrow> plain_edges b"
  using strip_plain by (auto simp: text_blocks_def)

lemma chunks_hold_blocks: "b \<in> set (text_blocks s) \<Longrightarrow> \<exists>c \<in> set (chunks_of s). contains b c"
  using pack_blocks_keep [of "text_blocks s" "[]" b] text_blocks_plain by (fastforce simp: chunks_of_def Let_def)

lemma chunks_nonempty: "chunks_of s \<noteq> []"
  by (simp add: chunks_of_def Let_def)


section \<open>The tables stay together\<close>

definition evidence_inv :: "evidence_db \<Rightarrow> bool" where
  "evidence_inv db = (distinct (map ar_id (ev_artifacts db)) \<and>
     (\<forall>a \<in> set (ev_artifacts db). filter (\<lambda>c. ck_artifact c = ar_id a) (ev_chunks db) = chunk_rows a) \<and>
     (\<forall>c \<in> set (ev_chunks db). ck_artifact c \<in> set (map ar_id (ev_artifacts db))) \<and>
     ev_fts db = map fts_of (ev_chunks db))"

datatype evidence_op =
    AddArtifact string artifact_create
  | UpdateArtifact string string artifact_update "string option"
  | DeleteArtifact string "string option"
  | SaveEmbeddings string string "(string \<times> json list) list"
  | BindArtifacts scope_binding

fun evidence_step :: "(string \<Rightarrow> string) \<Rightarrow> evidence_op \<Rightarrow> evidence_db \<Rightarrow> evidence_db" where
  "evidence_step digest (AddArtifact now v) db = snd (add_artifact digest now v db)"
| "evidence_step digest (UpdateArtifact now i v tenant) db = snd (update_artifact now i v tenant db)"
| "evidence_step digest (DeleteArtifact i tenant) db = snd (delete_artifact i tenant db)"
| "evidence_step digest (SaveEmbeddings now profile values) db = save_embeddings now profile values db"
| "evidence_step digest (BindArtifacts b) db = bind_artifacts b db"

lemma fts_delete: "sql_delete (\<lambda>f. ft_artifact f = i) (map fts_of cs) = map fts_of (sql_delete (\<lambda>c. ck_artifact c = i) cs)"
  by (induction cs) (auto simp: sql_delete_def fts_of_def)

lemma chunk_rows_artifact: "c \<in> set (chunk_rows a) \<Longrightarrow> ck_artifact c = ar_id a"
  by (auto simp: chunk_rows_def)

lemma chunk_rows_cong:
  "ar_id b = ar_id a \<Longrightarrow> ar_title b = ar_title a \<Longrightarrow> ar_content b = ar_content a \<Longrightarrow> chunk_rows b = chunk_rows a"
  by (simp add: chunk_rows_def)

lemma filter_delete: "filter p (sql_delete q rows) = (if \<forall>r. p r \<longrightarrow> \<not> q r then filter p rows else filter (\<lambda>r. p r \<and> \<not> q r) rows)"
  by (auto simp: sql_delete_def intro: filter_cong)

text \<open>Replacing the artifact \<open>i\<close> and its chunks keeps the tables together.\<close>

lemma evidence_inv_replace:
  assumes inv: "evidence_inv db" and a: "ar_id a = i"
    and arts: "distinct (map ar_id (ev_artifacts db'))" "set (ev_artifacts db') = insert a {x \<in> set (ev_artifacts db). ar_id x \<noteq> i}"
    and chunks: "ev_chunks db' = sql_delete (\<lambda>c. ck_artifact c = i) (ev_chunks db) @ chunk_rows a"
    and fts: "ev_fts db' = sql_delete (\<lambda>f. ft_artifact f = i) (ev_fts db) @ map fts_of (chunk_rows a)"
  shows "evidence_inv db'"
proof -
  have "filter (\<lambda>c. ck_artifact c = ar_id x) (ev_chunks db') = chunk_rows x" if x: "x \<in> set (ev_artifacts db')" for x
  proof (cases "x = a")
    case True
    then show ?thesis using chunk_rows_artifact [of _ a] a by (simp add: chunks sql_delete_def filter_id_conv)
  next
    case False
    with x arts(2) have x': "x \<in> set (ev_artifacts db)" "ar_id x \<noteq> i" by auto
    have "filter (\<lambda>c. ck_artifact c = ar_id x) (chunk_rows a) = []"
      using chunk_rows_artifact [of _ a] a x'(2) by (auto simp: filter_empty_conv)
    then have "filter (\<lambda>c. ck_artifact c = ar_id x) (ev_chunks db') = filter (\<lambda>c. ck_artifact c = ar_id x) (ev_chunks db)"
      using x'(2) by (simp add: chunks filter_delete)
    then show ?thesis using inv x'(1) by (simp add: evidence_inv_def)
  qed
  moreover have "\<forall>c \<in> set (ev_chunks db'). ck_artifact c \<in> set (map ar_id (ev_artifacts db'))"
    using inv chunk_rows_artifact a unfolding evidence_inv_def by (fastforce simp: chunks arts(2) sql_simps)
  ultimately show ?thesis using inv arts(1) by (auto simp: evidence_inv_def fts chunks fts_delete)
qed

lemma evidence_inv_cong:
  "evidence_inv db \<Longrightarrow> ev_artifacts db' = ev_artifacts db \<Longrightarrow> ev_chunks db' = ev_chunks db \<Longrightarrow> ev_fts db' = ev_fts db
    \<Longrightarrow> evidence_inv db'"
  by (simp add: evidence_inv_def)

lemma evidence_inv_add: "evidence_inv db \<Longrightarrow> evidence_inv (snd (add_artifact digest now v db))"
  unfolding add_artifact_def Let_def snd_conv
  by (rule evidence_inv_replace)
    (auto simp: insert_chunks_def drop_chunks_def evidence_inv_def distinct_sql_delete sql_simps)

lemma get_artifact_SomeD: "get_artifact i tenant db = Some a \<Longrightarrow> a \<in> set (ev_artifacts db) \<and> ar_id a = i"
  by (auto simp: get_artifact_def dest: sql_first_SomeD)

lemma evidence_inv_update: "evidence_inv db \<Longrightarrow> evidence_inv (snd (update_artifact now i v tenant db))"
proof (cases "get_artifact i tenant db")
  case (Some a)
  assume inv: "evidence_inv db"
  have a: "a \<in> set (ev_artifacts db)" "ar_id a = i" using get_artifact_SomeD [OF Some] by auto
  have ids: "distinct (map ar_id (ev_artifacts db))" using inv by (simp add: evidence_inv_def)
  show ?thesis
  proof (cases "no_changes v")
    case False
    let ?b = "updated_artifact now v a"
    let ?f = "\<lambda>x. x\<lparr>ar_title := ar_title ?b, ar_kind := ar_kind ?b, ar_source := ar_source ?b, ar_tags := ar_tags ?b,
      ar_content := ar_content ?b, ar_metadata := ar_metadata ?b, ar_updated_at := ar_updated_at ?b\<rparr>"
    have b: "ar_id ?b = i" "?f a = ?b" using a(2) by (simp_all add: updated_artifact_def Let_def)
    let ?db = "snd (update_artifact now i v tenant db)"
    have arts: "ev_artifacts ?db = sql_update (\<lambda>x. ar_id x = i) ?f (ev_artifacts db)"
      and chunks: "ev_chunks ?db = sql_delete (\<lambda>c. ck_artifact c = i) (ev_chunks db) @ chunk_rows ?b"
      and fts: "ev_fts ?db = sql_delete (\<lambda>f. ft_artifact f = i) (ev_fts db) @ map fts_of (chunk_rows ?b)"
      using Some False
      by (simp_all add: update_artifact_def Let_def insert_chunks_def drop_chunks_def drop_embeddings_def)
    have "map ar_id (ev_artifacts ?db) = map ar_id (ev_artifacts db)" unfolding arts by (rule map_sql_update) simp
    moreover have "set (ev_artifacts ?db) = insert ?b {x \<in> set (ev_artifacts db). ar_id x \<noteq> i}"
      unfolding arts using set_sql_update_one [OF ids a(1,2), of ?f] by (simp only: b(2))
    ultimately show ?thesis using ids by (intro evidence_inv_replace [OF inv b(1) _ _ chunks fts]) simp_all
  qed (use inv Some in \<open>simp add: update_artifact_def\<close>)
qed (simp add: update_artifact_def)

lemma evidence_inv_delete: "evidence_inv db \<Longrightarrow> evidence_inv (snd (delete_artifact i tenant db))"
proof -
  assume inv: "evidence_inv db"
  have "filter (\<lambda>c. ck_artifact c = ar_id x) (sql_delete (\<lambda>c. ck_artifact c = i) (ev_chunks db)) = chunk_rows x"
    if "x \<in> set (ev_artifacts db)" "ar_id x \<noteq> i" for x
    using inv that by (simp add: filter_delete evidence_inv_def)
  moreover have "\<forall>c \<in> set (sql_delete (\<lambda>c. ck_artifact c = i) (ev_chunks db)).
      ck_artifact c \<in> set (map ar_id (sql_delete (\<lambda>x. ar_id x = i) (ev_artifacts db)))"
    using inv by (fastforce simp: evidence_inv_def sql_simps)
  ultimately show ?thesis using inv
    by (auto simp: delete_artifact_def drop_chunks_def drop_embeddings_def Let_def evidence_inv_def fts_delete sql_simps
        distinct_sql_delete split: option.split)
qed

lemma evidence_inv_bind: "evidence_inv db \<Longrightarrow> evidence_inv (bind_artifacts b db)"
proof -
  assume inv: "evidence_inv db"
  have ids: "map ar_id (ev_artifacts (bind_artifacts b db)) = map ar_id (ev_artifacts db)"
    by (simp add: bind_artifacts_def Let_def map_sql_update)
  have rows: "\<exists>x \<in> set (ev_artifacts db). ar_id x = ar_id a \<and> chunk_rows x = chunk_rows a"
    if "a \<in> set (ev_artifacts (bind_artifacts b db))" for a
    using that by (fastforce simp: bind_artifacts_def Let_def set_sql_update intro: chunk_rows_cong)
  show ?thesis using inv rows unfolding evidence_inv_def ids by (fastforce simp: bind_artifacts_def Let_def)
qed

interpretation evidence: invariant_machine "evidence_step digest" evidence_inv
proof
  fix s e assume inv: "evidence_inv s"
  show "evidence_inv (evidence_step digest e s)"
    using inv evidence_inv_add evidence_inv_update evidence_inv_delete evidence_inv_bind
    by (cases e) (auto simp: save_embeddings_def intro: evidence_inv_cong)
qed

text \<open>C40. Whatever artifacts were added, edited, deleted or bound to a connection, the full-text index is the text of
  the library: for every artifact its rows are the chunks of its present title and text, in order, at least one; every
  block of that text stands whole in one of them; and no row belongs to an artifact that is gone.\<close>

theorem index_follows_the_library:
  "let db = run_ops (evidence_step digest) empty_evidence es in
    (\<forall>a \<in> set (ev_artifacts db). filter (\<lambda>f. ft_artifact f = ar_id a) (ev_fts db) = map fts_of (chunk_rows a) \<and>
       chunk_rows a \<noteq> [] \<and> (\<forall>b \<in> set (text_blocks (ar_content a)). \<exists>c \<in> set (chunk_rows a). contains b (ck_content c))) \<and>
    (\<forall>f \<in> set (ev_fts db). ft_artifact f \<in> ar_id ` set (ev_artifacts db))"
proof -
  let ?db = "run_ops (evidence_step digest) empty_evidence es"
  have "evidence_inv empty_evidence" by (simp add: evidence_inv_def empty_evidence_def)
  then have inv: "evidence_inv ?db" by (rule evidence.inv_run)
  have fts: "filter (\<lambda>f. ft_artifact f = i) (map fts_of cs) = map fts_of (filter (\<lambda>c. ck_artifact c = i) cs)" for i cs
    by (induction cs) (auto simp: fts_of_def)
  have held: "\<exists>c \<in> set (chunk_rows a). contains b (ck_content c)" if b: "b \<in> set (text_blocks (ar_content a))" for a b
  proof -
    obtain c where "c \<in> set (chunks_of (ar_content a))" "contains b c" using chunks_hold_blocks [OF b] by blast
    moreover have "c \<in> snd ` set (enumerate 0 (chunks_of (ar_content a)))"
      using calculation(1) by (metis list.set_map map_snd_enumerate)
    ultimately show ?thesis by (force simp: chunk_rows_def)
  qed
  have some: "chunk_rows a \<noteq> []" for a
    using chunks_nonempty [of "ar_content a"] length_enumerate [of 0 "chunks_of (ar_content a)"]
    by (auto simp: chunk_rows_def simp del: length_enumerate)
  show ?thesis using inv held some by (auto simp: Let_def evidence_inv_def fts fts_of_def)
qed

definition sample_artifact :: artifact_create where
  "sample_artifact = \<lparr>ac_title = ''Note'', ac_kind = ''reference'', ac_source = ''operator'', ac_tags = [],
     ac_content = ''First block.'' @ [newline, newline] @ ''Second block.'', ac_metadata = JObj [],
     ac_connection_alias = ''primary'', ac_connection_fingerprint = ''f1'', ac_tenant_scope_id = ''a''\<rparr>"

definition sample_library :: evidence_db where
  "sample_library = run_ops (evidence_step (\<lambda>s. ''0123456789abcdef'')) empty_evidence [AddArtifact ''t1'' sample_artifact]"

lemma index_follows_the_library_witness:
  "list_ex (\<lambda>f. contains ''Second block.'' (ft_content f)) (ev_fts sample_library)"
proof -
  let ?a = "hd (ev_artifacts sample_library)"
  have a: "?a \<in> set (ev_artifacts sample_library)" "''Second block.'' \<in> set (text_blocks (ar_content ?a))" by code_simp+
  have "filter (\<lambda>f. ft_artifact f = ar_id ?a) (ev_fts sample_library) = map fts_of (chunk_rows ?a)"
    "\<exists>c \<in> set (chunk_rows ?a). contains ''Second block.'' (ck_content c)"
    using index_follows_the_library [of "\<lambda>s. ''0123456789abcdef''" "[AddArtifact ''t1'' sample_artifact]", folded sample_library_def] a
    by (simp_all add: Let_def)
  moreover have "set (filter (\<lambda>f. ft_artifact f = ar_id ?a) (ev_fts sample_library)) \<subseteq> set (ev_fts sample_library)" by simp
  ultimately show ?thesis by (force simp: list_ex_iff fts_of_def)
qed

text \<open>\<open>add\<close> of a text whose id is already there replaces its chunks and keeps their vectors: when the artifact had been
  edited in between, the vectors computed for the edited text now stand for the first one, and \<open>pending_embeddings\<close>
  does not ask for new ones.\<close>

lemma readded_chunk_is_not_pending:
  assumes "c \<in> set (chunk_rows (fst (add_artifact digest now v db)))" "embedded profile db c"
  shows "let db' = snd (add_artifact digest now v db) in c \<in> set (ev_chunks db') \<and> ev_embeddings db' = ev_embeddings db \<and>
    (ck_id c, ck_content c) \<notin> set (pending_embeddings profile limit tenant alias fingerprint db')"
proof -
  let ?db = "snd (add_artifact digest now v db)"
  have same: "ev_embeddings ?db = ev_embeddings db"
    by (simp add: add_artifact_def Let_def insert_chunks_def drop_chunks_def)
  have "c \<in> set (ev_chunks ?db)" using assms(1) by (simp add: add_artifact_def Let_def insert_chunks_def)
  moreover have "\<not> embedded profile ?db d" if "(ck_id d, x) \<in> set (pending_embeddings profile limit tenant alias fingerprint ?db)" for d x
    using that by (auto simp: pending_embeddings_def embedded_def dest!: set_mp [OF sql_limit_subset])
  ultimately show ?thesis using same assms(2) by (auto simp: Let_def embedded_def)
qed

end
