(* ===== verification/Json_Parse.thy ===== *)
theory Json_Parse
  imports Python_Values
begin

text \<open>
  The other JSON texts of the program and the reader of all of them: \<open>json.dumps\<close> with \<open>ensure_ascii=False\<close> (the
  canonical text of detections and signed manifests), with \<open>indent=2\<close> (exported files), and \<open>json.loads\<close>. Both
  texts are instances of one writer; \<open>loads_writes\<close> says that the reader gives back what the writer wrote.

  A \<open>\u\<close> escape above the code points of the model is not read, nor are the three words \<open>NaN\<close>, \<open>Infinity\<close> and
  \<open>-Infinity\<close>, which \<open>json.loads\<close> accepts as floats.
\<close>


section \<open>Writing\<close>

definition raw_char :: "char \<Rightarrow> string" where
  "raw_char c = (if 127 \<le> code c then [c] else esc_char c)"

definition quote_raw :: "string \<Rightarrow> string" where
  "quote_raw s = CHR 0x22 # concat (map raw_char s) @ [CHR 0x22]"

text \<open>\<open>q\<close> quotes a string, \<open>nl n\<close> opens a line at level \<open>n\<close>, \<open>colon\<close> follows a key.\<close>

fun writes :: "(string \<Rightarrow> string) \<Rightarrow> (nat \<Rightarrow> string) \<Rightarrow> string \<Rightarrow> nat \<Rightarrow> json \<Rightarrow> string" where
  "writes q nl colon n (JArr xs) = (if xs = [] then ''[]''
     else ''['' @ nl (Suc n) @ join_with ('','' @ nl (Suc n)) (map (writes q nl colon (Suc n)) xs) @ nl n @ '']'')"
| "writes q nl colon n (JObj kvs) = (if kvs = [] then ''{}''
     else ''{'' @ nl (Suc n) @ join_with ('','' @ nl (Suc n))
       (map (\<lambda>(k, v). q k @ colon @ writes q nl colon (Suc n) v) kvs) @ nl n @ ''}'')"
| "writes q nl colon n (JStr s) = q s"
| "writes q nl colon n v = enc v"

text \<open>\<open>json.dumps(value, sort_keys=True, separators=(",", ":"), ensure_ascii=False)\<close>.\<close>

definition canonical_text :: "json \<Rightarrow> string" where
  "canonical_text v = writes quote_raw (\<lambda>n. []) '':'' 0 (json_norm v)"

text \<open>\<open>json.dumps(value, indent=2)\<close>; with \<open>sort_keys\<close> the value is normalised first.\<close>

definition indented :: "nat \<Rightarrow> string" where
  "indented n = newline # replicate (2 * n) CHR '' ''"

definition pretty :: "json \<Rightarrow> string" where
  "pretty v = writes quote indented '': '' 0 v"


section \<open>Reading\<close>

definition json_space :: "char \<Rightarrow> bool" where
  "json_space c = (c = CHR '' '' \<or> c = CHR 0x09 \<or> c = CHR 0x0A \<or> c = CHR 0x0D)"

definition skip_space :: "string \<Rightarrow> string" where
  "skip_space s = dropWhile json_space s"

definition hex_char :: "char \<Rightarrow> bool" where
  "hex_char c = (let n = code c in (48 \<le> n \<and> n \<le> 57) \<or> (65 \<le> n \<and> n \<le> 70) \<or> (97 \<le> n \<and> n \<le> 102))"

definition hex_nat :: "char \<Rightarrow> nat" where
  "hex_nat c = (let n = code c in if n \<le> 57 then n - 48 else if n \<le> 70 then n - 55 else n - 87)"

definition simple_escape :: "char \<Rightarrow> char option" where
  "simple_escape c = map_of [(CHR 0x22, CHR 0x22), (CHR 0x5C, CHR 0x5C), (CHR ''/'', CHR ''/''), (CHR ''b'', CHR 0x08),
     (CHR ''f'', CHR 0x0C), (CHR ''n'', CHR 0x0A), (CHR ''r'', CHR 0x0D), (CHR ''t'', CHR 0x09)] c"

definition prefixed :: "char \<Rightarrow> (string \<times> string) option \<Rightarrow> (string \<times> string) option" where
  "prefixed c r = (case r of None \<Rightarrow> None | Some (s, rest) \<Rightarrow> Some (c # s, rest))"

text \<open>One character of a string: the closing quote is \<open>None\<close>.\<close>

definition next_char :: "string \<Rightarrow> (char option \<times> string) option" where
  "next_char s = (case s of [] \<Rightarrow> None | c # cs \<Rightarrow>
     if c = CHR 0x22 then Some (None, cs)
     else if c = CHR 0x5C then
       (case cs of [] \<Rightarrow> None | d # ds \<Rightarrow>
          if d \<noteq> CHR ''u'' then map_option (\<lambda>e. (Some e, ds)) (simple_escape d)
          else let hs = take 4 ds; n = foldl (\<lambda>a h. 16 * a + hex_nat h) 0 hs in
            if length hs = 4 \<and> list_all hex_char hs \<and> n < 256 then Some (Some (char_of n), drop 4 ds) else None)
     else if code c < 32 then None else Some (Some c, cs))"

fun string_body :: "nat \<Rightarrow> string \<Rightarrow> (string \<times> string) option" where
  "string_body 0 s = None"
| "string_body (Suc n) s = (case next_char s of None \<Rightarrow> None
     | Some (None, rest) \<Rightarrow> Some ([], rest)
     | Some (Some c, rest) \<Rightarrow> prefixed c (string_body n rest))"

text \<open>The longest number at the start of a text: sign, whole part, fraction and exponent.\<close>

definition whole_part :: "string \<Rightarrow> string" where
  "whole_part s = (if s \<noteq> [] \<and> hd s = CHR ''0'' then ''0'' else takeWhile is_digit s)"

definition fraction_part :: "string \<Rightarrow> string" where
  "fraction_part s = (case s of [] \<Rightarrow> [] | c # cs \<Rightarrow>
     if c = CHR ''.'' \<and> takeWhile is_digit cs \<noteq> [] then c # takeWhile is_digit cs else [])"

definition exponent_part :: "string \<Rightarrow> string" where
  "exponent_part s = (case s of [] \<Rightarrow> [] | c # cs \<Rightarrow>
     if c \<noteq> CHR ''e'' \<and> c \<noteq> CHR ''E'' then []
     else let sign = (if cs \<noteq> [] \<and> (hd cs = CHR ''+'' \<or> hd cs = CHR ''-'') then [hd cs] else []);
              ds = takeWhile is_digit (drop (length sign) cs)
       in if ds = [] then [] else c # sign @ ds)"

definition number_at :: "string \<Rightarrow> (json \<times> string) option" where
  "number_at s =
     (let sign = (if s \<noteq> [] \<and> hd s = CHR ''-'' then ''-'' else []); s1 = drop (length sign) s;
          whole = whole_part s1; s2 = drop (length whole) s1;
          frac = fraction_part s2; s3 = drop (length frac) s2;
          ex = exponent_part s3; s4 = drop (length ex) s3
      in if whole = [] then None
         else if frac = [] \<and> ex = []
         then Some (JInt (if sign = [] then int (digits_value whole) else - int (digits_value whole)), s4)
         else Some (JNum (sign @ whole @ frac @ ex), s4))"

definition literal_at :: "string \<Rightarrow> (json \<times> string) option" where
  "literal_at s =
     (if starts_with ''null'' s then Some (JNull, drop 4 s)
      else if starts_with ''true'' s then Some (JBool True, drop 4 s)
      else if starts_with ''false'' s then Some (JBool False, drop 5 s)
      else number_at s)"

fun value_at :: "nat \<Rightarrow> string \<Rightarrow> (json \<times> string) option"
  and items_at :: "nat \<Rightarrow> string \<Rightarrow> (json list \<times> string) option"
  and members_at :: "nat \<Rightarrow> string \<Rightarrow> ((string \<times> json) list \<times> string) option" where
  "value_at 0 s = None"
| "value_at (Suc n) s = (case s of [] \<Rightarrow> None | c # cs \<Rightarrow>
     if c = CHR 0x22 then map_option (\<lambda>(t, r). (JStr t, r)) (string_body (length s) cs)
     else if c = CHR ''['' then
       (let t = skip_space cs in if starts_with '']'' t then Some (JArr [], tl t)
        else map_option (\<lambda>(xs, r). (JArr xs, r)) (items_at n t))
     else if c = CHR ''{'' then
       (let t = skip_space cs in if starts_with ''}'' t then Some (JObj [], tl t)
        else map_option (\<lambda>(kvs, r). (JObj (dict_of kvs), r)) (members_at n t))
     else literal_at s)"
| "items_at 0 s = None"
| "items_at (Suc n) s = (case value_at n s of None \<Rightarrow> None | Some (v, r) \<Rightarrow>
     let t = skip_space r in
     if starts_with '']'' t then Some ([v], tl t)
     else if starts_with '','' t then map_option (\<lambda>(xs, r'). (v # xs, r')) (items_at n (skip_space (tl t)))
     else None)"
| "members_at 0 s = None"
| "members_at (Suc n) s = (if \<not> starts_with [CHR 0x22] s then None
     else case string_body (length s) (tl s) of None \<Rightarrow> None | Some (k, r) \<Rightarrow>
       let t = skip_space r in
       if \<not> starts_with '':'' t then None
       else (case value_at n (skip_space (tl t)) of None \<Rightarrow> None | Some (v, r') \<Rightarrow>
         let t' = skip_space r' in
         if starts_with ''}'' t' then Some ([(k, v)], tl t')
         else if starts_with '','' t' then
           map_option (\<lambda>(kvs, r''). ((k, v) # kvs, r'')) (members_at n (skip_space (tl t')))
         else None))"

text \<open>\<open>json.loads\<close>, \<open>None\<close> where it raises \<open>JSONDecodeError\<close>. The text is longer than the values in it are many.\<close>

definition loads :: "string \<Rightarrow> json option" where
  "loads s = (case value_at (2 * length s + 2) (skip_space s) of None \<Rightarrow> None
     | Some (v, r) \<Rightarrow> if skip_space r = [] then Some v else None)"


section \<open>What is written is read back\<close>

text \<open>A value that Python holds: a float is its literal, and no key of a dictionary occurs twice.\<close>

fun json_ok :: "json \<Rightarrow> bool" where
  "json_ok (JNum t) = (number_at t = Some (JNum t, []))"
| "json_ok (JArr xs) = list_all json_ok xs"
| "json_ok (JObj kvs) = (distinct (map fst kvs) \<and> list_all (\<lambda>(k, v). json_ok v) kvs)"
| "json_ok v = True"

subsection \<open>White space and strings\<close>

lemma skip_space_append: "list_all json_space ws \<Longrightarrow> skip_space (ws @ s) = skip_space s"
  by (simp add: skip_space_def list_all_iff)

lemma skip_space_id: "s = [] \<or> \<not> json_space (hd s) \<Longrightarrow> skip_space s = s"
  by (cases s) (auto simp: skip_space_def)

lemma char_of_code:
  "char_of (10::nat) = CHR 0x0A" "char_of (13::nat) = CHR 0x0D" "char_of (9::nat) = CHR 0x09"
  "char_of (12::nat) = CHR 0x0C" "char_of (8::nat) = CHR 0x08"
  by code_simp+

lemma next_char_esc: "next_char (esc_char c @ x) = Some (Some c, x)"
proof -
  let ?n = "code c"
  consider "?n \<in> {34, 92, 10, 13, 9, 12, 8}"
    | "?n \<notin> {34, 92, 10, 13, 9, 12, 8}" "32 \<le> ?n" "?n \<le> 126"
    | "?n \<notin> {34, 92, 10, 13, 9, 12, 8}" "\<not> (32 \<le> ?n \<and> ?n \<le> 126)"
    by blast
  then show ?thesis
  proof cases
    case 1
    then have "c \<in> char_of ` {34, 92, 10, 13, 9, 12, 8 :: nat}" by (metis char_by_code imageI)
    then show ?thesis by (auto simp: next_char_def simple_escape_def esc_char_def code_def char_of_lit char_of_code)
  next
    case 2
    then have "c \<noteq> CHR 0x22" "c \<noteq> CHR 0x5C" by auto
    with 2 show ?thesis by (simp add: next_char_def esc_char_def Let_def)
  next
    case 3
    let ?d = "?n div 16" and ?m = "?n mod 16"
    have lt: "?d < 16" "?m < 16" using code_less_256 [of c] by simp_all
    have hex: "hex_char (hex_digit k) \<and> hex_nat (hex_digit k) = k" if "k < 16" for k
      using that by (auto simp: hex_char_def hex_nat_def hex_digit_def Let_def)
    have zero: "hex_char CHR ''0''" "hex_nat CHR ''0'' = 0" by code_simp+
    have c: "char_of (16 * ?d + ?m) = c" "c \<noteq> CHR 0x22" "c \<noteq> CHR 0x5C" using 3 by (auto simp: code_def)
    with 3 hex [OF lt(1)] hex [OF lt(2)] zero lt code_less_256 [of c] show ?thesis
      by (simp add: next_char_def esc_char_def Let_def)
  qed
qed

lemma next_char_raw: "next_char (raw_char c @ x) = Some (Some c, x)"
proof (cases "127 \<le> code c")
  case True
  then have "c \<noteq> CHR 0x22" "c \<noteq> CHR 0x5C" by auto
  with True show ?thesis by (simp add: raw_char_def next_char_def)
qed (simp add: raw_char_def next_char_esc)

lemma string_body_reads:
  assumes "\<And>c x. next_char (w c @ x) = Some (Some c, x)"
  shows "length s < n \<Longrightarrow> string_body n (concat (map w s) @ CHR 0x22 # r) = Some (s, r)"
proof (induction s arbitrary: n)
  case Nil
  then obtain m where "n = Suc m" by (cases n) auto
  then show ?case by (simp add: next_char_def)
next
  case (Cons c s)
  then obtain m where "n = Suc m" by (cases n) auto
  with Cons assms [of c] show ?case by (simp add: prefixed_def)
qed

lemma length_concat_ge: "(\<And>c. w c \<noteq> []) \<Longrightarrow> length s \<le> length (concat (map w s))"
proof (induction s)
  case (Cons c s)
  then show ?case by (cases "w c") auto
qed simp


subsection \<open>Numbers\<close>

lemma closes_digits: "closes r \<Longrightarrow> takeWhile is_digit (s @ r) = takeWhile is_digit s"
proof (induction s)
  case Nil
  then show ?case by (cases r) (auto simp: closes_def num_char_def)
qed simp

lemma closes_hd: "closes r \<Longrightarrow> r \<noteq> [] \<Longrightarrow> \<not> is_digit (hd r) \<and> hd r \<notin> {CHR ''0'', CHR ''+'', CHR ''-'', CHR ''.'', CHR ''e'', CHR ''E''}"
proof -
  have "is_digit CHR ''0''" by code_simp
  then show "closes r \<Longrightarrow> r \<noteq> [] \<Longrightarrow> ?thesis" by (cases r) (auto simp: closes_def num_char_def)
qed

lemma number_parts_append:
  assumes r: "closes r"
  shows "whole_part (x @ r) = whole_part x" "fraction_part (x @ r) = fraction_part x"
    "exponent_part (x @ r) = exponent_part x"
proof -
  show "whole_part (x @ r) = whole_part x"
    using closes_hd [OF r] closes_digits [OF r, of x] by (cases x; cases r) (auto simp: whole_part_def)
  show "fraction_part (x @ r) = fraction_part x"
    using closes_hd [OF r] closes_digits [OF r, of "tl x"] by (cases x; cases r) (auto simp: fraction_part_def)
  show "exponent_part (x @ r) = exponent_part x"
  proof (cases x)
    case Nil
    then show ?thesis using closes_hd [OF r] by (cases r) (auto simp: exponent_part_def)
  next
    case (Cons c cs)
    show ?thesis
    proof (cases cs)
      case Nil
      then show ?thesis using closes_hd [OF r] closes_digits [OF r, of "[]"] Cons
        by (cases r) (auto simp: exponent_part_def)
    next
      case (Cons d ds)
      have "takeWhile is_digit (d # ds @ r) = takeWhile is_digit (d # ds)" using closes_digits [OF r, of "d # ds"] by simp
      then show ?thesis using Cons \<open>x = c # cs\<close> closes_digits [OF r, of ds]
        by (simp add: exponent_part_def Let_def del: takeWhile.simps)
    qed
  qed
qed

lemma number_parts_length:
  "length (whole_part x) \<le> length x" "length (fraction_part x) \<le> length x" "length (exponent_part x) \<le> length x"
proof -
  show "length (whole_part x) \<le> length x" by (cases x) (auto simp: whole_part_def length_takeWhile_le)
  show "length (fraction_part x) \<le> length x" by (cases x) (auto simp: fraction_part_def length_takeWhile_le)
  show "length (exponent_part x) \<le> length x"
  proof (cases x)
    case (Cons c cs)
    then show ?thesis using length_takeWhile_le [of is_digit cs] length_takeWhile_le [of is_digit "tl cs"]
      by (cases cs) (auto simp: exponent_part_def Let_def)
  qed (simp add: exponent_part_def)
qed

lemma number_at_append:
  assumes r: "closes r"
  shows "number_at (s @ r) = map_option (\<lambda>(v, x). (v, x @ r)) (number_at s)"
proof -
  define k where "k = (if s \<noteq> [] \<and> hd s = CHR ''-'' then ''-'' else [])"
  have k: "(if s @ r \<noteq> [] \<and> hd (s @ r) = CHR ''-'' then ''-'' else []) = k"
    using closes_hd [OF r] by (cases s; cases r) (auto simp: k_def)
  have kl: "length k \<le> length s" by (cases s) (auto simp: k_def)
  define s1 where "s1 = drop (length k) s"
  define s2 where "s2 = drop (length (whole_part s1)) s1"
  define s3 where "s3 = drop (length (fraction_part s2)) s2"
  have d1: "drop (length k) (s @ r) = s1 @ r" using kl by (simp add: s1_def)
  have d2: "drop (length (whole_part s1)) (s1 @ r) = s2 @ r" using number_parts_length(1) [of s1] by (simp add: s2_def)
  have d3: "drop (length (fraction_part s2)) (s2 @ r) = s3 @ r" using number_parts_length(2) [of s2] by (simp add: s3_def)
  have d4: "drop (length (exponent_part s3)) (s3 @ r) = drop (length (exponent_part s3)) s3 @ r"
    using number_parts_length(3) [of s3] by simp
  show ?thesis unfolding number_at_def
    by (simp only: k k_def [symmetric] Let_def d1 d2 d3 d4 number_parts_append [OF r] s1_def [symmetric] s2_def [symmetric] s3_def [symmetric]) simp
qed

lemma nat_text_zero: "hd (nat_text n) = CHR ''0'' \<longleftrightarrow> n = 0"
proof (induction n rule: nat_text.induct)
  case (1 n)
  show ?case
  proof (cases "n < 10")
    case True
    then have "code (char_of (48 + n)) = code CHR ''0'' \<longleftrightarrow> n = 0" by (simp add: code_def)
    then have "char_of (48 + n) = CHR ''0'' \<longleftrightarrow> n = 0" by (simp only: code_inj)
    with True show ?thesis by (simp add: nat_text.simps [of n])
  next
    case False
    then have "hd (nat_text n) = hd (nat_text (n div 10))" "n div 10 \<noteq> 0"
      using nat_text_digits [of "n div 10"] by (simp_all add: nat_text.simps [of n] div_eq_0_iff)
    with 1 False show ?thesis by simp
  qed
qed

lemma number_at_int: "number_at (int_text i) = Some (JInt i, [])"
proof -
  have dig: "takeWhile is_digit (nat_text n) = nat_text n" for n
    using nat_text_digits [of n] by (simp add: takeWhile_eq_all_conv list_all_iff)
  have zero: "nat_text 0 = ''0''" by code_simp
  have whole: "whole_part (nat_text n) = nat_text n" for n
    using nat_text_zero [of n] dig [of n] zero by (auto simp: whole_part_def)
  have minus: "hd (nat_text n) \<noteq> CHR ''-''" for n
    using nat_text_digits [of n] digit_not_special by (cases "nat_text n") auto
  show ?thesis using nat_text_digits minus
    by (auto simp: number_at_def int_text_def whole fraction_part_def exponent_part_def digits_value_nat_text Let_def)
qed

lemma is_digit_lits: "is_digit CHR ''0''" "\<not> is_digit CHR ''n''" "\<not> is_digit CHR ''t''" "\<not> is_digit CHR ''f''" "\<not> is_digit CHR ''N''"
  "\<not> is_digit CHR ''I''" "\<not> is_digit CHR ''-''" "\<not> is_digit CHR 0x22" "\<not> is_digit CHR ''[''" "\<not> is_digit CHR ''{''"
  "\<not> is_digit CHR '']''" "\<not> is_digit CHR ''}''" "\<not> is_digit CHR '',''" "\<not> is_digit CHR '' ''" "\<not> is_digit CHR 0x09"
  "\<not> is_digit CHR 0x0A" "\<not> is_digit CHR 0x0D"
  by code_simp+

lemma number_hd: "number_at t = Some x \<Longrightarrow> t \<noteq> [] \<and> (is_digit (hd t) \<or> hd t = CHR ''-'' \<and> tl t \<noteq> [] \<and> is_digit (hd (tl t)))"
proof -
  assume n: "number_at t = Some x"
  have w: "whole_part s \<noteq> [] \<Longrightarrow> s \<noteq> [] \<and> is_digit (hd s)" for s
    using is_digit_lits(1) by (cases s) (auto simp: whole_part_def split: if_splits)
  show ?thesis
  proof (cases "t \<noteq> [] \<and> hd t = CHR ''-''")
    case True
    then obtain s where "t = CHR ''-'' # s" by (cases t) auto
    with n w [of s] show ?thesis by (auto simp: number_at_def Let_def split: if_splits)
  next
    case False
    with n w [of t] show ?thesis by (auto simp: number_at_def Let_def split: if_splits)
  qed
qed

lemma literal_number:
  assumes "number_at t = Some (v, [])" "closes r"
  shows "literal_at (t @ r) = Some (v, r)"
proof -
  obtain c cs where t: "t = c # cs" using number_hd [OF assms(1)] by (cases t) auto
  have "\<not> starts_with p (t @ r)" if "p \<in> {''null'', ''true'', ''false''}" for p
    using that number_hd [OF assms(1)] is_digit_lits by (cases cs) (auto simp: t starts_with_def)
  then show ?thesis using number_at_append [OF assms(2), of t] assms(1) by (simp add: literal_at_def)
qed


subsection \<open>Values\<close>

text \<open>What a writer needs for its texts to be read: it escapes each character recoverably and adds white space only.\<close>

locale json_layout =
  fixes w :: "char \<Rightarrow> string" and nl :: "nat \<Rightarrow> string" and colon :: string
  assumes reads_char: "next_char (w c @ x) = Some (Some c, x)"
    and nl_space: "list_all json_space (nl n)"
    and colon_space: "starts_with '':'' colon" "list_all json_space (tl colon)"
begin

abbreviation "q s \<equiv> CHR 0x22 # concat (map w s) @ [CHR 0x22]"

abbreviation "text \<equiv> writes q nl colon"

lemma char_nonempty: "w c \<noteq> []"
  using reads_char [of c "[]"] by (auto simp: next_char_def)

lemma read_string: "length (q s) \<le> n \<Longrightarrow> string_body n (concat (map w s) @ CHR 0x22 # r) = Some (s, r)"
  using string_body_reads [of w s n r] reads_char length_concat_ge [of w s] char_nonempty by auto

lemma skip_nl: "skip_space (nl n @ s) = skip_space s"
  using nl_space by (rule skip_space_append)

text \<open>The first character of a written value.\<close>

lemma text_hd:
  "json_ok v \<Longrightarrow> \<exists>c cs. text n v = c # cs \<and> \<not> json_space c \<and> c \<notin> {CHR '']'', CHR ''}''}"
proof (cases v)
  case (JInt i)
  then show ?thesis using number_hd [OF number_at_int [of i]] is_digit_lits
    by (cases "int_text i") (auto simp: json_space_def)
next
  case (JNum t)
  assume "json_ok v"
  with JNum have "number_at t = Some (JNum t, [])" by simp
  then show ?thesis using JNum number_hd [of t] is_digit_lits by (cases t) (auto simp: json_space_def)
qed (auto simp: json_space_def)

lemma skip_text: "json_ok v \<Longrightarrow> skip_space (text n v @ r) = text n v @ r"
  using text_hd [of v n] by (intro skip_space_id) auto

lemma closes_nl: "\<not> num_char c \<Longrightarrow> closes (nl n @ c # r)"
  using nl_space [of n] is_digit_lits by (cases "nl n") (auto simp: closes_def num_char_def json_space_def)


definition reads_back :: "json \<Rightarrow> bool" where
  "reads_back v = (\<forall>n r fuel. json_ok v \<longrightarrow> closes r \<longrightarrow> length (text n v) \<le> fuel \<longrightarrow> value_at fuel (text n v @ r) = Some (v, r))"

lemma not_num: "\<not> num_char CHR '',''" "\<not> num_char CHR '']''" "\<not> num_char CHR ''}''"
  using is_digit_lits by (auto simp: num_char_def)

lemma not_space: "\<not> json_space CHR '',''" "\<not> json_space CHR '']''" "\<not> json_space CHR ''}''" "\<not> json_space CHR '':''"
    "\<not> json_space CHR 0x22"
  by (auto simp: json_space_def)

lemma read_items:
  "\<forall>x \<in> set xs. reads_back x \<Longrightarrow> xs \<noteq> [] \<Longrightarrow> list_all json_ok xs \<Longrightarrow>
    length (join_with ('','' @ nl n) (map (text n) xs)) < fuel \<Longrightarrow>
    items_at fuel (join_with ('','' @ nl n) (map (text n) xs) @ nl m @ CHR '']'' # r) = Some (xs, r)"
proof (induction xs arbitrary: fuel)
  case (Cons x xs)
  then obtain f where f: "fuel = Suc f" by (cases fuel) auto
  show ?case
  proof (cases xs)
    case Nil
    have "value_at f (text n x @ nl m @ CHR '']'' # r) = Some (x, nl m @ CHR '']'' # r)"
      using Cons.prems closes_nl not_num by (simp add: reads_back_def f Nil)
    then show ?thesis using not_space by (simp add: f Nil skip_nl skip_space_id starts_with_def)
  next
    case (Cons y ys)
    let ?rest = "join_with ('','' @ nl n) (map (text n) xs) @ nl m @ CHR '']'' # r"
    have all: "join_with ('','' @ nl n) (map (text n) (x # xs)) @ nl m @ CHR '']'' # r = text n x @ CHR '','' # nl n @ ?rest"
      by (simp add: Cons)
    have "closes (CHR '','' # nl n @ ?rest)" using not_num by (simp add: closes_def)
    then have v: "value_at f (text n x @ CHR '','' # nl n @ ?rest) = Some (x, CHR '','' # nl n @ ?rest)"
      using Cons.prems by (simp add: reads_back_def f Cons)
    have "skip_space ?rest = ?rest"
      using Cons.prems(3) skip_text [of y n] by (simp add: Cons) (cases ys; simp)
    moreover have "items_at f ?rest = Some (xs, r)"
      using Cons.prems by (intro Cons.IH) (auto simp: f Cons)
    ultimately show ?thesis using not_space
      by (simp only: all f items_at.simps v) (simp add: skip_nl skip_space_id starts_with_def)
  qed
qed simp


abbreviation "member n \<equiv> \<lambda>(k, v). q k @ colon @ text n v"

lemma read_member:
  assumes "reads_back v" "json_ok v" "closes r" "length (member n (k, v)) \<le> f"
  shows "members_at (Suc f) (member n (k, v) @ r) = (let t' = skip_space r in
     if starts_with ''}'' t' then Some ([(k, v)], tl t')
     else if starts_with '','' t' then map_option (\<lambda>(kvs, r''). ((k, v) # kvs, r'')) (members_at f (skip_space (tl t')))
     else None)"
proof -
  obtain ws where ws: "colon = CHR '':'' # ws" "list_all json_space ws"
    using colon_space by (cases colon) (auto simp: starts_with_def)
  have s: "string_body (length (member n (k, v) @ r)) (concat (map w k) @ CHR 0x22 # (colon @ text n v @ r)) = Some (k, colon @ text n v @ r)"
    by (rule read_string) simp
  have v: "value_at f (text n v @ r) = Some (v, r)" using assms by (simp add: reads_back_def)
  have c: "skip_space (colon @ text n v @ r) = colon @ text n v @ r" "starts_with '':'' (colon @ text n v @ r)"
    "skip_space (tl (colon @ text n v @ r)) = text n v @ r"
    using skip_space_append [OF ws(2)] skip_text [OF assms(2)] not_space
    by (simp_all add: ws(1) skip_space_id starts_with_def)
  have quote: "starts_with [CHR 0x22] (CHR 0x22 # x)" for x by (simp add: starts_with_def)
  show ?thesis using s v
    by (simp add: c quote Let_def del: string_body.simps value_at.simps)
qed

lemma read_members:
  "\<forall>x \<in> snd ` set kvs. reads_back x \<Longrightarrow> kvs \<noteq> [] \<Longrightarrow> list_all (\<lambda>(k, v). json_ok v) kvs \<Longrightarrow>
    length (join_with ('','' @ nl n) (map (member n) kvs)) < fuel \<Longrightarrow>
    members_at fuel (join_with ('','' @ nl n) (map (member n) kvs) @ nl m @ CHR ''}'' # r) = Some (kvs, r)"
proof (induction kvs arbitrary: fuel)
  case (Cons kv kvs)
  obtain k v where kv: "kv = (k, v)" by (cases kv)
  from Cons obtain f where f: "fuel = Suc f" by (cases fuel) auto
  have v: "reads_back v" "json_ok v" using Cons.prems by (auto simp: kv)
  show ?case
  proof (cases kvs)
    case Nil
    have "members_at (Suc f) (member n (k, v) @ nl m @ CHR ''}'' # r) = Some ([(k, v)], r)"
      using Cons.prems(4) v closes_nl not_num not_space
      by (subst read_member) (simp_all add: f kv Nil skip_nl skip_space_id starts_with_def)
    then show ?thesis by (simp add: f kv Nil)
  next
    case (Cons y ys)
    let ?rest = "join_with ('','' @ nl n) (map (member n) kvs) @ nl m @ CHR ''}'' # r"
    have all: "join_with ('','' @ nl n) (map (member n) (kv # kvs)) @ nl m @ CHR ''}'' # r = member n (k, v) @ CHR '','' # nl n @ ?rest"
      by (simp add: Cons kv)
    have "skip_space ?rest = ?rest" using not_space
      by (intro skip_space_id) (cases y; cases ys; simp add: Cons)
    moreover have "members_at f ?rest = Some (kvs, r)"
      using Cons.prems by (intro Cons.IH) (auto simp: f kv Cons)
    moreover have "closes (CHR '','' # nl n @ ?rest)" using not_num by (simp add: closes_def)
    moreover have "length (member n (k, v)) \<le> f" using Cons.prems(4) by (simp add: f kv Cons)
    ultimately show ?thesis using v not_space unfolding f all
      by (subst read_member) (simp_all add: skip_nl skip_space_id starts_with_def kv)
  qed
qed simp

lemma value_at_number:
  assumes "number_at t = Some (v, [])" "closes r" "length t \<le> fuel"
  shows "value_at fuel (t @ r) = Some (v, r)"
proof -
  obtain c cs where t: "t = c # cs" "c \<notin> {CHR 0x22, CHR ''['', CHR ''{''}"
    using number_hd [OF assms(1)] is_digit_lits by (cases t) auto
  obtain f where f: "fuel = Suc f" using assms(3) t(1) by (cases fuel) auto
  have "value_at (Suc f) (t @ r) = literal_at (t @ r)" using t by simp
  then show ?thesis using literal_number [OF assms(1,2)] f by simp
qed

lemma reads_text: "reads_back v"
proof (induction v)
  case JNull
  then show ?case unfolding reads_back_def
  proof (intro allI impI)
    fix n r fuel assume "length (text n JNull) \<le> fuel"
    then show "value_at fuel (text n JNull @ r) = Some (JNull, r)" by (cases fuel) (simp_all add: literal_at_def starts_with_def)
  qed
next
  case (JBool b)
  then show ?case unfolding reads_back_def
  proof (intro allI impI)
    fix n r fuel assume "length (text n (JBool b)) \<le> fuel"
    then show "value_at fuel (text n (JBool b) @ r) = Some (JBool b, r)"
      by (cases fuel; cases b) (simp_all add: literal_at_def starts_with_def)
  qed
next
  case (JInt i)
  show ?case unfolding reads_back_def
  proof (intro allI impI)
    fix n r fuel assume "closes r" "length (text n (JInt i)) \<le> fuel"
    then show "value_at fuel (text n (JInt i) @ r) = Some (JInt i, r)"
      using value_at_number [OF number_at_int] by simp
  qed
next
  case (JNum t)
  show ?case unfolding reads_back_def
  proof (intro allI impI)
    fix n r fuel assume "json_ok (JNum t)" "closes r" "length (text n (JNum t)) \<le> fuel"
    then show "value_at fuel (text n (JNum t) @ r) = Some (JNum t, r)"
      using value_at_number [of t "JNum t" r] by simp
  qed
next
  case (JStr s)
  show ?case unfolding reads_back_def
  proof (intro allI impI)
    fix n r fuel assume "length (text n (JStr s)) \<le> fuel"
    then show "value_at fuel (text n (JStr s) @ r) = Some (JStr s, r)"
      using read_string [of s "length (text n (JStr s) @ r)" r] by (cases fuel) auto
  qed
next
  case (JArr xs)
  show ?case unfolding reads_back_def
  proof (intro allI impI)
    fix n r fuel assume *: "json_ok (JArr xs)" "length (text n (JArr xs)) \<le> fuel"
    then obtain f where f: "fuel = Suc f" by (cases fuel) (auto split: if_splits)
    show "value_at fuel (text n (JArr xs) @ r) = Some (JArr xs, r)"
    proof (cases xs)
      case Nil
      then show ?thesis using not_space by (simp add: f skip_space_id starts_with_def)
    next
      case (Cons x ys)
      let ?items = "join_with ('','' @ nl (Suc n)) (map (text (Suc n)) xs)"
      have "\<exists>c cs. ?items = c # cs \<and> \<not> json_space c \<and> c \<notin> {CHR '']'', CHR ''}''}"
        using text_hd [of x "Suc n"] *(1) by (cases ys) (auto simp: Cons)
      then have "skip_space (?items @ t) = ?items @ t" "\<not> starts_with '']'' (?items @ t)" for t
        by (auto intro: skip_space_id simp: starts_with_def)
      moreover have "items_at f (?items @ nl n @ CHR '']'' # r) = Some (xs, r)"
        using * JArr by (intro read_items) (auto simp: f Cons)
      ultimately show ?thesis by (simp add: f Cons skip_nl)
    qed
  qed
next
  case (JObj kvs)
  show ?case unfolding reads_back_def
  proof (intro allI impI)
    fix n r fuel assume *: "json_ok (JObj kvs)" "length (text n (JObj kvs)) \<le> fuel"
    then obtain f where f: "fuel = Suc f" by (cases fuel) (auto split: if_splits)
    show "value_at fuel (text n (JObj kvs) @ r) = Some (JObj kvs, r)"
    proof (cases kvs)
      case Nil
      then show ?thesis using not_space by (simp add: f skip_space_id starts_with_def)
    next
      case (Cons x ys)
      let ?items = "join_with ('','' @ nl (Suc n)) (map (member (Suc n)) kvs)"
      have "\<exists>cs. ?items = CHR 0x22 # cs" by (cases x; cases ys) (auto simp: Cons)
      then have "skip_space (?items @ t) = ?items @ t" "\<not> starts_with ''}'' (?items @ t)" for t
        using not_space by (auto intro: skip_space_id simp: starts_with_def)
      moreover have "members_at f (?items @ nl n @ CHR ''}'' # r) = Some (kvs, r)"
        using * JObj by (intro read_members) (fastforce simp: f Cons)+
      moreover have "dict_of kvs = kvs" using *(1) by (intro dict_of_id) simp
      ultimately show ?thesis by (simp add: f Cons skip_nl)
    qed
  qed
qed

lemma loads_text:
  assumes "json_ok v" "list_all json_space ws"
  shows "loads (text n v @ ws) = Some v"
proof -
  have r: "closes ws" "skip_space ws = []"
    using assms(2) is_digit_lits skip_space_append [OF assms(2), of "[]"]
    by (cases ws; auto simp: closes_def num_char_def json_space_def skip_space_def)+
  have "value_at (2 * length (text n v @ ws) + 2) (text n v @ ws) = Some (v, ws)"
    using reads_text [of v] assms(1) r(1) unfolding reads_back_def by (simp del: value_at.simps)
  then show ?thesis using skip_text [OF assms(1), of n ws] r(2) by (simp add: loads_def)
qed

end


subsection \<open>The two layouts\<close>

interpretation raw: json_layout raw_char "\<lambda>n. []" "'':''"
  by unfold_locales (simp_all add: next_char_raw starts_with_def)

interpretation pretty: json_layout esc_char indented "'': ''"
  by unfold_locales (simp_all add: next_char_esc starts_with_def indented_def newline_def json_space_def list_all_iff)

lemma distinct_map_sort_key: "distinct (map f (sort_key k xs)) = distinct (map f xs)"
  by (simp add: distinct_map)

lemma json_ok_norm: "json_ok v \<Longrightarrow> json_ok (json_norm v)"
proof (induction v)
  case (JObj kvs)
  have "map fst (map (\<lambda>(k, v). (k, json_norm v)) kvs) = map fst kvs" by (induction kvs) auto
  then have "distinct (map fst (sort_key fst (map (\<lambda>(k, v). (k, json_norm v)) kvs)))"
    using JObj.prems by (simp only: distinct_map_sort_key json_ok.simps)
  then show ?case using JObj by (fastforce simp: list_all_iff)
qed (auto simp: list_all_iff)

text \<open>What \<open>json.loads\<close> makes of a canonical text, of a line that holds one, and of an exported file.\<close>

lemma loads_canonical: "json_ok v \<Longrightarrow> list_all json_space ws \<Longrightarrow> loads (canonical_text v @ ws) = Some (json_norm v)"
  unfolding canonical_text_def quote_raw_def [abs_def] by (intro raw.loads_text json_ok_norm)

lemma loads_pretty: "json_ok v \<Longrightarrow> loads (pretty v) = Some v"
  using pretty.loads_text [of v "[]" 0] by (simp add: pretty_def quote_def [abs_def])

lemma canonical_text_inj:
  assumes "json_ok u" "json_ok v"
  shows "canonical_text u = canonical_text v \<longleftrightarrow> json_norm u = json_norm v"
proof
  assume "canonical_text u = canonical_text v"
  then show "json_norm u = json_norm v"
    using loads_canonical [OF assms(1), of "[]"] loads_canonical [OF assms(2), of "[]"] by (simp del: json_norm.simps)
qed (simp only: canonical_text_def)

end
