(* ===== verification/Case_Store.thy ===== *)
theory Case_Store
  imports Evidence_Store Json_Parse
begin

text \<open>
  Investigation cases and their timelines (\<open>cases/store.py\<close>). A case belongs to a tenant scope and every operation
  may be confined to one; the items of a case go with it (\<open>ON DELETE CASCADE\<close>). The clock, the fresh id and the time
  stamp of an export are parameters; an export is the list of the files it writes.
\<close>


section \<open>Rows\<close>

record case_row =
  cs_id :: string
  cs_title :: string
  cs_summary :: string
  cs_status :: string
  cs_severity :: string
  cs_owner :: string
  cs_tags :: "string list"
  cs_connection_alias :: string
  cs_connection_fingerprint :: string
  cs_tenant_scope_id :: string
  cs_created_at :: string
  cs_updated_at :: string

record case_item =
  ci_id :: string
  ci_case :: string
  ci_kind :: string
  ci_title :: string
  ci_content :: string
  ci_source :: string
  ci_confidence :: string
  ci_status :: string
  ci_occurred_at :: "string option"
  ci_metadata :: json
  ci_created_at :: string

record case_db =
  cb_cases :: "case_row list"
  cb_items :: "case_item list"
  cb_default :: "scope_binding option"

definition empty_cases :: case_db where
  "empty_cases = \<lparr>cb_cases = [], cb_items = [], cb_default = None\<rparr>"

record case_create =
  cc_title :: string
  cc_summary :: string
  cc_severity :: string
  cc_owner :: string
  cc_tags :: "string list"
  cc_connection_alias :: string
  cc_connection_fingerprint :: string
  cc_tenant_scope_id :: string

record case_update =
  cu_title :: "string option"
  cu_summary :: "string option"
  cu_status :: "string option"
  cu_severity :: "string option"
  cu_owner :: "string option"
  cu_tags :: "string list option"

record item_create =
  ni_kind :: string
  ni_title :: string
  ni_content :: string
  ni_source :: string
  ni_confidence :: string
  ni_status :: string
  ni_occurred_at :: "string option"
  ni_metadata :: json

text \<open>The bounds that \<open>CaseItemCreate\<close> checks.\<close>

definition item_create_ok :: "item_create \<Rightarrow> bool" where
  "item_create_ok v = (ni_title v \<noteq> [] \<and> length (ni_title v) \<le> 240 \<and> ni_content v \<noteq> []
     \<and> int (length (ni_content v)) \<le> 50000 \<and> length (ni_source v) \<le> 240)"

record item_update =
  ui_kind :: "string option"
  ui_title :: "string option"
  ui_content :: "string option"
  ui_source :: "string option"
  ui_confidence :: "string option"
  ui_status :: "string option"
  ui_occurred_at :: "string option"
  ui_metadata :: "json option"

text \<open>\<open>CaseRecord\<close>: the row, the number of its items, and the items of a single case.\<close>

record case_record =
  cr_case :: case_row
  cr_item_count :: nat
  cr_items :: "case_item list"


section \<open>Cases\<close>

definition bind_cases :: "scope_binding \<Rightarrow> case_db \<Rightarrow> case_db" where
  "bind_cases b db =
     (let bound = \<lparr>sb_alias = (if sb_alias b = [] then ''primary'' else sb_alias b), sb_fingerprint = sb_fingerprint b,
            sb_tenant = (if sb_tenant b = [] then ''workspace-primary'' else sb_tenant b)\<rparr>
      in db\<lparr>cb_default := Some bound, cb_cases := sql_update (\<lambda>c. cs_connection_fingerprint c = [])
           (\<lambda>c. c\<lparr>cs_connection_alias := sb_alias bound, cs_connection_fingerprint := sb_fingerprint bound,
              cs_tenant_scope_id := sb_tenant bound\<rparr>) (cb_cases db)\<rparr>)"

definition case_in :: "string option \<Rightarrow> case_row \<Rightarrow> bool" where
  "case_in tenant c = (case tenant of None \<Rightarrow> True | Some t \<Rightarrow> cs_tenant_scope_id c = t)"

definition items_of_case :: "string \<Rightarrow> case_db \<Rightarrow> case_item list" where
  "items_of_case i db = filter (\<lambda>x. ci_case x = i) (cb_items db)"

text \<open>\<open>ORDER BY COALESCE(occurred_at, created_at), created_at\<close>.\<close>

definition timeline :: "case_item list \<Rightarrow> case_item list" where
  "timeline items = sort_key (\<lambda>x. given_else (ci_occurred_at x) (ci_created_at x)) (sort_key ci_created_at items)"

definition get_case :: "string \<Rightarrow> string option \<Rightarrow> case_db \<Rightarrow> case_record option" where
  "get_case i tenant db = map_option (\<lambda>c. \<lparr>cr_case = c, cr_item_count = length (items_of_case i db),
     cr_items = timeline (items_of_case i db)\<rparr>) (sql_first (\<lambda>c. cs_id c = i \<and> case_in tenant c) (cb_cases db))"

definition list_cases :: "int \<Rightarrow> string option \<Rightarrow> case_db \<Rightarrow> case_record list" where
  "list_cases limit tenant db = map (\<lambda>c. \<lparr>cr_case = c, cr_item_count = length (items_of_case (cs_id c) db), cr_items = []\<rparr>)
     (sql_limit limit (text_order_desc cs_updated_at (filter (case_in tenant) (cb_cases db))))"

definition default_case :: "case_db \<Rightarrow> case_create \<Rightarrow> case_create" where
  "default_case db v = (case cb_default db of None \<Rightarrow> v | Some b \<Rightarrow>
     if cc_connection_fingerprint v \<noteq> [] then v
     else v\<lparr>cc_connection_alias := sb_alias b, cc_connection_fingerprint := sb_fingerprint b, cc_tenant_scope_id := sb_tenant b\<rparr>)"

definition create_case :: "string \<Rightarrow> string \<Rightarrow> case_create \<Rightarrow> case_db \<Rightarrow> (case_record \<times> case_db) result" where
  "create_case now i v0 db =
     (let v = default_case db v0; owner = strip (cc_owner v);
          row = \<lparr>cs_id = i, cs_title = strip (cc_title v), cs_summary = strip (cc_summary v), cs_status = ''open'',
            cs_severity = cc_severity v, cs_owner = (if owner = [] then ''Unassigned'' else owner),
            cs_tags = sort (remdups (cc_tags v)), cs_connection_alias = cc_connection_alias v,
            cs_connection_fingerprint = cc_connection_fingerprint v, cs_tenant_scope_id = cc_tenant_scope_id v,
            cs_created_at = now, cs_updated_at = now\<rparr>
      in if list_ex (\<lambda>c. cs_id c = i) (cb_cases db) then Inl (IntegrityError ''cases'')
         else let db1 = db\<lparr>cb_cases := cb_cases db @ [row]\<rparr> in
           case get_case i (Some (cc_tenant_scope_id v)) db1 of None \<Rightarrow> Inl AssertionError | Some r \<Rightarrow> Inr (r, db1))"

definition no_case_fields :: "case_update \<Rightarrow> bool" where
  "no_case_fields v = (cu_title v = None \<and> cu_summary v = None \<and> cu_status v = None \<and> cu_severity v = None
     \<and> cu_owner v = None \<and> cu_tags v = None)"

definition revised_case :: "string \<Rightarrow> case_update \<Rightarrow> case_row \<Rightarrow> case_row" where
  "revised_case now v c = c\<lparr>cs_title := given_else (cu_title v) (cs_title c), cs_summary := given_else (cu_summary v) (cs_summary c),
     cs_status := given_else (cu_status v) (cs_status c), cs_severity := given_else (cu_severity v) (cs_severity c),
     cs_owner := given_else (cu_owner v) (cs_owner c),
     cs_tags := (case cu_tags v of None \<Rightarrow> cs_tags c | Some ts \<Rightarrow> sort (remdups ts)), cs_updated_at := now\<rparr>"

definition update_case :: "string \<Rightarrow> string \<Rightarrow> case_update \<Rightarrow> string option \<Rightarrow> case_db \<Rightarrow> case_record option \<times> case_db" where
  "update_case now i v tenant db =
     (if no_case_fields v then (get_case i tenant db, db)
      else let mine = (\<lambda>c. cs_id c = i \<and> case_in tenant c);
               db1 = db\<lparr>cb_cases := sql_update mine (revised_case now v) (cb_cases db)\<rparr>
        in (if list_ex mine (cb_cases db) then get_case i tenant db1 else None, db1))"

definition delete_case :: "string \<Rightarrow> string option \<Rightarrow> case_db \<Rightarrow> bool \<times> case_db" where
  "delete_case i tenant db =
     (let mine = (\<lambda>c. cs_id c = i \<and> case_in tenant c) in
      if list_ex mine (cb_cases db)
      then (True, db\<lparr>cb_cases := sql_delete mine (cb_cases db), cb_items := sql_delete (\<lambda>x. ci_case x = i) (cb_items db)\<rparr>)
      else (False, db))"


section \<open>Items\<close>

definition touch_case :: "string \<Rightarrow> string \<Rightarrow> case_db \<Rightarrow> case_db" where
  "touch_case now i db = db\<lparr>cb_cases := sql_update (\<lambda>c. cs_id c = i) (\<lambda>c. c\<lparr>cs_updated_at := now\<rparr>) (cb_cases db)\<rparr>"

definition find_item :: "string \<Rightarrow> case_db \<Rightarrow> case_item option" where
  "find_item i db = sql_first (\<lambda>x. ci_id x = i) (cb_items db)"

definition add_item ::
  "string \<Rightarrow> string \<Rightarrow> string \<Rightarrow> item_create \<Rightarrow> string option \<Rightarrow> case_db \<Rightarrow> (case_item option \<times> case_db) result" where
  "add_item now fresh i v tenant db =
     (case get_case i tenant db of None \<Rightarrow> Inr (None, db)
      | Some _ \<Rightarrow>
         let source = strip (ni_source v);
             x = \<lparr>ci_id = fresh, ci_case = i, ci_kind = ni_kind v, ci_title = strip (ni_title v),
               ci_content = strip (ni_content v), ci_source = (if source = [] then ''analyst'' else source),
               ci_confidence = ni_confidence v, ci_status = ni_status v, ci_occurred_at = ni_occurred_at v,
               ci_metadata = ni_metadata v, ci_created_at = now\<rparr>
         in if list_ex (\<lambda>y. ci_id y = fresh) (cb_items db) then Inl (IntegrityError ''case_items'')
            else let db1 = touch_case now i (db\<lparr>cb_items := cb_items db @ [x]\<rparr>) in Inr (find_item fresh db1, db1))"

definition no_item_fields :: "item_update \<Rightarrow> bool" where
  "no_item_fields v = (ui_kind v = None \<and> ui_title v = None \<and> ui_content v = None \<and> ui_source v = None
     \<and> ui_confidence v = None \<and> ui_status v = None \<and> ui_occurred_at v = None \<and> ui_metadata v = None)"

definition revised_item :: "item_update \<Rightarrow> case_item \<Rightarrow> case_item" where
  "revised_item v x = x\<lparr>ci_kind := given_else (ui_kind v) (ci_kind x), ci_title := given_else (ui_title v) (ci_title x),
     ci_content := given_else (ui_content v) (ci_content x), ci_source := given_else (ui_source v) (ci_source x),
     ci_confidence := given_else (ui_confidence v) (ci_confidence x), ci_status := given_else (ui_status v) (ci_status x),
     ci_occurred_at := (case ui_occurred_at v of None \<Rightarrow> ci_occurred_at x | Some t \<Rightarrow> Some t),
     ci_metadata := given_else (ui_metadata v) (ci_metadata x)\<rparr>"

definition update_item ::
  "string \<Rightarrow> string \<Rightarrow> string \<Rightarrow> item_update \<Rightarrow> string option \<Rightarrow> case_db \<Rightarrow> case_item option \<times> case_db" where
  "update_item now i item v tenant db =
     (let mine = (\<lambda>x. ci_id x = item \<and> ci_case x = i) in
      case get_case i tenant db of None \<Rightarrow> (None, db)
      | Some _ \<Rightarrow>
         if no_item_fields v then (sql_first mine (cb_items db), db)
         else if \<not> list_ex mine (cb_items db) then (None, db)
         else let db1 = touch_case now i (db\<lparr>cb_items := sql_update mine (revised_item v) (cb_items db)\<rparr>)
           in (find_item item db1, db1))"

definition delete_item :: "string \<Rightarrow> string \<Rightarrow> string \<Rightarrow> string option \<Rightarrow> case_db \<Rightarrow> bool \<times> case_db" where
  "delete_item now i item tenant db =
     (let mine = (\<lambda>x. ci_id x = item \<and> ci_case x = i) in
      case get_case i tenant db of None \<Rightarrow> (False, db)
      | Some _ \<Rightarrow>
         if list_ex mine (cb_items db)
         then (True, touch_case now i (db\<lparr>cb_items := sql_delete mine (cb_items db)\<rparr>))
         else (False, db))"


section \<open>Export\<close>

definition quoted_line :: "string \<Rightarrow> string" where
  "quoted_line line = (if line = [] then ''>'' else ''> '' @ line)"

definition backquoted :: "string \<Rightarrow> string" where
  "backquoted s = ''`'' @ s @ ''`''"

definition item_section :: "case_item \<Rightarrow> string list" where
  "item_section x =
     (let stamp = (case ci_occurred_at x of None \<Rightarrow> ci_created_at x | Some t \<Rightarrow> if t = [] then ci_created_at x else t) in
      [''### '' @ stamp @ dot @ title_from False (ci_kind x) @ dot @ ci_title x, [],
       ''Source: '' @ ci_source x @ ''  '', ''Confidence: '' @ ci_confidence x @ ''  '', ''Status: '' @ ci_status x, [],
       join_with [newline] (map quoted_line (splitlines (ci_content x))), []])"

definition case_markdown :: "case_record \<Rightarrow> string" where
  "case_markdown r =
     (let c = cr_case r; tags = join_with '', '' (cs_tags c) in
      join_with [newline]
       ([''# '' @ cs_title c, [], ''- Case ID: '' @ backquoted (cs_id c), ''- Status: '' @ cs_status c,
         ''- Severity: '' @ cs_severity c, ''- Owner: '' @ cs_owner c, ''- Splunk connection: '' @ cs_connection_alias c,
         ''- Tenant scope: '' @ backquoted (cs_tenant_scope_id c),
         ''- Connection revision: '' @ backquoted (cs_connection_fingerprint c), ''- Updated: '' @ cs_updated_at c,
         ''- Tags: '' @ (if tags = [] then ''none'' else tags), [], ''## Executive summary'', [],
         (if cs_summary c = [] then ''No case summary has been recorded.'' else cs_summary c), [],
         ''## Investigation timeline'', []]
        @ concat (map item_section (cr_items r))
        @ [''## Handoff note'', [],
           ''This package preserves analyst-entered notes and SignalRoom evidence references. '' @
           ''Revalidate material findings in Splunk before taking action.'']))"

definition optional_text :: "string option \<Rightarrow> json" where
  "optional_text v = (case v of None \<Rightarrow> JNull | Some s \<Rightarrow> JStr s)"

definition item_json :: "case_item \<Rightarrow> json" where
  "item_json x = JObj [(''kind'', JStr (ci_kind x)), (''title'', JStr (ci_title x)), (''content'', JStr (ci_content x)),
     (''source'', JStr (ci_source x)), (''confidence'', JStr (ci_confidence x)), (''status'', JStr (ci_status x)),
     (''occurred_at'', optional_text (ci_occurred_at x)), (''metadata'', ci_metadata x), (''id'', JStr (ci_id x)),
     (''case_id'', JStr (ci_case x)), (''created_at'', JStr (ci_created_at x))]"

definition case_json :: "case_record \<Rightarrow> json" where
  "case_json r = (let c = cr_case r in JObj [(''id'', JStr (cs_id c)), (''title'', JStr (cs_title c)),
     (''summary'', JStr (cs_summary c)), (''status'', JStr (cs_status c)), (''severity'', JStr (cs_severity c)),
     (''owner'', JStr (cs_owner c)), (''tags'', JArr (map JStr (cs_tags c))), (''created_at'', JStr (cs_created_at c)),
     (''updated_at'', JStr (cs_updated_at c)), (''item_count'', JInt (int (cr_item_count r))),
     (''items'', JArr (map item_json (cr_items r))), (''connection_alias'', JStr (cs_connection_alias c)),
     (''connection_fingerprint'', JStr (cs_connection_fingerprint c)), (''tenant_scope_id'', JStr (cs_tenant_scope_id c))])"

definition export_case :: "string \<Rightarrow> string \<Rightarrow> string list \<Rightarrow> string option \<Rightarrow> case_db \<Rightarrow> (string \<times> string) list" where
  "export_case stamp i formats tenant db =
     (case get_case i tenant db of None \<Rightarrow> []
      | Some r \<Rightarrow>
         let stem = ''signalroom_case_'' @ take 8 (cs_id (cr_case r)) @ ''_'' @ stamp in
         (if List.member formats ''json'' then [(stem @ ''.json'', pretty (case_json r))] else [])
         @ (if List.member formats ''markdown'' then [(stem @ ''.md'', case_markdown r)] else []))"


section \<open>Isolation of the tenant scopes\<close>

datatype case_op =
    CreateCase string string case_create
  | UpdateCase string string case_update "string option"
  | DeleteCase string "string option"
  | AddItem string string string item_create "string option"
  | UpdateItem string string string item_update "string option"
  | DeleteItem string string string "string option"
  | BindCases scope_binding

fun case_step :: "case_op \<Rightarrow> case_db \<Rightarrow> case_db" where
  "case_step (CreateCase now i v) db = (case create_case now i v db of Inl e \<Rightarrow> db | Inr (r, db') \<Rightarrow> db')"
| "case_step (UpdateCase now i v tenant) db = snd (update_case now i v tenant db)"
| "case_step (DeleteCase i tenant) db = snd (delete_case i tenant db)"
| "case_step (AddItem now fresh i v tenant) db = (case add_item now fresh i v tenant db of Inl e \<Rightarrow> db | Inr (x, db') \<Rightarrow> db')"
| "case_step (UpdateItem now i item v tenant) db = snd (update_item now i item v tenant db)"
| "case_step (DeleteItem now i item tenant) db = snd (delete_item now i item tenant db)"
| "case_step (BindCases b) db = bind_cases b db"

text \<open>The scope that an operation is confined to.\<close>

fun op_scope :: "case_op \<Rightarrow> case_db \<Rightarrow> string option" where
  "op_scope (CreateCase now i v) db = Some (cc_tenant_scope_id (default_case db v))"
| "op_scope (UpdateCase now i v tenant) db = tenant"
| "op_scope (DeleteCase i tenant) db = tenant"
| "op_scope (AddItem now fresh i v tenant) db = tenant"
| "op_scope (UpdateItem now i item v tenant) db = tenant"
| "op_scope (DeleteItem now i item tenant) db = tenant"
| "op_scope (BindCases b) db = None"

definition known_case :: "case_db \<Rightarrow> string \<Rightarrow> bool" where
  "known_case db i = (i \<in> set (map cs_id (cb_cases db)))"

definition cases_inv :: "case_db \<Rightarrow> bool" where
  "cases_inv db = (distinct (map cs_id (cb_cases db)) \<and> distinct (map ci_id (cb_items db)) \<and>
     (\<forall>x \<in> set (cb_items db). known_case db (ci_case x)))"

lemma cases_inv_same:
  assumes "cases_inv db" "map cs_id (cb_cases db') = map cs_id (cb_cases db)"
    and "map (\<lambda>x. (ci_id x, ci_case x)) (cb_items db') = map (\<lambda>x. (ci_id x, ci_case x)) (cb_items db)"
  shows "cases_inv db'"
proof -
  have "known_case db' = known_case db" using assms(2) by (simp add: known_case_def fun_eq_iff del: list.set_map)
  moreover have "map ci_id (cb_items db') = map ci_id (cb_items db)" "map ci_case (cb_items db') = map ci_case (cb_items db)"
    using arg_cong [OF assms(3), of "map fst"] arg_cong [OF assms(3), of "map snd"] by (simp_all add: comp_def)
  moreover have "ci_case ` set (cb_items db') = ci_case ` set (cb_items db)" using calculation(3) by (metis list.set_map)
  ultimately show ?thesis using assms(1,2) unfolding cases_inv_def by (metis (no_types, lifting) image_iff)
qed

lemma cases_inv_delete_items: "cases_inv db \<Longrightarrow> cases_inv (db\<lparr>cb_items := sql_delete p (cb_items db)\<rparr>)"
  by (simp add: cases_inv_def known_case_def distinct_sql_delete sql_simps)

lemma cases_inv_touch: "cases_inv (touch_case now i db) \<longleftrightarrow> cases_inv db"
  using cases_inv_same [of db "touch_case now i db"] cases_inv_same [of "touch_case now i db" db]
  by (auto simp: touch_case_def map_sql_update)

lemma sql_first_update_frame:
  "(\<And>r. r \<in> set rows \<Longrightarrow> p r \<Longrightarrow> \<not> q r \<and> \<not> q (f r)) \<Longrightarrow> sql_first q (sql_update p f rows) = sql_first q rows"
  by (induction rows) (auto simp: sql_first_def sql_update_def)

lemma sql_first_delete_frame: "(\<And>r. r \<in> set rows \<Longrightarrow> p r \<Longrightarrow> \<not> q r) \<Longrightarrow> sql_first q (sql_delete p rows) = sql_first q rows"
  by (induction rows) (auto simp: sql_first_def sql_delete_def)

lemma case_ids: "map cs_id (sql_update p (revised_case now v) rows) = map cs_id rows"
  "map cs_id (cb_cases (touch_case now i db)) = map cs_id (cb_cases db)" "cb_items (touch_case now i db) = cb_items db"
  by (simp_all add: touch_case_def map_sql_update revised_case_def)

lemma get_case_SomeD:
  "get_case i tenant db = Some r \<Longrightarrow> known_case db i \<and> (\<exists>c \<in> set (cb_cases db). cs_id c = i \<and> case_in tenant c)"
  by (auto simp: get_case_def known_case_def dest!: sql_first_SomeD)

lemma create_case_inv: "cases_inv db \<Longrightarrow> create_case now i v db = Inr (r, db') \<Longrightarrow> cases_inv db'"
  by (fastforce simp: create_case_def Let_def cases_inv_def known_case_def list_ex_iff split: if_splits option.splits)

lemma add_item_inv: "cases_inv db \<Longrightarrow> add_item now fresh i v tenant db = Inr (x, db') \<Longrightarrow> cases_inv db'"
proof (cases "get_case i tenant db")
  case (Some r)
  assume *: "cases_inv db" "add_item now fresh i v tenant db = Inr (x, db')"
  let ?x = "\<lparr>ci_id = fresh, ci_case = i, ci_kind = ni_kind v, ci_title = strip (ni_title v), ci_content = strip (ni_content v),
    ci_source = (if strip (ni_source v) = [] then ''analyst'' else strip (ni_source v)), ci_confidence = ni_confidence v,
    ci_status = ni_status v, ci_occurred_at = ni_occurred_at v, ci_metadata = ni_metadata v, ci_created_at = now\<rparr>"
  from *(2) Some have db': "db' = touch_case now i (db\<lparr>cb_items := cb_items db @ [?x]\<rparr>)" "\<not> list_ex (\<lambda>y. ci_id y = fresh) (cb_items db)"
    by (auto simp: add_item_def Let_def split: if_splits)
  have "cases_inv (db\<lparr>cb_items := cb_items db @ [?x]\<rparr>)"
    using *(1) db'(2) get_case_SomeD [OF Some] by (auto simp: cases_inv_def known_case_def list_ex_iff)
  then show ?thesis unfolding db'(1) cases_inv_touch .
qed (auto simp: add_item_def)

lemma cases_inv_update:
  assumes inv: "cases_inv db"
  shows "cases_inv (snd (update_case now i v tenant db))" "cases_inv (snd (delete_case i tenant db))"
    "cases_inv (snd (update_item now i item u tenant db))" "cases_inv (snd (delete_item now i item tenant db))"
    "cases_inv (bind_cases b db)"
proof -
  show "cases_inv (snd (update_case now i v tenant db))" "cases_inv (bind_cases b db)"
    by (rule cases_inv_same [OF inv]; simp add: update_case_def bind_cases_def Let_def case_ids map_sql_update)+
  have "cases_inv (db\<lparr>cb_items := sql_update p (revised_item u) (cb_items db)\<rparr>)" for p
    by (rule cases_inv_same [OF inv]) (simp_all add: map_sql_update revised_item_def)
  then show "cases_inv (snd (update_item now i item u tenant db))"
    using inv by (simp add: update_item_def Let_def cases_inv_touch split: option.split)
  show "cases_inv (snd (delete_item now i item tenant db))"
    using inv cases_inv_delete_items by (simp add: delete_item_def Let_def cases_inv_touch split: option.split)
  let ?cases = "sql_delete (\<lambda>c. cs_id c = i \<and> case_in tenant c) (cb_cases db)"
  have "cs_id c \<noteq> i \<Longrightarrow> c \<in> set (cb_cases db) \<Longrightarrow> cs_id c \<in> cs_id ` set ?cases" for c
    by (auto simp: sql_simps)
  then have "known_case (db\<lparr>cb_cases := ?cases, cb_items := xs\<rparr>) j" if "known_case db j" "j \<noteq> i" for j xs
    using that by (auto simp: known_case_def)
  then show "cases_inv (snd (delete_case i tenant db))"
    using inv by (simp add: delete_case_def Let_def cases_inv_def distinct_sql_delete sql_simps)
qed

interpretation cases: invariant_machine case_step cases_inv
proof
  fix s e assume "cases_inv s"
  then show "cases_inv (case_step e s)"
    by (cases e) (auto simp: cases_inv_update intro: create_case_inv add_item_inv split: sum.split)
qed

lemma get_case_frame:
  assumes "sql_first (\<lambda>c. cs_id c = i \<and> case_in u c) (cb_cases db') = sql_first (\<lambda>c. cs_id c = i \<and> case_in u c) (cb_cases db)"
    and "get_case i u db \<noteq> None \<Longrightarrow> items_of_case i db' = items_of_case i db"
  shows "get_case i u db' = get_case i u db"
  using assms by (cases "sql_first (\<lambda>c. cs_id c = i \<and> case_in u c) (cb_cases db)") (auto simp: get_case_def)

text \<open>A case is in one scope.\<close>

lemma one_scope:
  assumes "cases_inv db" "get_case j (Some t) db = Some r" "u \<noteq> t"
  shows "get_case j (Some u) db = None" "c \<in> set (cb_cases db) \<Longrightarrow> cs_id c = j \<Longrightarrow> \<not> case_in (Some u) c"
proof -
  obtain d where d: "d \<in> set (cb_cases db)" "cs_id d = j" "cs_tenant_scope_id d = t"
    using get_case_SomeD [OF assms(2)] by (auto simp: case_in_def)
  have uniq: "c = d" if "c \<in> set (cb_cases db)" "cs_id c = j" for c
    using assms(1) d that by (auto simp: cases_inv_def distinct_map dest: inj_onD)
  then show "c \<in> set (cb_cases db) \<Longrightarrow> cs_id c = j \<Longrightarrow> \<not> case_in (Some u) c" using d(3) assms(3) by (auto simp: case_in_def)
  show "get_case j (Some u) db = None" using uniq d(3) assms(3) by (auto simp: get_case_def case_in_def sql_simps)
qed

lemma touched_frame:
  assumes inv: "cases_inv db" and j: "get_case j (Some t) db = Some r" "u \<noteq> t"
    and items: "\<And>k. k \<noteq> j \<Longrightarrow> filter (\<lambda>x. ci_case x = k) xs = items_of_case k db"
  shows "get_case i (Some u) (touch_case now j (db\<lparr>cb_items := xs\<rparr>)) = get_case i (Some u) db"
proof (rule get_case_frame)
  show "sql_first (\<lambda>c. cs_id c = i \<and> case_in (Some u) c) (cb_cases (touch_case now j (db\<lparr>cb_items := xs\<rparr>)))
      = sql_first (\<lambda>c. cs_id c = i \<and> case_in (Some u) c) (cb_cases db)"
    using one_scope(2) [OF inv j] by (simp add: touch_case_def) (rule sql_first_update_frame, auto simp: case_in_def)
  assume "get_case i (Some u) db \<noteq> None"
  then have "i \<noteq> j" using one_scope(1) [OF inv j] by auto
  then show "items_of_case i (touch_case now j (db\<lparr>cb_items := xs\<rparr>)) = items_of_case i db"
    using items by (simp add: items_of_case_def case_ids)
qed

text \<open>C39. An operation confined to one tenant scope neither changes nor reveals a case of another: in every reachable
  state, what \<open>get\<close> returns for a case in a scope \<open>u\<close> - the row, its timeline and its item count, or that there is no
  such case - is the same before and after it, whatever id the operation names.\<close>

theorem cases_are_isolated:
  assumes "op_scope e (run_ops case_step empty_cases es) = Some t" "u \<noteq> t"
  shows "get_case i (Some u) (run_ops case_step empty_cases (es @ [e])) = get_case i (Some u) (run_ops case_step empty_cases es)"
proof -
  let ?db = "run_ops case_step empty_cases es"
  have "cases_inv empty_cases" by (simp add: cases_inv_def known_case_def empty_cases_def)
  then have inv: "cases_inv ?db" by (rule cases.inv_run)
  have "get_case i (Some u) (case_step e ?db) = get_case i (Some u) ?db"
  proof (cases e)
    case (CreateCase now j v)
    then show ?thesis using assms
      by (auto simp: create_case_def Let_def get_case_def items_of_case_def sql_first_append sql_simps case_in_def
          split: if_splits option.splits)
  next
    case (UpdateCase now j v tenant)
    then show ?thesis using assms
      by (auto simp: update_case_def Let_def revised_case_def case_in_def items_of_case_def
          intro!: get_case_frame sql_first_update_frame)
  next
    case (DeleteCase j tenant)
    have "get_case i (Some u) (?db\<lparr>cb_cases := sql_delete (\<lambda>c. cs_id c = j \<and> case_in (Some t) c) (cb_cases ?db),
        cb_items := sql_delete (\<lambda>x. ci_case x = j) (cb_items ?db)\<rparr>) = get_case i (Some u) ?db"
      if ex: "list_ex (\<lambda>c. cs_id c = j \<and> case_in (Some t) c) (cb_cases ?db)"
    proof (rule get_case_frame)
      obtain r where "get_case j (Some t) ?db = Some r" using ex by (auto simp: sql_first_ex get_case_def)
      from one_scope(1) [OF inv this assms(2)] show "items_of_case i (?db\<lparr>cb_cases := sql_delete (\<lambda>c. cs_id c = j \<and> case_in (Some t) c) (cb_cases ?db),
        cb_items := sql_delete (\<lambda>x. ci_case x = j) (cb_items ?db)\<rparr>) = items_of_case i ?db" if "get_case i (Some u) ?db \<noteq> None"
        using that by (auto simp: items_of_case_def sql_delete_def intro!: filter_cong)
    qed (use assms(2) in \<open>auto simp: case_in_def intro!: sql_first_delete_frame\<close>)
    then show ?thesis using DeleteCase assms by (auto simp: delete_case_def Let_def)
  next
    case (AddItem now fresh j v tenant)
    then show ?thesis using assms
      by (auto simp: add_item_def Let_def items_of_case_def intro!: touched_frame [OF inv] split: option.splits if_splits)
  next
    case (UpdateItem now j item v tenant)
    have "filter (\<lambda>x. ci_case x = k) (sql_update (\<lambda>x. ci_id x = item \<and> ci_case x = j) (revised_item v) xs) = filter (\<lambda>x. ci_case x = k) xs"
      if "k \<noteq> j" for k xs
      using that by (induction xs) (auto simp: sql_update_def revised_item_def)
    with UpdateItem show ?thesis using assms
      by (auto simp: update_item_def Let_def items_of_case_def intro!: touched_frame [OF inv] split: option.splits)
  next
    case (DeleteItem now j item tenant)
    have "filter (\<lambda>x. ci_case x = k) (sql_delete (\<lambda>x. ci_id x = item \<and> ci_case x = j) xs) = filter (\<lambda>x. ci_case x = k) xs"
      if "k \<noteq> j" for k xs
      using that by (auto simp: sql_delete_def intro!: filter_cong)
    with DeleteItem show ?thesis using assms
      by (auto simp: delete_item_def Let_def items_of_case_def intro!: touched_frame [OF inv] split: option.splits)
  qed (use assms in simp)
  then show ?thesis by (simp add: run_ops_append)
qed

definition sample_case :: "string \<Rightarrow> case_create" where
  "sample_case tenant = \<lparr>cc_title = ''Login storm'', cc_summary = [], cc_severity = ''medium'', cc_owner = [], cc_tags = [],
     cc_connection_alias = ''primary'', cc_connection_fingerprint = ''f1'', cc_tenant_scope_id = tenant\<rparr>"

definition sample_cases :: "case_op list" where
  "sample_cases = [CreateCase ''t1'' ''c1'' (sample_case ''a''), CreateCase ''t2'' ''c2'' (sample_case ''b'')]"

lemma cases_are_isolated_witness:
  "get_case ''c2'' (Some ''b'') (run_ops case_step empty_cases (sample_cases @ [DeleteCase ''c2'' (Some ''a'')]))
    = get_case ''c2'' (Some ''b'') (run_ops case_step empty_cases sample_cases) \<and>
   get_case ''c2'' (Some ''b'') (run_ops case_step empty_cases sample_cases) \<noteq> None"
proof
  show "get_case ''c2'' (Some ''b'') (run_ops case_step empty_cases (sample_cases @ [DeleteCase ''c2'' (Some ''a'')]))
    = get_case ''c2'' (Some ''b'') (run_ops case_step empty_cases sample_cases)"
    by (rule cases_are_isolated [of _ _ "''a''"]) simp_all
qed code_simp

end
