(* ===== verification/Job_Lane.thy ===== *)
theory Job_Lane
  imports Prelude
begin

text \<open>
  What a single-lane job queue promises, apart from how it stores its jobs: \<open>discovery/job_service.py\<close> and
  \<open>assurance/service.py\<close> both run one job at a time under a ceiling of Splunk calls, and put a job back when the
  process stops. \<open>lane_step\<close> is the specification; the locale \<open>lane_machine\<close> is the contract of an implementation,
  whose every operation is some steps of the specification, and carries over what holds of the specification.
\<close>


section \<open>The specification\<close>

datatype job_status =
    JQueued | JRunning | JComplete | JPartial | JError | JCancelled | JBudgetBlocked | JConnectionBlocked

definition job_active :: "job_status \<Rightarrow> bool" where
  "job_active s = (s = JQueued \<or> s = JRunning)"

text \<open>
  Per job its status, its ceiling, how often it was put back and how many calls were made for it in all; and the
  execution in progress with the calls it made.
\<close>

record lane =
  ln_status :: "string \<Rightarrow> job_status option"
  ln_budget :: "string \<Rightarrow> int"
  ln_recoveries :: "string \<Rightarrow> int"
  ln_calls :: "string \<Rightarrow> int"
  ln_exec :: "(string \<times> int) option"

inductive lane_step :: "lane \<Rightarrow> lane \<Rightarrow> bool" where
  submit: "\<lbrakk>\<And>j s. ln_status l j = Some s \<Longrightarrow> \<not> job_active s; ln_status l i = None; 0 \<le> b\<rbrakk> \<Longrightarrow>
    lane_step l (l\<lparr>ln_status := (ln_status l)(i \<mapsto> JQueued), ln_budget := (ln_budget l)(i := b),
      ln_recoveries := (ln_recoveries l)(i := 0)\<rparr>)"
| withdraw: "ln_status l i = Some JQueued \<Longrightarrow> lane_step l (l\<lparr>ln_status := (ln_status l)(i \<mapsto> JCancelled)\<rparr>)"
| begin_run: "\<lbrakk>ln_exec l = None; ln_status l i = Some JQueued\<rbrakk> \<Longrightarrow>
    lane_step l (l\<lparr>ln_status := (ln_status l)(i \<mapsto> JRunning), ln_exec := Some (i, 0)\<rparr>)"
| call: "\<lbrakk>ln_exec l = Some (i, u); u < ln_budget l i\<rbrakk> \<Longrightarrow>
    lane_step l (l\<lparr>ln_calls := (ln_calls l)(i := ln_calls l i + 1), ln_exec := Some (i, u + 1)\<rparr>)"
| finish: "\<lbrakk>ln_exec l = Some (i, u); \<not> job_active s\<rbrakk> \<Longrightarrow>
    lane_step l (l\<lparr>ln_status := (ln_status l)(i \<mapsto> s), ln_exec := None\<rparr>)"
| put_back: "ln_exec l = Some (i, u) \<Longrightarrow>
    lane_step l (l\<lparr>ln_status := (ln_status l)(i \<mapsto> JQueued),
      ln_recoveries := (ln_recoveries l)(i := ln_recoveries l i + 1), ln_exec := None\<rparr>)"
| lose: "ln_exec l = Some x \<Longrightarrow> lane_step l (l\<lparr>ln_exec := None\<rparr>)"
| recover: "\<lbrakk>ln_exec l = None; ln_status l i = Some JRunning\<rbrakk> \<Longrightarrow>
    lane_step l (l\<lparr>ln_status := (ln_status l)(i \<mapsto> JQueued),
      ln_recoveries := (ln_recoveries l)(i := ln_recoveries l i + 1)\<rparr>)"
| give_up: "\<lbrakk>ln_exec l = None; ln_status l i = Some JRunning; \<not> job_active s\<rbrakk> \<Longrightarrow>
    lane_step l (l\<lparr>ln_status := (ln_status l)(i \<mapsto> s)\<rparr>)"

abbreviation lane_steps :: "lane \<Rightarrow> lane \<Rightarrow> bool" where
  "lane_steps \<equiv> lane_step\<^sup>*\<^sup>*"

text \<open>
  The calls a job may have made: its ceiling for every time it was put back, and what its execution made; a job that
  is not queued has had one attempt more.
\<close>

definition running_calls :: "lane \<Rightarrow> string \<Rightarrow> int option" where
  "running_calls l i = (case ln_exec l of None \<Rightarrow> None | Some (j, u) \<Rightarrow> if j = i then Some u else None)"

definition job_bounded :: "job_status option \<Rightarrow> int \<Rightarrow> int \<Rightarrow> int \<Rightarrow> int option \<Rightarrow> bool" where
  "job_bounded status budget recoveries calls running = (case status of None \<Rightarrow> calls = 0
     | Some s \<Rightarrow> 0 \<le> budget \<and> 0 \<le> recoveries \<and> calls \<le> budget * recoveries +
         (if s = JQueued then 0 else case running of None \<Rightarrow> budget | Some u \<Rightarrow> u))"

abbreviation job_bounded_at :: "lane \<Rightarrow> string \<Rightarrow> bool" where
  "job_bounded_at l i \<equiv>
     job_bounded (ln_status l i) (ln_budget l i) (ln_recoveries l i) (ln_calls l i) (running_calls l i)"

definition lane_inv :: "lane \<Rightarrow> bool" where
  "lane_inv l = ((\<forall>i j s t. ln_status l i = Some s \<longrightarrow> ln_status l j = Some t \<longrightarrow> job_active s \<longrightarrow> job_active t \<longrightarrow> i = j) \<and>
     (\<forall>i u. ln_exec l = Some (i, u) \<longrightarrow> ln_status l i = Some JRunning \<and> 0 \<le> u \<and> u \<le> ln_budget l i) \<and>
     (\<forall>i. job_bounded_at l i))"

lemma job_active_simps [simp]:
  "job_active JQueued" "job_active JRunning" "\<not> job_active JComplete" "\<not> job_active JPartial" "\<not> job_active JError"
  "\<not> job_active JCancelled" "\<not> job_active JBudgetBlocked" "\<not> job_active JConnectionBlocked"
  by (simp_all add: job_active_def)

lemma lane_inv_unique:
  "lane_inv l \<Longrightarrow> ln_status l i = Some s \<Longrightarrow> ln_status l j = Some t \<Longrightarrow> job_active s \<Longrightarrow> job_active t \<Longrightarrow> i = j"
  unfolding lane_inv_def by blast

lemma lane_alone:
  "lane_inv l \<Longrightarrow> ln_status l i = Some s \<Longrightarrow> job_active s \<Longrightarrow> j \<noteq> i \<Longrightarrow> ln_status l j = Some t \<Longrightarrow> \<not> job_active t"
  using lane_inv_unique by blast

lemma lane_inv_exec: "lane_inv l \<Longrightarrow> ln_exec l = Some (i, u) \<Longrightarrow> ln_status l i = Some JRunning \<and> 0 \<le> u \<and> u \<le> ln_budget l i"
  unfolding lane_inv_def by blast

lemma lane_inv_bounded: "lane_inv l \<Longrightarrow> job_bounded_at l i"
  unfolding lane_inv_def by blast

text \<open>A step that changes job \<open>i\<close> only.\<close>

lemma lane_inv_change:
  assumes inv: "lane_inv l"
    and other: "\<And>j. j \<noteq> i \<Longrightarrow> ln_status l' j = ln_status l j \<and> ln_budget l' j = ln_budget l j \<and>
        ln_recoveries l' j = ln_recoveries l j \<and> ln_calls l' j = ln_calls l j \<and> running_calls l' j = running_calls l j"
    and active: "\<And>s j t. ln_status l' i = Some s \<Longrightarrow> job_active s \<Longrightarrow> j \<noteq> i \<Longrightarrow> ln_status l j = Some t \<Longrightarrow> \<not> job_active t"
    and bounded: "job_bounded_at l' i"
    and exec: "\<And>j u. ln_exec l' = Some (j, u) \<Longrightarrow> ln_status l' j = Some JRunning \<and> 0 \<le> u \<and> u \<le> ln_budget l' j"
  shows "lane_inv l'"
proof -
  have unique: "j = k" if "ln_status l' j = Some s" "ln_status l' k = Some t" "job_active s" "job_active t" for j k s t
    using that other [of j] other [of k] active lane_inv_unique [OF inv] by metis
  have "job_bounded_at l' j" for j
    using bounded other [of j] lane_inv_bounded [OF inv, of j] by (cases "j = i") simp_all
  with unique exec show ?thesis unfolding lane_inv_def by blast
qed

lemma lane_inv_step: "lane_step l l' \<Longrightarrow> lane_inv l \<Longrightarrow> lane_inv l'"
proof (induction rule: lane_step.induct)
  case (submit l i b)
  have "ln_exec l = Some (i, u) \<Longrightarrow> False" for u using lane_inv_exec [OF submit.prems] submit.hyps(2) by fastforce
  then show ?case
    using submit.hyps lane_inv_exec [OF submit.prems] lane_inv_bounded [OF submit.prems, of i]
    by (intro lane_inv_change [OF submit.prems, of i]) (auto simp: job_bounded_def running_calls_def)
next
  case (withdraw l i)
  then show ?case using lane_inv_exec [OF withdraw.prems] lane_inv_bounded [OF withdraw.prems, of i]
    by (intro lane_inv_change [OF withdraw.prems, of i])
      (auto simp: job_bounded_def running_calls_def split: option.split)
next
  case (begin_run l i)
  then show ?case
    using lane_inv_bounded [OF begin_run.prems, of i] lane_alone [OF begin_run.prems begin_run.hyps(2)]
    by (intro lane_inv_change [OF begin_run.prems, of i]) (auto simp: job_bounded_def running_calls_def)
next
  case (call l i u)
  then show ?case
    using lane_inv_bounded [OF call.prems, of i] lane_inv_exec [OF call.prems call.hyps(1)] lane_alone [OF call.prems, of i JRunning]
    by (intro lane_inv_change [OF call.prems, of i]) (auto simp: job_bounded_def running_calls_def)
next
  case (finish l i u s)
  then show ?case using lane_inv_bounded [OF finish.prems, of i] lane_inv_exec [OF finish.prems finish.hyps(1)]
    by (intro lane_inv_change [OF finish.prems, of i]) (auto simp: job_bounded_def running_calls_def)
next
  case (put_back l i u)
  then show ?case
    using lane_inv_bounded [OF put_back.prems, of i] lane_inv_exec [OF put_back.prems put_back.hyps]
      lane_alone [OF put_back.prems, of i JRunning]
    by (intro lane_inv_change [OF put_back.prems, of i]) (auto simp: job_bounded_def running_calls_def distrib_left)
next
  case (lose l x)
  obtain i u where x: "x = (i, u)" by fastforce
  then show ?case using lose lane_inv_bounded [OF lose.prems, of i] lane_inv_exec [OF lose.prems, of i u]
      lane_alone [OF lose.prems, of i JRunning]
    by (intro lane_inv_change [OF lose.prems, of i]) (auto simp: job_bounded_def running_calls_def)
next
  case (recover l i)
  then show ?case
    using lane_inv_bounded [OF recover.prems, of i] lane_alone [OF recover.prems recover.hyps(2)]
    by (intro lane_inv_change [OF recover.prems, of i]) (auto simp: job_bounded_def running_calls_def distrib_left)
next
  case (give_up l i s)
  then show ?case using lane_inv_bounded [OF give_up.prems, of i]
    by (intro lane_inv_change [OF give_up.prems, of i]) (auto simp: job_bounded_def running_calls_def)
qed

lemma lane_inv_steps: "lane_steps l l' \<Longrightarrow> lane_inv l \<Longrightarrow> lane_inv l'"
  by (induction rule: rtranclp_induct) (auto intro: lane_inv_step)

lemma lane_calls_bounded:
  assumes "lane_inv l" "ln_status l i = Some s"
  shows "ln_calls l i \<le> ln_budget l i * (ln_recoveries l i + 1)"
proof -
  have "job_bounded_at l i" by (rule lane_inv_bounded [OF assms(1)])
  moreover have "u \<le> ln_budget l i" if "running_calls l i = Some u" for u
    using that lane_inv_exec [OF assms(1), of i u] by (auto simp: running_calls_def split: option.splits if_splits)
  ultimately show ?thesis using assms(2) by (auto simp: job_bounded_def distrib_left split: option.splits if_splits)
qed

text \<open>A job that has ended never changes again, and a job keeps its ceiling.\<close>

lemma lane_final_step:
  "lane_step l l' \<Longrightarrow> lane_inv l \<Longrightarrow> ln_status l i = Some s \<Longrightarrow> \<not> job_active s \<Longrightarrow>
    ln_status l' i = Some s \<and> ln_recoveries l' i = ln_recoveries l i \<and> ln_calls l' i = ln_calls l i"
  by (induction rule: lane_step.induct) (auto dest: lane_inv_exec)

lemma lane_final:
  assumes "lane_steps l l'" "lane_inv l" "ln_status l i = Some s" "\<not> job_active s"
  shows "ln_status l' i = Some s \<and> ln_recoveries l' i = ln_recoveries l i \<and> ln_calls l' i = ln_calls l i"
  using assms
proof (induction rule: rtranclp_induct)
  case (step l1 l2)
  then have "lane_inv l1" by (auto intro: lane_inv_steps)
  then show ?case using step lane_final_step [of l1 l2 i s] by simp
qed simp

lemma lane_budget_step: "lane_step l l' \<Longrightarrow> ln_status l i = Some s \<Longrightarrow> ln_budget l' i = ln_budget l i \<and> ln_status l' i \<noteq> None"
  by (induction rule: lane_step.induct) auto

lemma lane_budget:
  "lane_steps l l' \<Longrightarrow> ln_status l i = Some s \<Longrightarrow> ln_budget l' i = ln_budget l i \<and> ln_status l' i \<noteq> None"
proof (induction rule: rtranclp_induct)
  case (step l1 l2)
  then show ?case using lane_budget_step [of l1 l2 i] by auto
qed simp


lemma filter_at_most_one:
  assumes "distinct (map key rows)" "\<And>a b. a \<in> set rows \<Longrightarrow> b \<in> set rows \<Longrightarrow> p a \<Longrightarrow> p b \<Longrightarrow> key a = key b"
  shows "length (filter p rows) \<le> 1"
proof (cases "filter p rows")
  case (Cons a rest)
  have "rest = []"
  proof (rule ccontr)
    assume "rest \<noteq> []"
    then obtain b rest' where r: "filter p rows = a # b # rest'" using Cons by (cases rest) auto
    then have "a \<in> set (filter p rows)" "b \<in> set (filter p rows)" by simp_all
    then have "key a = key b" using assms(2) by auto
    moreover have "distinct (map key (filter p rows))" using assms(1) by (rule distinct_map_filter)
    ultimately show False using r by simp
  qed
  then show ?thesis using Cons by simp
qed simp


section \<open>The contract of an implementation\<close>

locale lane_machine = invariant_machine step inv
  for step :: "'op \<Rightarrow> 's \<Rightarrow> 's" and inv :: "'s \<Rightarrow> bool" +
  fixes lane_of :: "'s \<Rightarrow> lane"
  assumes refines: "inv s \<Longrightarrow> lane_steps (lane_of s) (lane_of (step e s))"
begin

lemma refines_run: "inv s \<Longrightarrow> lane_steps (lane_of s) (lane_of (run_ops step s es))"
proof (induction es arbitrary: s)
  case (Cons e es)
  have "lane_steps (lane_of (step e s)) (lane_of (run_ops step (step e s) es))"
    by (rule Cons.IH [OF inv_step [OF Cons.prems]])
  with refines [OF Cons.prems, of e] show ?case by simp
qed simp

lemma lane_inv_run: "inv s \<Longrightarrow> lane_inv (lane_of s) \<Longrightarrow> lane_inv (lane_of (run_ops step s es))"
  by (rule lane_inv_steps [OF refines_run])

lemma one_active:
  assumes "inv s" "lane_inv (lane_of s)"
    and "ln_status (lane_of (run_ops step s es)) i = Some a" "ln_status (lane_of (run_ops step s es)) j = Some b"
    and "job_active a" "job_active b"
  shows "i = j"
  using lane_inv_unique [OF lane_inv_run [OF assms(1,2)] assms(3-6)] .

lemma ended_for_good:
  assumes "inv s" "lane_inv (lane_of s)" "ln_status (lane_of s) i = Some a" "\<not> job_active a"
  shows "ln_status (lane_of (run_ops step s es)) i = Some a \<and>
    ln_calls (lane_of (run_ops step s es)) i = ln_calls (lane_of s) i"
  using lane_final [OF refines_run [OF assms(1)] assms(2-4)] by blast

lemma calls_within_budget:
  assumes "inv s" "lane_inv (lane_of s)" "ln_status (lane_of (run_ops step s es)) i = Some a"
  shows "ln_calls (lane_of (run_ops step s es)) i \<le>
    ln_budget (lane_of (run_ops step s es)) i * (ln_recoveries (lane_of (run_ops step s es)) i + 1)"
  by (rule lane_calls_bounded [OF lane_inv_run [OF assms(1,2)] assms(3)])

end

end
