(* ===== verification/Discovery_Store.thy ===== *)
theory Discovery_Store
  imports Python_Values Job_Lane
begin

text \<open>
  Manual discovery jobs, their progress events and their results (\<open>discovery/job_store.py\<close>). A job row has the
  columns of the table; JSON columns are the values themselves. Times are the stored \<open>isoformat\<close> texts. An operation
  reads the clock once.
\<close>


section \<open>Rows\<close>

record discovery_job =
  dj_id :: string
  dj_depth :: string
  dj_requested_by :: string
  dj_status :: job_status
  dj_phase :: string
  dj_progress :: int
  dj_label :: string
  dj_detail :: string
  dj_metrics :: json
  dj_summary :: json
  dj_result :: json
  dj_result_run_id :: string
  dj_error :: string
  dj_call_budget :: int
  dj_calls_used :: int
  dj_cancel_requested :: bool
  dj_recovery_count :: int
  dj_alias :: string
  dj_fingerprint :: string
  dj_tenant :: string
  dj_created_at :: string
  dj_started_at :: "string option"
  dj_completed_at :: "string option"
  dj_updated_at :: string

record job_event =
  je_id :: int
  je_job_id :: string
  je_phase :: string
  je_label :: string
  je_detail :: string
  je_status :: string
  je_progress :: int
  je_metrics :: json
  je_created_at :: string

record discovery_db =
  dd_jobs :: "discovery_job list"
  dd_events :: "job_event list"
  dd_counter :: int

text \<open>The identity of the Splunk connection that a job is bound to.\<close>

record job_binding =
  jb_alias :: string
  jb_fingerprint :: string
  jb_tenant :: string

fun status_text :: "job_status \<Rightarrow> string" where
  "status_text JQueued = ''queued''"
| "status_text JRunning = ''running''"
| "status_text JComplete = ''complete''"
| "status_text JPartial = ''partial''"
| "status_text JError = ''error''"
| "status_text JCancelled = ''cancelled''"
| "status_text JBudgetBlocked = ''budget-blocked''"
| "status_text JConnectionBlocked = ''connection-blocked''"


section \<open>Lookups\<close>

definition find_job :: "string \<Rightarrow> discovery_db \<Rightarrow> discovery_job option" where
  "find_job i db = sql_first (\<lambda>j. dj_id j = i) (dd_jobs db)"

definition find_scoped_job :: "string \<Rightarrow> string \<Rightarrow> discovery_db \<Rightarrow> discovery_job option" where
  "find_scoped_job i tenant db = sql_first (\<lambda>j. dj_id j = i \<and> dj_tenant j = tenant) (dd_jobs db)"

definition of_tenant :: "string option \<Rightarrow> discovery_job \<Rightarrow> bool" where
  "of_tenant tenant j = (case tenant of None \<Rightarrow> True | Some s \<Rightarrow> dj_tenant j = s)"

fun running_rank :: "job_status \<Rightarrow> nat" where
  "running_rank JRunning = 0"
| "running_rank JQueued = 1"
| "running_rank _ = 2"

definition list_jobs :: "int \<Rightarrow> string option \<Rightarrow> discovery_db \<Rightarrow> discovery_job list" where
  "list_jobs limit tenant db = sql_limit (max 1 (min 100 limit))
     (sort_key (\<lambda>j. running_rank (dj_status j)) (text_order_desc dj_created_at (filter (of_tenant tenant) (dd_jobs db))))"

definition active_job :: "string option \<Rightarrow> discovery_db \<Rightarrow> discovery_job option" where
  "active_job tenant db = sql_first (\<lambda>j. True) (sort_key (\<lambda>j. running_rank (dj_status j)) (sort_key dj_created_at
     (filter (\<lambda>j. job_active (dj_status j) \<and> of_tenant tenant j) (dd_jobs db))))"

definition next_queued :: "discovery_db \<Rightarrow> discovery_job option" where
  "next_queued db = sql_first (\<lambda>j. True) (sort_key dj_created_at (filter (\<lambda>j. dj_status j = JQueued) (dd_jobs db)))"

definition job_events :: "string \<Rightarrow> int \<Rightarrow> int \<Rightarrow> discovery_db \<Rightarrow> job_event list" where
  "job_events i limit after db =
     (let n = max 1 (min 200 limit); mine = filter (\<lambda>e. je_job_id e = i) (dd_events db) in
      if after \<noteq> 0 then sql_limit n (sort_key je_id (filter (\<lambda>e. after < je_id e) mine))
      else rev (sql_limit n (sql_order_desc je_id mine)))"

definition job_result :: "string \<Rightarrow> discovery_db \<Rightarrow> json option" where
  "job_result i db = (case find_job i db of None \<Rightarrow> None
     | Some j \<Rightarrow> if json_true (dj_result j) then Some (dj_result j) else None)"


section \<open>Events\<close>

definition or_else :: "string \<Rightarrow> string \<Rightarrow> string" where
  "or_else s d = (if s = [] then d else s)"

definition clamp_progress :: "int \<Rightarrow> int" where
  "clamp_progress n = max 0 (min 100 n)"

definition insert_event ::
  "string \<Rightarrow> string \<Rightarrow> string \<Rightarrow> string \<Rightarrow> string \<Rightarrow> int \<Rightarrow> json \<Rightarrow> string \<Rightarrow> discovery_db \<Rightarrow> discovery_db" where
  "insert_event i phase label detail status progress metrics now db = db\<lparr>
     dd_events := dd_events db @ [\<lparr>je_id = dd_counter db + 1, je_job_id = i, je_phase = take 120 (or_else phase ''working''),
       je_label = take 500 (or_else label ''Working''), je_detail = take 4000 detail,
       je_status = take 40 (or_else status ''running''), je_progress = clamp_progress progress,
       je_metrics = (if json_true metrics then metrics else JObj []), je_created_at = now\<rparr>],
     dd_counter := dd_counter db + 1\<rparr>"

text \<open>The rows after an \<open>UPDATE ... WHERE id=? AND\<close> a condition.\<close>

definition update_jobs :: "(discovery_job \<Rightarrow> bool) \<Rightarrow> (discovery_job \<Rightarrow> discovery_job) \<Rightarrow> discovery_db \<Rightarrow> discovery_db" where
  "update_jobs p f db = db\<lparr>dd_jobs := sql_update p f (dd_jobs db)\<rparr>"


section \<open>Operations\<close>

definition empty_discovery :: discovery_db where
  "empty_discovery = \<lparr>dd_jobs = [], dd_events = [], dd_counter = 0\<rparr>"

definition new_job :: "string \<Rightarrow> string \<Rightarrow> string \<Rightarrow> string \<Rightarrow> int \<Rightarrow> job_binding \<Rightarrow> discovery_job" where
  "new_job now i depth requested_by budget binding = \<lparr>dj_id = i, dj_depth = depth,
     dj_requested_by = or_else (take 120 requested_by) ''local-operator'', dj_status = JQueued, dj_phase = ''queued'',
     dj_progress = 0, dj_label = ''Queued for manual discovery'',
     dj_detail = ''Waiting for the durable read-only discovery worker.'', dj_metrics = JObj [], dj_summary = JObj [],
     dj_result = JObj [], dj_result_run_id = [], dj_error = [], dj_call_budget = budget, dj_calls_used = 0,
     dj_cancel_requested = False, dj_recovery_count = 0, dj_alias = jb_alias binding,
     dj_fingerprint = jb_fingerprint binding, dj_tenant = jb_tenant binding, dj_created_at = now,
     dj_started_at = None, dj_completed_at = None, dj_updated_at = now\<rparr>"

definition create_job ::
  "string \<Rightarrow> string \<Rightarrow> string \<Rightarrow> string \<Rightarrow> int \<Rightarrow> job_binding \<Rightarrow> discovery_db \<Rightarrow> (discovery_job \<times> discovery_db) result" where
  "create_job now i depth requested_by budget binding db =
     (if list_ex (\<lambda>j. job_active (dj_status j)) (dd_jobs db)
      then Inl (ValueError ''A manual discovery job is already queued or running'')
      else if list_ex (\<lambda>j. dj_id j = i) (dd_jobs db) then Inl (IntegrityError ''discovery_jobs'')
      else let db' = insert_event i ''queued'' ''Queued for manual discovery''
          ''Waiting for the durable read-only discovery worker.'' ''running'' 0
          (JObj [(''call_budget'', JInt budget)]) now
          (db\<lparr>dd_jobs := dd_jobs db @ [new_job now i depth requested_by budget binding]\<rparr>)
        in case find_job i db' of None \<Rightarrow> Inl AssertionError | Some j \<Rightarrow> Inr (j, db'))"

definition bind_unbound_jobs :: "job_binding \<Rightarrow> discovery_db \<Rightarrow> nat \<times> discovery_db" where
  "bind_unbound_jobs binding db =
     (let unbound = (\<lambda>j. dj_fingerprint j = []) in
      (sql_count unbound (dd_jobs db), update_jobs unbound (\<lambda>j. j\<lparr>dj_alias := jb_alias binding,
         dj_fingerprint := jb_fingerprint binding, dj_tenant := jb_tenant binding\<rparr>) db))"

definition started_job :: "string \<Rightarrow> discovery_job \<Rightarrow> discovery_job" where
  "started_job now j = j\<lparr>dj_status := JRunning, dj_phase := ''starting'', dj_progress := 1,
     dj_label := ''Starting manual discovery'', dj_detail := ''Loading the bounded, read-only collection plan.'',
     dj_started_at := Some now, dj_completed_at := None, dj_error := [], dj_cancel_requested := False, dj_updated_at := now\<rparr>"

definition mark_job_running :: "string \<Rightarrow> string \<Rightarrow> discovery_db \<Rightarrow> discovery_job option \<times> discovery_db" where
  "mark_job_running now i db =
     (let queued = (\<lambda>j. dj_id j = i \<and> dj_status j = JQueued) in
      if list_ex queued (dd_jobs db)
      then let db' = insert_event i ''starting'' ''Starting manual discovery''
          ''Loading the bounded, read-only collection plan.'' ''running'' 1 (JObj []) now
          (update_jobs queued (started_job now) db)
        in (find_job i db', db')
      else (None, db))"

text \<open>An event as \<open>report_progress\<close> sends it.\<close>

record progress_event =
  pe_phase :: string
  pe_label :: string
  pe_detail :: string
  pe_status :: string
  pe_progress :: "int option"
  pe_metrics :: "(string \<times> json) list"

definition event_progress :: "progress_event \<Rightarrow> int" where
  "event_progress e = clamp_progress (case pe_progress e of None \<Rightarrow> 0 | Some n \<Rightarrow> n)"

definition progressed_job :: "string \<Rightarrow> progress_event \<Rightarrow> int \<Rightarrow> discovery_job \<Rightarrow> discovery_job" where
  "progressed_job now e calls_used j = j\<lparr>dj_phase := take 120 (or_else (pe_phase e) ''working''),
     dj_progress := event_progress e, dj_label := take 500 (or_else (pe_label e) ''Working''),
     dj_detail := take 4000 (pe_detail e), dj_metrics := JObj (pe_metrics e), dj_calls_used := calls_used, dj_updated_at := now\<rparr>"

definition update_job_progress :: "string \<Rightarrow> string \<Rightarrow> progress_event \<Rightarrow> int \<Rightarrow> discovery_db \<Rightarrow> discovery_db" where
  "update_job_progress now i e calls_used db =
     insert_event i (take 120 (or_else (pe_phase e) ''working'')) (take 500 (or_else (pe_label e) ''Working''))
       (take 4000 (pe_detail e)) (take 40 (or_else (pe_status e) ''running'')) (event_progress e)
       (JObj (pe_metrics e)) now
       (update_jobs (\<lambda>j. dj_id j = i \<and> dj_status j = JRunning) (progressed_job now e calls_used) db)"

fun completion_label :: "job_status \<Rightarrow> string" where
  "completion_label JComplete = ''Manual discovery complete''"
| "completion_label JPartial = ''Manual discovery completed with collection gaps''"
| "completion_label JBudgetBlocked = ''Manual discovery reached its Splunk-call budget''"
| "completion_label JConnectionBlocked = ''Manual discovery blocked by connection readiness''"
| "completion_label _ = ''Manual discovery finished''"

definition kept_member :: "string \<Rightarrow> json \<Rightarrow> (string \<times> json) list" where
  "kept_member k v = (case json_member k v of None \<Rightarrow> [] | Some x \<Rightarrow> [(k, x)])"

definition completed_job ::
  "(json \<Rightarrow> string) \<Rightarrow> string \<Rightarrow> job_status \<Rightarrow> json \<Rightarrow> json \<Rightarrow> int \<Rightarrow> discovery_job \<Rightarrow> discovery_job" where
  "completed_job repr now status summary result calls_used j = j\<lparr>dj_status := status, dj_phase := ''complete'',
     dj_progress := 100, dj_label := completion_label status,
     dj_detail := take 4000 (or_else (str_or_empty repr (json_member ''headline'' summary)) ''The durable result is ready.''),
     dj_summary := summary, dj_result := result,
     dj_result_run_id := or_else (str_or_empty repr (json_member ''run_id'' result))
       (str_or_empty repr (json_member ''discovery_run_id'' summary)),
     dj_calls_used := calls_used, dj_completed_at := Some now, dj_updated_at := now\<rparr>"

definition complete_job ::
  "(json \<Rightarrow> string) \<Rightarrow> string \<Rightarrow> string \<Rightarrow> job_status \<Rightarrow> json \<Rightarrow> json option \<Rightarrow> int \<Rightarrow> discovery_db \<Rightarrow> discovery_db" where
  "complete_job repr now i status summary result calls_used db =
     (let value = (case result of Some r \<Rightarrow> if json_true r then r else JObj [] | None \<Rightarrow> JObj []) in
      insert_event i ''complete'' (completion_label status)
        (take 4000 (or_else (str_or_empty repr (json_member ''headline'' summary)) ''The durable result is ready.''))
        (if status = JComplete \<or> status = JPartial then ''complete'' else status_text status) 100
        (JObj ((''splunk_calls'', JInt calls_used) # kept_member ''findings'' summary @ kept_member ''collection_failures'' summary))
        now (update_jobs (\<lambda>j. dj_id j = i) (completed_job repr now status summary value calls_used) db))"

definition failed_job :: "string \<Rightarrow> job_status \<Rightarrow> string \<Rightarrow> int \<Rightarrow> discovery_job \<Rightarrow> discovery_job" where
  "failed_job now status err calls_used j = j\<lparr>dj_status := status, dj_phase := status_text status,
     dj_label := (if status = JCancelled then ''Manual discovery cancelled'' else ''Manual discovery failed''),
     dj_detail := take 4000 err, dj_error := (if status = JCancelled then [] else take 4000 err),
     dj_calls_used := calls_used, dj_completed_at := Some now, dj_updated_at := now\<rparr>"

definition fail_job :: "string \<Rightarrow> string \<Rightarrow> job_status \<Rightarrow> string \<Rightarrow> int \<Rightarrow> discovery_db \<Rightarrow> discovery_db" where
  "fail_job now i status err calls_used db =
     insert_event i (status_text status)
       (if status = JCancelled then ''Manual discovery cancelled'' else ''Manual discovery failed'')
       (take 4000 err) (status_text status) (case find_job i db of None \<Rightarrow> 0 | Some j \<Rightarrow> dj_progress j)
       (JObj [(''splunk_calls'', JInt calls_used)]) now
       (update_jobs (\<lambda>j. dj_id j = i) (failed_job now status err calls_used) db)"

definition withdrawn_job :: "string \<Rightarrow> discovery_job \<Rightarrow> discovery_job" where
  "withdrawn_job now j = j\<lparr>dj_status := JCancelled, dj_phase := ''cancelled'', dj_label := ''Manual discovery cancelled'',
     dj_detail := ''Cancelled before execution; no Splunk calls were made.'', dj_cancel_requested := True,
     dj_completed_at := Some now, dj_updated_at := now\<rparr>"

definition request_job_cancel :: "string \<Rightarrow> string \<Rightarrow> discovery_db \<Rightarrow> discovery_job option \<times> discovery_db" where
  "request_job_cancel now i db =
     (case find_job i db of
        None \<Rightarrow> (None, db)
      | Some j \<Rightarrow>
         (let db' = (if dj_status j = JQueued
              then insert_event i ''cancelled'' ''Manual discovery cancelled''
                ''Cancelled before execution; no Splunk calls were made.'' ''cancelled'' (dj_progress j)
                (JObj [(''splunk_calls'', JInt 0)]) now (update_jobs (\<lambda>x. dj_id x = i) (withdrawn_job now) db)
              else if dj_status j = JRunning
              then update_jobs (\<lambda>x. dj_id x = i) (\<lambda>x. x\<lparr>dj_cancel_requested := True,
                dj_detail := ''Cancellation requested; no further Splunk calls will be scheduled.'', dj_updated_at := now\<rparr>) db
              else db)
          in (find_job i db', db')))"

definition requeued_job :: "string \<Rightarrow> discovery_job \<Rightarrow> discovery_job" where
  "requeued_job now j = j\<lparr>dj_status := JQueued, dj_phase := ''recovered'', dj_progress := 0,
     dj_label := ''Recovered after restart'',
     dj_detail := ''The read-only run was interrupted during shutdown and will restart from a fresh collection.'',
     dj_started_at := None, dj_cancel_requested := False, dj_recovery_count := dj_recovery_count j + 1, dj_updated_at := now\<rparr>"

definition requeue_for_restart :: "string \<Rightarrow> string \<Rightarrow> discovery_db \<Rightarrow> discovery_db" where
  "requeue_for_restart now i db = insert_event i ''recovered'' ''Recovered after restart''
     ''The read-only run was interrupted during shutdown and will restart from a fresh collection.'' ''running'' 0
     (JObj [(''restart_recovery'', JStr ''fresh-read-only-retry'')]) now
     (update_jobs (\<lambda>j. dj_id j = i) (requeued_job now) db)"

definition recover_job :: "string \<Rightarrow> discovery_job \<Rightarrow> discovery_db \<Rightarrow> discovery_db" where
  "recover_job now j db = (if dj_cancel_requested j
     then fail_job now (dj_id j) JCancelled ''Cancellation persisted across restart; no further calls were made.'' 0 db
     else requeue_for_restart now (dj_id j) db)"

definition recover_interrupted_jobs :: "string \<Rightarrow> discovery_db \<Rightarrow> nat \<times> discovery_db" where
  "recover_interrupted_jobs now db =
     (let running = filter (\<lambda>j. dj_status j = JRunning) (dd_jobs db)
      in (length running, fold (recover_job now) running db))"

definition open_discovery :: "string \<Rightarrow> discovery_db \<Rightarrow> discovery_db" where
  "open_discovery now db = snd (recover_interrupted_jobs now db)"

end
