(* ===== verification/Discovery_Service.thy ===== *)
theory Discovery_Service
  imports Discovery_Store Audit_Chain
begin

text \<open>
  The executor of manual discovery jobs (\<open>discovery/job_service.py\<close>) with the collaborators that \<open>app.py\<close> gives it: a
  binding check, a readiness preflight, an audit log, the shared discovery lane and a completion callback. The worker
  runs one execution at a time; an execution stands at one of its awaits (\<open>run_phase\<close>), and between two of its steps
  any request may come. \<open>report_progress\<close> and the completion callback of \<open>app.py\<close> do not suspend.

  Parameters (record \<open>discovery_env\<close>): clock, fresh ids, SHA-256, the binding check, whether the client or the pipeline
  can be built, whether the lane is taken, the retained summary of the pipeline, the outcome of the callback, the text
  of a list or dictionary and of the exception for a result of the wrong shape. What an await yields is \<open>run_outcome\<close>.
\<close>


section \<open>Environment\<close>

record discovery_env =
  dx_now :: string
  dx_job_id :: string
  dx_repr :: "json \<Rightarrow> string"
  dx_digest :: "string \<Rightarrow> string"
  dx_event_id :: string
  dx_actor :: string
  dx_current_binding :: job_binding
  dx_binding :: "string \<Rightarrow> string \<Rightarrow> string \<Rightarrow> bool \<times> string"
  dx_client_error :: "string option"
  dx_pipeline_error :: "string option"
  dx_lane_busy :: bool
  dx_latest_summary :: "json option"
  dx_callback_error :: "string option"
  dx_shape_error :: string

datatype run_outcome = Got json | OverBudget string | Broke string | Stopped

datatype run_phase = RScheduled | RPreflight | RLane | RCollect

record execution =
  ex_phase :: run_phase
  ex_row :: discovery_job
  ex_cancelled :: bool
  ex_calls :: int
  ex_exceeded :: bool

record discovery_world =
  dw_db :: discovery_db
  dw_audit :: audit_db
  dw_exec :: "execution option"
  dw_online :: bool
  dw_stopping :: bool
  dw_calls :: "string list"   \<comment> \<open>history: the job of every call made\<close>

definition DISCOVERY_CALL_ESTIMATES :: "(string \<times> int) list" where
  "DISCOVERY_CALL_ESTIMATES = [(''quick'', 4), (''standard'', 9), (''deep'', 12)]"


section \<open>Audit\<close>

fun py_value :: "json \<Rightarrow> pyval" where
  "py_value JNull = PyNone"
| "py_value (JBool b) = PyBool b"
| "py_value (JInt n) = PyInt n"
| "py_value (JNum t) = PyFloat t"
| "py_value (JStr s) = PyStr s"
| "py_value (JArr xs) = PyList (map py_value xs)"
| "py_value (JObj kvs) = PyDict (map (\<lambda>(k, v). (k, py_value v)) kvs)"

text \<open>\<open>_record\<close>: a failure to record is ignored.\<close>

definition record_job_event ::
  "discovery_env \<Rightarrow> string \<Rightarrow> string \<Rightarrow> string \<Rightarrow> string \<Rightarrow> string \<Rightarrow> string \<Rightarrow> (string \<times> pyval) list \<Rightarrow>
    discovery_world \<Rightarrow> discovery_world" where
  "record_job_event env event_type action i actor outcome summary metadata w = w\<lparr>dw_audit :=
     snd (record_event (dx_digest env) (dx_event_id env) (dx_now env) (dx_actor env)
       \<lparr>ar_event_type = event_type, ar_action = action, ar_target_type = ''discovery-job'', ar_target_id = i,
        ar_outcome = outcome, ar_summary = summary, ar_metadata = metadata, ar_actor = actor\<rparr> (dw_audit w))\<rparr>"

definition record_completion ::
  "discovery_env \<Rightarrow> discovery_job \<Rightarrow> job_status \<Rightarrow> json \<Rightarrow> int \<Rightarrow> discovery_world \<Rightarrow> discovery_world" where
  "record_completion env j status summary calls_used = record_job_event env ''discovery.job.completed'' ''complete''
     (dj_id j) (dj_requested_by j) (status_text status)
     (or_else (str_or_empty (dx_repr env) (json_member ''headline'' summary)) ''Manual discovery finished.'')
     [(''depth'', PyStr (dj_depth j)), (''status'', PyStr (status_text status)), (''splunk_calls'', PyInt calls_used),
      (''call_budget'', PyInt (dj_call_budget j)),
      (''discovery_run_id'', case json_member ''discovery_run_id'' summary of None \<Rightarrow> PyStr [] | Some v \<Rightarrow> py_value v),
      (''connection_alias'', PyStr (dj_alias j)), (''connection_fingerprint'', PyStr (dj_fingerprint j)),
      (''tenant_scope_id'', PyStr (dj_tenant j))]"


section \<open>The summary of a result\<close>

text \<open>\<open>v.get(k, {})\<close>, \<open>len(v)\<close> and the elements of a list; any other shape raises.\<close>

definition get_dict :: "string \<Rightarrow> string \<Rightarrow> json \<Rightarrow> json result" where
  "get_dict err k v = (case v of JObj kvs \<Rightarrow> Inr (case map_of kvs k of None \<Rightarrow> JObj [] | Some x \<Rightarrow> x)
     | _ \<Rightarrow> Inl (RuntimeError err))"

definition size_of :: "string \<Rightarrow> json \<Rightarrow> int result" where
  "size_of err v = (case v of JArr xs \<Rightarrow> Inr (int (length xs)) | JObj kvs \<Rightarrow> Inr (int (length kvs))
     | JStr s \<Rightarrow> Inr (int (length s)) | _ \<Rightarrow> Inl (RuntimeError err))"

definition items_of :: "string \<Rightarrow> json \<Rightarrow> json list result" where
  "items_of err v = (case v of JArr xs \<Rightarrow> Inr xs | JObj [] \<Rightarrow> Inr [] | JStr [] \<Rightarrow> Inr []
     | _ \<Rightarrow> Inl (RuntimeError err))"

definition high_severity :: "string \<Rightarrow> json \<Rightarrow> bool result" where
  "high_severity err item = (case item of
     JObj kvs \<Rightarrow> (case map_of kvs ''severity'' of
         Some (JArr xs) \<Rightarrow> Inl (RuntimeError err)
       | Some (JObj ys) \<Rightarrow> Inl (RuntimeError err)
       | s \<Rightarrow> Inr (s = Some (JStr ''critical'') \<or> s = Some (JStr ''high'')))
   | _ \<Rightarrow> Inl (RuntimeError err))"

fun count_high :: "string \<Rightarrow> json list \<Rightarrow> int result" where
  "count_high err [] = Inr 0"
| "count_high err (x # xs) =
     try_bind (high_severity err x) (\<lambda>h. try_bind (count_high err xs) (\<lambda>n. Inr ((if h then 1 else 0) + n)))"

fun inventory_drift :: "string \<Rightarrow> (string \<times> json) list \<Rightarrow> int result" where
  "inventory_drift err [] = Inr 0"
| "inventory_drift err ((k, v) # kvs) = (case v of
     JObj ys \<Rightarrow> try_bind (get_dict err ''added'' v) (\<lambda>a. try_bind (get_dict err ''removed'' v) (\<lambda>r.
       try_bind (size_of err a) (\<lambda>n. try_bind (size_of err r) (\<lambda>m. try_bind (inventory_drift err kvs) (\<lambda>rest. Inr (n + m + rest))))))
   | _ \<Rightarrow> inventory_drift err kvs)"

definition dict_items :: "string \<Rightarrow> json \<Rightarrow> (string \<times> json) list result" where
  "dict_items err v = (case v of JObj kvs \<Rightarrow> Inr kvs | _ \<Rightarrow> Inl (RuntimeError err))"

definition get_int :: "string \<Rightarrow> string \<Rightarrow> json \<Rightarrow> int result" where
  "get_int err k v = (case v of JObj kvs \<Rightarrow>
       (case map_of kvs k of None \<Rightarrow> Inr 0 | Some x \<Rightarrow>
          (case py_int x of None \<Rightarrow> Inl (RuntimeError err) | Some n \<Rightarrow> Inr n))
     | _ \<Rightarrow> Inl (RuntimeError err))"

definition job_summary :: "discovery_env \<Rightarrow> json \<Rightarrow> json result" where
  "job_summary env result =
     try_bind (get_dict (dx_shape_error env) ''changes'' result) (\<lambda>changes.
     try_bind (get_dict (dx_shape_error env) ''inventory'' changes) (\<lambda>inventory.
     try_bind (dict_items (dx_shape_error env) inventory) (\<lambda>kvs.
     try_bind (inventory_drift (dx_shape_error env) kvs) (\<lambda>drift.
     try_bind (get_dict (dx_shape_error env) ''findings'' result) (\<lambda>findings.
     try_bind (get_dict (dx_shape_error env) ''collection_status'' result) (\<lambda>collection.
     try_bind (get_int (dx_shape_error env) ''failed_calls'' collection) (\<lambda>failures.
     try_bind (size_of (dx_shape_error env) findings) (\<lambda>found.
     try_bind (items_of (dx_shape_error env) findings) (\<lambda>items.
     try_bind (count_high (dx_shape_error env) items) (\<lambda>high.
     try_bind (get_dict (dx_shape_error env) ''coverage'' changes) (\<lambda>coverage_changes.
     try_bind (size_of (dx_shape_error env) coverage_changes) (\<lambda>coverage_drift.
     try_bind (get_dict (dx_shape_error env) ''coverage'' result) (\<lambda>coverage.
     try_bind (dict_items (dx_shape_error env) coverage) (\<lambda>scores.
       Inr (JObj [(''discovery_run_id'', case json_member ''run_id'' result of None \<Rightarrow> JStr [] | Some v \<Rightarrow> v),
         (''findings'', JInt found), (''high_findings'', JInt high), (''inventory_drift'', JInt drift),
         (''coverage_drift'', JInt coverage_drift), (''collection_failures'', JInt failures),
         (''coverage_score'', case map_of scores ''score'' of None \<Rightarrow> JNull | Some v \<Rightarrow> v),
         (''headline'', JStr (int_text found @ '' findings'' @ dot @ int_text drift @ '' inventory changes'' @ dot
            @ int_text failures @ '' collection gaps.''))])))))))))))))))"

definition projection :: "discovery_env \<Rightarrow> json \<Rightarrow> json result" where
  "projection env result = (case dx_latest_summary env of
     Some v \<Rightarrow> if json_true v then Inr v else try_bind (dict_items (dx_shape_error env) result)
        (\<lambda>kvs. Inr (JObj (filter (\<lambda>(k, v). \<not> List.member [''catalogs'', ''raw_inventory'', ''raw_results''] k) kvs)))
   | None \<Rightarrow> try_bind (dict_items (dx_shape_error env) result)
        (\<lambda>kvs. Inr (JObj (filter (\<lambda>(k, v). \<not> List.member [''catalogs'', ''raw_inventory'', ''raw_results''] k) kvs))))"

text \<open>The summary of a job that never reached Splunk.\<close>

definition blocked_summary :: "string \<Rightarrow> string \<Rightarrow> json" where
  "blocked_summary stage headline = JObj [(''discovery_run_id'', JStr []), (''findings'', JInt 0),
     (''collection_failures'', JInt 0), (''connection_blocked'', JBool True), (''blocking_stage'', JStr stage),
     (''headline'', JStr headline)]"


section \<open>An execution\<close>

abbreviation ex_id :: "execution \<Rightarrow> string" where
  "ex_id e \<equiv> dj_id (ex_row e)"

definition with_db :: "(discovery_db \<Rightarrow> discovery_db) \<Rightarrow> discovery_world \<Rightarrow> discovery_world" where
  "with_db f w = w\<lparr>dw_db := f (dw_db w)\<rparr>"

definition run_over :: "discovery_world \<Rightarrow> discovery_world" where
  "run_over w = w\<lparr>dw_exec := None\<rparr>"

definition at_run_phase :: "execution \<Rightarrow> run_phase \<Rightarrow> discovery_world \<Rightarrow> discovery_world" where
  "at_run_phase e ph w = w\<lparr>dw_exec := Some (e\<lparr>ex_phase := ph\<rparr>)\<rparr>"

text \<open>\<open>progress\<close>: refuses with a cancellation once one was requested.\<close>

definition run_progress :: "discovery_env \<Rightarrow> execution \<Rightarrow> progress_event \<Rightarrow> discovery_world \<Rightarrow> discovery_world result" where
  "run_progress env e ev w =
     (let current = find_job (ex_id e) (dw_db w) in
      if (case current of None \<Rightarrow> False | Some j \<Rightarrow> dj_cancel_requested j) then Inl CancelledError
      else let shown = (case pe_progress ev of None \<Rightarrow> (case current of None \<Rightarrow> 0 | Some j \<Rightarrow> dj_progress j) | Some n \<Rightarrow> n);
          merged = ev\<lparr>pe_progress := Some shown, pe_metrics := dict_of (pe_metrics ev @
            [(''splunk_calls'', JInt (ex_calls e)), (''call_budget'', JInt (dj_call_budget (ex_row e)))])\<rparr>
        in Inr (with_db (update_job_progress (dx_now env) (ex_id e) merged (ex_calls e)) w))"

definition run_stopped :: "discovery_env \<Rightarrow> execution \<Rightarrow> discovery_world \<Rightarrow> discovery_world" where
  "run_stopped env e w = run_over (with_db
     (\<lambda>db. if (case find_job (ex_id e) db of None \<Rightarrow> False | Some j \<Rightarrow> dj_cancel_requested j)
        then fail_job (dx_now env) (ex_id e) JCancelled
          ''Cancelled by the operator. No further Splunk calls will be made.'' (ex_calls e) db
        else requeue_for_restart (dx_now env) (ex_id e) db) w)"

definition run_completed ::
  "discovery_env \<Rightarrow> execution \<Rightarrow> job_status \<Rightarrow> json \<Rightarrow> json option \<Rightarrow> discovery_world \<Rightarrow> discovery_world" where
  "run_completed env e status summary result w =
     record_completion env (ex_row e) status summary (ex_calls e)
       (with_db (complete_job (dx_repr env) (dx_now env) (ex_id e) status summary result (ex_calls e)) w)"

definition run_over_budget :: "discovery_env \<Rightarrow> execution \<Rightarrow> string \<Rightarrow> discovery_world \<Rightarrow> discovery_world" where
  "run_over_budget env e m w = run_over (run_completed env e JBudgetBlocked
     (JObj [(''discovery_run_id'', JStr []), (''findings'', JInt 0), (''collection_failures'', JInt 1), (''headline'', JStr m)])
     None w)"

definition run_broke :: "discovery_env \<Rightarrow> execution \<Rightarrow> string \<Rightarrow> discovery_world \<Rightarrow> discovery_world" where
  "run_broke env e m w = run_over (record_job_event env ''discovery.job.failed'' ''execute'' (ex_id e)
     (dj_requested_by (ex_row e)) ''error'' m
     [(''depth'', PyStr (dj_depth (ex_row e))), (''splunk_calls'', PyInt (ex_calls e)),
      (''call_budget'', PyInt (dj_call_budget (ex_row e))), (''connection_fingerprint'', PyStr (dj_fingerprint (ex_row e))),
      (''tenant_scope_id'', PyStr (dj_tenant (ex_row e)))]
     (with_db (fail_job (dx_now env) (ex_id e) JError m (ex_calls e)) w))"

text \<open>
  The start of \<open>_execute\<close>. A task that is cancelled before its first step raises into the worker, which leaves its
  loop; a client that cannot be built raises into the worker too, outside the \<open>try\<close>.
\<close>

definition start_run :: "discovery_env \<Rightarrow> execution \<Rightarrow> discovery_world \<Rightarrow> discovery_world" where
  "start_run env e w =
     (if ex_cancelled e then w\<lparr>dw_exec := None, dw_online := False\<rparr>
      else case mark_job_running (dx_now env) (ex_id e) (dw_db w) of
        (None, db) \<Rightarrow> run_over (w\<lparr>dw_db := db\<rparr>)
      | (Some running, db) \<Rightarrow>
         (let e1 = e\<lparr>ex_row := running\<rparr>; w1 = w\<lparr>dw_db := db\<rparr>;
              (valid, reason) = dx_binding env (dj_alias running) (dj_fingerprint running) (dj_tenant running) in
          if \<not> valid
          then run_over (run_completed env e1 JConnectionBlocked (blocked_summary ''connection-identity'' reason) None w1)
          else case dx_client_error env of
            Some m \<Rightarrow> run_over (record_job_event env ''discovery.worker.error'' ''execute'' [] ''system'' ''error''
              (''Manual discovery worker error: '' @ m) [] w1)
          | None \<Rightarrow>
             (case run_progress env e1 \<lparr>pe_phase = ''connection:preflight'', pe_label = ''Checking Splunk connection readiness'',
                 pe_detail = ''No Splunk discovery calls will run until transport, TLS, authentication, and required MCP tools are ready.'',
                 pe_status = ''running'', pe_progress = Some 2, pe_metrics = [(''splunk_calls'', JInt 0)]\<rparr> w1 of
                Inl _ \<Rightarrow> run_stopped env e1 w1
              | Inr w2 \<Rightarrow> at_run_phase e1 RPreflight w2)))"

text \<open>The readiness report has the shape that the connection diagnostics give it.\<close>

definition depth_ready :: "discovery_job \<Rightarrow> json \<Rightarrow> bool" where
  "depth_ready j readiness = (case json_member ''depth_readiness'' readiness of None \<Rightarrow> False
     | Some ready \<Rightarrow> (case json_member (dj_depth j) ready of None \<Rightarrow> False | Some v \<Rightarrow> json_true v))"

definition blocking_stage :: "discovery_env \<Rightarrow> json \<Rightarrow> string" where
  "blocking_stage env readiness = or_else (str_or_empty (dx_repr env) (json_member ''blocking_stage'' readiness)) ''tool-contract''"

definition stage_detail :: "discovery_env \<Rightarrow> discovery_job \<Rightarrow> json \<Rightarrow> string" where
  "stage_detail env j readiness =
     (let stages = (case json_member ''stages'' readiness of Some (JArr xs) \<Rightarrow> xs | _ \<Rightarrow> []);
          stage = (case List.find (\<lambda>s. json_member ''id'' s = Some (JStr (blocking_stage env readiness))) stages of
            None \<Rightarrow> JObj [] | Some s \<Rightarrow> s)
      in or_else (str_or_empty (dx_repr env) (json_member ''detail'' stage))
           (''The endpoint is not ready for '' @ dj_depth j @ '' discovery.''))"

definition after_readiness :: "discovery_env \<Rightarrow> execution \<Rightarrow> json \<Rightarrow> discovery_world \<Rightarrow> discovery_world" where
  "after_readiness env e readiness w =
     (if \<not> depth_ready (ex_row e) readiness
      then run_over (run_completed env e JConnectionBlocked
        (blocked_summary (blocking_stage env readiness) (stage_detail env (ex_row e) readiness)) None w)
      else case dx_pipeline_error env of
        Some m \<Rightarrow> run_broke env e m w
      | None \<Rightarrow> if \<not> dx_lane_busy env then at_run_phase e RCollect w
          else (case run_progress env e \<lparr>pe_phase = ''instance-queue'', pe_label = ''Waiting for the Splunk discovery lane'',
              pe_detail = ''Another manual discovery, assurance run, or MLTK inventory owns the single-instance read-only lane.'',
              pe_status = ''running'', pe_progress = Some 1, pe_metrics = [(''instance_concurrency'', JInt 1)]\<rparr> w of
              Inl _ \<Rightarrow> run_stopped env e w
            | Inr w1 \<Rightarrow> at_run_phase e RLane w1))"

text \<open>\<open>pipeline.run\<close> returned: the result is summarised and stored, and the callback runs.\<close>

definition result_status :: "execution \<Rightarrow> json \<Rightarrow> job_status" where
  "result_status e summary = (if ex_exceeded e then JBudgetBlocked
     else if (case json_member ''collection_failures'' summary of None \<Rightarrow> False | Some v \<Rightarrow> json_true v) then JPartial
     else JComplete)"

definition final_summary :: "execution \<Rightarrow> json \<Rightarrow> json" where
  "final_summary e summary = (case summary of
     JObj kvs \<Rightarrow> if ex_exceeded e then JObj (dict_of (kvs @ [(''headline'', JStr (''The '' @ int_text (dj_call_budget (ex_row e))
         @ ''-call ceiling was reached; review the retained partial result and collection gaps.''))])) else summary
   | _ \<Rightarrow> summary)"

definition after_pipeline :: "discovery_env \<Rightarrow> execution \<Rightarrow> json \<Rightarrow> discovery_world \<Rightarrow> discovery_world" where
  "after_pipeline env e result w =
     (case try_bind (projection env result) (\<lambda>p. try_bind (job_summary env result) (\<lambda>s. Inr (p, s))) of
        Inl err \<Rightarrow> run_broke env e (error_message err) w
      | Inr (projected, summary) \<Rightarrow>
         (let w1 = run_completed env e (result_status e summary) (final_summary e summary) (Some projected) w in
          case dx_callback_error env of None \<Rightarrow> run_over w1 | Some m \<Rightarrow> run_broke env e m w1))"

definition resume_run :: "discovery_env \<Rightarrow> execution \<Rightarrow> run_outcome \<Rightarrow> discovery_world \<Rightarrow> discovery_world" where
  "resume_run env e out w = (case ex_phase e of
     RScheduled \<Rightarrow> start_run env e w
   | _ \<Rightarrow> (case out of
       OverBudget m \<Rightarrow> run_over_budget env e m w
     | Broke m \<Rightarrow> run_broke env e m w
     | Stopped \<Rightarrow> run_stopped env e w
     | Got v \<Rightarrow> (case ex_phase e of
         RPreflight \<Rightarrow> after_readiness env e v w
       | RLane \<Rightarrow> at_run_phase e RCollect w
       | _ \<Rightarrow> after_pipeline env e v w)))"

text \<open>\<open>BudgetedSplunkClient.call\<close>, which the pipeline uses.\<close>

definition budgeted_call :: "execution \<Rightarrow> discovery_world \<Rightarrow> discovery_world" where
  "budgeted_call e w = (if dj_call_budget (ex_row e) \<le> ex_calls e
     then w\<lparr>dw_exec := Some (e\<lparr>ex_exceeded := True\<rparr>)\<rparr>
     else w\<lparr>dw_exec := Some (e\<lparr>ex_calls := ex_calls e + 1\<rparr>), dw_calls := dw_calls w @ [ex_id e]\<rparr>)"


section \<open>Requests and the worker\<close>

definition enqueue_job ::
  "discovery_env \<Rightarrow> string \<Rightarrow> string \<Rightarrow> job_binding option \<Rightarrow> discovery_world \<Rightarrow> discovery_job result \<times> discovery_world" where
  "enqueue_job env depth requested_by binding w =
     (case map_of DISCOVERY_CALL_ESTIMATES depth of
        None \<Rightarrow> (Inl (ValueError (''Unsupported discovery depth: '' @ depth)), w)
      | Some budget \<Rightarrow>
          if active_job None (dw_db w) \<noteq> None
          then (Inl (ValueError ''A manual discovery job is already queued or running''), w)
          else case create_job (dx_now env) (dx_job_id env) depth (or_else requested_by ''local-operator'') budget
              (case binding of None \<Rightarrow> dx_current_binding env | Some b \<Rightarrow> b) (dw_db w) of
            Inl e \<Rightarrow> (Inl e, w)
          | Inr (j, db) \<Rightarrow> (Inr j, w\<lparr>dw_db := db\<rparr>))"

text \<open>\<open>cancel\<close> up to its wait for the active task, which it cancels when that runs the job.\<close>

definition cancel_job :: "discovery_env \<Rightarrow> string \<Rightarrow> discovery_world \<Rightarrow> discovery_job option \<times> discovery_world" where
  "cancel_job env i w =
     (let (found, db) = request_job_cancel (dx_now env) i (dw_db w); w1 = w\<lparr>dw_db := db\<rparr> in
      (found, case dw_exec w of None \<Rightarrow> w1
        | Some e \<Rightarrow> if found \<noteq> None \<and> ex_id e = i then w1\<lparr>dw_exec := Some (e\<lparr>ex_cancelled := True\<rparr>)\<rparr> else w1))"

text \<open>One round of \<open>_work_loop\<close> while no task is active: it leaves the loop or schedules the oldest queued job.\<close>

definition worker_round :: "discovery_world \<Rightarrow> discovery_world" where
  "worker_round w = (if \<not> dw_online w \<or> dw_exec w \<noteq> None then w
     else if dw_stopping w then w\<lparr>dw_online := False\<rparr>
     else case next_queued (dw_db w) of None \<Rightarrow> w
       | Some j \<Rightarrow> w\<lparr>dw_exec := Some \<lparr>ex_phase = RScheduled, ex_row = j, ex_cancelled = False, ex_calls = 0,
           ex_exceeded = False\<rparr>\<rparr>)"

definition stop_worker :: "discovery_world \<Rightarrow> discovery_world" where
  "stop_worker w = w\<lparr>dw_stopping := True, dw_online := dw_online w \<and> dw_exec w \<noteq> None,
     dw_exec := map_option (\<lambda>e. e\<lparr>ex_cancelled := True\<rparr>) (dw_exec w)\<rparr>"

definition start_worker :: "discovery_env \<Rightarrow> discovery_world \<Rightarrow> discovery_world" where
  "start_worker env w = (if dw_online w then w
     else w\<lparr>dw_stopping := False, dw_db := snd (recover_interrupted_jobs (dx_now env) (dw_db w)), dw_online := True\<rparr>)"

datatype discovery_op =
    EnqueueJob string string "job_binding option"
  | CancelJob string
  | WorkerRound
  | ResumeRun run_outcome
  | SplunkCall
  | ReportProgress progress_event
  | StopWorker
  | StartWorker
  | CrashAndReopen

fun discovery_step :: "discovery_env \<times> discovery_op \<Rightarrow> discovery_world \<Rightarrow> discovery_world" where
  "discovery_step (env, EnqueueJob depth by binding) w = snd (enqueue_job env depth by binding w)"
| "discovery_step (env, CancelJob i) w = snd (cancel_job env i w)"
| "discovery_step (env, WorkerRound) w = worker_round w"
| "discovery_step (env, ResumeRun out) w = (case dw_exec w of None \<Rightarrow> w | Some e \<Rightarrow> resume_run env e out w)"
| "discovery_step (env, SplunkCall) w = (case dw_exec w of None \<Rightarrow> w
     | Some e \<Rightarrow> if ex_phase e = RCollect then budgeted_call e w else w)"
| "discovery_step (env, ReportProgress ev) w = (case dw_exec w of None \<Rightarrow> w
     | Some e \<Rightarrow> if ex_phase e = RScheduled then w
         else (case run_progress env e ev w of Inl _ \<Rightarrow> w | Inr w' \<Rightarrow> w'))"
| "discovery_step (env, StopWorker) w = stop_worker w"
| "discovery_step (env, StartWorker) w = start_worker env w"
| "discovery_step (env, CrashAndReopen) w = w\<lparr>dw_db := open_discovery (dx_now env) (dw_db w), dw_exec := None,
     dw_online := False, dw_stopping := False\<rparr>"

definition idle_discovery :: discovery_world where
  "idle_discovery = \<lparr>dw_db = empty_discovery, dw_audit = empty_audit, dw_exec = None, dw_online = False,
     dw_stopping = False, dw_calls = []\<rparr>"

end
