(* ===== verification/Discovery_Lifecycle.thy ===== *)
theory Discovery_Lifecycle
  imports Discovery_Service
begin

text \<open>
  What the manual discovery queue promises over every interleaving (definitions in \<open>Discovery_Store\<close> and
  \<open>Discovery_Service\<close>): it implements the single-lane specification of \<open>Job_Lane\<close>. The table is used through the
  lookup by id; every operation changes the row of one job by a row function.
\<close>


section \<open>The table as a map\<close>

lemma row_simps [simp]:
  "dj_id (started_job now j) = dj_id j" "dj_status (started_job now j) = JRunning"
  "dj_call_budget (started_job now j) = dj_call_budget j" "dj_recovery_count (started_job now j) = dj_recovery_count j"
  "dj_cancel_requested (started_job now j) = False" "dj_alias (started_job now j) = dj_alias j"
  "dj_fingerprint (started_job now j) = dj_fingerprint j" "dj_tenant (started_job now j) = dj_tenant j"
  "dj_id (progressed_job now e n j) = dj_id j" "dj_status (progressed_job now e n j) = dj_status j"
  "dj_call_budget (progressed_job now e n j) = dj_call_budget j" "dj_recovery_count (progressed_job now e n j) = dj_recovery_count j"
  "dj_id (completed_job repr now s v r n j) = dj_id j" "dj_status (completed_job repr now s v r n j) = s"
  "dj_call_budget (completed_job repr now s v r n j) = dj_call_budget j"
  "dj_recovery_count (completed_job repr now s v r n j) = dj_recovery_count j"
  "dj_id (failed_job now s err n j) = dj_id j" "dj_status (failed_job now s err n j) = s"
  "dj_call_budget (failed_job now s err n j) = dj_call_budget j" "dj_recovery_count (failed_job now s err n j) = dj_recovery_count j"
  "dj_id (withdrawn_job now j) = dj_id j" "dj_status (withdrawn_job now j) = JCancelled"
  "dj_call_budget (withdrawn_job now j) = dj_call_budget j" "dj_recovery_count (withdrawn_job now j) = dj_recovery_count j"
  "dj_id (requeued_job now j) = dj_id j" "dj_status (requeued_job now j) = JQueued"
  "dj_call_budget (requeued_job now j) = dj_call_budget j" "dj_recovery_count (requeued_job now j) = dj_recovery_count j + 1"
  by (simp_all add: started_job_def progressed_job_def completed_job_def failed_job_def withdrawn_job_def requeued_job_def)

lemma find_job_id: "find_job i db = Some j \<Longrightarrow> dj_id j = i"
  by (auto simp: find_job_def dest: sql_first_SomeD)

lemma find_insert_event [simp]: "find_job k (insert_event i ph l d s p m now db) = find_job k db"
  by (simp add: insert_event_def find_job_def)

lemma jobs_insert_event [simp]: "dd_jobs (insert_event i ph l d s p m now db) = dd_jobs db"
  by (simp add: insert_event_def)

lemma find_update_job:
  assumes "\<And>j. dj_id (f j) = dj_id j"
  shows "find_job k (update_jobs (\<lambda>j. dj_id j = i \<and> p j) f db) =
    (if k = i then map_option (\<lambda>j. if p j then f j else j) (find_job i db) else find_job k db)"
proof -
  have "find_job k (update_jobs (\<lambda>j. dj_id j = i \<and> p j) f db)
      = map_option (\<lambda>j. if dj_id j = i \<and> p j then f j else j) (find_job k db)"
    unfolding find_job_def update_jobs_def using assms by (simp add: sql_first_update)
  then show ?thesis using find_job_id [of k db] by (cases "find_job k db") auto
qed

lemma find_set_job:
  assumes "\<And>j. dj_id (f j) = dj_id j"
  shows "find_job k (update_jobs (\<lambda>j. dj_id j = i) f db) = (if k = i then map_option f (find_job i db) else find_job k db)"
  using find_update_job [OF assms, of k i "\<lambda>j. True"] by simp

lemma ids_update_jobs: "(\<And>j. dj_id (f j) = dj_id j) \<Longrightarrow> map dj_id (dd_jobs (update_jobs p f db)) = map dj_id (dd_jobs db)"
  by (simp add: update_jobs_def map_sql_update)

lemma find_complete [simp]: "find_job k (complete_job repr now i s v r n db) =
    (if k = i then map_option (completed_job repr now s v (case r of Some x \<Rightarrow> if json_true x then x else JObj [] | None \<Rightarrow> JObj []) n)
       (find_job i db) else find_job k db)"
  by (simp add: complete_job_def Let_def find_set_job)

lemma find_fail_job [simp]: "find_job k (fail_job now i s err n db) =
    (if k = i then map_option (failed_job now s err n) (find_job i db) else find_job k db)"
  by (simp add: fail_job_def find_set_job)

lemma find_requeue_job [simp]: "find_job k (requeue_for_restart now i db) =
    (if k = i then map_option (requeued_job now) (find_job i db) else find_job k db)"
  by (simp add: requeue_for_restart_def find_set_job)

lemma find_progress [simp]: "find_job k (update_job_progress now i e n db) =
    (if k = i then map_option (\<lambda>j. if dj_status j = JRunning then progressed_job now e n j else j) (find_job i db) else find_job k db)"
  by (simp add: update_job_progress_def find_update_job)

lemma ids_ops [simp]:
  "map dj_id (dd_jobs (complete_job repr now i s v r n db)) = map dj_id (dd_jobs db)"
  "map dj_id (dd_jobs (fail_job now i s err n db)) = map dj_id (dd_jobs db)"
  "map dj_id (dd_jobs (requeue_for_restart now i db)) = map dj_id (dd_jobs db)"
  "map dj_id (dd_jobs (update_job_progress now i e n db)) = map dj_id (dd_jobs db)"
  by (simp_all add: complete_job_def fail_job_def requeue_for_restart_def update_job_progress_def Let_def ids_update_jobs)

lemma find_job_iff: "distinct (map dj_id (dd_jobs db)) \<Longrightarrow> find_job i db = Some j \<longleftrightarrow> j \<in> set (dd_jobs db) \<and> dj_id j = i"
  by (simp add: find_job_def sql_first_key_iff)

lemma mark_job_running_cases:
  assumes "mark_job_running now i db = (r, db')" "distinct (map dj_id (dd_jobs db))"
  obtains (refused) "r = None" "db' = db" "\<And>j. find_job i db = Some j \<Longrightarrow> dj_status j \<noteq> JQueued"
  | (started) j where "find_job i db = Some j" "dj_status j = JQueued" "r = Some (started_job now j)"
      "\<And>k. find_job k db' = (if k = i then Some (started_job now j) else find_job k db)"
      "map dj_id (dd_jobs db') = map dj_id (dd_jobs db)"
proof (cases "list_ex (\<lambda>j. dj_id j = i \<and> dj_status j = JQueued) (dd_jobs db)")
  case True
  then obtain j where j: "find_job i db = Some j" "dj_status j = JQueued"
    using find_job_iff [OF assms(2)] by (auto simp: list_ex_iff)
  then show ?thesis using assms(1) True
    by (intro started [OF j]) (auto simp: mark_job_running_def Let_def find_update_job ids_update_jobs)
next
  case False
  then have "find_job i db = Some j \<Longrightarrow> dj_status j \<noteq> JQueued" for j
    using find_job_iff [OF assms(2)] by (auto simp: list_ex_iff)
  with False show ?thesis using assms(1) by (intro refused) (auto simp: mark_job_running_def)
qed

lemma request_job_cancel_cases:
  assumes "request_job_cancel now i db = (r, db')"
  obtains (absent) "r = None" "db' = db" "find_job i db = None"
  | (withdrawn) j where "find_job i db = Some j" "dj_status j = JQueued" "r \<noteq> None"
      "\<And>k. find_job k db' = (if k = i then Some (withdrawn_job now j) else find_job k db)"
      "map dj_id (dd_jobs db') = map dj_id (dd_jobs db)"
  | (flagged) j j' where "find_job i db = Some j" "dj_status j = JRunning" "r \<noteq> None"
      "dj_status j' = dj_status j" "dj_call_budget j' = dj_call_budget j" "dj_recovery_count j' = dj_recovery_count j"
      "dj_cancel_requested j'" "\<And>k. find_job k db' = (if k = i then Some j' else find_job k db)"
      "map dj_id (dd_jobs db') = map dj_id (dd_jobs db)"
  | (ended) j where "find_job i db = Some j" "\<not> job_active (dj_status j)" "r \<noteq> None" "db' = db"
proof (cases "find_job i db")
  case None
  then show ?thesis using assms by (intro absent) (auto simp: request_job_cancel_def)
next
  case (Some j)
  consider "dj_status j = JQueued" | "dj_status j = JRunning" | "\<not> job_active (dj_status j)" by (auto simp: job_active_def)
  then show ?thesis
  proof cases
    case 1
    then show ?thesis using assms Some
      by (intro withdrawn [OF Some 1]) (auto simp: request_job_cancel_def Let_def find_set_job ids_update_jobs)
  next
    case 2
    let ?f = "\<lambda>x. x\<lparr>dj_cancel_requested := True,
      dj_detail := ''Cancellation requested; no further Splunk calls will be scheduled.'', dj_updated_at := now\<rparr>"
    show ?thesis using assms Some 2
      by (intro flagged [OF Some 2, of "?f j"])
        (auto simp: request_job_cancel_def Let_def find_set_job ids_update_jobs)
  next
    case 3
    then show ?thesis using assms Some by (intro ended [OF Some 3]) (auto simp: request_job_cancel_def job_active_def Some Let_def dest: sym)
  qed
qed

lemma next_queued_Some: "next_queued db = Some j \<Longrightarrow> j \<in> set (dd_jobs db) \<and> dj_status j = JQueued"
  by (auto simp: next_queued_def dest: sql_first_SomeD)

lemma active_job_None: "active_job None db = None \<longleftrightarrow> (\<forall>j \<in> set (dd_jobs db). \<not> job_active (dj_status j))"
  by (auto simp: active_job_def sql_first_None of_tenant_def)

lemma next_queued_None: "next_queued db = None \<longleftrightarrow> (\<forall>j \<in> set (dd_jobs db). dj_status j \<noteq> JQueued)"
  by (auto simp: next_queued_def sql_first_None)


section \<open>The lane of a table\<close>

definition db_lane :: "discovery_db \<Rightarrow> string list \<Rightarrow> (string \<times> int) option \<Rightarrow> lane" where
  "db_lane db calls x = \<lparr>ln_status = (\<lambda>i. map_option dj_status (find_job i db)),
     ln_budget = (\<lambda>i. case find_job i db of None \<Rightarrow> 0 | Some j \<Rightarrow> dj_call_budget j),
     ln_recoveries = (\<lambda>i. case find_job i db of None \<Rightarrow> 0 | Some j \<Rightarrow> dj_recovery_count j),
     ln_calls = (\<lambda>i. int (count_list calls i)), ln_exec = x\<rparr>"

lemma db_lane_simps [simp]:
  "ln_status (db_lane db calls x) i = map_option dj_status (find_job i db)" "ln_exec (db_lane db calls x) = x"
  "ln_calls (db_lane db calls x) i = int (count_list calls i)"
  "find_job i db = Some j \<Longrightarrow> ln_budget (db_lane db calls x) i = dj_call_budget j"
  "find_job i db = Some j \<Longrightarrow> ln_recoveries (db_lane db calls x) i = dj_recovery_count j"
  by (simp_all add: db_lane_def)

lemma db_lane_cong:
  "(\<And>k. find_job k db' = find_job k db) \<Longrightarrow> db_lane db' calls x = db_lane db calls x"
  by (simp add: db_lane_def)

text \<open>Replacing the row of one job.\<close>

lemma db_lane_set:
  assumes "find_job i db = Some j" "\<And>k. find_job k db' = (if k = i then Some j' else find_job k db)"
    and "dj_call_budget j' = dj_call_budget j"
  shows "db_lane db' calls x = (db_lane db calls y)\<lparr>ln_status := (ln_status (db_lane db calls y))(i \<mapsto> dj_status j'),
    ln_recoveries := (ln_recoveries (db_lane db calls y))(i := dj_recovery_count j'), ln_exec := x\<rparr>"
  using assms by (auto simp: db_lane_def fun_eq_iff)

lemma lane_set_same:
  assumes "find_job i db = Some j" "\<And>k. find_job k db' = (if k = i then Some j' else find_job k db)"
    and "dj_call_budget j' = dj_call_budget j" "dj_status j' = dj_status j" "dj_recovery_count j' = dj_recovery_count j"
  shows "db_lane db' calls x = db_lane db calls x"
  using assms by (auto simp: db_lane_def fun_eq_iff)

section \<open>Every operation is steps of the lane\<close>

definition started_exec :: "execution option \<Rightarrow> (string \<times> int) option" where
  "started_exec x = (case x of None \<Rightarrow> None | Some e \<Rightarrow> if ex_phase e = RScheduled then None else Some (ex_id e, ex_calls e))"

definition discovery_lane :: "discovery_world \<Rightarrow> lane" where
  "discovery_lane w = db_lane (dw_db w) (dw_calls w) (started_exec (dw_exec w))"

definition table_wf :: "discovery_db \<Rightarrow> bool" where
  "table_wf db = distinct (map dj_id (dd_jobs db))"

definition runs :: "execution \<Rightarrow> discovery_db \<Rightarrow> bool" where
  "runs e db = (\<exists>j. find_job (ex_id e) db = Some j \<and> dj_status j = JRunning \<and> dj_call_budget j = dj_call_budget (ex_row e))"

definition discovery_inv :: "discovery_world \<Rightarrow> bool" where
  "discovery_inv w = (table_wf (dw_db w) \<and> lane_inv (discovery_lane w) \<and>
     (\<forall>e. dw_exec w = Some e \<longrightarrow> dw_online w \<and>
       (if ex_phase e = RScheduled then ex_calls e = 0 else runs e (dw_db w))))"

text \<open>The lane while execution \<open>e\<close> runs over the tables of \<open>w\<close>, whatever \<open>w\<close> says of the execution.\<close>

definition lane_at :: "execution \<Rightarrow> discovery_world \<Rightarrow> lane" where
  "lane_at e w = db_lane (dw_db w) (dw_calls w) (Some (ex_id e, ex_calls e))"

definition at_run :: "execution \<Rightarrow> discovery_world \<Rightarrow> bool" where
  "at_run e w = (table_wf (dw_db w) \<and> lane_inv (lane_at e w) \<and> runs e (dw_db w) \<and> dw_online w)"

definition segment :: "execution \<Rightarrow> discovery_world \<Rightarrow> discovery_world \<Rightarrow> bool" where
  "segment e w w' = (discovery_inv w' \<and> lane_steps (lane_at e w) (discovery_lane w'))"

lemma lane_finish:
  assumes "find_job i db = Some j" "\<And>k. find_job k db' = (if k = i then Some j' else find_job k db)"
    and "dj_call_budget j' = dj_call_budget j" "dj_recovery_count j' = dj_recovery_count j" "\<not> job_active (dj_status j')"
  shows "lane_step (db_lane db c (Some (i, u))) (db_lane db' c None)"
proof -
  let ?l = "db_lane db c (Some (i, u))"
  have "db_lane db' c None = ?l\<lparr>ln_status := (ln_status ?l)(i \<mapsto> dj_status j'), ln_exec := None\<rparr>"
    unfolding db_lane_set [OF assms(1-3), where x = None and y = "Some (i, u)"]
    using assms(1,4) by (simp add: db_lane_def fun_eq_iff)
  then show ?thesis using lane_step.finish [of ?l i u "dj_status j'"] assms(5) by simp
qed

lemma lane_put_back:
  assumes "find_job i db = Some j" "\<And>k. find_job k db' = (if k = i then Some j' else find_job k db)"
    and "dj_call_budget j' = dj_call_budget j" "dj_recovery_count j' = dj_recovery_count j + 1" "dj_status j' = JQueued"
  shows "lane_step (db_lane db c (Some (i, u))) (db_lane db' c None)"
  unfolding db_lane_set [OF assms(1-3), where x = None and y = "Some (i, u)"]
  using lane_step.put_back [of "db_lane db c (Some (i, u))" i u] assms(1,4,5) by simp

lemma segment_end:
  assumes run: "at_run e w" and w': "dw_exec w' = None" "dw_calls w' = dw_calls w"
    and ids: "map dj_id (dd_jobs (dw_db w')) = map dj_id (dd_jobs (dw_db w))"
    and find: "\<And>k. find_job k (dw_db w') = (if k = ex_id e then map_option f (find_job (ex_id e) (dw_db w)) else find_job k (dw_db w))"
    and row: "\<And>j. dj_call_budget (f j) = dj_call_budget j"
    and ended: "(\<forall>j. dj_recovery_count (f j) = dj_recovery_count j \<and> \<not> job_active (dj_status (f j)))
      \<or> (\<forall>j. dj_recovery_count (f j) = dj_recovery_count j + 1 \<and> dj_status (f j) = JQueued)"
  shows "segment e w w'"
proof -
  obtain j where j: "find_job (ex_id e) (dw_db w) = Some j" using run by (auto simp: at_run_def runs_def)
  then have find': "find_job k (dw_db w') = (if k = ex_id e then Some (f j) else find_job k (dw_db w))" for k
    using find by simp
  have "lane_step (lane_at e w) (discovery_lane w')"
    using ended lane_finish [OF j find' row] lane_put_back [OF j find' row]
    by (auto simp: lane_at_def discovery_lane_def started_exec_def w')
  then have "lane_steps (lane_at e w) (discovery_lane w')" by blast
  moreover have "discovery_inv w'"
    using run ids lane_inv_steps [OF \<open>lane_steps (lane_at e w) (discovery_lane w')\<close>]
    by (simp add: discovery_inv_def at_run_def table_wf_def w')
  ultimately show ?thesis by (simp add: segment_def)
qed

lemma world_simps [simp]:
  "dw_db (record_job_event env t a i b out sm md w) = dw_db w" "dw_exec (record_job_event env t a i b out sm md w) = dw_exec w"
  "dw_online (record_job_event env t a i b out sm md w) = dw_online w" "dw_calls (record_job_event env t a i b out sm md w) = dw_calls w"
  "dw_stopping (record_job_event env t a i b out sm md w) = dw_stopping w"
  "dw_db (record_completion env j s v n w) = dw_db w" "dw_exec (record_completion env j s v n w) = dw_exec w"
  "dw_online (record_completion env j s v n w) = dw_online w" "dw_calls (record_completion env j s v n w) = dw_calls w"
  "dw_stopping (record_completion env j s v n w) = dw_stopping w"
  "dw_db (with_db f w) = f (dw_db w)" "dw_exec (with_db f w) = dw_exec w" "dw_online (with_db f w) = dw_online w"
  "dw_calls (with_db f w) = dw_calls w" "dw_stopping (with_db f w) = dw_stopping w"
  "dw_db (run_over w) = dw_db w" "dw_exec (run_over w) = None" "dw_online (run_over w) = dw_online w"
  "dw_calls (run_over w) = dw_calls w" "dw_stopping (run_over w) = dw_stopping w"
  "dw_db (at_run_phase e ph w) = dw_db w" "dw_exec (at_run_phase e ph w) = Some (e\<lparr>ex_phase := ph\<rparr>)"
  "dw_online (at_run_phase e ph w) = dw_online w" "dw_calls (at_run_phase e ph w) = dw_calls w"
  "dw_stopping (at_run_phase e ph w) = dw_stopping w"
  by (simp_all add: record_job_event_def record_completion_def with_db_def run_over_def at_run_phase_def)

abbreviation completed_row :: "discovery_env \<Rightarrow> execution \<Rightarrow> job_status \<Rightarrow> json \<Rightarrow> json option \<Rightarrow> discovery_job \<Rightarrow> discovery_job" where
  "completed_row env e s summary r \<equiv> completed_job (dx_repr env) (dx_now env) s summary
     (case r of Some x \<Rightarrow> if json_true x then x else JObj [] | None \<Rightarrow> JObj []) (ex_calls e)"

lemma segment_completed:
  assumes "at_run e w" "\<not> job_active s"
  shows "segment e w (run_over (run_completed env e s summary result w))"
  by (rule segment_end [OF assms(1), where f = "completed_row env e s summary result"])
    (simp_all add: run_completed_def assms(2))

lemma segment_stopped:
  assumes "at_run e w"
  shows "segment e w (run_stopped env e w)"
proof (cases "case find_job (ex_id e) (dw_db w) of None \<Rightarrow> False | Some j \<Rightarrow> dj_cancel_requested j")
  case True
  show ?thesis
    by (rule segment_end [OF assms, where f = "failed_job (dx_now env) JCancelled
          ''Cancelled by the operator. No further Splunk calls will be made.'' (ex_calls e)"])
      (simp_all add: run_stopped_def True)
next
  case False
  show ?thesis
    by (rule segment_end [OF assms, where f = "requeued_job (dx_now env)"]) (simp_all add: run_stopped_def False)
qed

lemma segment_broke: "at_run e w \<Longrightarrow> segment e w (run_broke env e m w)"
  by (rule segment_end [where f = "failed_job (dx_now env) JError m (ex_calls e)"]) (simp_all add: run_broke_def)

lemma segment_over_budget: "at_run e w \<Longrightarrow> segment e w (run_over_budget env e m w)"
  unfolding run_over_budget_def by (rule segment_completed) simp_all

lemma segment_at_phase:
  assumes run: "at_run e w" and ph: "ph \<noteq> RScheduled"
  shows "segment e w (at_run_phase e ph w)"
proof -
  have "discovery_lane (at_run_phase e ph w) = lane_at e w"
    using ph by (simp add: discovery_lane_def lane_at_def started_exec_def)
  then show ?thesis using run ph by (simp add: segment_def discovery_inv_def at_run_def runs_def)
qed

lemma run_progress_keeps:
  assumes "at_run e w" "run_progress env e ev w = Inr w'"
  shows "at_run e w' \<and> lane_at e w' = lane_at e w"
proof -
  obtain ev' where w': "w' = with_db (update_job_progress (dx_now env) (ex_id e) ev' (ex_calls e)) w"
    using assms(2) by (auto simp: run_progress_def Let_def split: if_splits)
  obtain j where j: "find_job (ex_id e) (dw_db w) = Some j" "dj_status j = JRunning" "dj_call_budget j = dj_call_budget (ex_row e)"
    using assms(1) by (auto simp: at_run_def runs_def)
  let ?j = "progressed_job (dx_now env) ev' (ex_calls e) j"
  have "find_job k (dw_db w') = (if k = ex_id e then Some ?j else find_job k (dw_db w))" for k
    using j by (simp add: w')
  then have "lane_at e w' = lane_at e w"
    unfolding lane_at_def by (subst lane_set_same [OF j(1), of "dw_db w'" ?j]) (simp_all add: w')
  then show ?thesis using assms(1) j by (simp add: at_run_def w' table_wf_def runs_def)
qed

lemma segment_after_progress:
  "at_run e w \<Longrightarrow> run_progress env e ev w = Inr w1 \<Longrightarrow> segment e w1 w' \<Longrightarrow> segment e w w'"
  using run_progress_keeps [of e w env ev w1] by (simp add: segment_def)

lemma segment_readiness:
  assumes run: "at_run e w"
  shows "segment e w (after_readiness env e readiness w)"
proof (cases "run_progress env e \<lparr>pe_phase = ''instance-queue'', pe_label = ''Waiting for the Splunk discovery lane'',
    pe_detail = ''Another manual discovery, assurance run, or MLTK inventory owns the single-instance read-only lane.'',
    pe_status = ''running'', pe_progress = Some 1, pe_metrics = [(''instance_concurrency'', JInt 1)]\<rparr> w")
  case (Inl x)
  then show ?thesis
    using segment_completed [OF run] segment_broke [OF run] segment_at_phase [OF run] segment_stopped [OF run]
    by (simp add: after_readiness_def split: option.split)
next
  case (Inr w1)
  have "at_run e w1" using run_progress_keeps [OF run Inr] by simp
  then have "segment e w (at_run_phase e RLane w1)"
    using segment_after_progress [OF run Inr] segment_at_phase by blast
  with Inr show ?thesis
    using segment_completed [OF run] segment_broke [OF run] segment_at_phase [OF run]
    by (simp add: after_readiness_def split: option.split)
qed

lemma result_status_ended: "\<not> job_active (result_status e summary)"
  by (simp add: result_status_def)

lemma segment_pipeline:
  assumes run: "at_run e w"
  shows "segment e w (after_pipeline env e result w)"
proof -
  have late: "segment e w (run_broke env e m (run_completed env e s summary r w))" for m s summary r
    by (rule segment_end [OF run, where f = "\<lambda>j. failed_job (dx_now env) JError m (ex_calls e) (completed_row env e s summary r j)"])
      (simp_all add: run_broke_def run_completed_def option.map_comp comp_def)
  show ?thesis
    using late segment_broke [OF run] segment_completed [OF run result_status_ended]
    by (simp add: after_pipeline_def Let_def split: sum.split prod.split option.split)
qed

text \<open>A step of the world from a reachable one.\<close>

definition good :: "discovery_world \<Rightarrow> discovery_world \<Rightarrow> bool" where
  "good w w' = (discovery_inv w' \<and> lane_steps (discovery_lane w) (discovery_lane w'))"

lemma good_same:
  assumes "discovery_inv w" "table_wf (dw_db w')" "discovery_lane w' = discovery_lane w"
    "\<And>e. dw_exec w' = Some e \<Longrightarrow> dw_online w' \<and> (if ex_phase e = RScheduled then ex_calls e = 0 else runs e (dw_db w'))"
  shows "good w w'"
  using assms by (simp add: good_def discovery_inv_def)

lemma good_refl: "discovery_inv w \<Longrightarrow> good w w"
  by (simp add: good_def)

lemma inv_exec:
  assumes "discovery_inv w" "dw_exec w = Some e"
  shows "dw_online w" "ex_phase e = RScheduled \<Longrightarrow> ex_calls e = 0" "ex_phase e \<noteq> RScheduled \<Longrightarrow> at_run e w"
    "ex_phase e \<noteq> RScheduled \<Longrightarrow> lane_at e w = discovery_lane w"
  using assms by (auto simp: discovery_inv_def at_run_def lane_at_def discovery_lane_def started_exec_def)

lemma segment_lost:
  assumes run: "at_run e w"
  shows "segment e w (run_over w)"
proof -
  have "discovery_lane (run_over w) = (lane_at e w)\<lparr>ln_exec := None\<rparr>"
    by (simp add: discovery_lane_def lane_at_def started_exec_def db_lane_def)
  then have "lane_step (lane_at e w) (discovery_lane (run_over w))"
    using lane_step.lose [of "lane_at e w"] by (simp add: lane_at_def)
  then show ?thesis using run lane_inv_step by (auto simp: segment_def discovery_inv_def at_run_def)
qed

lemma good_start_run:
  assumes inv: "discovery_inv w" and e: "dw_exec w = Some e" "ex_phase e = RScheduled"
  shows "good w (start_run env e w)"
proof (cases "ex_cancelled e")
  case True
  then show ?thesis using inv e
    by (intro good_same) (auto simp: start_run_def discovery_inv_def discovery_lane_def started_exec_def)
next
  case live: False
  obtain r db' where m: "mark_job_running (dx_now env) (ex_id e) (dw_db w) = (r, db')" by fastforce
  have wf: "distinct (map dj_id (dd_jobs (dw_db w)))" using inv by (simp add: discovery_inv_def table_wf_def)
  from m wf show ?thesis
  proof (cases rule: mark_job_running_cases)
    case refused
    then show ?thesis using inv e live m
      by (intro good_same) (auto simp: start_run_def discovery_inv_def discovery_lane_def started_exec_def)
  next
    case (started j)
    let ?j = "started_job (dx_now env) j"
    let ?e = "e\<lparr>ex_row := ?j\<rparr>"
    let ?w = "w\<lparr>dw_db := db'\<rparr>"
    let ?l = "discovery_lane w"
    have id: "dj_id j = ex_id e" by (rule find_job_id [OF started(1)])
    have calls: "ex_calls e = 0" by (rule inv_exec(2) [OF inv e])
    have l: "?l = db_lane (dw_db w) (dw_calls w) None" using e by (simp add: discovery_lane_def started_exec_def)
    have "lane_at ?e ?w = ?l\<lparr>ln_status := (ln_status ?l)(ex_id e \<mapsto> JRunning), ln_exec := Some (ex_id e, 0)\<rparr>"
      unfolding l lane_at_def
      by (subst db_lane_set [OF started(1), of _ ?j _ _ None]) (use started id calls in \<open>auto simp: db_lane_def fun_eq_iff\<close>)
    then have first: "lane_step ?l (lane_at ?e ?w)"
      using lane_step.begin_run [of ?l "ex_id e"] started(1,2) by (simp add: l)
    have "at_run ?e ?w"
      using lane_inv_step [OF first] inv inv_exec(1) [OF inv e(1)] started(4,5) id
      by (simp add: at_run_def discovery_inv_def table_wf_def runs_def)
    note run = this
    have "segment ?e ?w (start_run env e w)"
    proof (cases "run_progress env ?e \<lparr>pe_phase = ''connection:preflight'', pe_label = ''Checking Splunk connection readiness'',
        pe_detail = ''No Splunk discovery calls will run until transport, TLS, authentication, and required MCP tools are ready.'',
        pe_status = ''running'', pe_progress = Some 2, pe_metrics = [(''splunk_calls'', JInt 0)]\<rparr> ?w")
      case (Inl x)
      have "segment ?e ?w (run_over (record_job_event env t a i b out sm md ?w))" for t a i b out sm md
        using segment_lost [OF run] by (simp add: segment_def discovery_inv_def discovery_lane_def)
      then show ?thesis
        using m started(3) live Inl segment_completed [OF run] segment_stopped [OF run]
        by (simp add: start_run_def Let_def split: prod.split option.split)
    next
      case (Inr w2)
      have "at_run ?e w2" using run_progress_keeps [OF run Inr] by simp
      then have "segment ?e ?w (at_run_phase ?e RPreflight w2)"
        using segment_after_progress [OF run Inr] segment_at_phase by blast
      moreover have "segment ?e ?w (run_over (record_job_event env t a i b out sm md ?w))" for t a i b out sm md
        using segment_lost [OF run] by (simp add: segment_def discovery_inv_def discovery_lane_def)
      ultimately show ?thesis
        using m started(3) live Inr segment_completed [OF run]
        by (simp add: start_run_def Let_def split: prod.split option.split)
    qed
    then show ?thesis using first by (auto simp: segment_def good_def intro: converse_rtranclp_into_rtranclp)
  qed
qed

lemma good_resume_run:
  assumes inv: "discovery_inv w" and e: "dw_exec w = Some e"
  shows "good w (resume_run env e out w)"
proof (cases "ex_phase e = RScheduled")
  case True
  then show ?thesis using good_start_run [OF inv e] by (simp add: resume_run_def)
next
  case False
  have run: "at_run e w" and l: "lane_at e w = discovery_lane w" using inv_exec [OF inv e] False by auto
  have "segment e w (resume_run env e out w)"
    using False segment_over_budget [OF run] segment_broke [OF run] segment_stopped [OF run] segment_readiness [OF run]
      segment_at_phase [OF run, of RCollect] segment_pipeline [OF run]
    by (cases "ex_phase e"; cases out) (simp_all add: resume_run_def)
  then show ?thesis by (simp add: segment_def good_def l)
qed

lemma good_call:
  assumes inv: "discovery_inv w" and e: "dw_exec w = Some e" "ex_phase e = RCollect"
  shows "good w (budgeted_call e w)"
proof (cases "dj_call_budget (ex_row e) \<le> ex_calls e")
  case True
  then show ?thesis using inv e
    by (intro good_same) (auto simp: budgeted_call_def discovery_inv_def discovery_lane_def started_exec_def runs_def)
next
  case False
  obtain j where j: "find_job (ex_id e) (dw_db w) = Some j" "dj_status j = JRunning" "dj_call_budget j = dj_call_budget (ex_row e)"
    using inv e by (auto simp: discovery_inv_def runs_def)
  let ?l = "discovery_lane w"
  have "discovery_lane (budgeted_call e w) = ?l\<lparr>ln_calls := (ln_calls ?l)(ex_id e := ln_calls ?l (ex_id e) + 1),
      ln_exec := Some (ex_id e, ex_calls e + 1)\<rparr>"
    using False e by (auto simp: budgeted_call_def discovery_lane_def started_exec_def db_lane_def fun_eq_iff)
  moreover have "lane_step ?l (?l\<lparr>ln_calls := (ln_calls ?l)(ex_id e := ln_calls ?l (ex_id e) + 1),
      ln_exec := Some (ex_id e, ex_calls e + 1)\<rparr>)"
    using lane_step.call [of ?l "ex_id e" "ex_calls e"] False e j by (simp add: discovery_lane_def started_exec_def)
  ultimately have step: "lane_step ?l (discovery_lane (budgeted_call e w))" by simp
  show ?thesis using step lane_inv_step [OF step] inv e False
    by (auto simp: good_def discovery_inv_def budgeted_call_def runs_def)
qed

lemma good_progress:
  assumes inv: "discovery_inv w" and e: "dw_exec w = Some e" "ex_phase e \<noteq> RScheduled" and p: "run_progress env e ev w = Inr w'"
  shows "good w w'"
proof -
  have run: "at_run e w" and l: "lane_at e w = discovery_lane w" using inv_exec [OF inv e(1)] e(2) by auto
  have keep: "at_run e w'" "lane_at e w' = lane_at e w" using run_progress_keeps [OF run p] by auto
  have x: "dw_exec w' = Some e" using p e(1) by (auto simp: run_progress_def Let_def split: if_splits)
  then have "discovery_lane w' = discovery_lane w" using keep(2) l e(2) by (simp add: lane_at_def discovery_lane_def started_exec_def)
  then show ?thesis using keep(1) x e(2) inv by (intro good_same) (auto simp: at_run_def)
qed

lemma budget_nonneg: "map_of DISCOVERY_CALL_ESTIMATES depth = Some b \<Longrightarrow> 0 \<le> b"
  by (auto simp: DISCOVERY_CALL_ESTIMATES_def split: if_splits)

lemma good_enqueue:
  assumes inv: "discovery_inv w"
  shows "good w (snd (enqueue_job env depth requester binding w))"
proof (cases "\<exists>b r. map_of DISCOVERY_CALL_ESTIMATES depth = Some b \<and> active_job None (dw_db w) = None \<and>
    create_job (dx_now env) (dx_job_id env) depth (or_else requester ''local-operator'') b
      (case binding of None \<Rightarrow> dx_current_binding env | Some b \<Rightarrow> b) (dw_db w) = Inr r")
  case False
  then show ?thesis using good_refl [OF inv] by (auto simp: enqueue_job_def split: option.split sum.split)
next
  case True
  let ?bind = "case binding of None \<Rightarrow> dx_current_binding env | Some b \<Rightarrow> b"
  let ?req = "or_else requester ''local-operator''"
  obtain b j db' where b: "map_of DISCOVERY_CALL_ESTIMATES depth = Some b" and none: "active_job None (dw_db w) = None"
    and c: "create_job (dx_now env) (dx_job_id env) depth ?req b ?bind (dw_db w) = Inr (j, db')"
    using True by fastforce
  let ?i = "dx_job_id env"
  let ?new = "new_job (dx_now env) ?i depth ?req b ?bind"
  let ?l = "discovery_lane w"
  let ?w = "w\<lparr>dw_db := db'\<rparr>"
  have fresh: "find_job ?i (dw_db w) = None"
    using c by (auto simp: create_job_def find_job_def sql_first_None list_ex_iff split: if_splits)
  have new: "dj_id ?new = ?i" "dj_status ?new = JQueued" "dj_call_budget ?new = b" "dj_recovery_count ?new = 0"
    by (simp_all add: new_job_def)
  have jobs: "dd_jobs db' = dd_jobs (dw_db w) @ [?new]"
    using c by (auto simp: create_job_def Let_def split: if_splits option.splits)
  then have find: "find_job k db' = (if k = ?i then Some ?new else find_job k (dw_db w))" for k
    using fresh new by (auto simp: find_job_def sql_first_append sql_first_single split: option.split)
  have step: "lane_step ?l (discovery_lane ?w)"
  proof -
    have "ln_status ?l k = Some s \<Longrightarrow> \<not> job_active s" for k s
      using none inv by (auto simp: active_job_None discovery_lane_def discovery_inv_def table_wf_def find_job_iff)
    then have "lane_step ?l (?l\<lparr>ln_status := (ln_status ?l)(?i \<mapsto> JQueued), ln_budget := (ln_budget ?l)(?i := b),
        ln_recoveries := (ln_recoveries ?l)(?i := 0)\<rparr>)"
      using lane_step.submit [of ?l ?i b] fresh budget_nonneg [OF b] by (simp add: discovery_lane_def)
    moreover have "discovery_lane ?w = ?l\<lparr>ln_status := (ln_status ?l)(?i \<mapsto> JQueued), ln_budget := (ln_budget ?l)(?i := b),
        ln_recoveries := (ln_recoveries ?l)(?i := 0)\<rparr>"
      using find new by (auto simp: discovery_lane_def db_lane_def fun_eq_iff)
    ultimately show ?thesis by simp
  qed
  have "table_wf db'" using inv jobs fresh new
    by (auto simp: discovery_inv_def table_wf_def find_job_def sql_first_None image_iff)
  then have "good w ?w" using step lane_inv_step [OF step] inv fresh find
    by (auto simp: good_def discovery_inv_def runs_def split: if_splits)
  then show ?thesis using b none c by (simp add: enqueue_job_def)
qed

lemma good_cancel:
  assumes inv: "discovery_inv w"
  shows "good w (snd (cancel_job env i w))"
proof -
  obtain r db' where r: "request_job_cancel (dx_now env) i (dw_db w) = (r, db')" by fastforce
  let ?w = "w\<lparr>dw_db := db'\<rparr>"
  have flag: "good w ?w \<Longrightarrow> good w (snd (cancel_job env i w))"
    using r by (auto simp: cancel_job_def good_def discovery_inv_def discovery_lane_def started_exec_def runs_def Let_def split: option.splits if_splits)
  from r have "good w ?w"
  proof (cases rule: request_job_cancel_cases)
    case (withdrawn j)
    let ?l = "discovery_lane w"
    have "discovery_lane ?w = ?l\<lparr>ln_status := (ln_status ?l)(i \<mapsto> JCancelled)\<rparr>"
      using withdrawn(1,4) by (auto simp: discovery_lane_def db_lane_def fun_eq_iff)
    then have step: "lane_step ?l (discovery_lane ?w)"
      using lane_step.withdraw [of ?l i] withdrawn(1,2) by (simp add: discovery_lane_def)
    show ?thesis using step lane_inv_step [OF step] inv withdrawn
      by (auto simp: good_def discovery_inv_def table_wf_def runs_def split: if_splits)
  next
    case (flagged j j')
    have "discovery_lane ?w = discovery_lane w"
      unfolding discovery_lane_def by (simp, rule lane_set_same [OF flagged(1,8,5,4,6)])
    then show ?thesis using inv flagged
      by (intro good_same) (auto simp: discovery_inv_def table_wf_def runs_def)
  qed (use good_refl [OF inv] in simp_all)
  then show ?thesis by (rule flag)
qed

lemma good_worker_round: "discovery_inv w \<Longrightarrow> good w (worker_round w)"
  by (rule good_same) (auto simp: worker_round_def discovery_inv_def discovery_lane_def started_exec_def split: option.split if_splits)

lemma good_stop: "discovery_inv w \<Longrightarrow> good w (stop_worker w)"
  by (rule good_same) (auto simp: stop_worker_def discovery_inv_def discovery_lane_def started_exec_def runs_def split: option.split if_splits)

lemma recover_lane:
  assumes "\<forall>j \<in> set js. find_job (dj_id j) db = Some j \<and> dj_status j = JRunning" "distinct (map dj_id js)"
  shows "lane_steps (db_lane db c None) (db_lane (fold (recover_job now) js db) c None) \<and>
    map dj_id (dd_jobs (fold (recover_job now) js db)) = map dj_id (dd_jobs db)"
  using assms
proof (induction js arbitrary: db)
  case (Cons j js)
  let ?db = "recover_job now j db"
  let ?j = "if dj_cancel_requested j then failed_job now JCancelled ''Cancellation persisted across restart; no further calls were made.'' 0 j
    else requeued_job now j"
  have j: "find_job (dj_id j) db = Some j" "dj_status j = JRunning" using Cons.prems by auto
  have find: "find_job k ?db = (if k = dj_id j then Some ?j else find_job k db)" for k
    using j by (simp add: recover_job_def)
  let ?l = "db_lane db c None"
  have "db_lane ?db c None = ?l\<lparr>ln_status := (ln_status ?l)(dj_id j \<mapsto> dj_status ?j),
      ln_recoveries := (ln_recoveries ?l)(dj_id j := dj_recovery_count ?j)\<rparr>"
    using db_lane_set [OF j(1) find, of c None None] by (simp add: db_lane_def)
  then have "lane_step ?l (db_lane ?db c None)"
    using lane_step.recover [of ?l "dj_id j"] lane_step.give_up [of ?l "dj_id j" JCancelled] j
    by (cases "dj_cancel_requested j") (simp_all add: fun_upd_idem)
  moreover have "lane_steps (db_lane ?db c None) (db_lane (fold (recover_job now) js ?db) c None) \<and>
      map dj_id (dd_jobs (fold (recover_job now) js ?db)) = map dj_id (dd_jobs ?db)"
    by (rule Cons.IH) (use Cons.prems find in \<open>auto simp: image_iff\<close>)
  moreover have "map dj_id (dd_jobs ?db) = map dj_id (dd_jobs db)" by (simp add: recover_job_def)
  ultimately show ?case by (auto intro: converse_rtranclp_into_rtranclp)
qed simp

lemma recover_steps:
  assumes "table_wf db"
  shows "lane_steps (db_lane db c None) (db_lane (snd (recover_interrupted_jobs now db)) c None) \<and>
    table_wf (snd (recover_interrupted_jobs now db))"
  using assms recover_lane [of "filter (\<lambda>j. dj_status j = JRunning) (dd_jobs db)" db c now]
  by (auto simp: recover_interrupted_jobs_def Let_def table_wf_def find_job_iff distinct_map_filter)

lemma good_idle:
  assumes inv: "discovery_inv w"
  shows "good w (w\<lparr>dw_db := snd (recover_interrupted_jobs now (dw_db w)), dw_exec := None, dw_online := x, dw_stopping := y\<rparr>)"
proof -
  have wf: "table_wf (dw_db w)" using inv by (simp add: discovery_inv_def)
  let ?l = "db_lane (dw_db w) (dw_calls w) None"
  have "?l = (discovery_lane w)\<lparr>ln_exec := None\<rparr>" by (simp add: discovery_lane_def db_lane_def)
  moreover have "lane_steps (discovery_lane w) ((discovery_lane w)\<lparr>ln_exec := None\<rparr>)"
  proof (cases "ln_exec (discovery_lane w)")
    case None
    then have "(discovery_lane w)\<lparr>ln_exec := None\<rparr> = discovery_lane w" by simp
    then show ?thesis by simp
  next
    case (Some y)
    then show ?thesis using lane_step.lose [of "discovery_lane w" y] by auto
  qed
  ultimately have "lane_steps (discovery_lane w) (db_lane (snd (recover_interrupted_jobs now (dw_db w))) (dw_calls w) None)"
    using recover_steps [OF wf, of "dw_calls w" now] by auto
  note steps = this
  show ?thesis using steps lane_inv_steps [OF steps] inv recover_steps [OF wf]
    by (simp add: good_def discovery_inv_def discovery_lane_def started_exec_def)
qed

lemma good_start:
  assumes inv: "discovery_inv w"
  shows "good w (start_worker env w)"
proof (cases "dw_online w")
  case True
  then show ?thesis using good_refl [OF inv] by (simp add: start_worker_def)
next
  case False
  then have none: "dw_exec w = None" using inv by (cases "dw_exec w") (auto simp: discovery_inv_def)
  have "start_worker env w = w\<lparr>dw_db := snd (recover_interrupted_jobs (dx_now env) (dw_db w)), dw_exec := None,
      dw_online := True, dw_stopping := False\<rparr>"
    using False none by (simp add: start_worker_def)
  then show ?thesis using good_idle [OF inv] by simp
qed

lemma good_step: "discovery_inv w \<Longrightarrow> good w (discovery_step (env, op) w)"
  by (cases op)
    (auto simp: good_enqueue good_cancel good_worker_round good_stop good_start good_idle open_discovery_def
      good_refl good_resume_run good_call good_progress split: option.split sum.split)

interpretation discovery: lane_machine discovery_step discovery_inv discovery_lane
proof
  fix w and e :: "discovery_env \<times> discovery_op"
  assume "discovery_inv w"
  then have "good w (discovery_step e w)" using good_step [of w "fst e" "snd e"] by simp
  then show "discovery_inv (discovery_step e w)" "lane_steps (discovery_lane w) (discovery_lane (discovery_step e w))"
    by (simp_all add: good_def)
qed

lemma idle_discovery_inv: "discovery_inv idle_discovery"
  by (simp add: discovery_inv_def idle_discovery_def empty_discovery_def table_wf_def lane_inv_def discovery_lane_def
      db_lane_def find_job_def sql_first_def started_exec_def job_bounded_def)


section \<open>What holds over every history\<close>

lemma reachable_discovery: "discovery_inv (run_ops discovery_step idle_discovery es)"
  by (rule discovery.inv_run [OF idle_discovery_inv])

lemma row_status:
  "discovery_inv w \<Longrightarrow> j \<in> set (dd_jobs (dw_db w)) \<Longrightarrow> find_job (dj_id j) (dw_db w) = Some j"
  by (simp add: discovery_inv_def table_wf_def find_job_iff)

lemma one_active_row:
  assumes "discovery_inv w" "find_job i (dw_db w) = Some a" "find_job k (dw_db w) = Some b"
    "job_active (dj_status a)" "job_active (dj_status b)"
  shows "i = k"
  using assms lane_inv_unique [of "discovery_lane w" i "dj_status a" k "dj_status b"]
  by (simp add: discovery_inv_def discovery_lane_def)

text \<open>C30. The discovery service implements the single-lane specification: whatever requests, worker rounds, awaits, crashes
  and restarts come in whatever order, each step is some steps of the specification.\<close>

theorem discovery_follows_the_lane:
  "lane_steps (discovery_lane idle_discovery) (discovery_lane (run_ops discovery_step idle_discovery es))"
  by (rule discovery.refines_run [OF idle_discovery_inv])

text \<open>Whatever requests, cancellations, failures, crashes and restarts come in whatever order, at most one discovery
  job is queued or running.\<close>

theorem one_discovery_at_a_time:
  "length (filter (\<lambda>j. job_active (dj_status j)) (dd_jobs (dw_db (run_ops discovery_step idle_discovery es)))) \<le> 1"
proof (rule filter_at_most_one [where key = dj_id])
  let ?w = "run_ops discovery_step idle_discovery es"
  show "distinct (map dj_id (dd_jobs (dw_db ?w)))"
    using reachable_discovery [of es] by (simp add: discovery_inv_def table_wf_def)
  show "dj_id a = dj_id b" if "a \<in> set (dd_jobs (dw_db ?w))" "b \<in> set (dd_jobs (dw_db ?w))"
    "job_active (dj_status a)" "job_active (dj_status b)" for a b
    using one_active_row [OF reachable_discovery row_status [OF reachable_discovery that(1)]
        row_status [OF reachable_discovery that(2)] that(3,4)] .
qed

text \<open>C31. Over every history the Splunk calls made for a discovery job stay within its ceiling for each time it was
  started: its budget, and once more for every recovery.\<close>

theorem discovery_calls_within_budget:
  "list_all (\<lambda>j. int (count_list (dw_calls (run_ops discovery_step idle_discovery es)) (dj_id j))
      \<le> dj_call_budget j * (dj_recovery_count j + 1)) (dd_jobs (dw_db (run_ops discovery_step idle_discovery es)))"
  unfolding list_all_iff
proof
  let ?w = "run_ops discovery_step idle_discovery es"
  fix j
  assume "j \<in> set (dd_jobs (dw_db ?w))"
  then have j: "find_job (dj_id j) (dw_db ?w) = Some j" by (rule row_status [OF reachable_discovery])
  have "lane_inv (discovery_lane ?w)" using reachable_discovery [of es] by (simp add: discovery_inv_def)
  then show "int (count_list (dw_calls ?w) (dj_id j)) \<le> dj_call_budget j * (dj_recovery_count j + 1)"
    using lane_calls_bounded [of "discovery_lane ?w" "dj_id j" "dj_status j"] j by (simp add: discovery_lane_def)
qed

text \<open>A discovery job that has ended - completed, failed, cancelled or blocked - keeps that status for ever, and no
  call is made for it any more.\<close>

theorem ended_discovery_is_final:
  assumes "find_job i (dw_db (run_ops discovery_step idle_discovery es)) = Some j" "\<not> job_active (dj_status j)"
  shows "map_option dj_status (find_job i (dw_db (run_ops discovery_step idle_discovery (es @ fs)))) = Some (dj_status j) \<and>
    count_list (dw_calls (run_ops discovery_step idle_discovery (es @ fs))) i
      = count_list (dw_calls (run_ops discovery_step idle_discovery es)) i"
proof -
  let ?w = "run_ops discovery_step idle_discovery es"
  have inv: "discovery_inv ?w" by (rule reachable_discovery)
  then have lane: "lane_inv (discovery_lane ?w)" by (simp add: discovery_inv_def)
  have "ln_status (discovery_lane ?w) i = Some (dj_status j)" using assms(1) by (simp add: discovery_lane_def)
  from discovery.ended_for_good [OF inv lane this assms(2), of fs] show ?thesis
    by (simp add: run_ops_append discovery_lane_def)
qed


section \<open>Executions end\<close>

fun resumptions :: "run_phase \<Rightarrow> nat" where
  "resumptions RScheduled = 4"
| "resumptions RPreflight = 3"
| "resumptions RLane = 2"
| "resumptions RCollect = 1"

lemma resume_run_progress:
  "dw_exec (resume_run env e out w) = Some e' \<Longrightarrow> resumptions (ex_phase e') < resumptions (ex_phase e)"
  by (cases "ex_phase e"; cases out)
    (auto simp: resume_run_def start_run_def after_readiness_def after_pipeline_def run_over_budget_def run_broke_def
      run_stopped_def Let_def split: option.splits prod.splits sum.splits if_splits)

text \<open>An execution ends after at most four resumptions, whatever its awaits yield.\<close>

theorem discovery_execution_ends:
  assumes "dw_exec w = Some e" "resumptions (ex_phase e) \<le> length outs"
  shows "\<exists>k \<le> length outs. dw_exec (run_ops discovery_step w (map (\<lambda>(env, out). (env, ResumeRun out)) (take k outs))) = None"
  using assms
proof (induction outs arbitrary: w e)
  case Nil
  then show ?case by (cases "ex_phase e") auto
next
  case (Cons x outs)
  obtain env out where x: "x = (env, out)" by fastforce
  let ?w = "resume_run env e out w"
  have step: "discovery_step (env, ResumeRun out) w = ?w" using Cons.prems(1) by simp
  show ?case
  proof (cases "dw_exec ?w")
    case None
    then show ?thesis using x step by (intro exI [of _ 1]) simp
  next
    case (Some e')
    then have "resumptions (ex_phase e') \<le> length outs" using resume_run_progress [OF Some] Cons.prems(2) by simp
    then obtain k where "k \<le> length outs"
      "dw_exec (run_ops discovery_step ?w (map (\<lambda>(env, out). (env, ResumeRun out)) (take k outs))) = None"
      using Cons.IH [OF Some] by blast
    then show ?thesis using x step by (intro exI [of _ "Suc k"]) simp
  qed
qed


section \<open>Where a job or the worker is lost\<close>

fun restarts :: "discovery_op \<Rightarrow> bool" where
  "restarts StartWorker = True"
| "restarts CrashAndReopen = True"
| "restarts _ = False"

definition stranded :: "string \<Rightarrow> discovery_world \<Rightarrow> bool" where
  "stranded i w = (discovery_inv w \<and> dw_exec w = None \<and> (\<exists>j. find_job i (dw_db w) = Some j \<and> dj_status j = JRunning))"

lemma stranded_active: "stranded i w \<Longrightarrow> active_job None (dw_db w) \<noteq> None"
  by (auto simp: stranded_def discovery_inv_def table_wf_def active_job_None find_job_iff intro!: bexI [of _ "_ :: discovery_job"])

lemma stranded_queue: "stranded i w \<Longrightarrow> next_queued (dw_db w) = None"
proof -
  assume s: "stranded i w"
  then obtain j where j: "find_job i (dw_db w) = Some j" "dj_status j = JRunning" by (auto simp: stranded_def)
  have inv: "discovery_inv w" using s by (simp add: stranded_def)
  have "dj_status q \<noteq> JQueued" if q: "q \<in> set (dd_jobs (dw_db w))" for q
  proof
    assume "dj_status q = JQueued"
    then have "i = dj_id q" using one_active_row [OF inv j(1) row_status [OF inv q]] j(2) by simp
    then have "q = j" using j(1) row_status [OF inv q] by simp
    with \<open>dj_status q = JQueued\<close> j(2) show False by simp
  qed
  then show ?thesis by (simp add: next_queued_None)
qed

lemma stranded_step:
  assumes s: "stranded i w" and op: "\<not> restarts op"
  shows "stranded i (discovery_step (env, op) w)"
proof -
  have inv: "discovery_inv (discovery_step (env, op) w)"
    using discovery.inv_step [of w "(env, op)"] s by (simp add: stranded_def)
  have "dw_exec (discovery_step (env, op) w) = None \<and>
    (\<exists>j. find_job i (dw_db (discovery_step (env, op) w)) = Some j \<and> dj_status j = JRunning)"
  proof (cases op)
    case (CancelJob k)
    obtain r db' where r: "request_job_cancel (dx_now env) k (dw_db w) = (r, db')" by fastforce
    have "\<exists>j. find_job i db' = Some j \<and> dj_status j = JRunning"
      using r by (cases rule: request_job_cancel_cases) (use s in \<open>auto simp: stranded_def\<close>)
    then show ?thesis using r s CancelJob by (simp add: cancel_job_def stranded_def)
  next
    case (EnqueueJob depth requester b)
    then show ?thesis using s stranded_active [OF s] by (auto simp: enqueue_job_def stranded_def split: option.split)
  next
    case WorkerRound
    then show ?thesis using s stranded_queue [OF s] by (auto simp: worker_round_def stranded_def)
  qed (use s op in \<open>auto simp: stranded_def stop_worker_def\<close>)
  with inv show ?thesis by (simp add: stranded_def)
qed

lemma stranded_run: "stranded i w \<Longrightarrow> list_all (\<lambda>(env, op). \<not> restarts op) es \<Longrightarrow> stranded i (run_ops discovery_step w es)"
  by (induction es arbitrary: w) (auto intro: stranded_step)

text \<open>C32. When the Splunk client of a job cannot be built - its token was removed, say - the exception leaves the job
  marked as running with nobody running it: until a restart, over every later history, the job stays running and no
  new discovery of any depth is accepted; cancelling it does not help.\<close>

theorem lost_client_strands_discovery:
  assumes "dw_exec (run_ops discovery_step idle_discovery es) = Some e" "ex_phase e = RScheduled" "\<not> ex_cancelled e"
    and "find_job (ex_id e) (dw_db (run_ops discovery_step idle_discovery es)) = Some j" "dj_status j = JQueued"
    and "fst (dx_binding env (dj_alias j) (dj_fingerprint j) (dj_tenant j))" "dx_client_error env = Some m"
    and "list_all (\<lambda>(env, op). \<not> restarts op) fs"
    and "w = run_ops discovery_step idle_discovery (es @ (env, ResumeRun out) # fs)"
  shows "map_option dj_status (find_job (ex_id e) (dw_db w)) = Some JRunning \<and> dw_exec w = None \<and>
    fst (enqueue_job env' depth requester b w) = Inl (ValueError (if depth \<in> {''quick'', ''standard'', ''deep''}
      then ''A manual discovery job is already queued or running'' else ''Unsupported discovery depth: '' @ depth)) \<and>
    snd (enqueue_job env' depth requester b w) = w"
proof -
  let ?w = "run_ops discovery_step idle_discovery es"
  let ?w1 = "discovery_step (env, ResumeRun out) ?w"
  have inv: "discovery_inv ?w" by (rule reachable_discovery)
  obtain r db' where r: "mark_job_running (dx_now env) (ex_id e) (dw_db ?w) = (r, db')" by fastforce
  have "distinct (map dj_id (dd_jobs (dw_db ?w)))" using inv by (simp add: discovery_inv_def table_wf_def)
  with r have mark: "r = Some (started_job (dx_now env) j) \<and> find_job (ex_id e) db' = Some (started_job (dx_now env) j)"
  proof (cases rule: mark_job_running_cases)
    case refused
    with assms(4,5) show ?thesis by blast
  next
    case (started j')
    with assms(4) show ?thesis by simp
  qed
  obtain reason where "dx_binding env (dj_alias j) (dj_fingerprint j) (dj_tenant j) = (True, reason)"
    using assms(6) by (cases "dx_binding env (dj_alias j) (dj_fingerprint j) (dj_tenant j)") simp
  then have "?w1 = run_over (record_job_event env ''discovery.worker.error'' ''execute'' [] ''system'' ''error''
      (''Manual discovery worker error: '' @ m) [] (?w\<lparr>dw_db := db'\<rparr>))"
    using assms(1-3,7) r mark by (simp add: resume_run_def start_run_def Let_def)
  then have "dw_exec ?w1 = None" "find_job (ex_id e) (dw_db ?w1) = Some (started_job (dx_now env) j)"
    using mark by simp_all
  then have "stranded (ex_id e) ?w1" using discovery.inv_step [OF inv, of "(env, ResumeRun out)"] by (simp add: stranded_def)
  then have s: "stranded (ex_id e) w"
    using stranded_run assms(8) unfolding assms(9) run_ops_append by simp
  then show ?thesis using stranded_active [OF s] by (auto simp: stranded_def enqueue_job_def DISCOVERY_CALL_ESTIMATES_def)
qed

definition halted :: "discovery_world \<Rightarrow> bool" where
  "halted w = (\<not> dw_online w \<and> dw_exec w = None \<and> filter (\<lambda>j. dj_status j = JRunning) (dd_jobs (dw_db w)) = [])"

lemma none_running: "discovery_inv w \<Longrightarrow> filter (\<lambda>j. dj_status j = JRunning) (dd_jobs (dw_db w)) = [] \<longleftrightarrow>
    (\<forall>i j. find_job i (dw_db w) = Some j \<longrightarrow> dj_status j \<noteq> JRunning)"
  by (auto simp: filter_empty_conv discovery_inv_def table_wf_def find_job_iff)

lemma halted_step:
  assumes inv: "discovery_inv w" and h: "halted w" and op: "op \<noteq> StartWorker"
  shows "halted (discovery_step (env, op) w)"
proof -
  let ?w = "discovery_step (env, op) w"
  have inv': "discovery_inv ?w" using discovery.inv_step [OF inv] .
  have idle: "find_job i (dw_db w) = Some j \<Longrightarrow> dj_status j \<noteq> JRunning" for i j
    using h none_running [OF inv] by (auto simp: halted_def)
  show ?thesis
  proof (cases op)
    case (CancelJob k)
    obtain r db' where r: "request_job_cancel (dx_now env) k (dw_db w) = (r, db')" by fastforce
    have w: "?w = w\<lparr>dw_db := db'\<rparr>" using h r CancelJob by (simp add: cancel_job_def halted_def)
    have "dj_status j \<noteq> JRunning" if "find_job i db' = Some j" for i j
      using r by (cases rule: request_job_cancel_cases) (use that idle in \<open>auto split: if_splits\<close>)
    then show ?thesis using h none_running [OF inv'] w by (simp add: halted_def)
  next
    case (EnqueueJob depth requester b)
    have "filter (\<lambda>j. dj_status j = JRunning) (dd_jobs (dw_db ?w)) = []"
      using h EnqueueJob by (auto simp: halted_def enqueue_job_def create_job_def Let_def new_job_def split: option.split sum.splits if_splits)
    moreover have "dw_exec ?w = None \<and> \<not> dw_online ?w"
      using h EnqueueJob by (auto simp: halted_def enqueue_job_def split: option.split sum.split)
    ultimately show ?thesis by (simp add: halted_def)
  next
    case CrashAndReopen
    then show ?thesis using h by (simp add: halted_def open_discovery_def recover_interrupted_jobs_def)
  qed (use h op in \<open>auto simp: halted_def worker_round_def stop_worker_def\<close>)
qed

lemma halted_run:
  "discovery_inv w \<Longrightarrow> halted w \<Longrightarrow> list_all (\<lambda>(env, op). op \<noteq> StartWorker) es \<Longrightarrow> halted (run_ops discovery_step w es)"
proof (induction es arbitrary: w)
  case (Cons e es)
  obtain env op where "e = (env, op)" by fastforce
  then show ?case using Cons halted_step [of w op env] discovery.inv_step [of w e] by simp
qed simp

text \<open>C33. A job that is cancelled between the moment the worker schedules it and its first step takes the worker with it:
  from then on, over every later history up to the next start of the service, no job is executed.\<close>

theorem early_cancel_stops_the_worker:
  assumes "dw_exec (run_ops discovery_step idle_discovery es) = Some e" "ex_phase e = RScheduled"
    and "find_job (ex_id e) (dw_db (run_ops discovery_step idle_discovery es)) = Some j" "dj_status j = JQueued"
    and "list_all (\<lambda>(env, op). op \<noteq> StartWorker) fs"
    and "w = run_ops discovery_step idle_discovery (es @ (env, CancelJob (ex_id e)) # (env, ResumeRun out) # fs)"
  shows "\<not> dw_online w \<and> dw_exec w = None \<and> filter (\<lambda>j. dj_status j = JRunning) (dd_jobs (dw_db w)) = []"
proof -
  let ?w = "run_ops discovery_step idle_discovery es"
  let ?w1 = "discovery_step (env, CancelJob (ex_id e)) ?w"
  let ?w2 = "discovery_step (env, ResumeRun out) ?w1"
  have inv: "discovery_inv ?w" by (rule reachable_discovery)
  have inv1: "discovery_inv ?w1" by (rule discovery.inv_step [OF inv])
  have inv2: "discovery_inv ?w2" by (rule discovery.inv_step [OF inv1])
  obtain r db' where r: "request_job_cancel (dx_now env) (ex_id e) (dw_db ?w) = (r, db')" by fastforce
  then have c: "r \<noteq> None \<and> (\<forall>k. find_job k db' = (if k = ex_id e then Some (withdrawn_job (dx_now env) j) else find_job k (dw_db ?w)))"
    by (cases rule: request_job_cancel_cases) (use assms(3,4) in auto)
  then have w1: "?w1 = ?w\<lparr>dw_db := db', dw_exec := Some (e\<lparr>ex_cancelled := True\<rparr>)\<rparr>"
    using r assms(1) by (simp add: cancel_job_def)
  then have w2: "?w2 = ?w1\<lparr>dw_exec := None, dw_online := False\<rparr>"
    using assms(2) by (simp add: resume_run_def start_run_def)
  have "dj_status x \<noteq> JRunning" if "find_job i db' = Some x" for i x
    using that c one_active_row [OF inv assms(3), of i x] assms(4) by (auto split: if_splits)
  then have "halted ?w2" using none_running [OF inv2] w1 w2 by (simp add: halted_def)
  then have "halted w" using halted_run [OF inv2 _ assms(5)] unfolding assms(6) run_ops_append by simp
  then show ?thesis by (simp add: halted_def)
qed


section \<open>A small workspace for the witnesses\<close>

definition site_binding :: job_binding where
  "site_binding = \<lparr>jb_alias = ''primary'', jb_fingerprint = ''f'', jb_tenant = ''w''\<rparr>"

definition site :: "string \<Rightarrow> discovery_env" where
  "site i = \<lparr>dx_now = ''t'', dx_job_id = i, dx_repr = (\<lambda>v. []), dx_digest = (\<lambda>s. s), dx_event_id = i, dx_actor = ''a'',
     dx_current_binding = site_binding, dx_binding = (\<lambda>a f t. (True, [])), dx_client_error = None, dx_pipeline_error = None,
     dx_lane_busy = False, dx_latest_summary = None, dx_callback_error = None, dx_shape_error = []\<rparr>"

definition no_token :: discovery_env where
  "no_token = (site ''e'')\<lparr>dx_client_error := Some ''no token''\<rparr>"

definition scheduled_ops :: "(discovery_env \<times> discovery_op) list" where
  "scheduled_ops = [(site ''a'', StartWorker), (site ''a'', EnqueueJob ''quick'' ''u'' None), (site ''a'', WorkerRound)]"

definition withdrawn_ops :: "(discovery_env \<times> discovery_op) list" where
  "withdrawn_ops = [(site ''a'', EnqueueJob ''quick'' ''u'' None), (site ''a'', CancelJob ''a'')]"

lemma scheduled_sample:
  "map_option (\<lambda>e. (ex_id e, ex_phase e, ex_cancelled e)) (dw_exec (run_ops discovery_step idle_discovery scheduled_ops))
     = Some (''a'', RScheduled, False)"
  "map_option (\<lambda>j. dj_status j) (find_job ''a'' (dw_db (run_ops discovery_step idle_discovery scheduled_ops))) = Some JQueued"
  by code_simp+

theorem ended_discovery_is_final_witness:
  "map_option dj_status (find_job ''a'' (dw_db (run_ops discovery_step idle_discovery
     (withdrawn_ops @ [(site ''c'', StartWorker), (site ''c'', WorkerRound)])))) = Some JCancelled"
proof -
  let ?w = "run_ops discovery_step idle_discovery withdrawn_ops"
  have "map_option dj_status (find_job ''a'' (dw_db ?w)) = Some JCancelled" by code_simp
  then obtain j where j: "find_job ''a'' (dw_db ?w) = Some j" "dj_status j = JCancelled" by auto
  show ?thesis
    using conjunct1 [OF ended_discovery_is_final [OF j(1), of "[(site ''c'', StartWorker), (site ''c'', WorkerRound)]"]] j(2) by simp
qed

theorem discovery_execution_ends_witness:
  "\<exists>k \<le> 4. dw_exec (run_ops discovery_step (run_ops discovery_step idle_discovery scheduled_ops)
     (map (\<lambda>(env, out). (env, ResumeRun out)) (take k (replicate 4 (site ''b'', Broke ''x''))))) = None"
proof -
  obtain e where "dw_exec (run_ops discovery_step idle_discovery scheduled_ops) = Some e" "ex_phase e = RScheduled"
    using scheduled_sample(1) by auto
  then show ?thesis
    using discovery_execution_ends [of "run_ops discovery_step idle_discovery scheduled_ops" e "replicate 4 (site ''b'', Broke ''x'')"]
    by simp
qed

theorem lost_client_strands_discovery_witness:
  "map_option dj_status (find_job ''a'' (dw_db (run_ops discovery_step idle_discovery
     (scheduled_ops @ (no_token, ResumeRun Stopped) # [(site ''c'', CancelJob ''a''), (site ''c'', WorkerRound)])))) = Some JRunning"
proof -
  let ?w = "run_ops discovery_step idle_discovery scheduled_ops"
  obtain e where e: "dw_exec ?w = Some e" "ex_id e = ''a''" "ex_phase e = RScheduled" "\<not> ex_cancelled e"
    using scheduled_sample(1) by auto
  obtain j where j: "find_job ''a'' (dw_db ?w) = Some j" "dj_status j = JQueued" using scheduled_sample(2) by auto
  have env: "fst (dx_binding no_token (dj_alias j) (dj_fingerprint j) (dj_tenant j))" "dx_client_error no_token = Some ''no token''"
    by (simp_all add: no_token_def site_def)
  note lost = lost_client_strands_discovery [OF e(1,3,4) _ j(2) env _ refl,
      of "[(site ''c'', CancelJob ''a''), (site ''c'', WorkerRound)]" Stopped, unfolded e(2), OF j(1)]
  show ?thesis by (rule conjunct1 [OF lost]) simp
qed

theorem early_cancel_stops_the_worker_witness:
  "\<not> dw_online (run_ops discovery_step idle_discovery (scheduled_ops @ (site ''c'', CancelJob ''a'') # (site ''c'', ResumeRun Stopped) #
     [(site ''d'', EnqueueJob ''quick'' ''u'' None), (site ''d'', WorkerRound)]))"
proof -
  let ?w = "run_ops discovery_step idle_discovery scheduled_ops"
  obtain e where e: "dw_exec ?w = Some e" "ex_id e = ''a''" "ex_phase e = RScheduled" using scheduled_sample(1) by auto
  obtain j where j: "find_job ''a'' (dw_db ?w) = Some j" "dj_status j = JQueued" using scheduled_sample(2) by auto
  note early = early_cancel_stops_the_worker [OF e(1,3) _ j(2) _ refl,
      of "[(site ''d'', EnqueueJob ''quick'' ''u'' None), (site ''d'', WorkerRound)]" "site ''c''" Stopped, unfolded e(2), OF j(1)]
  show ?thesis by (rule conjunct1 [OF early]) simp
qed

end
