(* ===== verification/Assurance_Store.thy ===== *)
theory Assurance_Store
  imports Python_Values Job_Lane
begin

text \<open>
  The tables of continuous assurance (\<open>assurance/store.py\<close>): the schedule policy, the runs with their progress events,
  notifications, correlated signals and response packages. Rows have the columns of the tables, JSON columns are the
  values themselves, and times are instants. An operation reads the clock once.
\<close>


section \<open>Rows\<close>

record assurance_policy =
  yp_enabled :: bool
  yp_interval_minutes :: int
  yp_depth :: string
  yp_max_calls :: int
  yp_max_runs :: int
  yp_notify_drift :: bool
  yp_notify_high :: bool
  yp_next_run_at :: "instant option"
  yp_last_scheduled_at :: "instant option"
  yp_updated_at :: instant
  yp_alias :: string
  yp_fingerprint :: string
  yp_tenant :: string

record assurance_run =
  yr_id :: string
  yr_trigger :: string
  yr_depth :: string
  yr_status :: job_status
  yr_phase :: string
  yr_progress :: int
  yr_label :: string
  yr_detail :: string
  yr_metrics :: json
  yr_summary :: json
  yr_error :: string
  yr_call_budget :: int
  yr_calls_used :: int
  yr_cancel_requested :: bool
  yr_recovery_count :: int
  yr_created_at :: instant
  yr_started_at :: "instant option"
  yr_completed_at :: "instant option"
  yr_updated_at :: instant
  yr_alias :: string
  yr_fingerprint :: string
  yr_tenant :: string

record run_event =
  ye_id :: int
  ye_run_id :: string
  ye_phase :: string
  ye_label :: string
  ye_detail :: string
  ye_status :: string
  ye_progress :: int
  ye_metrics :: json
  ye_created_at :: instant

record notification =
  yn_id :: string
  yn_run_id :: string
  yn_severity :: string
  yn_category :: string
  yn_title :: string
  yn_detail :: string
  yn_acknowledged :: bool
  yn_created_at :: instant

datatype signal_status = SWatching | SPersistent | SResolved

record signal =
  ys_fingerprint :: string
  ys_kind :: string
  ys_severity :: string
  ys_title :: string
  ys_detail :: string
  ys_subject :: string
  ys_source_ref :: string
  ys_status :: signal_status
  ys_occurrences :: int
  ys_consecutive :: int
  ys_first_run :: string
  ys_last_run :: string
  ys_first_seen_at :: instant
  ys_last_seen_at :: instant
  ys_resolved_at :: "instant option"
  ys_alias :: string
  ys_connection :: string
  ys_tenant :: string

datatype package_status = PReview | PExpired | PClosed

record package =
  yk_id :: string
  yk_source_run :: string
  yk_severity :: string
  yk_status :: package_status
  yk_title :: string
  yk_summary :: string
  yk_signals :: "string list"
  yk_validations :: "string list"
  yk_expires_at :: instant
  yk_created_at :: instant
  yk_updated_at :: instant
  yk_closed_at :: "instant option"
  yk_alias :: string
  yk_connection :: string
  yk_tenant :: string

record assurance_db =
  yd_policy :: assurance_policy
  yd_runs :: "assurance_run list"
  yd_events :: "run_event list"
  yd_counter :: int
  yd_notifications :: "notification list"
  yd_signals :: "signal list"
  yd_packages :: "package list"

text \<open>A connection as a row records it.\<close>

record assurance_binding =
  yb_alias :: string
  yb_fingerprint :: string
  yb_tenant :: string

definition text_or :: "string \<Rightarrow> string \<Rightarrow> string" where
  "text_or s d = (if s = [] then d else s)"


section \<open>Policy\<close>

definition initial_policy :: "instant \<Rightarrow> assurance_policy" where
  "initial_policy now = \<lparr>yp_enabled = False, yp_interval_minutes = 360, yp_depth = ''standard'', yp_max_calls = 12,
     yp_max_runs = 4, yp_notify_drift = True, yp_notify_high = True, yp_next_run_at = None, yp_last_scheduled_at = None,
     yp_updated_at = now, yp_alias = ''primary'', yp_fingerprint = [], yp_tenant = []\<rparr>"

definition initial_assurance :: "instant \<Rightarrow> assurance_db" where
  "initial_assurance now = \<lparr>yd_policy = initial_policy now, yd_runs = [], yd_events = [], yd_counter = 0,
     yd_notifications = [], yd_signals = [], yd_packages = []\<rparr>"

text \<open>\<open>AssurancePolicyUpdate\<close>.\<close>

record policy_update =
  yu_enabled :: bool
  yu_interval_minutes :: int
  yu_depth :: string
  yu_max_calls :: int
  yu_max_runs :: int
  yu_notify_drift :: bool
  yu_notify_high :: bool

definition next_run_after :: "instant \<Rightarrow> policy_update \<Rightarrow> assurance_policy \<Rightarrow> instant option" where
  "next_run_after now v p =
     (let reset = yu_enabled v \<and> (\<not> yp_enabled p \<or> yu_interval_minutes v \<noteq> yp_interval_minutes p) in
      if \<not> yu_enabled v then None
      else if reset \<or> yp_next_run_at p = None then Some (now + minutes (yu_interval_minutes v))
      else yp_next_run_at p)"

definition update_assurance_policy :: "instant \<Rightarrow> policy_update \<Rightarrow> assurance_db \<Rightarrow> assurance_db" where
  "update_assurance_policy now v db = db\<lparr>yd_policy := (yd_policy db)\<lparr>yp_enabled := yu_enabled v,
     yp_interval_minutes := yu_interval_minutes v, yp_depth := yu_depth v, yp_max_calls := yu_max_calls v,
     yp_max_runs := yu_max_runs v, yp_notify_drift := yu_notify_drift v, yp_notify_high := yu_notify_high v,
     yp_next_run_at := next_run_after now v (yd_policy db), yp_updated_at := now\<rparr>\<rparr>"

definition rebind_policy ::
  "instant \<Rightarrow> assurance_binding \<Rightarrow> string \<Rightarrow> instant \<Rightarrow> assurance_db \<Rightarrow> unit result \<times> assurance_db" where
  "rebind_policy now b expected_fingerprint expected_updated_at db =
     (if yp_fingerprint (yd_policy db) \<noteq> expected_fingerprint \<or> yp_updated_at (yd_policy db) \<noteq> expected_updated_at
      then (Inl (ValueError ''The assurance policy or connection binding changed; refresh before rebinding''), db)
      else (Inr (), db\<lparr>yd_policy := (yd_policy db)\<lparr>yp_alias := yb_alias b, yp_fingerprint := yb_fingerprint b,
         yp_tenant := yb_tenant b, yp_enabled := False, yp_next_run_at := None, yp_updated_at := now\<rparr>\<rparr>))"

definition advance_schedule :: "instant \<Rightarrow> assurance_db \<Rightarrow> assurance_db" where
  "advance_schedule now db = db\<lparr>yd_policy := (yd_policy db)\<lparr>yp_last_scheduled_at := Some now,
     yp_next_run_at := Some (now + minutes (yp_interval_minutes (yd_policy db))), yp_updated_at := now\<rparr>\<rparr>"


section \<open>Runs\<close>

definition find_run :: "string \<Rightarrow> assurance_db \<Rightarrow> assurance_run option" where
  "find_run i db = sql_first (\<lambda>r. yr_id r = i) (yd_runs db)"

fun run_rank :: "job_status \<Rightarrow> nat" where
  "run_rank JRunning = 0"
| "run_rank JQueued = 1"
| "run_rank _ = 2"

definition list_runs :: "int \<Rightarrow> assurance_db \<Rightarrow> assurance_run list" where
  "list_runs limit db = sql_limit limit (sort_key (\<lambda>r. run_rank (yr_status r)) (sql_order_desc yr_created_at (yd_runs db)))"

definition active_run :: "assurance_db \<Rightarrow> assurance_run option" where
  "active_run db = sql_first (\<lambda>r. True) (sort_key (\<lambda>r. run_rank (yr_status r)) (sort_key yr_created_at
     (filter (\<lambda>r. job_active (yr_status r)) (yd_runs db))))"

definition next_queued_run :: "assurance_db \<Rightarrow> assurance_run option" where
  "next_queued_run db =
     sql_first (\<lambda>r. True) (sort_key yr_created_at (filter (\<lambda>r. yr_status r = JQueued) (yd_runs db)))"

definition update_runs :: "(assurance_run \<Rightarrow> bool) \<Rightarrow> (assurance_run \<Rightarrow> assurance_run) \<Rightarrow> assurance_db \<Rightarrow> assurance_db" where
  "update_runs p f db = db\<lparr>yd_runs := sql_update p f (yd_runs db)\<rparr>"

definition new_run :: "instant \<Rightarrow> string \<Rightarrow> string \<Rightarrow> string \<Rightarrow> int \<Rightarrow> assurance_policy \<Rightarrow> assurance_run" where
  "new_run now i trigger depth budget p = \<lparr>yr_id = i, yr_trigger = trigger, yr_depth = depth, yr_status = JQueued,
     yr_phase = ''queued'', yr_progress = 0, yr_label = ''Queued for continuous assurance'',
     yr_detail = ''Waiting for the single-instance assurance worker.'', yr_metrics = JObj [], yr_summary = JObj [],
     yr_error = [], yr_call_budget = budget, yr_calls_used = 0, yr_cancel_requested = False, yr_recovery_count = 0,
     yr_created_at = now, yr_started_at = None, yr_completed_at = None, yr_updated_at = now,
     yr_alias = yp_alias p, yr_fingerprint = yp_fingerprint p, yr_tenant = yp_tenant p\<rparr>"

definition create_run ::
  "instant \<Rightarrow> string \<Rightarrow> string \<Rightarrow> string \<Rightarrow> int \<Rightarrow> assurance_db \<Rightarrow> (assurance_run \<times> assurance_db) result" where
  "create_run now i trigger depth budget db =
     (if list_ex (\<lambda>r. yr_id r = i) (yd_runs db) then Inl (IntegrityError ''assurance_runs'')
      else let db' = db\<lparr>yd_runs := yd_runs db @ [new_run now i trigger depth budget (yd_policy db)]\<rparr>
        in case find_run i db' of None \<Rightarrow> Inl AssertionError | Some r \<Rightarrow> Inr (r, db'))"

definition begun_run :: "instant \<Rightarrow> assurance_run \<Rightarrow> assurance_run" where
  "begun_run now r = r\<lparr>yr_status := JRunning, yr_phase := ''starting'', yr_progress := 1,
     yr_label := ''Starting continuous assurance'', yr_detail := ''Loading the bounded read-only plan.'',
     yr_started_at := Some now, yr_completed_at := None, yr_error := [], yr_cancel_requested := False, yr_updated_at := now\<rparr>"

definition mark_run_running :: "instant \<Rightarrow> string \<Rightarrow> assurance_db \<Rightarrow> assurance_run option \<times> assurance_db" where
  "mark_run_running now i db =
     (let queued = (\<lambda>r. yr_id r = i \<and> yr_status r = JQueued) in
      if list_ex queued (yd_runs db)
      then let db' = update_runs queued (begun_run now) db in (find_run i db', db')
      else (None, db))"

record run_report =
  yx_phase :: string
  yx_label :: string
  yx_detail :: string
  yx_status :: string
  yx_progress :: "int option"
  yx_metrics :: "(string \<times> json) list"

definition report_value :: "run_report \<Rightarrow> int" where
  "report_value e = max 0 (min 100 (case yx_progress e of None \<Rightarrow> 0 | Some n \<Rightarrow> n))"

definition reported_run :: "instant \<Rightarrow> run_report \<Rightarrow> int \<Rightarrow> assurance_run \<Rightarrow> assurance_run" where
  "reported_run now e calls_used r = r\<lparr>yr_phase := take 120 (text_or (yx_phase e) ''working''),
     yr_progress := report_value e, yr_label := take 500 (text_or (yx_label e) ''Working''),
     yr_detail := take 4000 (yx_detail e), yr_metrics := JObj (yx_metrics e), yr_calls_used := calls_used, yr_updated_at := now\<rparr>"

definition update_run_progress :: "instant \<Rightarrow> string \<Rightarrow> run_report \<Rightarrow> int \<Rightarrow> assurance_db \<Rightarrow> assurance_db" where
  "update_run_progress now i e calls_used db =
     (let db' = update_runs (\<lambda>r. yr_id r = i \<and> yr_status r = JRunning) (reported_run now e calls_used) db in
      db'\<lparr>yd_events := yd_events db' @ [\<lparr>ye_id = yd_counter db + 1, ye_run_id = i,
          ye_phase = take 120 (text_or (yx_phase e) ''working''), ye_label = take 500 (text_or (yx_label e) ''Working''),
          ye_detail = take 4000 (yx_detail e), ye_status = take 40 (text_or (yx_status e) ''running''),
          ye_progress = report_value e, ye_metrics = JObj (yx_metrics e), ye_created_at = now\<rparr>],
        yd_counter := yd_counter db + 1\<rparr>)"

fun run_label :: "job_status \<Rightarrow> string" where
  "run_label JComplete = ''Continuous assurance complete''"
| "run_label JPartial = ''Continuous assurance completed with collection gaps''"
| "run_label JBudgetBlocked = ''Continuous assurance reached its Splunk-call budget''"
| "run_label JConnectionBlocked = ''Continuous assurance blocked by connection readiness''"
| "run_label _ = ''Continuous assurance finished''"

definition finished_run :: "(json \<Rightarrow> string) \<Rightarrow> instant \<Rightarrow> job_status \<Rightarrow> json \<Rightarrow> int \<Rightarrow> assurance_run \<Rightarrow> assurance_run" where
  "finished_run repr now status summary calls_used r = r\<lparr>yr_status := status, yr_phase := ''complete'', yr_progress := 100,
     yr_label := run_label status,
     yr_detail := take 4000 (text_or (str_or_empty repr (json_member ''headline'' summary)) ''The durable result is ready.''),
     yr_summary := summary, yr_calls_used := calls_used, yr_completed_at := Some now, yr_updated_at := now\<rparr>"

definition complete_run ::
  "(json \<Rightarrow> string) \<Rightarrow> instant \<Rightarrow> string \<Rightarrow> job_status \<Rightarrow> json \<Rightarrow> int \<Rightarrow> assurance_db \<Rightarrow> assurance_db" where
  "complete_run repr now i status summary calls_used =
     update_runs (\<lambda>r. yr_id r = i) (finished_run repr now status summary calls_used)"

fun ended_text :: "job_status \<Rightarrow> string" where
  "ended_text JQueued = ''queued''"
| "ended_text JRunning = ''running''"
| "ended_text JComplete = ''complete''"
| "ended_text JPartial = ''partial''"
| "ended_text JError = ''error''"
| "ended_text JCancelled = ''cancelled''"
| "ended_text JBudgetBlocked = ''budget-blocked''"
| "ended_text JConnectionBlocked = ''connection-blocked''"

definition broken_run :: "instant \<Rightarrow> job_status \<Rightarrow> string \<Rightarrow> int \<Rightarrow> assurance_run \<Rightarrow> assurance_run" where
  "broken_run now status err calls_used r = r\<lparr>yr_status := status, yr_phase := ended_text status,
     yr_label := (if status = JCancelled then ''Continuous assurance cancelled'' else ''Assurance run failed''),
     yr_detail := take 4000 err, yr_error := (if status = JCancelled then [] else take 4000 err),
     yr_calls_used := calls_used, yr_completed_at := Some now, yr_updated_at := now\<rparr>"

definition fail_run :: "instant \<Rightarrow> string \<Rightarrow> job_status \<Rightarrow> string \<Rightarrow> int \<Rightarrow> assurance_db \<Rightarrow> assurance_db" where
  "fail_run now i status err calls_used = update_runs (\<lambda>r. yr_id r = i) (broken_run now status err calls_used)"

definition requeued_run :: "instant \<Rightarrow> string \<Rightarrow> assurance_run \<Rightarrow> assurance_run" where
  "requeued_run now detail r = r\<lparr>yr_status := JQueued, yr_trigger := ''recovered'', yr_phase := ''recovered'', yr_progress := 0,
     yr_label := ''Recovered after restart'', yr_detail := detail, yr_started_at := None,
     yr_recovery_count := yr_recovery_count r + 1, yr_updated_at := now\<rparr>"

definition requeue_run :: "instant \<Rightarrow> string \<Rightarrow> assurance_db \<Rightarrow> assurance_db" where
  "requeue_run now i = update_runs (\<lambda>r. yr_id r = i) (requeued_run now
     ''The read-only run was interrupted during shutdown and will resume from a fresh collection.'')"

definition withdrawn_run :: "instant \<Rightarrow> assurance_run \<Rightarrow> assurance_run" where
  "withdrawn_run now r = r\<lparr>yr_status := JCancelled, yr_phase := ''cancelled'', yr_label := ''Continuous assurance cancelled'',
     yr_detail := ''Cancelled before execution.'', yr_cancel_requested := True, yr_completed_at := Some now, yr_updated_at := now\<rparr>"

definition request_run_cancel :: "instant \<Rightarrow> string \<Rightarrow> assurance_db \<Rightarrow> assurance_run option \<times> assurance_db" where
  "request_run_cancel now i db =
     (case find_run i db of
        None \<Rightarrow> (None, db)
      | Some r \<Rightarrow>
         (let db' = (if yr_status r = JQueued then update_runs (\<lambda>x. yr_id x = i) (withdrawn_run now) db
            else if yr_status r = JRunning
            then update_runs (\<lambda>x. yr_id x = i) (\<lambda>x. x\<lparr>yr_cancel_requested := True,
              yr_detail := ''Cancellation requested; stopping active local and Splunk work.'', yr_updated_at := now\<rparr>) db
            else db)
          in (find_run i db', db')))"

definition recover_cancelled :: "instant \<Rightarrow> assurance_run \<Rightarrow> assurance_run" where
  "recover_cancelled now r = r\<lparr>yr_status := JCancelled, yr_phase := ''cancelled'', yr_label := ''Continuous assurance cancelled'',
     yr_detail := ''Cancellation persisted across restart.'', yr_completed_at := Some now, yr_updated_at := now\<rparr>"

definition recover_interrupted_runs :: "instant \<Rightarrow> assurance_db \<Rightarrow> nat \<times> assurance_db" where
  "recover_interrupted_runs now db =
     (let cancelled = (\<lambda>r. yr_status r = JRunning \<and> yr_cancel_requested r);
          running = (\<lambda>r. yr_status r = JRunning \<and> \<not> yr_cancel_requested r);
          db1 = update_runs cancelled (recover_cancelled now) db;
          db2 = update_runs running (requeued_run now ''The prior process stopped mid-run; a fresh read-only collection is queued.'') db1
      in (sql_count cancelled (yd_runs db) + sql_count running (yd_runs db1), db2))"

definition open_assurance :: "instant \<Rightarrow> assurance_db \<Rightarrow> assurance_db" where
  "open_assurance now db = snd (recover_interrupted_runs now db)"

definition run_events :: "string \<Rightarrow> int \<Rightarrow> assurance_db \<Rightarrow> run_event list" where
  "run_events i limit db = rev (sql_limit limit (sql_order_desc ye_id (filter (\<lambda>e. ye_run_id e = i) (yd_events db))))"

text \<open>What counts towards the daily limit: a run that was started, or that made calls.\<close>

definition run_counted :: "assurance_run \<Rightarrow> bool" where
  "run_counted r = (\<not> (yr_status r = JCancelled \<or> yr_status r = JQueued) \<or> 0 < yr_calls_used r)"

definition usage_today :: "instant \<Rightarrow> assurance_db \<Rightarrow> int \<times> int" where
  "usage_today now db =
     (let start = days (utc_day now); mine = filter (\<lambda>r. start \<le> yr_created_at r) (yd_runs db)
      in (int (sql_count run_counted mine), sum_list (map yr_calls_used mine)))"

end
