(* ===== verification/Assurance_Signals.thy ===== *)
theory Assurance_Signals
  imports Assurance_Store
begin

text \<open>
  The second half of \<open>assurance/store.py\<close>: notifications, the correlation of the signals of consecutive runs, and
  response packages. SHA-256 is the parameter \<open>digest\<close>. A Python set is listed in
  the order of first occurrence.
\<close>


section \<open>Notifications\<close>

definition same_notice :: "string \<Rightarrow> string \<Rightarrow> string \<Rightarrow> string \<Rightarrow> notification \<Rightarrow> bool" where
  "same_notice severity category title detail n = (\<not> yn_acknowledged n \<and> yn_severity n = severity \<and>
     yn_category n = category \<and> yn_title n = title \<and> yn_detail n = detail)"

definition add_notification ::
  "instant \<Rightarrow> string \<Rightarrow> string \<Rightarrow> string \<Rightarrow> string \<Rightarrow> string \<Rightarrow> string \<Rightarrow> assurance_db \<Rightarrow> notification result \<times> assurance_db" where
  "add_notification now i run severity category title detail db =
     (let t = take 240 title; d = take 4000 detail in
      case sql_first (\<lambda>n. True) (sql_order_desc yn_created_at (filter (same_notice severity category t d) (yd_notifications db))) of
        Some n \<Rightarrow> (Inr n, db)
      | None \<Rightarrow> if list_ex (\<lambda>n. yn_id n = i) (yd_notifications db)
          then (Inl (IntegrityError ''assurance_notifications''), db)
          else let n = \<lparr>yn_id = i, yn_run_id = run, yn_severity = severity, yn_category = category, yn_title = t,
              yn_detail = d, yn_acknowledged = False, yn_created_at = now\<rparr>
            in (Inr n, db\<lparr>yd_notifications := yd_notifications db @ [n]\<rparr>))"

definition list_notifications :: "int \<Rightarrow> assurance_db \<Rightarrow> notification list" where
  "list_notifications limit db = sql_limit limit (sort_key (\<lambda>n. if yn_acknowledged n then 1 else 0 :: nat)
     (sql_order_desc yn_created_at (yd_notifications db)))"

definition acknowledge :: "string \<Rightarrow> assurance_db \<Rightarrow> notification option \<times> assurance_db" where
  "acknowledge i db = (let rows = sql_update (\<lambda>n. yn_id n = i) (\<lambda>n. n\<lparr>yn_acknowledged := True\<rparr>) (yd_notifications db)
     in (sql_first (\<lambda>n. yn_id n = i) rows, db\<lparr>yd_notifications := rows\<rparr>))"


section \<open>Signals\<close>

definition find_signal :: "string \<Rightarrow> assurance_db \<Rightarrow> signal option" where
  "find_signal f db = sql_first (\<lambda>s. ys_fingerprint s = f) (yd_signals db)"

definition scope_prefix :: "(string \<Rightarrow> string) \<Rightarrow> string \<Rightarrow> string" where
  "scope_prefix digest scope_key = take 16 (digest scope_key) @ '':''"

definition scoped_fingerprint :: "(string \<Rightarrow> string) \<Rightarrow> string \<Rightarrow> string \<Rightarrow> string" where
  "scoped_fingerprint digest scope_key f =
     (if scope_key = [] \<or> f = [] then f else scope_prefix digest scope_key @ f)"

text \<open>What a run observed, as \<open>AssuranceResponseService._signal\<close> builds it.\<close>

record observation =
  ob_fingerprint :: string
  ob_kind :: string
  ob_severity :: string
  ob_title :: string
  ob_detail :: string
  ob_subject :: string
  ob_source_ref :: string
  ob_authoritative :: bool

text \<open>\<open>split("|", 2)\<close>.\<close>

fun split_bar :: "nat \<Rightarrow> string \<Rightarrow> string \<Rightarrow> string list" where
  "split_bar n w [] = [w]"
| "split_bar n w (c # cs) = (if c = CHR 0x7C \<and> 0 < n then w # split_bar (n - 1) [] cs else split_bar n (w @ [c]) cs)"

definition signal_binding :: "string \<Rightarrow> string \<Rightarrow> assurance_db \<Rightarrow> assurance_binding" where
  "signal_binding run scope_key db =
     (case find_run run db of
        Some r \<Rightarrow> \<lparr>yb_alias = yr_alias r, yb_fingerprint = yr_fingerprint r, yb_tenant = yr_tenant r\<rparr>
      | None \<Rightarrow> (case (if scope_key = [] then [] else split_bar 2 [] scope_key) of
            [a, f, t] \<Rightarrow> \<lparr>yb_alias = a, yb_fingerprint = f, yb_tenant = t\<rparr>
          | _ \<Rightarrow> \<lparr>yb_alias = ''primary'', yb_fingerprint = [], yb_tenant = ''workspace-primary''\<rparr>))"

definition observed_status :: "string \<Rightarrow> int \<Rightarrow> signal_status" where
  "observed_status severity consecutive =
     (if severity = ''critical'' \<or> severity = ''high'' \<or> 2 \<le> consecutive then SPersistent else SWatching)"

definition observed_consecutive :: "bool \<Rightarrow> signal option \<Rightarrow> int" where
  "observed_consecutive authoritative existing =
     (if authoritative
      then (case existing of Some s \<Rightarrow> if ys_status s \<noteq> SResolved then ys_consecutive s + 1 else 1 | None \<Rightarrow> 1)
      else (case existing of Some s \<Rightarrow> ys_consecutive s | None \<Rightarrow> 0))"

definition observed_signal ::
  "instant \<Rightarrow> string \<Rightarrow> assurance_binding \<Rightarrow> observation \<Rightarrow> signal option \<Rightarrow> signal" where
  "observed_signal now run b ob existing =
     (let severity = text_or (ob_severity ob) ''medium'';
          consecutive = observed_consecutive (ob_authoritative ob) existing in
      \<lparr>ys_fingerprint = ob_fingerprint ob, ys_kind = ob_kind ob, ys_severity = severity,
       ys_title = take 240 (text_or (ob_title ob) ''Assurance signal''), ys_detail = take 4000 (ob_detail ob),
       ys_subject = take 500 (ob_subject ob), ys_source_ref = take 40 (ob_source_ref ob),
       ys_status = (if ob_authoritative ob then observed_status severity consecutive
         else (case existing of Some s \<Rightarrow> ys_status s | None \<Rightarrow> SWatching)),
       ys_occurrences = (case existing of Some s \<Rightarrow> ys_occurrences s + 1 | None \<Rightarrow> 1), ys_consecutive = consecutive,
       ys_first_run = (case existing of Some s \<Rightarrow> ys_first_run s | None \<Rightarrow> run), ys_last_run = run,
       ys_first_seen_at = (case existing of Some s \<Rightarrow> ys_first_seen_at s | None \<Rightarrow> now), ys_last_seen_at = now,
       ys_resolved_at = None, ys_alias = yb_alias b, ys_connection = yb_fingerprint b, ys_tenant = yb_tenant b\<rparr>)"

definition correlate_one ::
  "instant \<Rightarrow> string \<Rightarrow> assurance_binding \<Rightarrow> observation \<Rightarrow> signal list \<Rightarrow> signal list" where
  "correlate_one now run b ob rows =
     (if ob_fingerprint ob = [] then rows
      else case sql_first (\<lambda>s. ys_fingerprint s = ob_fingerprint ob) rows of
        None \<Rightarrow> rows @ [observed_signal now run b ob None]
      | Some s \<Rightarrow> if ys_last_run s = run then rows
          else sql_update (\<lambda>x. ys_fingerprint x = ob_fingerprint ob) (\<lambda>x. observed_signal now run b ob (Some s)) rows)"

definition resolved_signal :: "instant \<Rightarrow> signal \<Rightarrow> signal" where
  "resolved_signal now s = s\<lparr>ys_status := SResolved, ys_consecutive := 0, ys_resolved_at := Some now\<rparr>"

text \<open>The rows that were open when the correlation began, and that this run resolves when it read everything.\<close>

definition open_fingerprints :: "string \<Rightarrow> signal list \<Rightarrow> string list" where
  "open_fingerprints tenant rows =
     map ys_fingerprint (filter (\<lambda>s. ys_status s \<noteq> SResolved \<and> (tenant = [] \<or> ys_tenant s = tenant)) rows)"

definition scoped_observations :: "(string \<Rightarrow> string) \<Rightarrow> string \<Rightarrow> observation list \<Rightarrow> observation list" where
  "scoped_observations digest scope_key obs =
     map (\<lambda>ob. ob\<lparr>ob_fingerprint := scoped_fingerprint digest scope_key (ob_fingerprint ob)\<rparr>) obs"

definition seen_fingerprints :: "observation list \<Rightarrow> string list" where
  "seen_fingerprints obs = from_keys (filter (\<lambda>f. f \<noteq> []) (map ob_fingerprint obs))"

text \<open>The kind of an open row is the one it had when the correlation began.\<close>

definition resolves :: "string list option \<Rightarrow> string list \<Rightarrow> string \<Rightarrow> signal list \<Rightarrow> signal \<Rightarrow> bool" where
  "resolves kinds seen tenant before s =
     list_ex (\<lambda>o'. ys_fingerprint o' = ys_fingerprint s \<and> ys_status o' \<noteq> SResolved \<and> (tenant = [] \<or> ys_tenant o' = tenant)
       \<and> \<not> List.member seen (ys_fingerprint o')
       \<and> (case kinds of None \<Rightarrow> True | Some ks \<Rightarrow> List.member ks (ys_kind o'))) before"

definition correlate_rows ::
  "instant \<Rightarrow> string \<Rightarrow> assurance_binding \<Rightarrow> observation list \<Rightarrow> bool \<Rightarrow> string list option \<Rightarrow> signal list \<Rightarrow> signal list" where
  "correlate_rows now run b obs authoritative kinds rows =
     (let rows1 = fold (correlate_one now run b) obs rows in
      if authoritative
      then sql_update (resolves kinds (seen_fingerprints obs) (yb_tenant b) rows) (resolved_signal now) rows1
      else rows1)"

definition correlate_signals ::
  "(string \<Rightarrow> string) \<Rightarrow> instant \<Rightarrow> string \<Rightarrow> observation list \<Rightarrow> bool \<Rightarrow> string list option \<Rightarrow> string \<Rightarrow> assurance_db \<Rightarrow>
    signal list \<times> assurance_db" where
  "correlate_signals digest now run obs authoritative kinds scope_key db =
     (let scoped = scoped_observations digest scope_key obs;
          db' = db\<lparr>yd_signals := correlate_rows now run (signal_binding run scope_key db) scoped authoritative kinds (yd_signals db)\<rparr>
      in (concat (map (\<lambda>f. case find_signal f db' of None \<Rightarrow> [] | Some s \<Rightarrow> [s]) (seen_fingerprints scoped)), db'))"

fun status_order :: "signal_status \<Rightarrow> nat" where
  "status_order SPersistent = 0"
| "status_order SWatching = 1"
| "status_order SResolved = 2"

definition severity_order :: "string \<Rightarrow> nat" where
  "severity_order s = (if s = ''critical'' then 0 else if s = ''high'' then 1 else if s = ''medium'' then 2 else 3)"

definition list_signals :: "(string \<Rightarrow> string) \<Rightarrow> int \<Rightarrow> string \<Rightarrow> string \<Rightarrow> assurance_db \<Rightarrow> signal list" where
  "list_signals digest limit scope_key tenant db = sql_limit limit
     (sort_key (\<lambda>s. status_order (ys_status s)) (sort_key (\<lambda>s. severity_order (ys_severity s))
       (sql_order_desc ys_last_seen_at (filter (\<lambda>s. if tenant \<noteq> [] then ys_tenant s = tenant
          else if scope_key \<noteq> [] then starts_with (scope_prefix digest scope_key) (ys_fingerprint s) else True) (yd_signals db)))))"

record signal_counts =
  yc_actionable :: nat
  yc_repeated :: nat
  yc_elevated :: nat
  yc_watching :: nat
  yc_resolved :: nat

definition count_signals :: "(string \<Rightarrow> string) \<Rightarrow> string \<Rightarrow> string \<Rightarrow> assurance_db \<Rightarrow> signal_counts" where
  "count_signals digest scope_key tenant db = (let rows = list_signals digest 10000 scope_key tenant db in
     \<lparr>yc_actionable = sql_count (\<lambda>s. ys_status s = SPersistent) rows,
      yc_repeated = sql_count (\<lambda>s. ys_status s = SPersistent \<and> 2 \<le> ys_consecutive s) rows,
      yc_elevated = sql_count (\<lambda>s. ys_status s = SPersistent \<and> ys_consecutive s < 2) rows,
      yc_watching = sql_count (\<lambda>s. ys_status s = SWatching) rows,
      yc_resolved = sql_count (\<lambda>s. ys_status s = SResolved) rows\<rparr>)"


section \<open>Response packages\<close>

definition sorted_set :: "string list \<Rightarrow> string list" where
  "sorted_set xs = sort (remdups xs)"

definition expire_packages :: "instant \<Rightarrow> string list \<Rightarrow> assurance_db \<Rightarrow> nat \<times> assurance_db" where
  "expire_packages now excluded db =
     (let due = (\<lambda>k. yk_status k = PReview \<and> yk_expires_at k \<le> now \<and> \<not> List.member excluded (yk_tenant k)) in
      (sql_count due (yd_packages db),
       db\<lparr>yd_packages := sql_update due (\<lambda>k. k\<lparr>yk_status := PExpired, yk_updated_at := now\<rparr>) (yd_packages db)\<rparr>))"

definition find_package :: "string \<Rightarrow> assurance_db \<Rightarrow> package option" where
  "find_package i db = sql_first (\<lambda>k. yk_id k = i) (yd_packages db)"

definition get_package :: "instant \<Rightarrow> string \<Rightarrow> string \<Rightarrow> assurance_db \<Rightarrow> package option \<times> assurance_db" where
  "get_package now i tenant db = (let db' = snd (expire_packages now [] db) in
     (if tenant = [] then find_package i db' else sql_first (\<lambda>k. yk_id k = i \<and> yk_tenant k = tenant) (yd_packages db'), db'))"

fun package_order :: "package_status \<Rightarrow> nat" where
  "package_order PReview = 0"
| "package_order PExpired = 1"
| "package_order PClosed = 2"

definition list_packages :: "instant \<Rightarrow> int \<Rightarrow> string \<Rightarrow> assurance_db \<Rightarrow> package list \<times> assurance_db" where
  "list_packages now limit tenant db = (let db' = snd (expire_packages now [] db) in
     (sql_limit limit (sort_key (\<lambda>k. package_order (yk_status k)) (sql_order_desc yk_created_at
        (filter (\<lambda>k. tenant = [] \<or> yk_tenant k = tenant) (yd_packages db')))), db'))"

definition covered_fingerprints :: "instant \<Rightarrow> string \<Rightarrow> assurance_db \<Rightarrow> string list \<times> assurance_db" where
  "covered_fingerprints now tenant db = (let db' = snd (expire_packages now [] db) in
     (concat (map yk_signals (filter (\<lambda>k. yk_status k = PReview \<and> (tenant = [] \<or> yk_tenant k = tenant)) (yd_packages db'))), db'))"

text \<open>The signals that a package shows.\<close>

definition package_signals :: "package \<Rightarrow> assurance_db \<Rightarrow> signal list" where
  "package_signals k db = concat (map (\<lambda>f. case find_signal f db of None \<Rightarrow> [] | Some s \<Rightarrow> [s]) (yk_signals k))"

definition package_binding :: "string \<Rightarrow> string list \<Rightarrow> assurance_db \<Rightarrow> assurance_binding" where
  "package_binding run fingerprints db =
     (case find_run run db of
        Some r \<Rightarrow> \<lparr>yb_alias = yr_alias r, yb_fingerprint = yr_fingerprint r, yb_tenant = yr_tenant r\<rparr>
      | None \<Rightarrow> (case concat (map (\<lambda>f. case find_signal f db of None \<Rightarrow> [] | Some s \<Rightarrow> [s]) fingerprints) of
            [] \<Rightarrow> \<lparr>yb_alias = ''primary'', yb_fingerprint = [], yb_tenant = ''workspace-primary''\<rparr>
          | s # ss \<Rightarrow> \<lparr>yb_alias = text_or (ys_alias s) ''primary'', yb_fingerprint = ys_connection s,
              yb_tenant = text_or (ys_tenant s) ''workspace-primary''\<rparr>))"

definition create_package ::
  "instant \<Rightarrow> string \<Rightarrow> string \<Rightarrow> string \<Rightarrow> string \<Rightarrow> string \<Rightarrow> string list \<Rightarrow> instant \<Rightarrow> assurance_db \<Rightarrow>
    (package \<times> assurance_db) result" where
  "create_package now i run severity title summary fingerprints expires_at db =
     (let b = package_binding run fingerprints db;
          k = \<lparr>yk_id = i, yk_source_run = run, yk_severity = severity, yk_status = PReview, yk_title = take 240 title,
            yk_summary = take 4000 summary, yk_signals = sorted_set fingerprints, yk_validations = [], yk_expires_at = expires_at,
            yk_created_at = now, yk_updated_at = now, yk_closed_at = None, yk_alias = yb_alias b,
            yk_connection = yb_fingerprint b, yk_tenant = yb_tenant b\<rparr>
      in if list_ex (\<lambda>x. yk_id x = i) (yd_packages db) then Inl (IntegrityError ''assurance_packages'')
         else Inr (k, db\<lparr>yd_packages := yd_packages db @ [k]\<rparr>))"

definition update_package_validations :: "instant \<Rightarrow> string \<Rightarrow> string list \<Rightarrow> assurance_db \<Rightarrow> package option \<times> assurance_db" where
  "update_package_validations now i tasks db =
     (let db' = db\<lparr>yd_packages := sql_update (\<lambda>k. yk_id k = i)
         (\<lambda>k. k\<lparr>yk_validations := sorted_set tasks, yk_updated_at := now\<rparr>) (yd_packages db)\<rparr>
      in (find_package i db', db'))"

definition close_package :: "instant \<Rightarrow> string \<Rightarrow> assurance_db \<Rightarrow> package option \<times> assurance_db" where
  "close_package now i db =
     (let db1 = snd (expire_packages now [] db);
          db2 = db1\<lparr>yd_packages := sql_update (\<lambda>k. yk_id k = i \<and> yk_status k = PReview)
            (\<lambda>k. k\<lparr>yk_status := PClosed, yk_closed_at := Some now, yk_updated_at := now\<rparr>) (yd_packages db1)\<rparr>
      in (find_package i db2, db2))"


section \<open>Legacy rows\<close>

text \<open>\<open>bind_unbound\<close>: rows without a connection get the given one; signals and packages prefer that of their run.\<close>

definition run_binding :: "assurance_binding \<Rightarrow> string \<Rightarrow> assurance_run list \<Rightarrow> assurance_binding" where
  "run_binding b run rows = (case sql_first (\<lambda>r. yr_id r = run) rows of None \<Rightarrow> b
     | Some r \<Rightarrow> \<lparr>yb_alias = yr_alias r, yb_fingerprint = yr_fingerprint r, yb_tenant = yr_tenant r\<rparr>)"

definition bind_unbound_assurance :: "assurance_binding \<Rightarrow> assurance_db \<Rightarrow> (nat \<times> nat \<times> nat \<times> nat) \<times> assurance_db" where
  "bind_unbound_assurance b db =
     (let unbound = yp_fingerprint (yd_policy db) = [];
          policy = (if unbound then (yd_policy db)\<lparr>yp_alias := yb_alias b, yp_fingerprint := yb_fingerprint b, yp_tenant := yb_tenant b\<rparr>
            else yd_policy db);
          free = (\<lambda>r. yr_fingerprint r = []);
          runs = sql_update free (\<lambda>r. r\<lparr>yr_alias := yb_alias b, yr_fingerprint := yb_fingerprint b, yr_tenant := yb_tenant b\<rparr>) (yd_runs db);
          loose = (\<lambda>s. ys_connection s = [] \<or> ys_tenant s = []);
          signals = sql_update loose (\<lambda>s. let c = run_binding b (ys_last_run s) runs in
            s\<lparr>ys_alias := yb_alias c, ys_connection := yb_fingerprint c, ys_tenant := yb_tenant c\<rparr>) (yd_signals db);
          unowned = (\<lambda>k. yk_connection k = [] \<or> yk_tenant k = []);
          packages = sql_update unowned (\<lambda>k. let c = run_binding b (yk_source_run k) runs in
            k\<lparr>yk_alias := yb_alias c, yk_connection := yb_fingerprint c, yk_tenant := yb_tenant c\<rparr>) (yd_packages db)
      in ((if unbound then 1 else 0, sql_count free (yd_runs db), sql_count loose (yd_signals db), sql_count unowned (yd_packages db)),
          db\<lparr>yd_policy := policy, yd_runs := runs, yd_signals := signals, yd_packages := packages\<rparr>))"

end
