(* ===== verification/Assurance_Response.thy ===== *)
theory Assurance_Response
  imports Assurance_Signals Validation_Service
begin

text \<open>
  The answer to a finished assurance run (\<open>assurance/response.py\<close>): the result is reduced to signals, these are
  correlated with earlier runs, and what needs attention becomes one review package with validation drafts.
  The tables of assurance and of validations are passed along; an exception leaves what was written before it.

  Parameters (record \<open>response_env\<close>): clock, the text of an instant, fresh ids (the \<open>n\<close>-th validation of a
  package has its own), the environment of the validation service, and the texts of the exceptions for a value of the
  wrong shape and for a draft that the schema refuses.
\<close>


section \<open>Signals of a result\<close>

record response_env =
  rx_now :: instant
  rx_iso :: "instant \<Rightarrow> string"
  rx_package_id :: string
  rx_notice_id :: string
  rx_task_id :: "nat \<Rightarrow> string"
  rx_validation :: validation_env
  rx_error :: string
  rx_schema_error :: string

abbreviation rx_repr :: "response_env \<Rightarrow> json \<Rightarrow> string" where
  "rx_repr env \<equiv> vx_repr (rx_validation env)"

abbreviation rx_digest :: "response_env \<Rightarrow> string \<Rightarrow> string" where
  "rx_digest env \<equiv> vx_digest (rx_validation env)"

definition PACKAGE_LIFETIME :: int where
  "PACKAGE_LIFETIME = days 7"

definition SEVERITY_RANK :: "(string \<times> int) list" where
  "SEVERITY_RANK = [(''critical'', 4), (''high'', 3), (''medium'', 2), (''low'', 1)]"

definition severity_rank :: "string \<Rightarrow> int" where
  "severity_rank s = (case map_of SEVERITY_RANK s of None \<Rightarrow> 0 | Some n \<Rightarrow> n)"

definition is_dict :: "json \<Rightarrow> bool" where
  "is_dict v = (case v of JObj kvs \<Rightarrow> True | _ \<Rightarrow> False)"

text \<open>\<open>_signal\<close> and \<open>_subject\<close>.\<close>

definition make_signal ::
  "(string \<Rightarrow> string) \<Rightarrow> string \<Rightarrow> string \<Rightarrow> string \<Rightarrow> string \<Rightarrow> string \<Rightarrow> string \<Rightarrow> string list \<Rightarrow> bool \<Rightarrow> observation" where
  "make_signal digest kind severity title detail subject source_ref identity authoritative =
     \<lparr>ob_fingerprint = digest (json_text (JArr (map JStr (kind # identity)))), ob_kind = kind,
      ob_severity = (if map_of SEVERITY_RANK severity = None then ''medium'' else severity),
      ob_title = take 240 title, ob_detail = take 4000 detail, ob_subject = take 500 subject,
      ob_source_ref = take 40 source_ref, ob_authoritative = authoritative\<rparr>"

definition signal_subject :: "(json \<Rightarrow> string) \<Rightarrow> json \<Rightarrow> string" where
  "signal_subject repr v =
     (if is_dict v
      then (case List.find (\<lambda>k. truthy (json_member k v)) [''name'', ''id'', ''title'', ''tool''] of
          Some k \<Rightarrow> take 500 (str_or_empty repr (json_member k v))
        | None \<Rightarrow> take 500 (dumps (json_norm v)))
      else take 500 (json_str repr v))"

definition failed_calls :: "response_env \<Rightarrow> json \<Rightarrow> int result" where
  "failed_calls env result = try_bind (get_or (rx_error env) ''collection_status'' (JObj []) result)
     (get_int_or (rx_error env) ''failed_calls'' 0)"

definition finding_signal :: "response_env \<Rightarrow> bool \<Rightarrow> nat \<times> json \<Rightarrow> observation list" where
  "finding_signal env complete = (\<lambda>(index, finding).
     if \<not> is_dict finding then []
     else let repr = rx_repr env;
          domain = text_of repr ''posture'' ''domain'' finding;
          title = text_of repr ''Discovery finding'' ''title'' finding;
          given_severity = text_of repr ''medium'' ''severity'' finding;
          evidence = text_of repr (text_of repr [] ''next_step'' finding) ''evidence'' finding;
          severity = (if \<not> complete \<and> (given_severity = ''critical'' \<or> given_severity = ''high'') then ''medium'' else given_severity);
          detail = (if complete then evidence
            else ''Collection was incomplete; treat this derived finding as unverified. '' @ evidence)
        in [make_signal (rx_digest env) ''finding'' severity title detail domain (CHR ''D'' # nat_text index) [domain, title] complete])"

definition inventory_item_signal :: "response_env \<Rightarrow> bool \<Rightarrow> string \<Rightarrow> string \<Rightarrow> json \<Rightarrow> observation" where
  "inventory_item_signal env complete category direction item =
     (let subject = signal_subject (rx_repr env) item in
      make_signal (rx_digest env) ''inventory'' ''medium'' (headline_of category @ '' '' @ direction)
        (subject @ '' was '' @ direction @ '' in deterministic discovery inventory.'') subject [] [category, direction, subject] complete)"

definition inventory_signals :: "response_env \<Rightarrow> bool \<Rightarrow> string \<times> json \<Rightarrow> observation list result" where
  "inventory_signals env complete = (\<lambda>(category, change).
     if \<not> is_dict change then Inr []
     else try_concat (\<lambda>direction.
         if truthy (json_member direction change)
         then try_bind (iterate (rx_error env) (the (json_member direction change)))
           (\<lambda>items. Inr (map (inventory_item_signal env complete category direction) items))
         else Inr []) [''added'', ''removed''])"

definition coverage_signal :: "response_env \<Rightarrow> bool \<Rightarrow> string \<times> json \<Rightarrow> observation" where
  "coverage_signal env complete = (\<lambda>(domain, change).
     make_signal (rx_digest env) ''coverage'' ''medium'' (headline_of domain @ '' coverage changed'') (dumps (json_norm change))
       domain [] [domain] complete)"

definition mltk_signals :: "response_env \<Rightarrow> bool \<Rightarrow> json \<Rightarrow> observation list result" where
  "mltk_signals env complete result =
     try_bind (get_or (rx_error env) ''splunk_models'' (JObj []) result) (\<lambda>models.
     try_bind (get_or (rx_error env) ''summary'' (JObj []) models) (\<lambda>mltk.
     try_bind (get_int_or (rx_error env) ''changed'' 0 mltk) (\<lambda>changed.
     try_bind (get_int_or (rx_error env) ''missing'' 0 mltk) (\<lambda>missing.
       Inr (if changed \<noteq> 0 \<or> missing \<noteq> 0
         then [make_signal (rx_digest env) ''mltk'' ''medium'' ''Splunk MLTK model definitions drifted''
           (int_text changed @ '' changed and '' @ int_text missing @ '' missing model definitions.'') ''mltk-model-catalog'' []
           [''definitions''] complete]
         else [])))))"

text \<open>\<open>errors.get(item)\<close>: only a text can be a key, and a list or a dictionary is not hashable.\<close>

definition error_of :: "response_env \<Rightarrow> (string \<times> json) list \<Rightarrow> json \<Rightarrow> string result" where
  "error_of env errors item = (case item of
     JStr k \<Rightarrow> Inr (str_or_empty (rx_repr env) (map_of errors k))
   | JArr xs \<Rightarrow> Inl (RuntimeError (rx_error env))
   | JObj kvs \<Rightarrow> Inl (RuntimeError (rx_error env))
   | _ \<Rightarrow> Inr [])"

definition collection_signal :: "response_env \<Rightarrow> (string \<times> json) list \<Rightarrow> json \<Rightarrow> observation list result" where
  "collection_signal env errors item =
     try_bind (error_of env errors item) (\<lambda>error.
       let subject = signal_subject (rx_repr env) item in
       Inr [make_signal (rx_digest env) ''collection'' ''high'' ''Assurance collection path failed''
         (strip (''The bounded read-only collection path failed: '' @ subject @ ''. '' @ error)) subject [] [subject] True])"

definition collection_signals :: "response_env \<Rightarrow> json \<Rightarrow> observation list result" where
  "collection_signals env collection =
     (let errors = (case json_member ''errors'' collection of Some (JObj kvs) \<Rightarrow> kvs | _ \<Rightarrow> []);
          tools = (if truthy (json_member ''failed_tools'' collection) then the (json_member ''failed_tools'' collection)
            else if errors \<noteq> [] then JArr (map (\<lambda>(k, v). JStr k) errors) else JArr [JStr ''unknown MCP collection''])
      in try_bind (iterate (rx_error env) tools) (try_concat (collection_signal env errors)))"

definition dict_members :: "json \<Rightarrow> (string \<times> json) list" where
  "dict_members v = (case v of JObj kvs \<Rightarrow> kvs | _ \<Rightarrow> [])"

definition result_signals :: "response_env \<Rightarrow> json \<Rightarrow> observation list result" where
  "result_signals env result =
     try_bind (get_or (rx_error env) ''collection_status'' (JObj []) result) (\<lambda>collection.
     try_bind (get_int_or (rx_error env) ''failed_calls'' 0 collection) (\<lambda>failed.
     try_bind (get_or (rx_error env) ''findings'' (JArr []) result) (\<lambda>found.
     try_bind (iterate (rx_error env) found) (\<lambda>findings.
     try_bind (get_or (rx_error env) ''changes'' (JObj []) result) (\<lambda>changes.
     try_bind (get_or (rx_error env) ''inventory'' (JObj []) changes) (\<lambda>inventory.
     try_bind (try_concat (inventory_signals env (failed = 0)) (dict_members inventory)) (\<lambda>drift.
     try_bind (get_or (rx_error env) ''coverage'' (JObj []) changes) (\<lambda>coverage.
     try_bind (mltk_signals env (failed = 0) result) (\<lambda>mltk.
     try_bind (if failed \<noteq> 0 then collection_signals env collection else Inr []) (\<lambda>gaps.
       Inr (concat (map (finding_signal env (failed = 0)) (enumerate 1 findings)) @ drift
         @ map (coverage_signal env (failed = 0)) (dict_members coverage) @ mltk @ gaps)))))))))))"


section \<open>Validation drafts\<close>

definition drift_candidate :: "response_env \<Rightarrow> json \<Rightarrow> json" where
  "drift_candidate env result = JObj [(''title'', JStr (''Validate'' @ dot @ ''Current telemetry inventory after assurance drift'')),
     (''rationale'', JStr (''A repeated inventory or coverage change needs a current, bounded ''
        @ ''observation before escalation or ownership decisions.'')),
     (''spl'', JStr ''| tstats count where earliest=-24h by index sourcetype | sort - count | head 100''),
     (''earliest_time'', JStr ''-24h''), (''latest_time'', JStr ''now''), (''row_limit'', JInt 100), (''evidence_refs'', JArr []),
     (''source_run_id'', JStr (str_or_empty (rx_repr env) (json_member ''run_id'' result))), (''source_finding_ref'', JStr ''DRIFT'')]"

text \<open>The candidates of a result by the finding they belong to: of two with the same key the later counts.\<close>

definition candidate_key :: "response_env \<Rightarrow> json \<Rightarrow> string" where
  "candidate_key env item =
     text_of (rx_repr env) (text_of (rx_repr env) [] ''id'' item) ''source_finding_ref'' item"

definition selected_candidates :: "response_env \<Rightarrow> json \<Rightarrow> json list \<Rightarrow> signal list \<Rightarrow> json list" where
  "selected_candidates env result items signals =
     (let table = rev (map (\<lambda>item. (candidate_key env item, item)) (filter is_dict items));
          chosen = concat (map (\<lambda>s. case map_of table (ys_source_ref s) of None \<Rightarrow> []
            | Some c \<Rightarrow> if json_true c then [c] else []) signals)
      in chosen @ (if list_ex (\<lambda>s. ys_kind s = ''inventory'' \<or> ys_kind s = ''coverage'') signals
           then [drift_candidate env result] else []))"

record candidate_query =
  cq_spl :: string
  cq_earliest :: string
  cq_latest :: string
  cq_limit :: int

definition query_of :: "response_env \<Rightarrow> json \<Rightarrow> candidate_query result" where
  "query_of env c = try_bind (get_int_or (rx_error env) ''row_limit'' 100 c) (\<lambda>n.
     Inr \<lparr>cq_spl = text_of (rx_repr env) [] ''spl'' c, cq_earliest = text_of (rx_repr env) ''-24h'' ''earliest_time'' c,
       cq_latest = text_of (rx_repr env) ''now'' ''latest_time'' c, cq_limit = n\<rparr>)"

definition query_fingerprint :: "response_env \<Rightarrow> candidate_query \<Rightarrow> string" where
  "query_fingerprint env q = task_fingerprint (rx_digest env) (cq_spl q) (cq_earliest q) (cq_latest q) (cq_limit q)"

definition draft_refs :: "response_env \<Rightarrow> json \<Rightarrow> signal list \<Rightarrow> string list result" where
  "draft_refs env c signals = try_bind (get_or (rx_error env) ''evidence_refs'' (JArr []) c) (\<lambda>v.
     try_bind (iterate (rx_error env) v) (\<lambda>refs.
       Inr (take 16 (sorted_set (map (json_str (rx_repr env)) (filter json_true refs)
         @ map ys_source_ref (filter (\<lambda>s. ys_source_ref s \<noteq> []) signals))))))"

definition draft_create :: "response_env \<Rightarrow> json \<Rightarrow> package \<Rightarrow> string \<Rightarrow> json \<Rightarrow> candidate_query \<Rightarrow> string list \<Rightarrow> task_create" where
  "draft_create env result k expires_at c q refs = \<lparr>tc_title = take 240 (text_of (rx_repr env) ''Assurance validation'' ''title'' c),
     tc_rationale = take 4000 (''Continuous assurance response package '' @ take 8 (yk_id k) @ ''. ''
       @ text_of (rx_repr env) ''Validate the correlated signal.'' ''rationale'' c),
     tc_spl = cq_spl q, tc_earliest_time = cq_earliest q, tc_latest_time = cq_latest q, tc_row_limit = cq_limit q,
     tc_evidence_refs = refs, tc_result_contract = JObj [],
     tc_source_run_id = text_of (rx_repr env) (str_or_empty (rx_repr env) (json_member ''run_id'' result)) ''source_run_id'' c,
     tc_source_finding_ref = take 40 (text_of (rx_repr env) ''ASSURANCE'' ''source_finding_ref'' c), tc_case_id = None,
     tc_expires_at = Some expires_at, tc_assurance_package_id = yk_id k, tc_approval_scope = ''single-execution'',
     tc_connection_alias = text_or (yk_alias k) ''primary'', tc_connection_fingerprint = yk_connection k,
     tc_tenant_scope_id = text_or (yk_tenant k) ''workspace-primary''\<rparr>"

text \<open>One candidate: a live task with the same query is reused, otherwise a draft is created.\<close>

definition make_draft ::
  "response_env \<Rightarrow> json \<Rightarrow> package \<Rightarrow> string \<Rightarrow> signal list \<Rightarrow> nat \<Rightarrow> json \<Rightarrow> candidate_query \<Rightarrow> validation_db \<Rightarrow>
    string result \<times> validation_db" where
  "make_draft env result k expires_at signals n c q vdb =
     (case find_reusable (vx_now (rx_validation env)) (query_fingerprint env q) (Some (text_or (yk_tenant k) ''workspace-primary'')) vdb of
        (Some t, vdb1) \<Rightarrow> (Inr (vt_id t), vdb1)
      | (None, vdb1) \<Rightarrow>
         (case draft_refs env c signals of Inl e \<Rightarrow> (Inl e, vdb1)
          | Inr refs \<Rightarrow>
             (let v = draft_create env result k expires_at c q refs in
              if \<not> task_create_ok v then (Inl (ValueError (rx_schema_error env)), vdb1)
              else case create_validation ((rx_validation env)\<lparr>vx_task_id := rx_task_id env n\<rparr>) v vdb1 of
                Inl e \<Rightarrow> (Inl e, vdb1)
              | Inr (t, vdb2) \<Rightarrow> (Inr (vt_id t), vdb2))))"

fun make_drafts ::
  "response_env \<Rightarrow> json \<Rightarrow> package \<Rightarrow> string \<Rightarrow> signal list \<Rightarrow> string list \<Rightarrow> nat \<Rightarrow> json list \<Rightarrow> validation_db \<Rightarrow>
    string list result \<times> validation_db" where
  "make_drafts env result k expires_at signals seen n [] vdb = (Inr [], vdb)"
| "make_drafts env result k expires_at signals seen n (c # cs) vdb =
     (case query_of env c of Inl e \<Rightarrow> (Inl e, vdb)
      | Inr q \<Rightarrow>
          if List.member seen (query_fingerprint env q) then make_drafts env result k expires_at signals seen (Suc n) cs vdb
          else case make_draft env result k expires_at signals n c q vdb of
            (Inl e, vdb1) \<Rightarrow> (Inl e, vdb1)
          | (Inr i, vdb1) \<Rightarrow>
             (case make_drafts env result k expires_at signals (query_fingerprint env q # seen) (Suc n) cs vdb1 of
                (Inl e, vdb2) \<Rightarrow> (Inl e, vdb2)
              | (Inr ids, vdb2) \<Rightarrow> (Inr (i # ids), vdb2)))"

definition validation_drafts ::
  "response_env \<Rightarrow> package \<Rightarrow> string \<Rightarrow> signal list \<Rightarrow> json \<Rightarrow> validation_db \<Rightarrow> string list result \<times> validation_db" where
  "validation_drafts env k expires_at signals result vdb =
     (case try_bind (get_or (rx_error env) ''validation_candidates'' (JArr []) result) (iterate (rx_error env)) of
        Inl e \<Rightarrow> (Inl e, vdb)
      | Inr items \<Rightarrow> make_drafts env result k expires_at signals [] 0 (selected_candidates env result items signals) vdb)"


section \<open>The package\<close>

definition authoritative_kinds :: "string \<Rightarrow> string list" where
  "authoritative_kinds depth = [''inventory'', ''collection'']
     @ (if depth = ''standard'' \<or> depth = ''deep'' then [''coverage'', ''finding'', ''mltk''] else [])"

text \<open>The key orders by rank, then by consecutive runs, both descending, then by title; Python's sort is stable.\<close>

definition sort_signals :: "signal list \<Rightarrow> signal list" where
  "sort_signals = sort_key (\<lambda>s. - severity_rank (ys_severity s)) \<circ> sort_key (\<lambda>s. - ys_consecutive s) \<circ> sort_key ys_title"

definition eligible_signals :: "string list \<Rightarrow> (string \<times> bool) list \<Rightarrow> signal list \<Rightarrow> signal list" where
  "eligible_signals covered authoritative signals =
     filter (\<lambda>s. ys_status s = SPersistent \<and> \<not> List.member covered (ys_fingerprint s)
       \<and> (case map_of authoritative (ys_fingerprint s) of None \<Rightarrow> True | Some a \<Rightarrow> a)) signals"

text \<open>\<open>max\<close> keeps the first of equals.\<close>

definition highest_severity :: "signal list \<Rightarrow> string" where
  "highest_severity signals = (case map (\<lambda>s. text_or (ys_severity s) ''medium'') signals of [] \<Rightarrow> []
     | x # xs \<Rightarrow> fold (\<lambda>y m. if severity_rank m < severity_rank y then y else m) xs x)"

definition package_title :: "nat \<Rightarrow> string" where
  "package_title n = ''Assurance response'' @ dot @ nat_text n @ '' actionable signal'' @ (if n \<noteq> 1 then ''s'' else [])"

definition package_summary :: "signal list \<Rightarrow> string" where
  "package_summary signals =
     (let repeated = sql_count (\<lambda>s. 2 \<le> ys_consecutive s) signals; urgent = length signals - repeated in
      join_with ''. '' ((if repeated \<noteq> 0 then [nat_text repeated @ '' repeated across consecutive runs''] else [])
        @ (if urgent \<noteq> 0 then [nat_text urgent @ '' elevated immediately by severity''] else [])
        @ [''Any proposed SPL remains a local draft until an analyst approves the exact contract'']) @ ''.'')"

record response_world =
  rw_db :: assurance_db
  rw_tasks :: validation_db

text \<open>From the eligible signals on: the package, its drafts and the notification.\<close>

definition open_package ::
  "response_env \<Rightarrow> string \<Rightarrow> json \<Rightarrow> signal list \<Rightarrow> response_world \<Rightarrow> package option result \<times> response_world" where
  "open_package env run result eligible w =
     (let signals = take 12 (sort_signals eligible); expires = rx_now env + PACKAGE_LIFETIME;
          title = package_title (length signals); severity = highest_severity signals in
      case create_package (rx_now env) (rx_package_id env) run severity title (package_summary signals)
          (map ys_fingerprint signals) expires (rw_db w) of
        Inl e \<Rightarrow> (Inl e, w)
      | Inr (k, db1) \<Rightarrow>
         (case validation_drafts env k (rx_iso env expires) signals result (rw_tasks w) of
            (Inl e, tasks) \<Rightarrow> (Inl e, \<lparr>rw_db = db1, rw_tasks = tasks\<rparr>)
          | (Inr ids, tasks) \<Rightarrow>
             (let (found, db2) = update_package_validations (rx_now env) (yk_id k) ids db1;
                  (notice, db3) = add_notification (rx_now env) (rx_notice_id env) run severity ''response-package'' title
                    (nat_text (length ids) @ '' deduplicated validation draft(s) are ready for review and expire ''
                      @ rx_iso env expires @ ''. No SPL was approved or executed.'') db2
              in (case notice of Inl e \<Rightarrow> Inl e | Inr _ \<Rightarrow> Inr (Some (case found of None \<Rightarrow> k | Some x \<Rightarrow> x)),
                  \<lparr>rw_db = db3, rw_tasks = tasks\<rparr>))))"

definition process_response ::
  "response_env \<Rightarrow> string \<Rightarrow> json \<Rightarrow> string \<Rightarrow> response_world \<Rightarrow> package option result \<times> response_world" where
  "process_response env run result scope_key w =
     (case try_bind (result_signals env result) (\<lambda>obs. try_bind (failed_calls env result) (\<lambda>n. Inr (obs, n))) of
        Inl e \<Rightarrow> (Inl e, w)
      | Inr (obs, failed) \<Rightarrow>
         (let depth = text_of (rx_repr env) ''standard'' ''depth'' result;
              (correlated, db1) = correlate_signals (rx_digest env) (rx_now env) run obs (failed = 0)
                (Some (authoritative_kinds depth)) scope_key (rw_db w);
              tenant = (case find_run run db1 of None \<Rightarrow> [] | Some r \<Rightarrow> yr_tenant r);
              (covered, db2) = covered_fingerprints (rx_now env) tenant db1;
              authoritative = rev (map (\<lambda>ob. (scoped_fingerprint (rx_digest env) scope_key (ob_fingerprint ob), ob_authoritative ob)) obs);
              eligible = eligible_signals covered authoritative correlated; w2 = w\<lparr>rw_db := db2\<rparr>
          in if eligible = [] then (Inr None, w2) else open_package env run result eligible w2))"

end
