(* ===== verification/Assurance_Service.thy ===== *)
theory Assurance_Service
  imports Assurance_Response Discovery_Service
begin

text \<open>
  The scheduler and executor of continuous assurance (\<open>assurance/service.py\<close>), wired as in \<open>app.py\<close>: the
  completion callback is \<open>_assurance_complete\<close>, which processes the result (\<open>Assurance_Response\<close>) over the validation
  queue. As in \<open>Discovery_Service\<close>, an execution stands at one of its awaits and any request may come between two steps;
  \<open>DISCOVERY_CALL_ESTIMATES\<close> is shared.

  Parameters (record \<open>assurance_env\<close>): clock, fresh ids (the \<open>n\<close>-th notification has its own, so storing one does not
  fail), the binding check, whether the client or the pipeline can be built, whether the lane is taken, the environment of
  the response, what fails after the response (delivery), and the text of the exception for a result of the wrong shape.
\<close>


section \<open>Environment\<close>

record assurance_env =
  ax_now :: instant
  ax_run_id :: string
  ax_notice_id :: "nat \<Rightarrow> string"
  ax_repr :: "json \<Rightarrow> string"
  ax_binding :: "string \<Rightarrow> string \<Rightarrow> string \<Rightarrow> bool \<times> string"
  ax_client_error :: "string option"
  ax_pipeline_error :: "string option"
  ax_lane_busy :: bool
  ax_response :: response_env
  ax_delivery_error :: "string option"
  ax_error :: string

datatype assurance_phase = AScheduled | APreflight | ALane | ACollect

record assurance_exec =
  xe_phase :: assurance_phase
  xe_row :: assurance_run
  xe_cancelled :: bool
  xe_calls :: int
  xe_exceeded :: bool

record assurance_world =
  aw_db :: assurance_db
  aw_tasks :: validation_db
  aw_exec :: "assurance_exec option"
  aw_online :: bool
  aw_stopping :: bool
  aw_calls :: "string list"   \<comment> \<open>history: the run of every call made\<close>

abbreviation xe_id :: "assurance_exec \<Rightarrow> string" where
  "xe_id e \<equiv> yr_id (xe_row e)"

definition on_db :: "(assurance_db \<Rightarrow> assurance_db) \<Rightarrow> assurance_world \<Rightarrow> assurance_world" where
  "on_db f w = w\<lparr>aw_db := f (aw_db w)\<rparr>"

definition notify ::
  "assurance_env \<Rightarrow> string \<Rightarrow> string \<Rightarrow> string \<Rightarrow> string \<Rightarrow> string \<Rightarrow> assurance_world \<Rightarrow> assurance_world" where
  "notify env run severity category title detail = on_db (\<lambda>db. snd (add_notification (ax_now env)
     (ax_notice_id env (length (yd_notifications db))) run severity category title detail db))"

definition assurance_over :: "assurance_world \<Rightarrow> assurance_world" where
  "assurance_over w = w\<lparr>aw_exec := None\<rparr>"

definition at_assurance_phase :: "assurance_exec \<Rightarrow> assurance_phase \<Rightarrow> assurance_world \<Rightarrow> assurance_world" where
  "at_assurance_phase e ph w = w\<lparr>aw_exec := Some (e\<lparr>xe_phase := ph\<rparr>)\<rparr>"


section \<open>The summary of a result\<close>

record run_summary =
  sm_run_id :: json
  sm_findings :: int
  sm_high :: int
  sm_inventory :: int
  sm_coverage :: int
  sm_mltk :: int
  sm_dependencies :: int
  sm_failures :: int
  sm_score :: json
  sm_headline :: string
  sm_titles :: "string list"   \<comment> \<open>of the high findings, for the notification\<close>

definition high_titles :: "assurance_env \<Rightarrow> json list \<Rightarrow> string list" where
  "high_titles env items = map (text_of (ax_repr env) ''High-severity finding'' ''title'')
     (filter (\<lambda>x. high_severity (ax_error env) x = Inr True) items)"

definition run_summary_of :: "assurance_env \<Rightarrow> json \<Rightarrow> run_summary result" where
  "run_summary_of env result =
     (let err = ax_error env in
     try_bind (get_dict err ''changes'' result) (\<lambda>changes.
     try_bind (get_dict err ''inventory'' changes) (\<lambda>inventory.
     try_bind (dict_items err inventory) (\<lambda>kvs.
     try_bind (inventory_drift err kvs) (\<lambda>drift.
     try_bind (get_dict err ''coverage'' changes) (\<lambda>coverage_changes.
     try_bind (size_of err coverage_changes) (\<lambda>coverage_drift.
     try_bind (get_dict err ''findings'' result) (\<lambda>findings.
     try_bind (items_of err findings) (\<lambda>items.
     try_bind (count_high err items) (\<lambda>high.
     try_bind (get_dict err ''splunk_models'' result) (\<lambda>models.
     try_bind (get_dict err ''summary'' models) (\<lambda>mltk.
     try_bind (get_dict err ''collection_status'' result) (\<lambda>collection.
     try_bind (get_int err ''failed_calls'' collection) (\<lambda>failures.
     try_bind (size_of err findings) (\<lambda>found.
     try_bind (get_int err ''changed'' mltk) (\<lambda>changed.
     try_bind (get_int err ''missing'' mltk) (\<lambda>missing.
     try_bind (get_int err ''dependencies_not_observed'' mltk) (\<lambda>dependencies.
     try_bind (get_dict err ''coverage'' result) (\<lambda>coverage.
     try_bind (dict_items err coverage) (\<lambda>scores.
       Inr \<lparr>sm_run_id = (case json_member ''run_id'' result of None \<Rightarrow> JStr [] | Some v \<Rightarrow> v), sm_findings = found,
         sm_high = high, sm_inventory = drift, sm_coverage = coverage_drift, sm_mltk = changed + missing,
         sm_dependencies = dependencies, sm_failures = failures,
         sm_score = (case map_of scores ''score'' of None \<Rightarrow> JNull | Some v \<Rightarrow> v),
         sm_headline = int_text found @ '' findings'' @ dot @ int_text (drift + coverage_drift) @ '' posture changes'' @ dot
            @ int_text failures @ '' collection gaps.'',
         sm_titles = high_titles env items\<rparr>))))))))))))))))))))"

definition summary_json :: "run_summary \<Rightarrow> json" where
  "summary_json s = JObj [(''discovery_run_id'', sm_run_id s), (''findings'', JInt (sm_findings s)),
     (''high_findings'', JInt (sm_high s)), (''inventory_drift'', JInt (sm_inventory s)), (''coverage_drift'', JInt (sm_coverage s)),
     (''mltk_drift'', JInt (sm_mltk s)), (''dependency_issues'', JInt (sm_dependencies s)),
     (''collection_failures'', JInt (sm_failures s)), (''coverage_score'', sm_score s), (''headline'', JStr (sm_headline s))]"

text \<open>The summary of a run that never reached Splunk.\<close>

definition blocked_run_summary :: "string \<Rightarrow> string \<Rightarrow> json" where
  "blocked_run_summary stage headline = JObj [(''discovery_run_id'', JStr []), (''findings'', JInt 0), (''high_findings'', JInt 0),
     (''inventory_drift'', JInt 0), (''coverage_drift'', JInt 0), (''mltk_drift'', JInt 0), (''dependency_issues'', JInt 0),
     (''collection_failures'', JInt 0), (''coverage_score'', JNull), (''connection_blocked'', JBool True),
     (''blocking_stage'', JStr stage), (''headline'', JStr headline)]"

definition create_notifications :: "assurance_env \<Rightarrow> string \<Rightarrow> run_summary \<Rightarrow> bool \<Rightarrow> assurance_world \<Rightarrow> assurance_world" where
  "create_notifications env run s exceeded w =
     (let policy = yd_policy (aw_db w); send = (\<lambda>p severity category title detail w'.
          if p then notify env run severity category title detail w' else w');
        w1 = send (yp_notify_drift policy \<and> sm_inventory s + sm_coverage s + sm_mltk s \<noteq> 0) ''medium'' ''drift''
          ''Security posture drift detected''
          (int_text (sm_inventory s) @ '' inventory changes, '' @ int_text (sm_coverage s) @ '' coverage changes, and ''
            @ int_text (sm_mltk s) @ '' MLTK model changes require review.'') w;
        w2 = send (yp_notify_high policy \<and> sm_high s \<noteq> 0) ''high'' ''finding''
          (int_text (sm_high s) @ '' high-severity discovery finding(s)'') (join_with ''; '' (take 5 (sm_titles s))) w1;
        w3 = send (sm_failures s \<noteq> 0) ''high'' ''collection'' ''Continuous assurance has collection gaps''
          (int_text (sm_failures s) @ '' bounded read-only MCP call(s) failed. ''
            @ ''Treat absent inventory as unknown until the connection is validated.'') w2;
        w4 = send (sm_dependencies s \<noteq> 0) ''low'' ''model-dependency'' ''MLTK model dependencies need endpoint validation''
          (int_text (sm_dependencies s) @ '' declared dependency/dependencies were not observed on SignalRoom''
            @ [CHR 0x27] @ ''s configured Ollama endpoint.'') w3
      in send exceeded ''medium'' ''budget'' ''Splunk-call budget reached''
          ''The run stopped issuing MCP calls at the configured hard ceiling.'' w4)"


section \<open>An execution\<close>

text \<open>\<open>progress\<close>: refuses with a cancellation once one was requested.\<close>

definition assurance_progress ::
  "assurance_env \<Rightarrow> assurance_exec \<Rightarrow> run_report \<Rightarrow> assurance_world \<Rightarrow> assurance_world result" where
  "assurance_progress env e ev w =
     (let current = find_run (xe_id e) (aw_db w) in
      if (case current of None \<Rightarrow> False | Some r \<Rightarrow> yr_cancel_requested r) then Inl CancelledError
      else let shown = (case yx_progress ev of None \<Rightarrow> (case current of None \<Rightarrow> 0 | Some r \<Rightarrow> yr_progress r) | Some n \<Rightarrow> n);
          merged = ev\<lparr>yx_progress := Some shown, yx_metrics := dict_of (yx_metrics ev @
            [(''splunk_calls'', JInt (xe_calls e)), (''call_budget'', JInt (yr_call_budget (xe_row e)))])\<rparr>
        in Inr (on_db (update_run_progress (ax_now env) (xe_id e) merged (xe_calls e)) w))"

definition assurance_stopped :: "assurance_env \<Rightarrow> assurance_exec \<Rightarrow> assurance_world \<Rightarrow> assurance_world" where
  "assurance_stopped env e w = assurance_over (on_db
     (\<lambda>db. if (case find_run (xe_id e) db of None \<Rightarrow> False | Some r \<Rightarrow> yr_cancel_requested r)
        then fail_run (ax_now env) (xe_id e) JCancelled
          ''Cancelled by the operator. No further Splunk calls will be made.'' (xe_calls e) db
        else requeue_run (ax_now env) (xe_id e) db) w)"

definition assurance_broke :: "assurance_env \<Rightarrow> assurance_exec \<Rightarrow> string \<Rightarrow> assurance_world \<Rightarrow> assurance_world" where
  "assurance_broke env e m w = assurance_over (notify env (xe_id e) ''high'' ''execution'' ''Continuous assurance run failed'' m
     (on_db (fail_run (ax_now env) (xe_id e) JError m (xe_calls e)) w))"

definition assurance_blocked ::
  "assurance_env \<Rightarrow> assurance_exec \<Rightarrow> string \<Rightarrow> string \<Rightarrow> string \<Rightarrow> assurance_world \<Rightarrow> assurance_world" where
  "assurance_blocked env e stage title detail w = assurance_over (notify env (xe_id e) ''high'' ''connection'' title detail
     (on_db (complete_run (ax_repr env) (ax_now env) (xe_id e) JConnectionBlocked (blocked_run_summary stage detail) 0) w))"

text \<open>
  The start of \<open>_execute\<close>. A task that is cancelled before its first step raises into the worker, which leaves its
  loop; a client that cannot be built raises into the worker too, outside the \<open>try\<close>, and the worker notes it.
\<close>

definition start_assurance :: "assurance_env \<Rightarrow> assurance_exec \<Rightarrow> assurance_world \<Rightarrow> assurance_world" where
  "start_assurance env e w =
     (if xe_cancelled e then w\<lparr>aw_exec := None, aw_online := False\<rparr>
      else case mark_run_running (ax_now env) (xe_id e) (aw_db w) of
        (None, db) \<Rightarrow> assurance_over (w\<lparr>aw_db := db\<rparr>)
      | (Some running, db) \<Rightarrow>
         (let e1 = e\<lparr>xe_row := running\<rparr>; w1 = w\<lparr>aw_db := db\<rparr>;
              (valid, reason) = ax_binding env (yr_alias running) (yr_fingerprint running) (yr_tenant running) in
          if \<not> valid
          then assurance_blocked env e1 ''connection-identity'' ''Continuous assurance requires an explicit connection rebind'' reason w1
          else case ax_client_error env of
            Some m \<Rightarrow> assurance_over (notify env [] ''high'' ''worker'' ''Continuous assurance worker error'' m w1)
          | None \<Rightarrow>
             (case assurance_progress env e1 \<lparr>yx_phase = ''connection:preflight'', yx_label = ''Checking Splunk connection readiness'',
                 yx_detail = ''No Splunk tool calls will run until transport and MCP tools are ready.'',
                 yx_status = [], yx_progress = Some 2, yx_metrics = [(''splunk_calls'', JInt 0)]\<rparr> w1 of
                Inl _ \<Rightarrow> assurance_stopped env e1 w1
              | Inr w2 \<Rightarrow> at_assurance_phase e1 APreflight w2)))"

text \<open>The readiness report has the shape that the connection diagnostics give it.\<close>

definition run_ready :: "assurance_run \<Rightarrow> json \<Rightarrow> bool" where
  "run_ready r readiness = (case json_member ''depth_readiness'' readiness of None \<Rightarrow> False
     | Some ready \<Rightarrow> (case json_member (yr_depth r) ready of None \<Rightarrow> False | Some v \<Rightarrow> json_true v))"

definition run_blocking_stage :: "assurance_env \<Rightarrow> json \<Rightarrow> string" where
  "run_blocking_stage env readiness = text_of (ax_repr env) ''tool-contract'' ''blocking_stage'' readiness"

definition run_blocking_detail :: "assurance_env \<Rightarrow> assurance_run \<Rightarrow> json \<Rightarrow> string" where
  "run_blocking_detail env r readiness =
     (let stages = (case json_member ''stages'' readiness of Some (JArr xs) \<Rightarrow> xs | _ \<Rightarrow> []);
          stage = (case List.find (\<lambda>s. json_member ''id'' s = Some (JStr (run_blocking_stage env readiness))) stages of
            None \<Rightarrow> JObj [] | Some s \<Rightarrow> s)
      in text_of (ax_repr env) (''The endpoint is not ready for '' @ yr_depth r @ '' discovery.'') ''detail'' stage)"

definition after_run_preflight :: "assurance_env \<Rightarrow> assurance_exec \<Rightarrow> json \<Rightarrow> assurance_world \<Rightarrow> assurance_world" where
  "after_run_preflight env e readiness w =
     (if \<not> run_ready (xe_row e) readiness
      then assurance_blocked env e (run_blocking_stage env readiness) ''Continuous assurance paused before Splunk access''
        (run_blocking_detail env (xe_row e) readiness) w
      else case ax_pipeline_error env of
        Some m \<Rightarrow> assurance_broke env e m w
      | None \<Rightarrow> if \<not> ax_lane_busy env then at_assurance_phase e ACollect w
          else (case assurance_progress env e \<lparr>yx_phase = ''instance-queue'', yx_label = ''Waiting for the Splunk discovery lane'',
              yx_detail = ''Another discovery or MLTK inventory owns the single-instance read-only execution lane.'',
              yx_status = [], yx_progress = Some 1, yx_metrics = [(''instance_concurrency'', JInt 1)]\<rparr> w of
              Inl _ \<Rightarrow> assurance_stopped env e w
            | Inr w1 \<Rightarrow> at_assurance_phase e ALane w1))"

text \<open>\<open>_assurance_complete\<close> of \<open>app.py\<close>.\<close>

definition assurance_complete ::
  "assurance_env \<Rightarrow> string \<Rightarrow> json \<Rightarrow> assurance_world \<Rightarrow> unit result \<times> assurance_world" where
  "assurance_complete env run result w =
     (let scope_key = (case find_run run (aw_db w) of None \<Rightarrow> []
          | Some r \<Rightarrow> yr_alias r @ ''|'' @ yr_fingerprint r @ ''|'' @ yr_tenant r);
          (answer, rw) = process_response (ax_response env) run result scope_key \<lparr>rw_db = aw_db w, rw_tasks = aw_tasks w\<rparr>;
          w1 = w\<lparr>aw_db := rw_db rw, aw_tasks := rw_tasks rw\<rparr>
      in (case answer of Inl err \<Rightarrow> Inl err
          | Inr k \<Rightarrow> (case ax_delivery_error env of None \<Rightarrow> Inr () | Some m \<Rightarrow> Inl (RuntimeError m)), w1))"

definition summary_status :: "assurance_exec \<Rightarrow> run_summary \<Rightarrow> job_status" where
  "summary_status e s = (if xe_exceeded e then JBudgetBlocked else if sm_failures s \<noteq> 0 then JPartial else JComplete)"

definition stored_summary :: "assurance_exec \<Rightarrow> run_summary \<Rightarrow> run_summary" where
  "stored_summary e s = (if xe_exceeded e then s\<lparr>sm_headline := ''The '' @ int_text (yr_call_budget (xe_row e))
     @ ''-call ceiling was reached; review partial collection gaps.''\<rparr> else s)"

definition after_collection :: "assurance_env \<Rightarrow> assurance_exec \<Rightarrow> json \<Rightarrow> assurance_world \<Rightarrow> assurance_world" where
  "after_collection env e result w =
     (case run_summary_of env result of
        Inl err \<Rightarrow> assurance_broke env e (error_message err) w
      | Inr s0 \<Rightarrow>
         (let s = stored_summary e s0;
              w1 = on_db (complete_run (ax_repr env) (ax_now env) (xe_id e) (summary_status e s) (summary_json s) (xe_calls e)) w;
              w2 = create_notifications env (xe_id e) s (xe_exceeded e) w1;
              (answer, w3) = assurance_complete env (xe_id e) result w2
          in assurance_over (case answer of Inr _ \<Rightarrow> w3
            | Inl err \<Rightarrow> notify env (xe_id e) ''high'' ''response-package'' ''Assurance response packaging failed'' (error_message err) w3)))"

text \<open>A budget exception is handled like any other.\<close>

definition resume_assurance :: "assurance_env \<Rightarrow> assurance_exec \<Rightarrow> run_outcome \<Rightarrow> assurance_world \<Rightarrow> assurance_world" where
  "resume_assurance env e out w = (case xe_phase e of
     AScheduled \<Rightarrow> start_assurance env e w
   | _ \<Rightarrow> (case out of
       OverBudget m \<Rightarrow> assurance_broke env e m w
     | Broke m \<Rightarrow> assurance_broke env e m w
     | Stopped \<Rightarrow> assurance_stopped env e w
     | Got v \<Rightarrow> (case xe_phase e of
         APreflight \<Rightarrow> after_run_preflight env e v w
       | ALane \<Rightarrow> at_assurance_phase e ACollect w
       | _ \<Rightarrow> after_collection env e v w)))"

text \<open>\<open>BudgetedSplunkClient.call\<close>.\<close>

definition assurance_call :: "assurance_exec \<Rightarrow> assurance_world \<Rightarrow> assurance_world" where
  "assurance_call e w = (if yr_call_budget (xe_row e) \<le> xe_calls e
     then w\<lparr>aw_exec := Some (e\<lparr>xe_exceeded := True\<rparr>)\<rparr>
     else w\<lparr>aw_exec := Some (e\<lparr>xe_calls := xe_calls e + 1\<rparr>), aw_calls := aw_calls w @ [xe_id e]\<rparr>)"


section \<open>Policy and queue\<close>

definition validate_budget :: "string \<Rightarrow> int \<Rightarrow> unit result" where
  "validate_budget depth budget =
     (case map_of DISCOVERY_CALL_ESTIMATES depth of
        None \<Rightarrow> Inl (ValueError (''Unsupported assurance depth: '' @ depth))
      | Some required \<Rightarrow> if budget < required
          then Inl (ValueError (title_from False depth @ '' discovery requires up to '' @ int_text required
            @ '' bounded Splunk calls; the configured budget is '' @ int_text budget))
          else Inr ())"

definition set_policy :: "assurance_env \<Rightarrow> policy_update \<Rightarrow> assurance_world \<Rightarrow> unit result \<times> assurance_world" where
  "set_policy env v w = (case validate_budget (yu_depth v) (yu_max_calls v) of
     Inl e \<Rightarrow> (Inl e, w) | Inr _ \<Rightarrow> (Inr (), on_db (update_assurance_policy (ax_now env) v) w))"

text \<open>The routes \<open>PUT /api/assurance/policy\<close> and \<open>POST /api/connections/rebind/assurance\<close> after the connection was admitted.\<close>

definition change_policy ::
  "assurance_env \<Rightarrow> assurance_binding \<Rightarrow> policy_update \<Rightarrow> instant \<Rightarrow> assurance_world \<Rightarrow> unit result \<times> assurance_world" where
  "change_policy env b v expected_updated_at w =
     (let p = yd_policy (aw_db w);
          changed = (yp_alias p \<noteq> yb_alias b \<or> yp_fingerprint p \<noteq> yb_fingerprint b \<or> yp_tenant p \<noteq> yb_tenant b);
          v1 = v\<lparr>yu_enabled := yu_enabled v \<and> \<not> changed\<rparr> in
      if changed \<and> active_run (aw_db w) \<noteq> None
      then (Inl (ValueError ''Wait for the active assurance run before changing its target connection.''), w)
      else case validate_budget (yu_depth v1) (yu_max_calls v1) of
        Inl e \<Rightarrow> (Inl e, w)
      | Inr _ \<Rightarrow> if \<not> changed then set_policy env v1 w
          else (case rebind_policy (ax_now env) b (yp_fingerprint p) expected_updated_at (aw_db w) of
              (Inl e, db) \<Rightarrow> (Inl e, w\<lparr>aw_db := db\<rparr>)
            | (Inr _, db) \<Rightarrow> set_policy env v1 (w\<lparr>aw_db := db\<rparr>)))"

definition rebind_assurance ::
  "assurance_env \<Rightarrow> assurance_binding \<Rightarrow> string \<Rightarrow> instant \<Rightarrow> assurance_world \<Rightarrow> unit result \<times> assurance_world" where
  "rebind_assurance env b expected_fingerprint expected_updated_at w =
     (if active_run (aw_db w) \<noteq> None
      then (Inl (ValueError ''Wait for the active assurance run before rebinding its policy''), w)
      else let (r, db) = rebind_policy (ax_now env) b expected_fingerprint expected_updated_at (aw_db w) in (r, w\<lparr>aw_db := db\<rparr>))"

definition enqueue_run ::
  "assurance_env \<Rightarrow> string \<Rightarrow> string \<Rightarrow> assurance_world \<Rightarrow> assurance_run result \<times> assurance_world" where
  "enqueue_run env depth trigger w =
     (let p = yd_policy (aw_db w); (valid, reason) = ax_binding env (yp_alias p) (yp_fingerprint p) (yp_tenant p);
          selected = text_or depth (yp_depth p) in
      if \<not> valid then (Inl (ValueError reason), w)
      else case validate_budget selected (yp_max_calls p) of
        Inl e \<Rightarrow> (Inl e, w)
      | Inr _ \<Rightarrow>
          if active_run (aw_db w) \<noteq> None then (Inl (ValueError ''A continuous assurance run is already queued or running''), w)
          else if yp_max_runs p \<le> fst (usage_today (ax_now env) (aw_db w))
          then (Inl (ValueError (''The daily assurance limit of '' @ int_text (yp_max_runs p) @ '' run(s) has been reached'')), w)
          else (case create_run (ax_now env) (ax_run_id env) trigger selected (yp_max_calls p) (aw_db w) of
              Inl e \<Rightarrow> (Inl e, w)
            | Inr (r, db) \<Rightarrow> (Inr r, w\<lparr>aw_db := db\<rparr>)))"

text \<open>\<open>_schedule_due\<close>.\<close>

definition schedule_due :: "assurance_env \<Rightarrow> assurance_world \<Rightarrow> assurance_world" where
  "schedule_due env w =
     (let p = yd_policy (aw_db w); advance = on_db (advance_schedule (ax_now env)) in
      case yp_next_run_at p of None \<Rightarrow> w
      | Some due \<Rightarrow>
          if \<not> yp_enabled p \<or> active_run (aw_db w) \<noteq> None \<or> ax_now env < due then w
          else if yp_max_runs p \<le> fst (usage_today (ax_now env) (aw_db w))
          then advance (notify env [] ''medium'' ''budget'' ''Scheduled assurance deferred by daily budget''
            (''The configured limit of '' @ int_text (yp_max_runs p)
              @ '' run(s) per UTC day has been reached. The next interval remains scheduled.'') w)
          else (case enqueue_run env [] ''scheduled'' w of
              (Inr _, w1) \<Rightarrow> advance w1
            | (Inl err, w1) \<Rightarrow> advance (notify env [] ''medium'' ''schedule'' ''Scheduled assurance was not queued'' (error_message err) w1)))"


section \<open>Requests and the worker\<close>

text \<open>\<open>cancel\<close> up to its wait for the active task, which it cancels when that executes the run.\<close>

definition cancel_run :: "assurance_env \<Rightarrow> string \<Rightarrow> assurance_world \<Rightarrow> assurance_run option \<times> assurance_world" where
  "cancel_run env i w =
     (let (found, db) = request_run_cancel (ax_now env) i (aw_db w); w1 = w\<lparr>aw_db := db\<rparr> in
      (found, case aw_exec w of None \<Rightarrow> w1
        | Some e \<Rightarrow> if found \<noteq> None \<and> xe_id e = i then w1\<lparr>aw_exec := Some (e\<lparr>xe_cancelled := True\<rparr>)\<rparr> else w1))"

text \<open>One round of \<open>_work_loop\<close> while no task is active.\<close>

definition assurance_round :: "assurance_env \<Rightarrow> assurance_world \<Rightarrow> assurance_world" where
  "assurance_round env w = (if \<not> aw_online w \<or> aw_exec w \<noteq> None then w
     else if aw_stopping w then w\<lparr>aw_online := False\<rparr>
     else let w1 = schedule_due env w in case next_queued_run (aw_db w1) of None \<Rightarrow> w1
       | Some r \<Rightarrow> w1\<lparr>aw_exec := Some \<lparr>xe_phase = AScheduled, xe_row = r, xe_cancelled = False, xe_calls = 0, xe_exceeded = False\<rparr>\<rparr>)"

definition stop_assurance :: "assurance_world \<Rightarrow> assurance_world" where
  "stop_assurance w = w\<lparr>aw_stopping := True, aw_online := aw_online w \<and> aw_exec w \<noteq> None,
     aw_exec := map_option (\<lambda>e. e\<lparr>xe_cancelled := True\<rparr>) (aw_exec w)\<rparr>"

definition start_service :: "assurance_env \<Rightarrow> assurance_world \<Rightarrow> assurance_world" where
  "start_service env w = (if aw_online w then w
     else w\<lparr>aw_stopping := False, aw_db := snd (recover_interrupted_runs (ax_now env) (aw_db w)), aw_online := True\<rparr>)"

record assurance_view =
  vo_policy :: assurance_policy
  vo_usage :: "int \<times> int"
  vo_active :: "assurance_run option"
  vo_events :: "run_event list"
  vo_runs :: "assurance_run list"
  vo_notifications :: "notification list"
  vo_signals :: "signal list"
  vo_counts :: signal_counts
  vo_packages :: "package list"
  vo_online :: bool

text \<open>\<open>overview\<close> expires packages on the way.\<close>

definition assurance_overview :: "assurance_env \<Rightarrow> assurance_world \<Rightarrow> assurance_view \<times> assurance_world" where
  "assurance_overview env w =
     (let db = aw_db w; p = yd_policy db; active = active_run db; digest = rx_digest (ax_response env);
          scope_key = yp_alias p @ ''|'' @ yp_fingerprint p @ ''|'' @ yp_tenant p;
          shown = filter (\<lambda>r. yr_alias r = yp_alias p \<and> yr_fingerprint r = yp_fingerprint p \<and> yr_tenant r = yp_tenant p) (list_runs 20 db);
          (packages, db1) = list_packages (ax_now env) 20 (yp_tenant p) db
      in (\<lparr>vo_policy = p, vo_usage = usage_today (ax_now env) db1, vo_active = active,
            vo_events = (case active of None \<Rightarrow> [] | Some r \<Rightarrow> run_events (yr_id r) 12 db1), vo_runs = shown,
            vo_notifications = filter (\<lambda>n. yn_run_id n = [] \<or> List.member (map yr_id shown) (yn_run_id n)) (list_notifications 30 db1),
            vo_signals = list_signals digest 50 scope_key (yp_tenant p) db1,
            vo_counts = count_signals digest scope_key (yp_tenant p) db1,
            vo_packages = filter (\<lambda>k. yk_alias k = yp_alias p \<and> yk_connection k = yp_fingerprint p) packages,
            vo_online = aw_online w\<rparr>, w\<lparr>aw_db := db1\<rparr>))"

datatype assurance_op =
    ChangePolicy assurance_binding policy_update instant
  | RebindPolicy assurance_binding string instant
  | EnqueueRun string
  | CancelRun string
  | AssuranceRound
  | ResumeAssurance run_outcome
  | AssuranceCall
  | ReportRun run_report
  | ViewAssurance
  | Acknowledge string
  | ClosePackage string
  | ExpirePackages "string list"
  | StopAssurance
  | StartAssurance
  | CrashAssurance

fun assurance_step :: "assurance_env \<times> assurance_op \<Rightarrow> assurance_world \<Rightarrow> assurance_world" where
  "assurance_step (env, ChangePolicy b v expected) w = snd (change_policy env b v expected w)"
| "assurance_step (env, RebindPolicy b f expected) w = snd (rebind_assurance env b f expected w)"
| "assurance_step (env, EnqueueRun depth) w = snd (enqueue_run env depth ''manual'' w)"
| "assurance_step (env, CancelRun i) w = snd (cancel_run env i w)"
| "assurance_step (env, AssuranceRound) w = assurance_round env w"
| "assurance_step (env, ResumeAssurance out) w = (case aw_exec w of None \<Rightarrow> w | Some e \<Rightarrow> resume_assurance env e out w)"
| "assurance_step (env, AssuranceCall) w = (case aw_exec w of None \<Rightarrow> w
     | Some e \<Rightarrow> if xe_phase e = ACollect then assurance_call e w else w)"
| "assurance_step (env, ReportRun ev) w = (case aw_exec w of None \<Rightarrow> w
     | Some e \<Rightarrow> if xe_phase e = AScheduled then w
         else (case assurance_progress env e ev w of Inl _ \<Rightarrow> w | Inr w' \<Rightarrow> w'))"
| "assurance_step (env, ViewAssurance) w = snd (assurance_overview env w)"
| "assurance_step (env, Acknowledge i) w = on_db (\<lambda>db. snd (acknowledge i db)) w"
| "assurance_step (env, ClosePackage i) w = on_db (\<lambda>db. snd (close_package (ax_now env) i db)) w"
| "assurance_step (env, ExpirePackages excluded) w = on_db (\<lambda>db. snd (expire_packages (ax_now env) excluded db)) w"
| "assurance_step (env, StopAssurance) w = stop_assurance w"
| "assurance_step (env, StartAssurance) w = start_service env w"
| "assurance_step (env, CrashAssurance) w = w\<lparr>aw_db := open_assurance (ax_now env) (aw_db w), aw_exec := None,
     aw_online := False, aw_stopping := False\<rparr>"

definition new_assurance :: "instant \<Rightarrow> validation_db \<Rightarrow> assurance_world" where
  "new_assurance now tasks = \<lparr>aw_db = initial_assurance now, aw_tasks = tasks, aw_exec = None, aw_online = False,
     aw_stopping = False, aw_calls = []\<rparr>"

end
