(* ===== verification/Job_Rows.thy ===== *)
theory Job_Rows
  imports Job_Lane
begin

text \<open>
  The lane of a table of jobs, for any row type: which statement on the table is which step of \<open>Job_Lane\<close>. A store whose
  operations are updates by id gets its simulation of the specification from here.
\<close>


section \<open>Rows by id\<close>

record 'r job_columns =
  jc_id :: "'r \<Rightarrow> string"
  jc_status :: "'r \<Rightarrow> job_status"
  jc_budget :: "'r \<Rightarrow> int"
  jc_recoveries :: "'r \<Rightarrow> int"

definition row_at :: "'r job_columns \<Rightarrow> string \<Rightarrow> 'r list \<Rightarrow> 'r option" where
  "row_at c i rows = sql_first (\<lambda>r. jc_id c r = i) rows"

abbreviation rows_wf :: "'r job_columns \<Rightarrow> 'r list \<Rightarrow> bool" where
  "rows_wf c rows \<equiv> distinct (map (jc_id c) rows)"

definition rows_lane :: "'r job_columns \<Rightarrow> 'r list \<Rightarrow> string list \<Rightarrow> (string \<times> int) option \<Rightarrow> lane" where
  "rows_lane c rows calls x = \<lparr>ln_status = (\<lambda>i. map_option (jc_status c) (row_at c i rows)),
     ln_budget = (\<lambda>i. case row_at c i rows of None \<Rightarrow> 0 | Some r \<Rightarrow> jc_budget c r),
     ln_recoveries = (\<lambda>i. case row_at c i rows of None \<Rightarrow> 0 | Some r \<Rightarrow> jc_recoveries c r),
     ln_calls = (\<lambda>i. int (count_list calls i)), ln_exec = x\<rparr>"

lemma rows_lane_simps [simp]:
  "ln_status (rows_lane c rows calls x) i = map_option (jc_status c) (row_at c i rows)" "ln_exec (rows_lane c rows calls x) = x"
  "ln_calls (rows_lane c rows calls x) i = int (count_list calls i)"
  "row_at c i rows = Some r \<Longrightarrow> ln_budget (rows_lane c rows calls x) i = jc_budget c r"
  "row_at c i rows = Some r \<Longrightarrow> ln_recoveries (rows_lane c rows calls x) i = jc_recoveries c r"
  by (simp_all add: rows_lane_def)

lemma row_at_id: "row_at c i rows = Some r \<Longrightarrow> jc_id c r = i \<and> r \<in> set rows"
  by (auto simp: row_at_def dest: sql_first_SomeD)

lemma row_at_iff: "rows_wf c rows \<Longrightarrow> row_at c i rows = Some r \<longleftrightarrow> r \<in> set rows \<and> jc_id c r = i"
  by (simp add: row_at_def sql_first_key_iff)

text \<open>An update of the rows that satisfy \<open>p\<close> when only the row \<open>i\<close> may.\<close>

definition touches :: "'r job_columns \<Rightarrow> string \<Rightarrow> 'r list \<Rightarrow> ('r \<Rightarrow> bool) \<Rightarrow> ('r \<Rightarrow> 'r) \<Rightarrow> bool" where
  "touches c i rows p f = (rows_wf c rows \<and> (\<forall>r. jc_id c (f r) = jc_id c r) \<and> (\<forall>r. jc_budget c (f r) = jc_budget c r) \<and>
     (\<forall>r \<in> set rows. p r \<longrightarrow> jc_id c r = i))"

lemma touches_wf: "touches c i rows p f \<Longrightarrow> rows_wf c (sql_update p f rows)"
  by (simp add: touches_def map_sql_update)

lemma row_at_touched:
  assumes "touches c i rows p f"
  shows "row_at c k (sql_update p f rows)
    = (if k = i then map_option (\<lambda>r. if p r then f r else r) (row_at c i rows) else row_at c k rows)"
proof -
  have "row_at c k (sql_update p f rows) = map_option (\<lambda>r. if p r then f r else r) (row_at c k rows)"
    unfolding row_at_def using assms by (simp add: touches_def sql_first_update)
  then show ?thesis using assms row_at_id [of c k rows] by (cases "row_at c k rows") (auto simp: touches_def)
qed

text \<open>What the update does to the lane.\<close>

lemma rows_lane_touched:
  assumes t: "touches c i rows p f" and r: "row_at c i rows = Some r" "p r"
  shows "rows_lane c (sql_update p f rows) calls x = (rows_lane c rows calls y)\<lparr>
    ln_status := (ln_status (rows_lane c rows calls y))(i \<mapsto> jc_status c (f r)),
    ln_recoveries := (ln_recoveries (rows_lane c rows calls y))(i := jc_recoveries c (f r)), ln_exec := x\<rparr>"
  using r t by (auto simp: rows_lane_def fun_eq_iff row_at_touched [OF t] touches_def)

lemma rows_lane_untouched:
  assumes t: "touches c i rows p f" and keep: "\<And>r. p r \<Longrightarrow> jc_status c (f r) = jc_status c r \<and> jc_recoveries c (f r) = jc_recoveries c r"
  shows "rows_lane c (sql_update p f rows) calls x = rows_lane c rows calls x"
  using keep t by (auto simp: rows_lane_def fun_eq_iff row_at_touched [OF t] touches_def option.map_comp split: option.split)


section \<open>Statements as steps\<close>

lemma lane_keep: "l\<lparr>ln_recoveries := (ln_recoveries l)(i := ln_recoveries l i)\<rparr> = l"
  by simp

lemma rows_begin:
  assumes "touches c i rows p f" "row_at c i rows = Some r" "p r" "jc_status c r = JQueued"
    and "jc_status c (f r) = JRunning" "jc_recoveries c (f r) = jc_recoveries c r"
  shows "lane_step (rows_lane c rows calls None) (rows_lane c (sql_update p f rows) calls (Some (i, 0)))"
proof -
  let ?l = "rows_lane c rows calls None"
  have "rows_lane c (sql_update p f rows) calls (Some (i, 0)) = ?l\<lparr>ln_status := (ln_status ?l)(i \<mapsto> JRunning), ln_exec := Some (i, 0)\<rparr>"
    using rows_lane_touched [OF assms(1-3), of calls "Some (i, 0)" None] assms(2,5,6) by (simp add: rows_lane_def fun_eq_iff)
  then show ?thesis using lane_step.begin_run [of ?l i] assms(2,4) by simp
qed

lemma rows_finish:
  assumes "touches c i rows p f" "row_at c i rows = Some r" "p r"
    and "\<not> job_active (jc_status c (f r))" "jc_recoveries c (f r) = jc_recoveries c r"
  shows "lane_step (rows_lane c rows calls (Some (i, u))) (rows_lane c (sql_update p f rows) calls None)"
proof -
  let ?l = "rows_lane c rows calls (Some (i, u))"
  have "rows_lane c (sql_update p f rows) calls None = ?l\<lparr>ln_status := (ln_status ?l)(i \<mapsto> jc_status c (f r)), ln_exec := None\<rparr>"
    using rows_lane_touched [OF assms(1-3), of calls None "Some (i, u)"] assms(2,5) by (simp add: rows_lane_def fun_eq_iff)
  then show ?thesis using lane_step.finish [of ?l i u] assms(4) by simp
qed

lemma rows_put_back:
  assumes "touches c i rows p f" "row_at c i rows = Some r" "p r"
    and "jc_status c (f r) = JQueued" "jc_recoveries c (f r) = jc_recoveries c r + 1"
  shows "lane_step (rows_lane c rows calls (Some (i, u))) (rows_lane c (sql_update p f rows) calls None)"
  unfolding rows_lane_touched [OF assms(1-3), of calls None "Some (i, u)"]
  using lane_step.put_back [of "rows_lane c rows calls (Some (i, u))" i u] assms(2,4,5) by simp

lemma rows_withdraw:
  assumes "touches c i rows p f" "row_at c i rows = Some r" "p r" "jc_status c r = JQueued"
    and "jc_status c (f r) = JCancelled" "jc_recoveries c (f r) = jc_recoveries c r"
  shows "lane_step (rows_lane c rows calls x) (rows_lane c (sql_update p f rows) calls x)"
proof -
  let ?l = "rows_lane c rows calls x"
  have "rows_lane c (sql_update p f rows) calls x = ?l\<lparr>ln_status := (ln_status ?l)(i \<mapsto> JCancelled)\<rparr>"
    using rows_lane_touched [OF assms(1-3), of calls x x] assms(2,5,6) by (simp add: rows_lane_def fun_eq_iff)
  then show ?thesis using lane_step.withdraw [of ?l i] assms(2,4) by simp
qed

lemma rows_submit:
  assumes fresh: "row_at c (jc_id c r) rows = None" and wf: "rows_wf c rows"
    and none: "\<And>x. x \<in> set rows \<Longrightarrow> \<not> job_active (jc_status c x)"
    and r: "jc_status c r = JQueued" "0 \<le> jc_budget c r" "jc_recoveries c r = 0"
  shows "lane_step (rows_lane c rows calls x) (rows_lane c (rows @ [r]) calls x)" "rows_wf c (rows @ [r])"
proof -
  let ?l = "rows_lane c rows calls x" and ?i = "jc_id c r"
  have find: "row_at c k (rows @ [r]) = (if k = ?i then Some r else row_at c k rows)" for k
    using fresh by (auto simp: row_at_def sql_first_append sql_first_single split: option.split)
  have "ln_status ?l k = Some s \<Longrightarrow> \<not> job_active s" for k s using none row_at_id [of c k rows] by auto
  then have "lane_step ?l (?l\<lparr>ln_status := (ln_status ?l)(?i \<mapsto> JQueued), ln_budget := (ln_budget ?l)(?i := jc_budget c r),
      ln_recoveries := (ln_recoveries ?l)(?i := 0)\<rparr>)"
    using lane_step.submit [of ?l ?i "jc_budget c r"] fresh r by simp
  moreover have "rows_lane c (rows @ [r]) calls x = ?l\<lparr>ln_status := (ln_status ?l)(?i \<mapsto> JQueued),
      ln_budget := (ln_budget ?l)(?i := jc_budget c r), ln_recoveries := (ln_recoveries ?l)(?i := 0)\<rparr>"
    using find r by (auto simp: rows_lane_def fun_eq_iff)
  ultimately show "lane_step ?l (rows_lane c (rows @ [r]) calls x)" by simp
  show "rows_wf c (rows @ [r])" using wf fresh by (auto simp: row_at_def sql_first_None)
qed

text \<open>An update over the whole table that puts back or gives up what was running: at most one row is.\<close>

lemma rows_sweep:
  assumes inv: "lane_inv (rows_lane c rows calls None)" and wf: "rows_wf c rows"
    and ids: "\<And>r. jc_id c (f r) = jc_id c r" "\<And>r. jc_budget c (f r) = jc_budget c r"
    and run: "\<And>r. r \<in> set rows \<Longrightarrow> p r \<Longrightarrow> jc_status c r = JRunning"
    and eff: "(\<forall>r. jc_status c (f r) = JQueued \<and> jc_recoveries c (f r) = jc_recoveries c r + 1)
      \<or> (\<exists>s. \<not> job_active s \<and> (\<forall>r. jc_status c (f r) = s \<and> jc_recoveries c (f r) = jc_recoveries c r))"
  shows "lane_steps (rows_lane c rows calls None) (rows_lane c (sql_update p f rows) calls None) \<and> rows_wf c (sql_update p f rows)"
proof (cases "\<exists>r \<in> set rows. p r")
  case False
  then have "sql_update p f rows = rows" by (auto simp: sql_update_def intro!: map_idI)
  with wf show ?thesis by simp
next
  case True
  then obtain r where r: "r \<in> set rows" "p r" by blast
  let ?i = "jc_id c r" and ?l = "rows_lane c rows calls None"
  have at: "row_at c ?i rows = Some r" using row_at_iff [OF wf] r by simp
  have "jc_id c x = ?i" if "x \<in> set rows" "p x" for x
    using lane_inv_unique [OF inv, of "jc_id c x" JRunning ?i JRunning] row_at_iff [OF wf, of "jc_id c x" x] that run r at by simp
  then have t: "touches c ?i rows p f" using wf ids by (auto simp: touches_def)
  have status: "jc_status c r = JRunning" by (rule run [OF r])
  from eff have "lane_step ?l (rows_lane c (sql_update p f rows) calls None)"
  proof
    assume "\<forall>r. jc_status c (f r) = JQueued \<and> jc_recoveries c (f r) = jc_recoveries c r + 1"
    then have "rows_lane c (sql_update p f rows) calls None = ?l\<lparr>ln_status := (ln_status ?l)(?i \<mapsto> JQueued),
        ln_recoveries := (ln_recoveries ?l)(?i := ln_recoveries ?l ?i + 1)\<rparr>"
      using rows_lane_touched [OF t at r(2), of calls None None] at by (simp add: rows_lane_def fun_eq_iff)
    then show ?thesis using lane_step.recover [of ?l ?i] at status by simp
  next
    assume "\<exists>s. \<not> job_active s \<and> (\<forall>r. jc_status c (f r) = s \<and> jc_recoveries c (f r) = jc_recoveries c r)"
    then obtain s where s: "\<not> job_active s" "jc_status c (f r) = s" "jc_recoveries c (f r) = jc_recoveries c r" by blast
    then have "rows_lane c (sql_update p f rows) calls None = ?l\<lparr>ln_status := (ln_status ?l)(?i \<mapsto> s)\<rparr>"
      using rows_lane_touched [OF t at r(2), of calls None None] at by (simp add: rows_lane_def fun_eq_iff)
    then show ?thesis using lane_step.give_up [of ?l ?i s] at status s(1) by simp
  qed
  then show ?thesis using touches_wf [OF t] by blast
qed

end
