(* ===== verification/Assurance_Lifecycle.thy ===== *)
theory Assurance_Lifecycle
  imports Assurance_Service Job_Rows
begin

text \<open>
  What continuous assurance promises over every interleaving (definitions in \<open>Assurance_Service\<close>): it implements the
  single lane of \<open>Job_Lane\<close>, keeps the daily limit of runs, and touches no validation task but to draft one.
\<close>


section \<open>The table of runs\<close>

definition run_columns :: "assurance_run job_columns" where
  "run_columns = \<lparr>jc_id = yr_id, jc_status = yr_status, jc_budget = yr_call_budget, jc_recoveries = yr_recovery_count\<rparr>"

lemma run_columns_simps [simp]:
  "jc_id run_columns = yr_id" "jc_status run_columns = yr_status" "jc_budget run_columns = yr_call_budget"
  "jc_recoveries run_columns = yr_recovery_count"
  by (simp_all add: run_columns_def)

lemma find_run_row: "find_run i db = row_at run_columns i (yd_runs db)"
  by (simp add: find_run_def row_at_def)

lemma run_row_simps [simp]:
  "yr_id (begun_run now r) = yr_id r" "yr_status (begun_run now r) = JRunning" "yr_call_budget (begun_run now r) = yr_call_budget r"
  "yr_recovery_count (begun_run now r) = yr_recovery_count r" "yr_created_at (begun_run now r) = yr_created_at r"
  "yr_id (reported_run now e n r) = yr_id r" "yr_status (reported_run now e n r) = yr_status r"
  "yr_call_budget (reported_run now e n r) = yr_call_budget r" "yr_recovery_count (reported_run now e n r) = yr_recovery_count r"
  "yr_created_at (reported_run now e n r) = yr_created_at r"
  "yr_id (finished_run repr now s v n r) = yr_id r" "yr_status (finished_run repr now s v n r) = s"
  "yr_call_budget (finished_run repr now s v n r) = yr_call_budget r"
  "yr_recovery_count (finished_run repr now s v n r) = yr_recovery_count r" "yr_created_at (finished_run repr now s v n r) = yr_created_at r"
  "yr_id (broken_run now s m n r) = yr_id r" "yr_status (broken_run now s m n r) = s"
  "yr_call_budget (broken_run now s m n r) = yr_call_budget r" "yr_recovery_count (broken_run now s m n r) = yr_recovery_count r"
  "yr_created_at (broken_run now s m n r) = yr_created_at r"
  "yr_id (requeued_run now m r) = yr_id r" "yr_status (requeued_run now m r) = JQueued"
  "yr_call_budget (requeued_run now m r) = yr_call_budget r" "yr_recovery_count (requeued_run now m r) = yr_recovery_count r + 1"
  "yr_created_at (requeued_run now m r) = yr_created_at r"
  "yr_id (withdrawn_run now r) = yr_id r" "yr_status (withdrawn_run now r) = JCancelled"
  "yr_call_budget (withdrawn_run now r) = yr_call_budget r" "yr_recovery_count (withdrawn_run now r) = yr_recovery_count r"
  "yr_created_at (withdrawn_run now r) = yr_created_at r"
  "yr_id (recover_cancelled now r) = yr_id r" "yr_status (recover_cancelled now r) = JCancelled"
  "yr_call_budget (recover_cancelled now r) = yr_call_budget r" "yr_recovery_count (recover_cancelled now r) = yr_recovery_count r"
  "yr_created_at (recover_cancelled now r) = yr_created_at r"
  by (simp_all add: begun_run_def reported_run_def finished_run_def broken_run_def requeued_run_def withdrawn_run_def recover_cancelled_def)

text \<open>The statements on the table; nothing else changes it, and only the policy requests change the policy.\<close>

lemma runs_ops [simp]:
  "yd_runs (update_runs p f db) = sql_update p f (yd_runs db)" "yd_policy (update_runs p f db) = yd_policy db"
  "yd_runs (update_run_progress now i e n db)
     = sql_update (\<lambda>r. yr_id r = i \<and> yr_status r = JRunning) (reported_run now e n) (yd_runs db)"
  "yd_policy (update_run_progress now i e n db) = yd_policy db"
  "yd_runs (complete_run repr now i s v n db) = sql_update (\<lambda>r. yr_id r = i) (finished_run repr now s v n) (yd_runs db)"
  "yd_policy (complete_run repr now i s v n db) = yd_policy db"
  "yd_runs (fail_run now i s m n db) = sql_update (\<lambda>r. yr_id r = i) (broken_run now s m n) (yd_runs db)"
  "yd_policy (fail_run now i s m n db) = yd_policy db"
  "yd_policy (requeue_run now i db) = yd_policy db"
  "yd_runs (advance_schedule now db) = yd_runs db" "yp_max_runs (yd_policy (advance_schedule now db)) = yp_max_runs (yd_policy db)"
  "yd_runs (update_assurance_policy now pu db) = yd_runs db"
  by (simp_all add: update_runs_def update_run_progress_def Let_def complete_run_def fail_run_def requeue_run_def advance_schedule_def
      update_assurance_policy_def)

lemma runs_requeue [simp]: "yd_runs (requeue_run now i db) = sql_update (\<lambda>r. yr_id r = i)
    (requeued_run now ''The read-only run was interrupted during shutdown and will resume from a fresh collection.'') (yd_runs db)"
  by (simp add: requeue_run_def)

lemma runs_notification [simp]:
  "yd_runs (snd (add_notification now i run s c t d db)) = yd_runs db"
  "yd_policy (snd (add_notification now i run s c t d db)) = yd_policy db"
  by (simp_all add: add_notification_def Let_def split: option.split)

lemma runs_packages [simp]:
  "yd_runs (snd (expire_packages now ex db)) = yd_runs db" "yd_policy (snd (expire_packages now ex db)) = yd_policy db"
  "yd_runs (snd (close_package now i db)) = yd_runs db" "yd_policy (snd (close_package now i db)) = yd_policy db"
  "yd_runs (snd (acknowledge i db)) = yd_runs db" "yd_policy (snd (acknowledge i db)) = yd_policy db"
  "yd_runs (snd (list_packages now n t db)) = yd_runs db" "yd_policy (snd (list_packages now n t db)) = yd_policy db"
  "yd_runs (snd (covered_fingerprints now t db)) = yd_runs db" "yd_policy (snd (covered_fingerprints now t db)) = yd_policy db"
  "yd_runs (snd (update_package_validations now i ids db)) = yd_runs db"
  "yd_policy (snd (update_package_validations now i ids db)) = yd_policy db"
  "yd_runs (snd (correlate_signals dg now run obs a ks sk db)) = yd_runs db"
  "yd_policy (snd (correlate_signals dg now run obs a ks sk db)) = yd_policy db"
  by (simp_all add: expire_packages_def close_package_def acknowledge_def list_packages_def covered_fingerprints_def
      update_package_validations_def correlate_signals_def Let_def)

lemma runs_create_package: "create_package now i run s t m fs e db = Inr (k, db') \<Longrightarrow> yd_runs db' = yd_runs db \<and> yd_policy db' = yd_policy db"
  by (auto simp: create_package_def Let_def split: if_splits)

lemma runs_open_package:
  "yd_runs (rw_db (snd (open_package env run result sigs w))) = yd_runs (rw_db w) \<and>
   yd_policy (rw_db (snd (open_package env run result sigs w))) = yd_policy (rw_db w)"
proof -
  have "\<And>now i run s t m fs e k db'. create_package now i run s t m fs e (rw_db w) = Inr (k, db') \<Longrightarrow>
      yd_runs db' = yd_runs (rw_db w) \<and> yd_policy db' = yd_policy (rw_db w)"
    by (rule runs_create_package)
  moreover have "add_notification now i r s c t d db = (n, db3) \<Longrightarrow> yd_runs db3 = yd_runs db \<and> yd_policy db3 = yd_policy db"
    for now i r s c t d db n db3 using runs_notification [of now i r s c t d db] by simp
  moreover have "update_package_validations now i ids db = (n, db2) \<Longrightarrow> yd_runs db2 = yd_runs db \<and> yd_policy db2 = yd_policy db"
    for now i ids db n db2 using runs_packages(11,12) [of now i ids db] by simp
  ultimately show ?thesis
    by (fastforce simp: open_package_def Let_def split: sum.split prod.split)
qed

lemma runs_process [simp]:
  "yd_runs (rw_db (snd (process_response env run result sk w))) = yd_runs (rw_db w)"
  "yd_policy (rw_db (snd (process_response env run result sk w))) = yd_policy (rw_db w)"
proof -
  have "correlate_signals dg now r obs a ks s db = (n, db1) \<Longrightarrow> yd_runs db1 = yd_runs db \<and> yd_policy db1 = yd_policy db"
    for dg now r obs a ks s db n db1 using runs_packages(13,14) [of dg now r obs a ks s db] by simp
  moreover have "covered_fingerprints now t db = (n, db1) \<Longrightarrow> yd_runs db1 = yd_runs db \<and> yd_policy db1 = yd_policy db"
    for now t db n db1 using runs_packages(9,10) [of now t db] by simp
  ultimately show "yd_runs (rw_db (snd (process_response env run result sk w))) = yd_runs (rw_db w)"
    "yd_policy (rw_db (snd (process_response env run result sk w))) = yd_policy (rw_db w)"
    using runs_open_package by (auto simp: process_response_def Let_def split: sum.split prod.split)
qed


lemma assurance_world_simps [simp]:
  "aw_exec (on_db f w) = aw_exec w" "aw_online (on_db f w) = aw_online w" "aw_calls (on_db f w) = aw_calls w"
  "aw_db (on_db f w) = f (aw_db w)" "aw_tasks (on_db f w) = aw_tasks w"
  "aw_exec (notify env i s c t d w) = aw_exec w" "aw_online (notify env i s c t d w) = aw_online w"
  "aw_calls (notify env i s c t d w) = aw_calls w" "aw_tasks (notify env i s c t d w) = aw_tasks w"
  "yd_runs (aw_db (notify env i s c t d w)) = yd_runs (aw_db w)" "yd_policy (aw_db (notify env i s c t d w)) = yd_policy (aw_db w)"
  "aw_exec (assurance_over w) = None" "aw_online (assurance_over w) = aw_online w" "aw_calls (assurance_over w) = aw_calls w"
  "aw_db (assurance_over w) = aw_db w" "aw_tasks (assurance_over w) = aw_tasks w"
  "aw_exec (at_assurance_phase e ph w) = Some (e\<lparr>xe_phase := ph\<rparr>)" "aw_online (at_assurance_phase e ph w) = aw_online w"
  "aw_calls (at_assurance_phase e ph w) = aw_calls w" "aw_db (at_assurance_phase e ph w) = aw_db w"
  "aw_tasks (at_assurance_phase e ph w) = aw_tasks w"
  by (simp_all add: on_db_def notify_def assurance_over_def at_assurance_phase_def)

lemma create_notifications_keeps [simp]:
  "aw_exec (create_notifications env i s x w) = aw_exec w" "aw_online (create_notifications env i s x w) = aw_online w"
  "aw_calls (create_notifications env i s x w) = aw_calls w" "aw_tasks (create_notifications env i s x w) = aw_tasks w"
  "yd_runs (aw_db (create_notifications env i s x w)) = yd_runs (aw_db w)"
  "yd_policy (aw_db (create_notifications env i s x w)) = yd_policy (aw_db w)"
  by (simp_all add: create_notifications_def Let_def)

lemma assurance_complete_keeps:
  assumes "assurance_complete env i result w = (r, w')"
  shows "aw_exec w' = aw_exec w \<and> aw_online w' = aw_online w \<and> aw_calls w' = aw_calls w \<and>
    yd_runs (aw_db w') = yd_runs (aw_db w) \<and> yd_policy (aw_db w') = yd_policy (aw_db w)"
proof -
  let ?key = "case find_run i (aw_db w) of None \<Rightarrow> [] | Some r \<Rightarrow> yr_alias r @ ''|'' @ yr_fingerprint r @ ''|'' @ yr_tenant r"
  obtain a rw where "process_response (ax_response env) i result ?key \<lparr>rw_db = aw_db w, rw_tasks = aw_tasks w\<rparr> = (a, rw)" by fastforce
  then show ?thesis
    using assms runs_process [of "ax_response env" i result ?key "\<lparr>rw_db = aw_db w, rw_tasks = aw_tasks w\<rparr>"]
    by (auto simp: assurance_complete_def Let_def)
qed


section \<open>The load of a day\<close>

text \<open>The runs created on a day that count towards its limit, or still may.\<close>

definition run_live :: "assurance_run \<Rightarrow> bool" where
  "run_live r = (job_active (yr_status r) \<or> run_counted r)"

definition day_load :: "int \<Rightarrow> assurance_run list \<Rightarrow> nat" where
  "day_load d rows = sql_count (\<lambda>r. utc_day (yr_created_at r) = d \<and> run_live r) rows"

lemma sql_count_mono: "(\<And>r. r \<in> set rows \<Longrightarrow> p (f r) \<Longrightarrow> p r) \<Longrightarrow> sql_count p (map f rows) \<le> sql_count p rows"
  by (induction rows) (auto simp: sql_count_Cons)

lemma day_load_update:
  assumes "\<And>r. yr_created_at (f r) = yr_created_at r" "\<And>r. r \<in> set rows \<Longrightarrow> p r \<Longrightarrow> job_active (yr_status r)"
  shows "day_load d (sql_update p f rows) \<le> day_load d rows"
  unfolding day_load_def sql_update_def by (rule sql_count_mono) (auto simp: assms run_live_def split: if_splits)

lemma day_load_row:
  assumes "rows_wf run_columns rows" "row_at run_columns i rows = Some r" "job_active (yr_status r)" "\<And>r. yr_created_at (f r) = yr_created_at r"
  shows "day_load d (sql_update (\<lambda>r. yr_id r = i) f rows) \<le> day_load d rows"
proof (rule day_load_update [OF assms(4)])
  fix x
  assume "x \<in> set rows" "yr_id x = i"
  then have "row_at run_columns i rows = Some x" using row_at_iff [OF assms(1), of i x] by simp
  then show "job_active (yr_status x)" using assms(2,3) by simp
qed


section \<open>Every operation is steps of the lane\<close>

definition started_run :: "assurance_exec option \<Rightarrow> (string \<times> int) option" where
  "started_run x = (case x of None \<Rightarrow> None | Some e \<Rightarrow> if xe_phase e = AScheduled then None else Some (xe_id e, xe_calls e))"

abbreviation run_table :: "assurance_world \<Rightarrow> assurance_run list" where
  "run_table w \<equiv> yd_runs (aw_db w)"

definition assurance_lane :: "assurance_world \<Rightarrow> lane" where
  "assurance_lane w = rows_lane run_columns (run_table w) (aw_calls w) (started_run (aw_exec w))"

definition executes :: "assurance_exec \<Rightarrow> assurance_run list \<Rightarrow> bool" where
  "executes e rows = (\<exists>r. row_at run_columns (xe_id e) rows = Some r \<and> yr_status r = JRunning \<and> yr_call_budget r = yr_call_budget (xe_row e))"

definition assurance_inv :: "assurance_world \<Rightarrow> bool" where
  "assurance_inv w = (rows_wf run_columns (run_table w) \<and> lane_inv (assurance_lane w) \<and> 0 \<le> yp_max_calls (yd_policy (aw_db w)) \<and>
     (\<forall>e. aw_exec w = Some e \<longrightarrow> aw_online w \<and>
       (if xe_phase e = AScheduled then xe_calls e = 0 else executes e (run_table w))))"

text \<open>The lane while execution \<open>e\<close> runs, and what a segment of it ends in.\<close>

definition lane_in :: "assurance_exec \<Rightarrow> assurance_world \<Rightarrow> lane" where
  "lane_in e w = rows_lane run_columns (run_table w) (aw_calls w) (Some (xe_id e, xe_calls e))"

definition in_run :: "assurance_exec \<Rightarrow> assurance_world \<Rightarrow> bool" where
  "in_run e w = (rows_wf run_columns (run_table w) \<and> lane_inv (lane_in e w) \<and> 0 \<le> yp_max_calls (yd_policy (aw_db w)) \<and>
     executes e (run_table w) \<and> aw_online w)"

definition loads_le :: "assurance_world \<Rightarrow> assurance_world \<Rightarrow> bool" where
  "loads_le w w' = (yd_policy (aw_db w') = yd_policy (aw_db w) \<and> (\<forall>d. day_load d (run_table w') \<le> day_load d (run_table w)))"

definition run_segment :: "assurance_exec \<Rightarrow> assurance_world \<Rightarrow> assurance_world \<Rightarrow> bool" where
  "run_segment e w w' = (assurance_inv w' \<and> lane_steps (lane_in e w) (assurance_lane w') \<and> loads_le w w')"

lemma loads_le_trans: "loads_le a b \<Longrightarrow> loads_le b c \<Longrightarrow> loads_le a c"
  unfolding loads_le_def using le_trans by fastforce

lemma touches_id:
  "rows_wf run_columns rows \<Longrightarrow> (\<And>r. yr_id (f r) = yr_id r) \<Longrightarrow> (\<And>r. yr_call_budget (f r) = yr_call_budget r) \<Longrightarrow>
    touches run_columns i rows (\<lambda>r. yr_id r = i) f"
  by (simp add: touches_def)

lemma executing_active:
  assumes "rows_wf run_columns rows" "executes e rows" "r \<in> set rows" "yr_id r = xe_id e"
  shows "job_active (yr_status r)"
  using assms row_at_iff [OF assms(1), of "xe_id e" r] by (auto simp: executes_def)

lemma executes_touched:
  assumes t: "touches run_columns i rows p f" and status: "\<And>r. yr_status (f r) = yr_status r" and ex: "executes e rows"
  shows "executes e (sql_update p f rows)"
proof -
  obtain r where r: "row_at run_columns (xe_id e) rows = Some r" "yr_status r = JRunning" "yr_call_budget r = yr_call_budget (xe_row e)"
    using ex by (auto simp: executes_def)
  have "yr_call_budget (f r) = yr_call_budget r" using t by (simp add: touches_def)
  then show ?thesis using row_at_touched [OF t, of "xe_id e"] r status
    by (cases "xe_id e = i"; cases "p r") (auto simp: executes_def)
qed

text \<open>A segment that ends the execution by one update of its row.\<close>

lemma run_segment_end:
  assumes run: "in_run e w"
    and w': "aw_exec w' = None" "aw_calls w' = aw_calls w" "yd_policy (aw_db w') = yd_policy (aw_db w)"
    and rows: "run_table w' = sql_update (\<lambda>r. yr_id r = xe_id e) f (run_table w)"
    and keep: "\<And>r. yr_id (f r) = yr_id r" "\<And>r. yr_call_budget (f r) = yr_call_budget r" "\<And>r. yr_created_at (f r) = yr_created_at r"
    and ended: "(\<forall>r. yr_recovery_count (f r) = yr_recovery_count r \<and> \<not> job_active (yr_status (f r)))
      \<or> (\<forall>r. yr_recovery_count (f r) = yr_recovery_count r + 1 \<and> yr_status (f r) = JQueued)"
  shows "run_segment e w w'"
proof -
  obtain r where r: "row_at run_columns (xe_id e) (run_table w) = Some r" using run by (auto simp: in_run_def executes_def)
  have wf: "rows_wf run_columns (run_table w)" using run by (simp add: in_run_def)
  have t: "touches run_columns (xe_id e) (run_table w) (\<lambda>r. yr_id r = xe_id e) f" by (rule touches_id [OF wf keep(1,2)])
  have id: "yr_id r = xe_id e" using row_at_id [OF r] by simp
  have step: "lane_step (lane_in e w) (assurance_lane w')"
    using ended rows_finish [OF t r, of "aw_calls w" "xe_calls e"] rows_put_back [OF t r, of "aw_calls w" "xe_calls e"] id
    by (auto simp: lane_in_def assurance_lane_def started_run_def w' rows)
  have "loads_le w w'"
    using day_load_update [of f "run_table w" "\<lambda>r. yr_id r = xe_id e"] keep(3) executing_active [OF wf, of e] run
    by (simp add: loads_le_def w' rows in_run_def)
  with step show ?thesis using run touches_wf [OF t] lane_inv_step [OF step]
    by (auto simp: run_segment_def assurance_inv_def in_run_def w' rows)
qed

lemma run_segment_stopped:
  assumes run: "in_run e w"
  shows "run_segment e w (assurance_stopped env e w)"
proof (cases "case find_run (xe_id e) (aw_db w) of None \<Rightarrow> False | Some r \<Rightarrow> yr_cancel_requested r")
  case True
  show ?thesis
    by (rule run_segment_end [OF run, where f = "broken_run (ax_now env) JCancelled
        ''Cancelled by the operator. No further Splunk calls will be made.'' (xe_calls e)"]) (simp_all add: assurance_stopped_def True)
next
  case False
  show ?thesis
    by (rule run_segment_end [OF run, where f = "requeued_run (ax_now env)
        ''The read-only run was interrupted during shutdown and will resume from a fresh collection.''"])
      (simp_all add: assurance_stopped_def False)
qed

lemma run_segment_broke: "in_run e w \<Longrightarrow> run_segment e w (assurance_broke env e m w)"
  by (rule run_segment_end [where f = "broken_run (ax_now env) JError m (xe_calls e)"]) (simp_all add: assurance_broke_def)

lemma run_segment_blocked: "in_run e w \<Longrightarrow> run_segment e w (assurance_blocked env e stage title detail w)"
  by (rule run_segment_end [where f = "finished_run (ax_repr env) (ax_now env) JConnectionBlocked (blocked_run_summary stage detail) 0"])
    (simp_all add: assurance_blocked_def)

lemma run_segment_phase:
  assumes run: "in_run e w" and ph: "ph \<noteq> AScheduled"
  shows "run_segment e w (at_assurance_phase e ph w)"
proof -
  have "assurance_lane (at_assurance_phase e ph w) = lane_in e w"
    using ph by (simp add: assurance_lane_def lane_in_def started_run_def)
  then show ?thesis using run ph by (simp add: run_segment_def assurance_inv_def in_run_def executes_def loads_le_def)
qed

lemma run_segment_lost:
  assumes run: "in_run e w" and w': "aw_exec w' = None" "aw_calls w' = aw_calls w" "run_table w' = run_table w"
    "yd_policy (aw_db w') = yd_policy (aw_db w)"
  shows "run_segment e w w'"
proof -
  have "assurance_lane w' = (lane_in e w)\<lparr>ln_exec := None\<rparr>"
    by (simp add: assurance_lane_def lane_in_def started_run_def rows_lane_def w')
  then have "lane_step (lane_in e w) (assurance_lane w')" using lane_step.lose [of "lane_in e w"] by (simp add: lane_in_def)
  then show ?thesis using run lane_inv_step by (auto simp: run_segment_def assurance_inv_def in_run_def loads_le_def w')
qed

lemma assurance_progress_keeps:
  assumes run: "in_run e w" and p: "assurance_progress env e ev w = Inr w'"
  shows "in_run e w' \<and> lane_in e w' = lane_in e w \<and> loads_le w w' \<and> aw_exec w' = aw_exec w"
proof -
  obtain ev' where w': "w' = on_db (update_run_progress (ax_now env) (xe_id e) ev' (xe_calls e)) w"
    using p by (auto simp: assurance_progress_def Let_def split: if_splits)
  let ?p = "\<lambda>r. yr_id r = xe_id e \<and> yr_status r = JRunning" and ?f = "reported_run (ax_now env) ev' (xe_calls e)"
  have wf: "rows_wf run_columns (run_table w)" using run by (simp add: in_run_def)
  have t: "touches run_columns (xe_id e) (run_table w) ?p ?f" using wf by (simp add: touches_def)
  have lane: "lane_in e w' = lane_in e w"
    unfolding lane_in_def w' by (simp, rule rows_lane_untouched [OF t]) simp
  obtain r where r: "row_at run_columns (xe_id e) (run_table w) = Some r" "yr_status r = JRunning"
    "yr_call_budget r = yr_call_budget (xe_row e)" using run by (auto simp: in_run_def executes_def)
  have ex: "executes e (run_table w')"
    using row_at_touched [OF t, of "xe_id e"] r row_at_id [OF r(1)] by (simp add: executes_def w')
  have "loads_le w w'" using day_load_update [of ?f "run_table w" ?p] by (simp add: loads_le_def w')
  with lane ex show ?thesis using run touches_wf [OF t] by (simp add: in_run_def w')
qed

lemma run_segment_after_progress:
  "in_run e w \<Longrightarrow> assurance_progress env e ev w = Inr w1 \<Longrightarrow> run_segment e w1 w' \<Longrightarrow> run_segment e w w'"
  using assurance_progress_keeps [of e w env ev w1] loads_le_trans [of w w1 w'] by (simp add: run_segment_def)

lemma run_segment_preflight:
  assumes run: "in_run e w"
  shows "run_segment e w (after_run_preflight env e readiness w)"
proof (cases "assurance_progress env e \<lparr>yx_phase = ''instance-queue'', yx_label = ''Waiting for the Splunk discovery lane'',
    yx_detail = ''Another discovery or MLTK inventory owns the single-instance read-only execution lane.'',
    yx_status = [], yx_progress = Some 1, yx_metrics = [(''instance_concurrency'', JInt 1)]\<rparr> w")
  case (Inl x)
  then show ?thesis
    using run_segment_blocked [OF run] run_segment_broke [OF run] run_segment_phase [OF run] run_segment_stopped [OF run]
    by (simp add: after_run_preflight_def split: option.split)
next
  case (Inr w1)
  have "in_run e w1" using assurance_progress_keeps [OF run Inr] by simp
  then have "run_segment e w (at_assurance_phase e ALane w1)"
    using run_segment_after_progress [OF run Inr] run_segment_phase by blast
  with Inr show ?thesis
    using run_segment_blocked [OF run] run_segment_broke [OF run] run_segment_phase [OF run]
    by (simp add: after_run_preflight_def split: option.split)
qed

lemma run_segment_collection:
  assumes run: "in_run e w"
  shows "run_segment e w (after_collection env e result w)"
proof (cases "run_summary_of env result")
  case (Inl err)
  then show ?thesis using run_segment_broke [OF run] by (simp add: after_collection_def)
next
  case (Inr s0)
  let ?s = "stored_summary e s0"
  let ?w1 = "on_db (complete_run (ax_repr env) (ax_now env) (xe_id e) (summary_status e ?s) (summary_json ?s) (xe_calls e)) w"
  let ?w2 = "create_notifications env (xe_id e) ?s (xe_exceeded e) ?w1"
  obtain r w3 where c: "assurance_complete env (xe_id e) result ?w2 = (r, w3)" by fastforce
  have k: "aw_calls w3 = aw_calls w" "yd_policy (aw_db w3) = yd_policy (aw_db w)" "run_table w3 = sql_update (\<lambda>r. yr_id r = xe_id e)
      (finished_run (ax_repr env) (ax_now env) (summary_status e ?s) (summary_json ?s) (xe_calls e)) (run_table w)"
    using assurance_complete_keeps [OF c] by simp_all
  have end_in: "run_segment e w w'" if "aw_exec w' = None" "aw_calls w' = aw_calls w3" "run_table w' = run_table w3"
    "yd_policy (aw_db w') = yd_policy (aw_db w3)" for w'
    by (rule run_segment_end [OF run, where f = "finished_run (ax_repr env) (ax_now env) (summary_status e ?s) (summary_json ?s) (xe_calls e)"])
      (simp_all add: that k summary_status_def)
  show ?thesis
    using Inr c end_in by (cases r) (simp_all add: after_collection_def Let_def)
qed

text \<open>A step of the world from a reachable one; only a request for a run adds to the load of a day.\<close>

definition good_run :: "assurance_world \<Rightarrow> assurance_world \<Rightarrow> bool" where
  "good_run w w' = (assurance_inv w' \<and> lane_steps (assurance_lane w) (assurance_lane w'))"

definition keeps_load :: "assurance_world \<Rightarrow> assurance_world \<Rightarrow> bool" where
  "keeps_load w w' = (yp_max_runs (yd_policy (aw_db w')) = yp_max_runs (yd_policy (aw_db w)) \<and>
     (\<forall>d. int (day_load d (run_table w')) \<le> max (int (day_load d (run_table w))) (yp_max_runs (yd_policy (aw_db w)))))"

lemma keeps_load_refl: "keeps_load w w"
  by (simp add: keeps_load_def)

lemma loads_le_keeps: "loads_le w w' \<Longrightarrow> keeps_load w w'"
  by (auto simp: loads_le_def keeps_load_def le_max_iff_disj)

lemma good_run_refl: "assurance_inv w \<Longrightarrow> good_run w w"
  by (simp add: good_run_def)

lemma good_run_trans: "good_run a b \<Longrightarrow> good_run b c \<Longrightarrow> good_run a c"
  by (auto simp: good_run_def intro: rtranclp_trans)

text \<open>Anything that leaves the runs, the calls and the execution alone.\<close>

lemma good_run_same:
  assumes "assurance_inv w" "run_table w' = run_table w" "aw_calls w' = aw_calls w" "started_run (aw_exec w') = started_run (aw_exec w)"
    and "0 \<le> yp_max_calls (yd_policy (aw_db w'))"
    and "\<And>e. aw_exec w' = Some e \<Longrightarrow> aw_online w' \<and> (if xe_phase e = AScheduled then xe_calls e = 0 else executes e (run_table w))"
  shows "good_run w w'"
  using assms by (simp add: good_run_def assurance_inv_def assurance_lane_def)

lemma good_run_db:
  assumes "assurance_inv w" "run_table w' = run_table w" "aw_calls w' = aw_calls w" "aw_exec w' = aw_exec w" "aw_online w' = aw_online w"
    and "0 \<le> yp_max_calls (yd_policy (aw_db w'))"
  shows "good_run w w'"
  using assms by (simp add: good_run_def assurance_inv_def assurance_lane_def)

lemma inv_run_exec:
  assumes "assurance_inv w" "aw_exec w = Some e"
  shows "aw_online w" "xe_phase e = AScheduled \<Longrightarrow> xe_calls e = 0" "xe_phase e \<noteq> AScheduled \<Longrightarrow> in_run e w"
    "xe_phase e \<noteq> AScheduled \<Longrightarrow> lane_in e w = assurance_lane w"
  using assms by (auto simp: assurance_inv_def in_run_def lane_in_def assurance_lane_def started_run_def)

lemma mark_run_running_cases:
  assumes "mark_run_running now i db = (r, db')" "rows_wf run_columns (yd_runs db)"
  obtains (refused) "r = None" "db' = db" "\<And>r. find_run i db = Some r \<Longrightarrow> yr_status r \<noteq> JQueued"
  | (started) r' where "find_run i db = Some r'" "yr_status r' = JQueued" "r = Some (begun_run now r')"
      "touches run_columns i (yd_runs db) (\<lambda>r. yr_id r = i \<and> yr_status r = JQueued) (begun_run now)"
      "yd_runs db' = sql_update (\<lambda>r. yr_id r = i \<and> yr_status r = JQueued) (begun_run now) (yd_runs db)" "yd_policy db' = yd_policy db"
proof (cases "list_ex (\<lambda>r. yr_id r = i \<and> yr_status r = JQueued) (yd_runs db)")
  case True
  then obtain r' where r': "find_run i db = Some r'" "yr_status r' = JQueued"
    using row_at_iff [OF assms(2)] by (auto simp: list_ex_iff find_run_row)
  have t: "touches run_columns i (yd_runs db) (\<lambda>r. yr_id r = i \<and> yr_status r = JQueued) (begun_run now)"
    using assms(2) by (simp add: touches_def)
  show ?thesis using assms(1) True r' row_at_touched [OF t, of i] row_at_id [of run_columns i "yd_runs db" r']
    by (intro started [OF r' _ t]) (auto simp: mark_run_running_def Let_def find_run_row)
next
  case False
  then have "find_run i db = Some r \<Longrightarrow> yr_status r \<noteq> JQueued" for r
    using row_at_iff [OF assms(2)] by (auto simp: list_ex_iff find_run_row)
  with False show ?thesis using assms(1) by (intro refused) (auto simp: mark_run_running_def)
qed

definition good_load :: "assurance_world \<Rightarrow> assurance_world \<Rightarrow> bool" where
  "good_load w w' = (good_run w w' \<and> keeps_load w w')"

lemma good_load_refl: "assurance_inv w \<Longrightarrow> good_load w w"
  by (simp add: good_load_def good_run_refl keeps_load_refl)

lemma run_segment_good:
  "run_segment e w w' \<Longrightarrow> lane_in e w = assurance_lane w \<Longrightarrow> good_load w w'"
  by (simp add: run_segment_def good_load_def good_run_def loads_le_keeps)

lemma good_start_assurance:
  assumes inv: "assurance_inv w" and e: "aw_exec w = Some e" "xe_phase e = AScheduled"
  shows "good_load w (start_assurance env e w)"
proof (cases "xe_cancelled e")
  case True
  then show ?thesis using inv e unfolding good_load_def
    by (intro conjI good_run_same) (auto simp: start_assurance_def assurance_inv_def started_run_def keeps_load_def)
next
  case live: False
  obtain r db' where m: "mark_run_running (ax_now env) (xe_id e) (aw_db w) = (r, db')" by fastforce
  have wf: "rows_wf run_columns (run_table w)" using inv by (simp add: assurance_inv_def)
  from m wf show ?thesis
  proof (cases rule: mark_run_running_cases)
    case refused
    then show ?thesis using inv e live m unfolding good_load_def
      by (intro conjI good_run_same) (auto simp: start_assurance_def assurance_inv_def started_run_def keeps_load_def)
  next
    case (started r')
    let ?p = "\<lambda>r. yr_id r = xe_id e \<and> yr_status r = JQueued"
    let ?r = "begun_run (ax_now env) r'" and ?w = "w\<lparr>aw_db := db'\<rparr>" and ?l = "assurance_lane w"
    let ?e = "e\<lparr>xe_row := ?r\<rparr>"
    have at: "row_at run_columns (xe_id e) (run_table w) = Some r'" using started(1) by (simp add: find_run_row)
    have id: "yr_id r' = xe_id e" using row_at_id [OF at] by simp
    have calls: "xe_calls e = 0" by (rule inv_run_exec(2) [OF inv e])
    have l: "?l = rows_lane run_columns (run_table w) (aw_calls w) None" using e by (simp add: assurance_lane_def started_run_def)
    have first: "lane_step ?l (lane_in ?e ?w)"
      unfolding l lane_in_def using rows_begin [OF started(4) at] started(2,5) id calls by simp
    have ex: "executes ?e (run_table ?w)"
      using row_at_touched [OF started(4), of "xe_id e"] at started(2,5) id by (simp add: executes_def)
    have run: "in_run ?e ?w"
      using ex lane_inv_step [OF first] inv inv_run_exec(1) [OF inv e(1)] touches_wf [OF started(4)] started(5,6)
      by (simp add: in_run_def assurance_inv_def)
    have loads: "loads_le w ?w"
      using day_load_update [of "begun_run (ax_now env)" "run_table w" ?p] started(5,6) by (simp add: loads_le_def)
    have "run_segment ?e ?w (start_assurance env e w)"
    proof (cases "assurance_progress env ?e \<lparr>yx_phase = ''connection:preflight'', yx_label = ''Checking Splunk connection readiness'',
        yx_detail = ''No Splunk tool calls will run until transport and MCP tools are ready.'',
        yx_status = [], yx_progress = Some 2, yx_metrics = [(''splunk_calls'', JInt 0)]\<rparr> ?w")
      case (Inl x)
      have "run_segment ?e ?w (assurance_over (notify env i s c t d ?w))" for i s c t d
        by (rule run_segment_lost [OF run]) simp_all
      then show ?thesis
        using m started(3) live Inl run_segment_blocked [OF run] run_segment_stopped [OF run]
        by (simp add: start_assurance_def Let_def split: prod.split option.split)
    next
      case (Inr w2)
      have "run_segment ?e ?w (at_assurance_phase ?e APreflight w2)"
        using run_segment_after_progress [OF run Inr] run_segment_phase assurance_progress_keeps [OF run Inr] by blast
      moreover have "run_segment ?e ?w (assurance_over (notify env i s c t d ?w))" for i s c t d
        by (rule run_segment_lost [OF run]) simp_all
      ultimately show ?thesis
        using m started(3) live Inr run_segment_blocked [OF run]
        by (simp add: start_assurance_def Let_def split: prod.split option.split)
    qed
    then show ?thesis using first loads_le_keeps [OF loads_le_trans [OF loads]]
      by (auto simp: run_segment_def good_load_def good_run_def intro: converse_rtranclp_into_rtranclp)
  qed
qed

lemma good_resume_assurance:
  assumes inv: "assurance_inv w" and e: "aw_exec w = Some e"
  shows "good_load w (resume_assurance env e out w)"
proof (cases "xe_phase e = AScheduled")
  case True
  then show ?thesis using good_start_assurance [OF inv e] by (simp add: resume_assurance_def)
next
  case False
  have run: "in_run e w" and l: "lane_in e w = assurance_lane w" using inv_run_exec [OF inv e] False by auto
  have "run_segment e w (resume_assurance env e out w)"
    using False run_segment_broke [OF run] run_segment_stopped [OF run] run_segment_preflight [OF run]
      run_segment_phase [OF run, of ACollect] run_segment_collection [OF run]
    by (cases "xe_phase e"; cases out) (simp_all add: resume_assurance_def)
  then show ?thesis using run_segment_good l by blast
qed

lemma good_assurance_call:
  assumes inv: "assurance_inv w" and e: "aw_exec w = Some e" "xe_phase e = ACollect"
  shows "good_load w (assurance_call e w)"
proof (cases "yr_call_budget (xe_row e) \<le> xe_calls e")
  case True
  then show ?thesis using inv e unfolding good_load_def
    by (intro conjI good_run_same) (auto simp: assurance_call_def assurance_inv_def started_run_def keeps_load_def executes_def)
next
  case False
  obtain r where r: "row_at run_columns (xe_id e) (run_table w) = Some r" "yr_status r = JRunning" "yr_call_budget r = yr_call_budget (xe_row e)"
    using inv e by (auto simp: assurance_inv_def executes_def)
  let ?l = "assurance_lane w"
  have "assurance_lane (assurance_call e w) = ?l\<lparr>ln_calls := (ln_calls ?l)(xe_id e := ln_calls ?l (xe_id e) + 1),
      ln_exec := Some (xe_id e, xe_calls e + 1)\<rparr>"
    using False e by (auto simp: assurance_call_def assurance_lane_def started_run_def rows_lane_def fun_eq_iff)
  moreover have "lane_step ?l (?l\<lparr>ln_calls := (ln_calls ?l)(xe_id e := ln_calls ?l (xe_id e) + 1),
      ln_exec := Some (xe_id e, xe_calls e + 1)\<rparr>)"
    using lane_step.call [of ?l "xe_id e" "xe_calls e"] False e r by (simp add: assurance_lane_def started_run_def)
  ultimately have step: "lane_step ?l (assurance_lane (assurance_call e w))" by simp
  show ?thesis using step lane_inv_step [OF step] inv e False
    by (auto simp: good_load_def good_run_def assurance_inv_def assurance_call_def executes_def keeps_load_def)
qed

lemma good_report:
  assumes inv: "assurance_inv w" and e: "aw_exec w = Some e" "xe_phase e \<noteq> AScheduled" and p: "assurance_progress env e ev w = Inr w'"
  shows "good_load w w'"
proof -
  have run: "in_run e w" and l: "lane_in e w = assurance_lane w" using inv_run_exec [OF inv e(1)] e(2) by auto
  have keep: "in_run e w'" "lane_in e w' = lane_in e w" "loads_le w w'" "aw_exec w' = Some e"
    using assurance_progress_keeps [OF run p] e(1) by auto
  have "assurance_lane w' = assurance_lane w" using keep(2,4) l e(2) by (simp add: lane_in_def assurance_lane_def started_run_def)
  then show ?thesis using keep e(2) inv loads_le_keeps
    by (simp add: good_load_def good_run_def assurance_inv_def in_run_def)
qed

lemma active_run_None: "active_run db = None \<longleftrightarrow> (\<forall>r \<in> set (yd_runs db). \<not> job_active (yr_status r))"
  by (auto simp: active_run_def sql_first_None)

lemma next_queued_run_Some: "next_queued_run db = Some r \<Longrightarrow> r \<in> set (yd_runs db) \<and> yr_status r = JQueued"
  by (auto simp: next_queued_run_def dest: sql_first_SomeD)

lemma utc_day_start: "utc_day t = utc_day now \<Longrightarrow> days (utc_day now) \<le> t"
  by (simp add: time_defs)

lemma sql_count_imp: "(\<And>r. r \<in> set rows \<Longrightarrow> p r \<Longrightarrow> q r) \<Longrightarrow> sql_count p rows \<le> sql_count q rows"
  by (induction rows) (auto simp: sql_count_Cons sql_count_Nil)

text \<open>While nothing is queued or running, the load of today is what the limit is compared with.\<close>

lemma day_load_usage:
  assumes "active_run db = None"
  shows "int (day_load (utc_day now) (yd_runs db)) \<le> fst (usage_today now db)"
proof -
  have "day_load (utc_day now) (yd_runs db) \<le> sql_count (\<lambda>r. days (utc_day now) \<le> yr_created_at r \<and> run_counted r) (yd_runs db)"
    unfolding day_load_def by (rule sql_count_imp) (use assms utc_day_start in \<open>auto simp: active_run_None run_live_def\<close>)
  also have "\<dots> = sql_count run_counted (filter (\<lambda>r. days (utc_day now) \<le> yr_created_at r) (yd_runs db))"
    by (simp add: sql_count_def conj_commute)
  finally show ?thesis by (simp add: usage_today_def Let_def)
qed

lemma budget_required_nonneg: "validate_budget depth b = Inr u \<Longrightarrow> 0 \<le> b"
  by (auto simp: validate_budget_def DISCOVERY_CALL_ESTIMATES_def split: if_splits option.splits)

lemma create_run_Inr:
  assumes "create_run now i trigger depth b db = Inr (r, db')"
  shows "r = new_run now i trigger depth b (yd_policy db)" "yd_runs db' = yd_runs db @ [r]" "yd_policy db' = yd_policy db"
    "row_at run_columns i (yd_runs db) = None"
proof -
  let ?r = "new_run now i trigger depth b (yd_policy db)"
  have fresh: "sql_first (\<lambda>r. yr_id r = i) (yd_runs db) = None"
    using assms by (auto simp: create_run_def sql_first_None list_ex_iff split: if_splits)
  have id: "yr_id ?r = i" by (simp add: new_run_def)
  show "row_at run_columns i (yd_runs db) = None" using fresh by (simp add: row_at_def)
  show "r = ?r" "yd_runs db' = yd_runs db @ [r]" "yd_policy db' = yd_policy db"
    using assms fresh id
    by (auto simp: create_run_def Let_def find_run_def sql_first_append sql_first_single split: if_splits option.splits)
qed

lemma good_enqueue_run:
  assumes inv: "assurance_inv w"
  shows "good_load w (snd (enqueue_run env depth trigger w))"
proof (cases "fst (enqueue_run env depth trigger w)")
  case (Inl err)
  then have "snd (enqueue_run env depth trigger w) = w"
    by (auto simp: enqueue_run_def Let_def split: prod.splits if_splits sum.splits)
  then show ?thesis using good_load_refl [OF inv] by simp
next
  case (Inr r)
  let ?p = "yd_policy (aw_db w)"
  let ?depth = "text_or depth (yp_depth ?p)"
  obtain db' where none: "active_run (aw_db w) = None" and limit: "fst (usage_today (ax_now env) (aw_db w)) < yp_max_runs ?p"
    and c: "create_run (ax_now env) (ax_run_id env) trigger ?depth (yp_max_calls ?p) (aw_db w) = Inr (r, db')"
    and w': "snd (enqueue_run env depth trigger w) = w\<lparr>aw_db := db'\<rparr>"
    using Inr by (auto simp: enqueue_run_def Let_def split: prod.splits if_splits sum.splits)
  note made = create_run_Inr [OF c]
  let ?w = "w\<lparr>aw_db := db'\<rparr>"
  have r: "yr_id r = ax_run_id env" "yr_status r = JQueued" "yr_call_budget r = yp_max_calls ?p" "yr_recovery_count r = 0"
    "yr_created_at r = ax_now env" using made(1) by (simp_all add: new_run_def)
  have idle: "\<not> job_active (yr_status x)" if "x \<in> set (run_table w)" for x using none that by (simp add: active_run_None)
  have lane: "lane_step (assurance_lane w) (assurance_lane ?w)" "rows_wf run_columns (run_table ?w)"
    using rows_submit(1) [of run_columns r "run_table w" "aw_calls w" "started_run (aw_exec w)"]
      rows_submit(2) [of run_columns r "run_table w"] made(2,4) r idle inv
    by (simp_all add: assurance_lane_def assurance_inv_def)
  have find: "row_at run_columns k (run_table w) = Some x \<Longrightarrow> row_at run_columns k (run_table ?w) = Some x" for k x
    using made(2) by (simp add: row_at_def sql_first_append)
  have "good_run w ?w" using lane lane_inv_step [OF lane(1)] inv made(3) find
    by (auto simp: good_run_def assurance_inv_def executes_def)
  moreover have "keeps_load w ?w"
  proof -
    have "int (day_load d (run_table ?w)) \<le> max (int (day_load d (run_table w))) (yp_max_runs ?p)" for d
      using day_load_usage [OF none, of "ax_now env"] limit made(2) r(5)
      by (cases "d = utc_day (ax_now env)") (auto simp: day_load_def sql_count_append sql_count_Cons sql_count_Nil)
    then show ?thesis using made(3) by (simp add: keeps_load_def)
  qed
  ultimately show ?thesis using w' by (simp add: good_load_def)
qed

lemma keeps_load_same:
  "run_table w' = run_table w \<Longrightarrow> yp_max_runs (yd_policy (aw_db w')) = yp_max_runs (yd_policy (aw_db w)) \<Longrightarrow> keeps_load w w'"
  by (simp add: keeps_load_def)

lemma good_load_then:
  assumes g: "good_load w w1" and w2: "run_table w2 = run_table w1" "aw_calls w2 = aw_calls w1" "aw_exec w2 = aw_exec w1"
    "aw_online w2 = aw_online w1" "yp_max_runs (yd_policy (aw_db w2)) = yp_max_runs (yd_policy (aw_db w1))"
    "yp_max_calls (yd_policy (aw_db w2)) = yp_max_calls (yd_policy (aw_db w1))"
  shows "good_load w w2"
proof -
  have "assurance_inv w1" using g by (simp add: good_load_def good_run_def)
  moreover from this have "0 \<le> yp_max_calls (yd_policy (aw_db w2))" using w2(6) by (simp add: assurance_inv_def)
  ultimately have "good_run w1 w2" using good_run_db [of w1 w2] w2 by blast
  then show ?thesis using g good_run_trans w2 by (auto simp: good_load_def keeps_load_def)
qed

lemma good_schedule_due:
  assumes inv: "assurance_inv w"
  shows "good_load w (schedule_due env w)"
proof -
  have keep: "yp_max_calls (yd_policy (advance_schedule now db)) = yp_max_calls (yd_policy db)" for now db
    by (simp add: advance_schedule_def)
  have later: "good_load w (on_db (advance_schedule (ax_now env)) w1)"
    "good_load w (on_db (advance_schedule (ax_now env)) (notify env i s c t d w1))" if "good_load w w1" for w1 i s c t d
    by (rule good_load_then [OF that]; simp add: keep)+
  obtain r w1 where q: "enqueue_run env [] ''scheduled'' w = (r, w1)" by fastforce
  then have "good_load w w1" using good_enqueue_run [OF inv, of env "[]" "''scheduled''"] by simp
  then show ?thesis using later good_load_refl [OF inv] q
    by (auto simp: schedule_due_def Let_def split: option.split sum.split)
qed

lemma good_round:
  assumes inv: "assurance_inv w"
  shows "good_load w (assurance_round env w)"
proof -
  have s: "good_load w (schedule_due env w)" by (rule good_schedule_due [OF inv])
  let ?w = "schedule_due env w"
  have "good_load w (?w\<lparr>aw_exec := Some \<lparr>xe_phase = AScheduled, xe_row = r, xe_cancelled = False, xe_calls = 0, xe_exceeded = False\<rparr>\<rparr>)"
    if "aw_exec ?w = None" "aw_online ?w" for r
  proof -
    let ?w2 = "?w\<lparr>aw_exec := Some \<lparr>xe_phase = AScheduled, xe_row = r, xe_cancelled = False, xe_calls = 0, xe_exceeded = False\<rparr>\<rparr>"
    have inv1: "assurance_inv ?w" using s by (simp add: good_load_def good_run_def)
    have "good_run ?w ?w2"
      by (rule good_run_same [OF inv1]) (use that inv1 in \<open>auto simp: started_run_def assurance_inv_def\<close>)
    then show ?thesis using s good_run_trans by (auto simp: good_load_def keeps_load_def)
  qed
  moreover have "aw_exec ?w = aw_exec w \<and> aw_online ?w = aw_online w"
  proof -
    have "aw_exec (snd (enqueue_run env d t w)) = aw_exec w \<and> aw_online (snd (enqueue_run env d t w)) = aw_online w" for d t
      by (auto simp: enqueue_run_def Let_def split: prod.split sum.split)
    then have "enqueue_run env d t w = (r, w1) \<Longrightarrow> aw_exec w1 = aw_exec w \<and> aw_online w1 = aw_online w" for d t r w1
      by (metis snd_conv)
    then show ?thesis by (auto simp: schedule_due_def Let_def split: option.split sum.split prod.split)
  qed
  moreover have "good_load w (w\<lparr>aw_online := False\<rparr>)" if "aw_exec w = None"
    using inv that unfolding good_load_def by (intro conjI good_run_same) (auto simp: assurance_inv_def keeps_load_def)
  ultimately show ?thesis using good_load_refl [OF inv] s
    by (auto simp: assurance_round_def Let_def split: option.split)
qed

lemma request_run_cancel_cases:
  assumes "request_run_cancel now i db = (r, db')" "rows_wf run_columns (yd_runs db)"
  obtains (same) "yd_runs db' = yd_runs db" "yd_policy db' = yd_policy db"
    "\<And>r'. find_run i db = Some r' \<Longrightarrow> \<not> job_active (yr_status r')"
  | (withdrawn) r' where "row_at run_columns i (yd_runs db) = Some r'" "yr_status r' = JQueued" "r \<noteq> None"
      "touches run_columns i (yd_runs db) (\<lambda>x. yr_id x = i) (withdrawn_run now)"
      "yd_runs db' = sql_update (\<lambda>x. yr_id x = i) (withdrawn_run now) (yd_runs db)" "yd_policy db' = yd_policy db"
  | (flagged) r' f where "row_at run_columns i (yd_runs db) = Some r'" "yr_status r' = JRunning" "r \<noteq> None"
      "\<And>x. yr_status (f x) = yr_status x \<and> yr_recovery_count (f x) = yr_recovery_count x \<and> yr_created_at (f x) = yr_created_at x
         \<and> yr_cancel_requested (f x)"
      "touches run_columns i (yd_runs db) (\<lambda>x. yr_id x = i) f"
      "yd_runs db' = sql_update (\<lambda>x. yr_id x = i) f (yd_runs db)" "yd_policy db' = yd_policy db"
proof (cases "find_run i db")
  case None
  then show ?thesis using assms by (intro same) (auto simp: request_run_cancel_def)
next
  case (Some r')
  have at: "row_at run_columns i (yd_runs db) = Some r'" using Some by (simp add: find_run_row)
  have found: "find_run i (update_runs (\<lambda>x. yr_id x = i) f db) \<noteq> None" if "touches run_columns i (yd_runs db) (\<lambda>x. yr_id x = i) f" for f
    using row_at_touched [OF that, of i] at by (simp add: find_run_row)
  consider "yr_status r' = JQueued" | "yr_status r' = JRunning" | "\<not> job_active (yr_status r')" by (auto simp: job_active_def)
  then show ?thesis
  proof cases
    case 1
    have t: "touches run_columns i (yd_runs db) (\<lambda>x. yr_id x = i) (withdrawn_run now)" using assms(2) by (simp add: touches_def)
    show ?thesis using assms(1) Some 1 found [OF t]
      by (intro withdrawn [OF at 1 _ t]) (auto simp: request_run_cancel_def Let_def)
  next
    case 2
    let ?f = "\<lambda>x. x\<lparr>yr_cancel_requested := True,
      yr_detail := ''Cancellation requested; stopping active local and Splunk work.'', yr_updated_at := now\<rparr>"
    have t: "touches run_columns i (yd_runs db) (\<lambda>x. yr_id x = i) ?f" using assms(2) by (simp add: touches_def)
    show ?thesis using assms(1) Some 2 found [OF t]
      by (intro flagged [OF at 2 _ _ t]) (auto simp: request_run_cancel_def Let_def)
  next
    case 3
    then show ?thesis using assms Some
      by (intro same) (auto simp: request_run_cancel_def Let_def job_active_def)
  qed
qed

lemma good_cancel_run:
  assumes inv: "assurance_inv w"
  shows "good_load w (snd (cancel_run env i w))"
proof -
  obtain r db' where r: "request_run_cancel (ax_now env) i (aw_db w) = (r, db')" by fastforce
  let ?w = "w\<lparr>aw_db := db'\<rparr>" and ?l = "assurance_lane w"
  have wf: "rows_wf run_columns (run_table w)" using inv by (simp add: assurance_inv_def)
  have flag: "good_load w ?w \<Longrightarrow> good_load w (snd (cancel_run env i w))"
    using r by (auto simp: cancel_run_def good_load_def good_run_def assurance_inv_def assurance_lane_def started_run_def executes_def
        keeps_load_def Let_def split: option.splits if_splits)
  from r wf have "good_load w ?w"
  proof (cases rule: request_run_cancel_cases)
    case same
    then show ?thesis using inv good_run_db [OF inv, of ?w]
      by (simp add: good_load_def keeps_load_same assurance_inv_def)
  next
    case (withdrawn r')
    have id: "yr_id r' = i" using row_at_id [OF withdrawn(1)] by simp
    have step: "lane_step ?l (assurance_lane ?w)"
      using rows_withdraw [OF withdrawn(4,1), of "aw_calls w" "started_run (aw_exec w)"] withdrawn(2,5) id by (simp add: assurance_lane_def)
    have "executes e (run_table ?w)" if "executes e (run_table w)" for e
      using that row_at_touched [OF withdrawn(4), of "xe_id e"] withdrawn(1,2,5) by (auto simp: executes_def)
    moreover have "loads_le w ?w"
      using day_load_row [OF wf withdrawn(1), of "withdrawn_run (ax_now env)"] withdrawn(2,5,6) by (simp add: loads_le_def)
    ultimately show ?thesis using step lane_inv_step [OF step] inv touches_wf [OF withdrawn(4)] withdrawn(5,6)
      by (auto simp: good_load_def good_run_def assurance_inv_def loads_le_keeps)
  next
    case (flagged r' f)
    have lane: "assurance_lane ?w = ?l"
      unfolding assurance_lane_def using flagged(4,6) by (simp add: rows_lane_untouched [OF flagged(5)])
    have "executes e (run_table ?w)" if "executes e (run_table w)" for e
      using executes_touched [OF flagged(5) _ that] flagged(4,6) by simp
    moreover have "loads_le w ?w"
      using day_load_row [OF wf flagged(1), of f] flagged(2,4,6,7) by (simp add: loads_le_def)
    ultimately show ?thesis using lane inv touches_wf [OF flagged(5)] flagged(6,7)
      by (auto simp: good_load_def good_run_def assurance_inv_def loads_le_keeps)
  qed
  then show ?thesis by (rule flag)
qed

lemma recover_runs_steps:
  assumes wf: "rows_wf run_columns (yd_runs db)" and inv: "lane_inv (rows_lane run_columns (yd_runs db) c None)"
  shows "lane_steps (rows_lane run_columns (yd_runs db) c None) (rows_lane run_columns (yd_runs (snd (recover_interrupted_runs now db))) c None)
    \<and> rows_wf run_columns (yd_runs (snd (recover_interrupted_runs now db)))
    \<and> day_load d (yd_runs (snd (recover_interrupted_runs now db))) \<le> day_load d (yd_runs db)
    \<and> yd_policy (snd (recover_interrupted_runs now db)) = yd_policy db"
proof -
  let ?p = "\<lambda>r. yr_status r = JRunning \<and> yr_cancel_requested r" and ?q = "\<lambda>r. yr_status r = JRunning \<and> \<not> yr_cancel_requested r"
  let ?f = "recover_cancelled now" and ?g = "requeued_run now ''The prior process stopped mid-run; a fresh read-only collection is queued.''"
  let ?a = "yd_runs db" let ?b = "sql_update ?p ?f ?a" let ?c = "sql_update ?q ?g ?b"
  have 1: "lane_steps (rows_lane run_columns ?a c None) (rows_lane run_columns ?b c None) \<and> rows_wf run_columns ?b"
    by (rule rows_sweep [OF inv wf]) auto
  have 2: "lane_steps (rows_lane run_columns ?b c None) (rows_lane run_columns ?c c None) \<and> rows_wf run_columns ?c"
    by (rule rows_sweep) (use 1 lane_inv_steps [OF conjunct1 [OF 1] inv] in auto)
  have "day_load d ?c \<le> day_load d ?b" "day_load d ?b \<le> day_load d ?a"
    by (rule day_load_update; simp)+
  moreover have "yd_runs (snd (recover_interrupted_runs now db)) = ?c" "yd_policy (snd (recover_interrupted_runs now db)) = yd_policy db"
    by (simp_all add: recover_interrupted_runs_def Let_def)
  ultimately show ?thesis using 1 2 by auto
qed

lemma good_idle_assurance:
  assumes inv: "assurance_inv w"
  shows "good_load w (w\<lparr>aw_db := snd (recover_interrupted_runs now (aw_db w)), aw_exec := None, aw_online := x, aw_stopping := y\<rparr>)"
proof -
  let ?l = "rows_lane run_columns (run_table w) (aw_calls w) None"
  have wf: "rows_wf run_columns (run_table w)" using inv by (simp add: assurance_inv_def)
  have "?l = (assurance_lane w)\<lparr>ln_exec := None\<rparr>" by (simp add: assurance_lane_def rows_lane_def)
  moreover have "lane_steps (assurance_lane w) ((assurance_lane w)\<lparr>ln_exec := None\<rparr>)"
  proof (cases "ln_exec (assurance_lane w)")
    case None
    then have "(assurance_lane w)\<lparr>ln_exec := None\<rparr> = assurance_lane w" by simp
    then show ?thesis by simp
  next
    case (Some y)
    then show ?thesis using lane_step.lose [of "assurance_lane w" y] by auto
  qed
  ultimately have to_idle: "lane_steps (assurance_lane w) ?l" by simp
  have "lane_inv ?l" using lane_inv_steps [OF to_idle] inv by (simp add: assurance_inv_def)
  note r = recover_runs_steps [OF wf this, of now]
  have steps: "lane_steps (assurance_lane w) (rows_lane run_columns (yd_runs (snd (recover_interrupted_runs now (aw_db w)))) (aw_calls w) None)"
    by (rule rtranclp_trans [OF to_idle conjunct1 [OF r]])
  have "loads_le w (w\<lparr>aw_db := snd (recover_interrupted_runs now (aw_db w)), aw_exec := None, aw_online := x, aw_stopping := y\<rparr>)"
    using r by (simp add: loads_le_def)
  then show ?thesis using steps lane_inv_steps [OF steps] inv r
    by (simp add: good_load_def good_run_def assurance_inv_def assurance_lane_def started_run_def loads_le_keeps)
qed

lemma good_start_service:
  assumes inv: "assurance_inv w"
  shows "good_load w (start_service env w)"
proof (cases "aw_online w")
  case True
  then show ?thesis using good_load_refl [OF inv] by (simp add: start_service_def)
next
  case False
  then have none: "aw_exec w = None" using inv by (cases "aw_exec w") (auto simp: assurance_inv_def)
  have "start_service env w = w\<lparr>aw_db := snd (recover_interrupted_runs (ax_now env) (aw_db w)), aw_exec := None,
      aw_online := True, aw_stopping := False\<rparr>"
    using False none by (simp add: start_service_def)
  then show ?thesis using good_idle_assurance [OF inv] by simp
qed

lemma good_stop_assurance: "assurance_inv w \<Longrightarrow> good_load w (stop_assurance w)"
  unfolding good_load_def
  by (intro conjI good_run_same)
    (auto simp: stop_assurance_def assurance_inv_def started_run_def executes_def keeps_load_def split: option.split if_splits)

text \<open>Requests that only write other tables, or the policy.\<close>

lemma good_tables:
  assumes inv: "assurance_inv w" and f: "yd_runs (f (aw_db w)) = run_table w" "yd_policy (f (aw_db w)) = yd_policy (aw_db w)"
  shows "good_load w (w\<lparr>aw_db := f (aw_db w)\<rparr>)"
  using good_run_db [OF inv, of "w\<lparr>aw_db := f (aw_db w)\<rparr>"] inv f by (simp add: good_load_def keeps_load_def assurance_inv_def)

lemma good_overview: "assurance_inv w \<Longrightarrow> good_load w (snd (assurance_overview env w))"
  using good_tables [of w "\<lambda>db. snd (list_packages (ax_now env) 20 (yp_tenant (yd_policy (aw_db w))) db)"]
  by (simp add: assurance_overview_def Let_def case_prod_unfold)

text \<open>The requests that change the policy leave the limits as they are or set those of a valid update.\<close>

definition policy_limits :: "assurance_world \<Rightarrow> int \<times> int" where
  "policy_limits w = (yp_max_calls (yd_policy (aw_db w)), yp_max_runs (yd_policy (aw_db w)))"

lemma rebind_limits: "rebind_policy now b f u db = (r, db') \<Longrightarrow> yd_runs db' = yd_runs db \<and>
    yp_max_calls (yd_policy db') = yp_max_calls (yd_policy db) \<and> yp_max_runs (yd_policy db') = yp_max_runs (yd_policy db)"
  by (auto simp: rebind_policy_def split: if_splits)

definition same_runs :: "assurance_world \<Rightarrow> assurance_world \<Rightarrow> bool" where
  "same_runs w w' = (run_table w' = run_table w \<and> aw_calls w' = aw_calls w \<and> aw_exec w' = aw_exec w \<and> aw_online w' = aw_online w)"

lemma set_policy_limits:
  "set_policy env v w = (r, w') \<Longrightarrow> same_runs w w' \<and>
    (policy_limits w' = policy_limits w \<or> (0 \<le> yu_max_calls v \<and> policy_limits w' = (yu_max_calls v, yu_max_runs v)))"
  using budget_required_nonneg [of "yu_depth v" "yu_max_calls v"]
  by (cases "validate_budget (yu_depth v) (yu_max_calls v)")
    (auto simp: set_policy_def same_runs_def policy_limits_def update_assurance_policy_def)

lemma rebind_assurance_limits:
  "rebind_assurance env b f u w = (r, w') \<Longrightarrow> same_runs w w' \<and> policy_limits w' = policy_limits w"
  by (auto simp: rebind_assurance_def same_runs_def policy_limits_def split: if_splits prod.splits dest: rebind_limits)

lemma change_policy_limits:
  assumes "change_policy env b v u w = (r, w')"
  shows "same_runs w w' \<and> (policy_limits w' = policy_limits w \<or> (0 \<le> yu_max_calls v \<and> policy_limits w' = (yu_max_calls v, yu_max_runs v)))"
proof -
  define changed where "changed = (yp_alias (yd_policy (aw_db w)) \<noteq> yb_alias b \<or> yp_fingerprint (yd_policy (aw_db w)) \<noteq> yb_fingerprint b
    \<or> yp_tenant (yd_policy (aw_db w)) \<noteq> yb_tenant b)"
  let ?v = "v\<lparr>yu_enabled := yu_enabled v \<and> \<not> changed\<rparr>"
  note run = assms [unfolded change_policy_def Let_def, folded changed_def]
  show ?thesis
  proof (cases "(changed \<and> active_run (aw_db w) \<noteq> None) \<or> (\<exists>e. validate_budget (yu_depth v) (yu_max_calls v) = Inl e)")
    case True
    then have "w' = w" using run by (auto split: if_splits)
    then show ?thesis by (simp add: same_runs_def)
  next
    case False
    then obtain x where ok: "validate_budget (yu_depth v) (yu_max_calls v) = Inr x" by (cases "validate_budget (yu_depth v) (yu_max_calls v)") auto
    obtain s db where s: "rebind_policy (ax_now env) b (yp_fingerprint (yd_policy (aw_db w))) u (aw_db w) = (s, db)" by fastforce
    note keep = rebind_limits [OF s]
    show ?thesis
    proof (cases changed)
      case no: False
      then have "set_policy env ?v w = (r, w')" using run ok by simp
      from set_policy_limits [OF this] show ?thesis by simp
    next
      case yes: True
      show ?thesis
      proof (cases s)
        case (Inl e)
        then have "w' = w\<lparr>aw_db := db\<rparr>" using run ok s yes False by simp
        then show ?thesis using keep by (simp add: same_runs_def policy_limits_def)
      next
        case (Inr y)
        then have "set_policy env ?v (w\<lparr>aw_db := db\<rparr>) = (r, w')" using run ok s yes False by simp
        from set_policy_limits [OF this] show ?thesis using keep by (simp add: same_runs_def policy_limits_def)
      qed
    qed
  qed
qed

lemma good_limits:
  assumes inv: "assurance_inv w" and s: "same_runs w w'" and l: "policy_limits w' = policy_limits w \<or> (0 \<le> c \<and> policy_limits w' = (c, n))"
  shows "good_run w w'"
  using good_run_db [OF inv, of w'] s l inv by (auto simp: same_runs_def policy_limits_def assurance_inv_def)

fun op_limit :: "assurance_op \<Rightarrow> int option" where
  "op_limit (ChangePolicy b v u) = Some (yu_max_runs v)"
| "op_limit op = None"

lemma good_assurance_step:
  assumes inv: "assurance_inv w"
  shows "good_run w (assurance_step (env, op) w) \<and> (op_limit op = None \<longrightarrow> keeps_load w (assurance_step (env, op) w))"
proof -
  note goods = good_enqueue_run [OF inv] good_cancel_run [OF inv] good_round [OF inv] good_start_service [OF inv]
    good_stop_assurance [OF inv] good_overview [OF inv] good_load_refl [OF inv] good_resume_assurance [OF inv]
    good_assurance_call [OF inv] good_report [OF inv] good_idle_assurance [OF inv]
  show ?thesis
  proof (cases op)
    case (ChangePolicy b v u)
    then show ?thesis using good_limits [OF inv] change_policy_limits [of env b v u w] by (cases "change_policy env b v u w") auto
  next
    case (RebindPolicy b f u)
    obtain r w' where r: "rebind_assurance env b f u w = (r, w')" by fastforce
    then show ?thesis using RebindPolicy good_limits [OF inv, of w'] rebind_assurance_limits [OF r]
      by (simp add: keeps_load_def same_runs_def policy_limits_def)
  next
    case (Acknowledge i)
    then show ?thesis using good_tables [OF inv, of "\<lambda>db. snd (acknowledge i db)"] by (simp add: on_db_def good_load_def)
  next
    case (ClosePackage i)
    then show ?thesis using good_tables [OF inv, of "\<lambda>db. snd (close_package (ax_now env) i db)"] by (simp add: on_db_def good_load_def)
  next
    case (ExpirePackages ex)
    then show ?thesis using good_tables [OF inv, of "\<lambda>db. snd (expire_packages (ax_now env) ex db)"] by (simp add: on_db_def good_load_def)
  qed (use goods in \<open>auto simp: good_load_def open_assurance_def split: option.split sum.split\<close>)
qed

interpretation assurance: lane_machine assurance_step assurance_inv assurance_lane
proof
  fix w and e :: "assurance_env \<times> assurance_op"
  assume "assurance_inv w"
  then have "good_run w (assurance_step e w)" using good_assurance_step [of w "fst e" "snd e"] by simp
  then show "assurance_inv (assurance_step e w)" "lane_steps (assurance_lane w) (assurance_lane (assurance_step e w))"
    by (simp_all add: good_run_def)
qed

lemma new_assurance_inv: "assurance_inv (new_assurance now tasks)"
  by (simp add: assurance_inv_def new_assurance_def initial_assurance_def initial_policy_def lane_inv_def assurance_lane_def
      rows_lane_def row_at_def sql_first_def started_run_def job_bounded_def)

lemma reachable_assurance: "assurance_inv (run_ops assurance_step (new_assurance now tasks) es)"
  by (rule assurance.inv_run [OF new_assurance_inv])


section \<open>What holds over every history\<close>

text \<open>C34. Continuous assurance implements the single-lane specification: whatever requests, scheduler rounds, awaits, crashes
  and restarts come in whatever order, each step is some steps of the specification.\<close>

theorem assurance_follows_the_lane:
  "lane_steps (assurance_lane (new_assurance now tasks)) (assurance_lane (run_ops assurance_step (new_assurance now tasks) es))"
  by (rule assurance.refines_run [OF new_assurance_inv])

lemma load_within:
  "assurance_inv w \<Longrightarrow> yp_max_runs (yd_policy (aw_db w)) \<le> m \<Longrightarrow> int (day_load d (run_table w)) \<le> m \<Longrightarrow>
    list_all (\<lambda>(env, op). case op_limit op of None \<Rightarrow> True | Some n \<Rightarrow> n \<le> m) es \<Longrightarrow>
    int (day_load d (run_table (run_ops assurance_step w es))) \<le> m"
proof (induction es arbitrary: w)
  case (Cons e es)
  obtain env op where e: "e = (env, op)" by fastforce
  let ?w = "assurance_step (env, op) w"
  have good: "assurance_inv ?w" using assurance.inv_step [OF Cons.prems(1), of "(env, op)"] .
  have "yp_max_runs (yd_policy (aw_db ?w)) \<le> m \<and> int (day_load d (run_table ?w)) \<le> m"
  proof (cases "op_limit op")
    case None
    then have "keeps_load w ?w" using good_assurance_step [OF Cons.prems(1), of env op] by simp
    then have "yp_max_runs (yd_policy (aw_db ?w)) = yp_max_runs (yd_policy (aw_db w))"
      "int (day_load d (run_table ?w)) \<le> max (int (day_load d (run_table w))) (yp_max_runs (yd_policy (aw_db w)))"
      by (auto simp: keeps_load_def)
    then show ?thesis using Cons.prems(2,3) by simp
  next
    case (Some n)
    then obtain b v u where op: "op = ChangePolicy b v u" "n = yu_max_runs v" by (cases op) auto
    have "n \<le> m" using Cons.prems(4) e Some by simp
    then show ?thesis using op change_policy_limits [of env b v u w] Cons.prems(2,3)
      by (cases "change_policy env b v u w") (auto simp: same_runs_def policy_limits_def)
  qed
  then show ?case using Cons.IH [OF good] Cons.prems(4) e by simp
qed simp

text \<open>C35. The daily limit holds over every history: when no policy allows more than \<open>m\<close> runs a day, the limit of four
  runs that a new installation starts with included, then of the runs created on one UTC day at most \<open>m\<close> are
  at any moment not cancelled, or cancelled with calls recorded - whatever is cancelled, recovered, crashed
  or rescheduled. A cancelled run without recorded calls is not counted and frees its place, even when it
  was started.\<close>

theorem daily_run_limit:
  assumes "4 \<le> m" "list_all (\<lambda>(env, op). case op_limit op of None \<Rightarrow> True | Some n \<Rightarrow> n \<le> m) es"
  shows "int (length (filter (\<lambda>r. utc_day (yr_created_at r) = d \<and> (yr_status r \<noteq> JCancelled \<or> 0 < yr_calls_used r))
      (yd_runs (aw_db (run_ops assurance_step (new_assurance now tasks) es))))) \<le> m"
proof -
  let ?w = "run_ops assurance_step (new_assurance now tasks) es"
  have "int (day_load d (run_table ?w)) \<le> m"
    by (rule load_within [OF new_assurance_inv _ _ assms(2)])
      (use assms(1) in \<open>simp_all add: new_assurance_def initial_assurance_def initial_policy_def day_load_def sql_count_Nil\<close>)
  moreover have "length (filter (\<lambda>r. utc_day (yr_created_at r) = d \<and> (yr_status r \<noteq> JCancelled \<or> 0 < yr_calls_used r))
      (run_table ?w)) \<le> day_load d (run_table ?w)"
    unfolding day_load_def sql_count_def [symmetric]
    by (rule sql_count_imp) (auto simp: run_live_def run_counted_def job_active_def)
  ultimately show ?thesis by linarith
qed

end
