(* ===== verification/Signal_Correlation.thy ===== *)
theory Signal_Correlation
  imports Assurance_Signals
begin

text \<open>
  What the correlation of signals promises (\<open>correlate_signals\<close> of \<open>assurance/store.py\<close>, defined in \<open>Assurance_Signals\<close>):
  repeating it for the same run changes nothing, and exactly the signals that a complete read of their kind did not see
  are resolved.
\<close>


section \<open>One observation\<close>

abbreviation signal_row :: "string \<Rightarrow> signal list \<Rightarrow> signal option" where
  "signal_row f rows \<equiv> sql_first (\<lambda>s. ys_fingerprint s = f) rows"

lemma observed_signal_simps [simp]:
  "ys_fingerprint (observed_signal now run b ob x) = ob_fingerprint ob" "ys_last_run (observed_signal now run b ob x) = run"
  by (simp_all add: observed_signal_def Let_def)

lemma resolved_signal_simps [simp]:
  "ys_fingerprint (resolved_signal now s) = ys_fingerprint s" "ys_last_run (resolved_signal now s) = ys_last_run s"
  "ys_status (resolved_signal now s) = SResolved" "ys_kind (resolved_signal now s) = ys_kind s" "ys_tenant (resolved_signal now s) = ys_tenant s"
  by (simp_all add: resolved_signal_def)

lemma update_row:
  assumes "\<And>s. ys_fingerprint (f s) = k"
  shows "signal_row j (sql_update (\<lambda>x. ys_fingerprint x = k) f rows) = (if j = k then map_option f (signal_row k rows) else signal_row j rows)"
proof -
  have "signal_row j (sql_update (\<lambda>x. ys_fingerprint x = k) f rows) = map_option (\<lambda>r. if ys_fingerprint r = k then f r else r) (signal_row j rows)"
    by (rule sql_first_update) (use assms in auto)
  note row = this
  show ?thesis
  proof (cases "signal_row j rows")
    case (Some s)
    then have "ys_fingerprint s = j" using sql_first_SomeD [OF Some] by simp
    then show ?thesis using row Some by (cases "j = k") simp_all
  qed (use row in auto)
qed

lemma correlate_one_row:
  "signal_row f (correlate_one now run b ob rows) =
    (if f = ob_fingerprint ob \<and> f \<noteq> [] then (case signal_row f rows of None \<Rightarrow> Some (observed_signal now run b ob None)
        | Some s \<Rightarrow> Some (if ys_last_run s = run then s else observed_signal now run b ob (Some s)))
     else signal_row f rows)"
proof (cases "ob_fingerprint ob = []")
  case True
  then show ?thesis by (auto simp: correlate_one_def)
next
  case False
  show ?thesis
  proof (cases "signal_row (ob_fingerprint ob) rows")
    case None
    then show ?thesis using False
      by (auto simp: correlate_one_def sql_first_append sql_first_single split: option.split)
  next
    case (Some s)
    then show ?thesis using False by (auto simp: correlate_one_def update_row)
  qed
qed

lemma correlate_one_known:
  "ob_fingerprint ob \<noteq> [] \<Longrightarrow> signal_row (ob_fingerprint ob) rows = Some s \<Longrightarrow> ys_last_run s = run \<Longrightarrow> correlate_one now run b ob rows = rows"
  by (simp add: correlate_one_def)

lemma correlate_one_other:
  assumes "ys_fingerprint s \<noteq> ob_fingerprint ob"
  shows "s \<in> set (correlate_one now run b ob rows) \<longleftrightarrow> s \<in> set rows"
  using assms by (auto simp: correlate_one_def set_sql_update image_iff split: option.split)


section \<open>All observations\<close>

abbreviation correlate_all :: "instant \<Rightarrow> string \<Rightarrow> assurance_binding \<Rightarrow> observation list \<Rightarrow> signal list \<Rightarrow> signal list" where
  "correlate_all now run b obs \<equiv> fold (correlate_one now run b) obs"

lemma set_seen: "set (seen_fingerprints obs) = {f. f \<noteq> [] \<and> f \<in> ob_fingerprint ` set obs}"
  by (auto simp: seen_fingerprints_def from_keys_def)

lemma correlate_all_unseen_row:
  "f = [] \<or> f \<notin> ob_fingerprint ` set obs \<Longrightarrow> signal_row f (correlate_all now run b obs rows) = signal_row f rows"
  by (induction obs arbitrary: rows) (auto simp: correlate_one_row)

text \<open>A row that this run has seen stays as it is.\<close>

lemma correlate_one_last_run:
  "signal_row f rows = Some s \<Longrightarrow> ys_last_run s = run \<Longrightarrow> signal_row f (correlate_one now run b ob rows) = Some s"
  by (cases "f = ob_fingerprint ob \<and> f \<noteq> []") (auto simp: correlate_one_row)

lemma correlate_one_seen:
  assumes "f = ob_fingerprint ob" "f \<noteq> []"
  shows "\<exists>s. signal_row f (correlate_one now run b ob rows) = Some s \<and> ys_last_run s = run"
  using assms by (cases "signal_row f rows") (simp_all add: correlate_one_row)

lemma correlate_all_last_run:
  "signal_row f rows = Some s \<Longrightarrow> ys_last_run s = run \<Longrightarrow> signal_row f (correlate_all now run b obs rows) = Some s"
  by (induction obs arbitrary: rows) (simp_all add: correlate_one_last_run)

lemma correlate_all_seen_row:
  assumes "ob \<in> set obs" "ob_fingerprint ob \<noteq> []"
  shows "\<exists>s. signal_row (ob_fingerprint ob) (correlate_all now run b obs rows) = Some s \<and> ys_last_run s = run"
  using assms
proof (induction obs arbitrary: rows)
  case (Cons o1 obs)
  show ?case
  proof (cases "ob_fingerprint o1 = ob_fingerprint ob")
    case True
    obtain s where "signal_row (ob_fingerprint ob) (correlate_one now run b o1 rows) = Some s" "ys_last_run s = run"
      using correlate_one_seen [OF True [symmetric] Cons.prems(2), of now run b rows] by blast
    from correlate_all_last_run [OF this] this(2) show ?thesis by simp
  next
    case False
    then show ?thesis using Cons by auto
  qed
qed simp

lemma correlate_all_unseen:
  "ys_fingerprint s \<notin> ob_fingerprint ` set obs \<Longrightarrow> s \<in> set (correlate_all now run b obs rows) \<longleftrightarrow> s \<in> set rows"
  by (induction obs arbitrary: rows) (auto simp: correlate_one_other)

lemma correlate_one_empty: "ys_fingerprint s = [] \<Longrightarrow> s \<in> set (correlate_one now run b ob rows) \<longleftrightarrow> s \<in> set rows"
proof (cases "ob_fingerprint ob = []")
  case False
  assume "ys_fingerprint s = []"
  with False have "ys_fingerprint s \<noteq> ob_fingerprint ob" by simp
  then show ?thesis by (rule correlate_one_other)
qed (simp add: correlate_one_def)

lemma correlate_all_empty: "ys_fingerprint s = [] \<Longrightarrow> s \<in> set (correlate_all now run b obs rows) \<longleftrightarrow> s \<in> set rows"
  by (induction obs arbitrary: rows) (auto simp: correlate_one_empty)

lemma correlate_all_not_seen:
  "ys_fingerprint s \<notin> set (seen_fingerprints obs) \<Longrightarrow> s \<in> set (correlate_all now run b obs rows) \<longleftrightarrow> s \<in> set rows"
  using correlate_all_unseen correlate_all_empty unfolding set_seen by blast

lemma correlate_all_again:
  assumes "\<And>ob. ob \<in> set obs \<Longrightarrow> ob_fingerprint ob \<noteq> [] \<Longrightarrow> \<exists>s. signal_row (ob_fingerprint ob) rows = Some s \<and> ys_last_run s = run"
  shows "correlate_all now run b obs rows = rows"
  using assms
proof (induction obs)
  case (Cons ob obs)
  have "correlate_one now run b ob rows = rows"
    using Cons.prems [of ob] by (cases "ob_fingerprint ob = []") (auto simp: correlate_one_def)
  with Cons show ?case by simp
qed simp

text \<open>An open row stays open whatever is observed.\<close>

lemma observed_open:
  "(case x of None \<Rightarrow> True | Some s \<Rightarrow> ys_status s \<noteq> SResolved) \<Longrightarrow> ys_status (observed_signal now run b ob x) \<noteq> SResolved"
  by (auto simp: observed_signal_def observed_status_def Let_def split: option.split)

lemma correlate_one_open:
  assumes "signal_row f rows = Some s" "ys_status s \<noteq> SResolved"
  shows "\<exists>s'. signal_row f (correlate_one now run b ob rows) = Some s' \<and> ys_status s' \<noteq> SResolved"
  using assms observed_open [of "Some s" now run b ob]
  by (cases "f = ob_fingerprint ob \<and> f \<noteq> []") (auto simp: correlate_one_row)

lemma correlate_all_open:
  "signal_row f rows = Some s \<Longrightarrow> ys_status s \<noteq> SResolved \<Longrightarrow>
    \<exists>s'. signal_row f (correlate_all now run b obs rows) = Some s' \<and> ys_status s' \<noteq> SResolved"
proof (induction obs arbitrary: rows s)
  case (Cons ob obs)
  obtain s' where "signal_row f (correlate_one now run b ob rows) = Some s'" "ys_status s' \<noteq> SResolved"
    using correlate_one_open [OF Cons.prems] by blast
  from Cons.IH [OF this] show ?case by simp
qed simp


section \<open>Resolution\<close>

lemma resolve_row:
  "signal_row f (sql_update (resolves kinds seen tenant before) (resolved_signal now) rows)
    = map_option (\<lambda>s. if resolves kinds seen tenant before s then resolved_signal now s else s) (signal_row f rows)"
  by (rule sql_first_update) simp

lemma resolves_seen: "resolves kinds seen tenant before s \<Longrightarrow> ys_fingerprint s \<notin> set seen"
  by (auto simp: resolves_def list_ex_iff)

lemma resolves_unique:
  assumes "distinct (map ys_fingerprint before)" "signal_row (ys_fingerprint x) before = Some s"
  shows "resolves kinds seen tenant before x \<longleftrightarrow> ys_status s \<noteq> SResolved \<and> (tenant = [] \<or> ys_tenant s = tenant)
    \<and> \<not> List.member seen (ys_fingerprint s) \<and> (case kinds of None \<Rightarrow> True | Some ks \<Rightarrow> List.member ks (ys_kind s))"
proof -
  have s: "s \<in> set before" "ys_fingerprint s = ys_fingerprint x" using sql_first_SomeD [OF assms(2)] by auto
  have "o' = s" if "o' \<in> set before" "ys_fingerprint o' = ys_fingerprint x" for o'
    using sql_first_unique [OF assms(1) that] assms(2) by simp
  note unique = this
  define q where "q = (\<lambda>o' :: signal. ys_status o' \<noteq> SResolved \<and> (tenant = [] \<or> ys_tenant o' = tenant) \<and> \<not> List.member seen (ys_fingerprint o')
    \<and> (case kinds of None \<Rightarrow> True | Some ks \<Rightarrow> List.member ks (ys_kind o')))"
  have "resolves kinds seen tenant before x \<longleftrightarrow> (\<exists>o' \<in> set before. ys_fingerprint o' = ys_fingerprint x \<and> q o')"
    by (simp add: resolves_def list_ex_iff q_def)
  also have "\<dots> \<longleftrightarrow> q s" using unique s by blast
  finally show ?thesis by (simp add: q_def)
qed

text \<open>C38. A stored signal that is not resolved becomes resolved by a run exactly when the run read everything, did not see it, is authoritative
  for its kind and belongs to its tenant (a legacy run without a tenant scope counts as every tenant's); a partial read
  resolves nothing. (Fingerprints are the primary key of the table.)\<close>

theorem signal_resolution:
  assumes "distinct (map ys_fingerprint (yd_signals db))" "find_signal f db = Some s" "ys_status s \<noteq> SResolved"
    and "tenant = yb_tenant (signal_binding run key db)" "seen = seen_fingerprints (scoped_observations digest key obs)"
  shows "map_option ys_status (find_signal f (snd (correlate_signals digest now run obs complete kinds key db))) = Some SResolved \<longleftrightarrow>
    complete \<and> \<not> List.member seen f \<and> (case kinds of None \<Rightarrow> True | Some ks \<Rightarrow> List.member ks (ys_kind s)) \<and>
    (tenant = [] \<or> ys_tenant s = tenant)"
proof -
  let ?b = "signal_binding run key db" and ?obs = "scoped_observations digest key obs"
  let ?rows = "correlate_all now run ?b ?obs (yd_signals db)"
  have row: "signal_row f (yd_signals db) = Some s" using assms(2) by (simp add: find_signal_def)
  have id: "ys_fingerprint s = f" using sql_first_SomeD [OF row] by simp
  obtain s' where s': "signal_row f ?rows = Some s'" "ys_status s' \<noteq> SResolved" using correlate_all_open [OF row assms(3)] by blast
  have id': "ys_fingerprint s' = f" using sql_first_SomeD [OF s'(1)] by simp
  have "resolves kinds seen tenant (yd_signals db) s' \<longleftrightarrow>
      \<not> List.member seen f \<and> (case kinds of None \<Rightarrow> True | Some ks \<Rightarrow> List.member ks (ys_kind s)) \<and> (tenant = [] \<or> ys_tenant s = tenant)"
    using resolves_unique [OF assms(1), of s' s kinds seen tenant] row id id' assms(3) by auto
  then show ?thesis using s' assms(4,5)
    by (auto simp: correlate_signals_def correlate_rows_def Let_def find_signal_def resolve_row)
qed

lemma correlate_rows_again:
  "correlate_rows now2 run b obs complete kinds (correlate_rows now run b obs complete kinds rows) = correlate_rows now run b obs complete kinds rows"
proof -
  let ?seen = "seen_fingerprints obs" and ?rows = "correlate_all now run b obs rows"
  let ?p = "resolves kinds ?seen (yb_tenant b) rows"
  let ?closed = "if complete then sql_update ?p (resolved_signal now) ?rows else ?rows"
  have "\<exists>s. signal_row (ob_fingerprint ob) ?closed = Some s \<and> ys_last_run s = run" if ob: "ob \<in> set obs" "ob_fingerprint ob \<noteq> []" for ob
  proof -
    obtain s where "signal_row (ob_fingerprint ob) ?rows = Some s" "ys_last_run s = run"
      using correlate_all_seen_row [OF ob, of now run b rows] by blast
    then show ?thesis by (cases "?p s") (simp_all add: resolve_row)
  qed
  then have stay: "correlate_all now2 run b obs ?closed = ?closed" by (rule correlate_all_again)
  have none: "\<not> resolves kinds ?seen (yb_tenant b) (sql_update ?p (resolved_signal now) ?rows) s" for s
  proof
    assume "resolves kinds ?seen (yb_tenant b) (sql_update ?p (resolved_signal now) ?rows) s"
    then obtain o' where o': "o' \<in> set (sql_update ?p (resolved_signal now) ?rows)" "ys_status o' \<noteq> SResolved"
      "yb_tenant b = [] \<or> ys_tenant o' = yb_tenant b" "ys_fingerprint o' \<notin> set ?seen"
      "case kinds of None \<Rightarrow> True | Some ks \<Rightarrow> List.member ks (ys_kind o')"
      unfolding resolves_def list_ex_iff by auto
    from o'(1) show False
    proof (cases rule: in_sql_update_cases)
      case same
      then have "o' \<in> set rows" using correlate_all_not_seen [OF o'(4)] by blast
      then have "?p o'" using o' by (auto simp: resolves_def list_ex_iff split: option.splits)
      with same show False by simp
    next
      case (changed r)
      with o'(2) show False by simp
    qed
  qed
  show ?thesis
  proof (cases complete)
    case True
    have "sql_update (resolves kinds ?seen (yb_tenant b) ?closed) (resolved_signal now2) ?closed = ?closed"
      unfolding sql_update_def by (rule map_idI) (use none True in \<open>simp add: sql_update_def\<close>)
    then show ?thesis using True stay by (simp add: correlate_rows_def Let_def)
  next
    case False
    then show ?thesis using stay by (simp add: correlate_rows_def)
  qed
qed

text \<open>Correlating the same observations for the same run a second time, at whatever time, changes nothing: a run that is
  processed again neither counts a signal twice nor resolves or reopens one.\<close>

theorem correlation_is_idempotent:
  "snd (correlate_signals digest now2 run obs complete kinds key (snd (correlate_signals digest now run obs complete kinds key db)))
    = snd (correlate_signals digest now run obs complete kinds key db)"
proof -
  have "signal_binding run key (db\<lparr>yd_signals := rows\<rparr>) = signal_binding run key db" for rows
    by (simp add: signal_binding_def find_run_def)
  then show ?thesis by (simp add: correlate_signals_def Let_def correlate_rows_again)
qed

end
