(* ===== verification/Assurance_Review.thy ===== *)
theory Assurance_Review
  imports Assurance_Lifecycle Validation_Lifecycle Signal_Correlation
begin

text \<open>
  What the answer to a finished run may do to the rest of the system: it drafts validations and neither approves nor
  executes one, and the packages open for review never overlap. Both hold over every history of continuous assurance.
\<close>


section \<open>Only drafts\<close>

text \<open>A task that assurance created, and a task after assurance has run over the queue \<open>old\<close>.\<close>

definition drafted :: "validation_task \<Rightarrow> bool" where
  "drafted t = ((vt_status t = TDraft \<or> vt_status t = TExpired) \<and> check_contract t = Inr () \<and> vt_approved_at t = None \<and>
     vt_expires_at t \<noteq> None \<and> vt_approval_scope t = ''single-execution'')"

definition reviewed :: "validation_db \<Rightarrow> validation_task \<Rightarrow> bool" where
  "reviewed old t = ((vt_status t = TDraft \<or> vt_status t = TExpired \<or> t \<in> set old) \<and> (vt_id t \<in> set (map vt_id old) \<or> drafted t))"

abbreviation all_reviewed :: "validation_db \<Rightarrow> validation_db \<Rightarrow> bool" where
  "all_reviewed old db \<equiv> \<forall>t \<in> set db. reviewed old t"

lemma reviewed_expire: "all_reviewed old db \<Longrightarrow> all_reviewed old (snd (expire_due now ex db))"
  by (auto simp: expire_due_def set_sql_update reviewed_def drafted_def check_contract_def)

lemma reviewed_reusable: "all_reviewed old db \<Longrightarrow> find_reusable now f tenant db = (r, db') \<Longrightarrow> all_reviewed old db'"
  using reviewed_expire by (auto simp: find_reusable_def Let_def)

lemma reviewed_create:
  assumes "all_reviewed old db" "create_validation env v db = Inr (t, db')"
    and "tc_expires_at v \<noteq> None" "tc_approval_scope v = ''single-execution''"
  shows "all_reviewed old db'"
proof -
  let ?new = "new_task (vx_digest env) (vx_now env) (vx_task_id env) v"
  have "check_contract ?new = Inr ()" by (rule create_validation_cases [OF assms(2)])
  then have "drafted ?new" using assms(3,4) by (simp add: drafted_def new_task_def)
  then have "all_reviewed old (db @ [?new])" using assms(1) by (auto simp: reviewed_def drafted_def new_task_def)
  moreover have "db' = snd (expire_due (vx_now env) [] (db @ [?new]))"
    using assms(2) by (auto simp: create_validation_def create_task_def find_get split: sum.splits option.splits if_splits)
  ultimately show ?thesis using reviewed_expire by blast
qed

lemma reviewed_make_draft:
  assumes "all_reviewed old db" "make_draft env result k ex sigs n c q db = (r, db')"
  shows "all_reviewed old db'"
proof -
  obtain x db1 where f: "find_reusable (vx_now (rx_validation env)) (query_fingerprint env q)
      (Some (text_or (yk_tenant k) ''workspace-primary'')) db = (x, db1)" by fastforce
  note ok = reviewed_reusable [OF assms(1) f]
  have "all_reviewed old db2"
    if "create_validation ((rx_validation env)\<lparr>vx_task_id := rx_task_id env n\<rparr>) (draft_create env result k ex c q refs) db1 = Inr (t, db2)"
    for refs t db2
    by (rule reviewed_create [OF ok that]) (simp_all add: draft_create_def)
  then show ?thesis using assms(2) f ok
    by (auto simp: make_draft_def Let_def split: option.splits sum.splits if_splits)
qed

lemma reviewed_make_drafts:
  "all_reviewed old db \<Longrightarrow> make_drafts env result k ex sigs seen n cs db = (r, db') \<Longrightarrow> all_reviewed old db'"
proof (induction cs arbitrary: seen n db r db')
  case (Cons c cs)
  show ?case
  proof (cases "query_of env c")
    case (Inl e)
    then show ?thesis using Cons.prems by simp
  next
    case (Inr q)
    obtain x db1 where m: "make_draft env result k ex sigs n c q db = (x, db1)" by fastforce
    have ok: "all_reviewed old db1" by (rule reviewed_make_draft [OF Cons.prems(1) m])
    obtain y db2 where r: "make_drafts env result k ex sigs (query_fingerprint env q # seen) (Suc n) cs db1 = (y, db2)" by fastforce
    have "all_reviewed old db2" by (rule Cons.IH [OF ok r])
    then show ?thesis using Cons.prems Cons.IH [OF Cons.prems(1)] Inr m ok r
      by (auto split: if_splits sum.splits)
  qed
qed simp

lemma reviewed_drafts:
  "all_reviewed old db \<Longrightarrow> validation_drafts env k ex sigs result db = (r, db') \<Longrightarrow> all_reviewed old db'"
  by (auto simp: validation_drafts_def split: sum.splits dest: reviewed_make_drafts)

lemma reviewed_open_package:
  assumes "all_reviewed old (rw_tasks w)" "open_package env run result sigs w = (r, w')"
  shows "all_reviewed old (rw_tasks w')"
proof -
  have drafts: "all_reviewed old db'" if "validation_drafts env k ex ss result (rw_tasks w) = (x, db')" for k ex ss x db'
    by (rule reviewed_drafts [OF assms(1) that])
  show ?thesis using assms by (auto simp: open_package_def Let_def split: sum.splits prod.splits dest: drafts)
qed

lemma reviewed_process:
  "all_reviewed old (rw_tasks w) \<Longrightarrow> process_response env run result key w = (r, w') \<Longrightarrow> all_reviewed old (rw_tasks w')"
  by (auto simp: process_response_def Let_def split: sum.splits prod.splits if_splits dest!: reviewed_open_package [rotated])

lemma tasks_kept [simp]:
  "aw_tasks (assurance_stopped env e w) = aw_tasks w" "aw_tasks (assurance_broke env e m w) = aw_tasks w"
  "aw_tasks (assurance_blocked env e s ti d w) = aw_tasks w"
  by (simp_all add: assurance_stopped_def assurance_broke_def assurance_blocked_def)

lemma tasks_progress: "assurance_progress env e ev w = Inr w' \<Longrightarrow> aw_tasks w' = aw_tasks w"
  by (auto simp: assurance_progress_def Let_def split: if_splits)

lemma tasks_start: "aw_tasks (start_assurance env e w) = aw_tasks w"
  by (auto simp: start_assurance_def Let_def tasks_progress split: option.split prod.split sum.split)

lemma tasks_preflight: "aw_tasks (after_run_preflight env e v w) = aw_tasks w"
  by (auto simp: after_run_preflight_def tasks_progress split: option.split sum.split)

lemma tasks_schedule: "aw_tasks (schedule_due env w) = aw_tasks w"
proof -
  have "aw_tasks (snd (enqueue_run env d t w)) = aw_tasks w" for d t
    by (auto simp: enqueue_run_def Let_def split: prod.split sum.split)
  then have "enqueue_run env d t w = (r, w1) \<Longrightarrow> aw_tasks w1 = aw_tasks w" for d t r w1 by (metis snd_conv)
  then show ?thesis by (auto simp: schedule_due_def Let_def split: option.split sum.split prod.split)
qed

text \<open>The one step that reaches the validation queue or the packages: the end of a collection.\<close>

definition ends_collection :: "assurance_op \<Rightarrow> assurance_world \<Rightarrow> bool" where
  "ends_collection op w = (case op of ResumeAssurance (Got v) \<Rightarrow>
     (case aw_exec w of None \<Rightarrow> False | Some e \<Rightarrow> xe_phase e = ACollect) | _ \<Rightarrow> False)"

lemma tasks_policy:
  "aw_tasks (snd (change_policy env b v u w)) = aw_tasks w" "aw_tasks (snd (rebind_assurance env b f u w)) = aw_tasks w"
  "aw_tasks (snd (enqueue_run env d t w)) = aw_tasks w"
  by (auto simp: change_policy_def rebind_assurance_def set_policy_def enqueue_run_def Let_def split: prod.split sum.split)

lemma tasks_step: "\<not> ends_collection op w \<Longrightarrow> aw_tasks (assurance_step (env, op) w) = aw_tasks w"
proof (cases op)
  case (ResumeAssurance out)
  assume "\<not> ends_collection op w"
  then show ?thesis using ResumeAssurance
    by (cases out; cases "aw_exec w"; cases "xe_phase (the (aw_exec w))")
      (auto simp: ends_collection_def resume_assurance_def tasks_start tasks_preflight)
next
  case (ReportRun ev)
  then show ?thesis by (auto simp: tasks_progress split: option.split sum.split)
next
  case AssuranceRound
  then show ?thesis by (auto simp: assurance_round_def Let_def tasks_schedule split: option.split)
qed (auto simp: tasks_policy cancel_run_def assurance_call_def assurance_overview_def stop_assurance_def
    start_service_def Let_def split: option.split prod.split)

text \<open>What a property of the response worlds gives of the machine.\<close>

lemma collection_end:
  assumes op: "ends_collection op w"
    and P: "\<And>env run result key rw a rw'. process_response env run result key rw = (a, rw') \<Longrightarrow> P rw rw'"
  obtains "aw_tasks (assurance_step (env, op) w) = aw_tasks w"
    "yd_packages (aw_db (assurance_step (env, op) w)) = yd_packages (aw_db w)"
  | rw rw' where "P rw rw'" "rw_tasks rw = aw_tasks w" "yd_packages (rw_db rw) = yd_packages (aw_db w)"
    "aw_tasks (assurance_step (env, op) w) = rw_tasks rw'" "yd_packages (aw_db (assurance_step (env, op) w)) = yd_packages (rw_db rw')"
proof -
  have notice: "yd_packages (aw_db (notify env i s c t d w1)) = yd_packages (aw_db w1)" for env i s c t d w1
    by (simp add: notify_def add_notification_def Let_def split: option.split)
  have table: "yd_packages (update_runs p f db) = yd_packages db" for p f db by (simp add: update_runs_def)
  obtain e v where e: "aw_exec w = Some e" "xe_phase e = ACollect" "op = ResumeAssurance (Got v)"
    using op by (auto simp: ends_collection_def split: assurance_op.splits run_outcome.splits option.splits)
  have step: "assurance_step (env, op) w = after_collection env e v w" using e by (simp add: resume_assurance_def)
  show thesis
  proof (cases "run_summary_of env v")
    case (Inl err)
    then show thesis
      by (intro that(1)) (simp_all add: step after_collection_def assurance_broke_def notice fail_run_def table)
  next
    case (Inr s0)
    let ?s = "stored_summary e s0"
    let ?w1 = "on_db (complete_run (ax_repr env) (ax_now env) (xe_id e) (summary_status e ?s) (summary_json ?s) (xe_calls e)) w"
    let ?w2 = "create_notifications env (xe_id e) ?s (xe_exceeded e) ?w1"
    let ?key = "case find_run (xe_id e) (aw_db ?w2) of None \<Rightarrow> [] | Some r \<Rightarrow> yr_alias r @ ''|'' @ yr_fingerprint r @ ''|'' @ yr_tenant r"
    let ?rw = "\<lparr>rw_db = aw_db ?w2, rw_tasks = aw_tasks ?w2\<rparr>"
    obtain a rw' where r: "process_response (ax_response env) (xe_id e) v ?key ?rw = (a, rw')" by fastforce
    have keep: "rw_tasks ?rw = aw_tasks w" "yd_packages (rw_db ?rw) = yd_packages (aw_db w)"
      by (simp_all add: create_notifications_def Let_def notice complete_run_def table)
    have "aw_tasks (after_collection env e v w) = rw_tasks rw'" "yd_packages (aw_db (after_collection env e v w)) = yd_packages (rw_db rw')"
      using Inr r by (auto simp: after_collection_def assurance_complete_def Let_def notice split: prod.split sum.split)
    then show thesis using that(2) [OF P [OF r] keep] step by simp
  qed
qed

lemma reviewed_step:
  assumes "all_reviewed old (aw_tasks w)"
  shows "all_reviewed old (aw_tasks (assurance_step (env, op) w))"
proof (cases "ends_collection op w")
  case False
  then show ?thesis using assms tasks_step by simp
next
  case True
  show ?thesis
    by (rule collection_end [OF True, where env = env and P = "\<lambda>rw rw'. all_reviewed old (rw_tasks rw) \<longrightarrow> all_reviewed old (rw_tasks rw')"])
      (use assms reviewed_process in auto)
qed

interpretation assurance_tasks: invariant_machine assurance_step "\<lambda>w. all_reviewed old (aw_tasks w)" for old
proof
  fix w :: assurance_world and e :: "assurance_env \<times> assurance_op"
  assume "all_reviewed old (aw_tasks w)"
  then show "all_reviewed old (aw_tasks (assurance_step e w))" using reviewed_step [where env = "fst e" and op = "snd e"] by simp
qed

text \<open>C36. Continuous assurance never approves or executes a query: over every history, a validation task that is approved,
  running, complete or failed was so before; and each task it adds is a draft (or has expired) whose query passes the
  contract check, that was never approved, that expires, and whose approval would be for one execution.\<close>

theorem assurance_only_drafts:
  "set (filter (\<lambda>t. vt_status t \<noteq> TDraft \<and> vt_status t \<noteq> TExpired) (aw_tasks (run_ops assurance_step (new_assurance now old) es)))
      \<subseteq> set old \<and>
   list_all (\<lambda>t. (vt_status t = TDraft \<or> vt_status t = TExpired) \<and> check_contract t = Inr () \<and> vt_approved_at t = None \<and>
       vt_expires_at t \<noteq> None \<and> vt_approval_scope t = ''single-execution'')
     (filter (\<lambda>t. \<not> List.member (map vt_id old) (vt_id t)) (aw_tasks (run_ops assurance_step (new_assurance now old) es)))"
proof -
  have "all_reviewed old (aw_tasks (new_assurance now old))" by (simp add: new_assurance_def reviewed_def)
  then have "all_reviewed old (aw_tasks (run_ops assurance_step (new_assurance now old) es))" by (rule assurance_tasks.inv_run)
  then show ?thesis by (auto simp: reviewed_def drafted_def list_all_iff)
qed


section \<open>Open packages do not overlap\<close>

definition overlap_free :: "package list \<Rightarrow> bool" where
  "overlap_free ks = (distinct (map yk_id ks) \<and> (\<forall>a \<in> set ks. \<forall>b \<in> set ks. yk_status a = PReview \<longrightarrow> yk_status b = PReview \<longrightarrow>
     yk_tenant a = yk_tenant b \<longrightarrow> (\<exists>f. f \<in> set (yk_signals a) \<and> f \<in> set (yk_signals b)) \<longrightarrow> yk_id a = yk_id b))"

text \<open>An update that keeps id, tenant and signals and opens no package.\<close>

definition only_closes :: "(package \<Rightarrow> package) \<Rightarrow> bool" where
  "only_closes f = (\<forall>k. yk_id (f k) = yk_id k \<and> yk_tenant (f k) = yk_tenant k \<and> yk_signals (f k) = yk_signals k \<and>
     (yk_status (f k) = PReview \<longrightarrow> yk_status k = PReview))"

lemma overlap_free_update:
  assumes "overlap_free ks" "only_closes f"
  shows "overlap_free (sql_update p f ks)"
proof -
  define g where "g = (\<lambda>k :: package. if p k then f k else k)"
  have g: "yk_id (g k) = yk_id k" "yk_tenant (g k) = yk_tenant k" "yk_signals (g k) = yk_signals k"
    "yk_status (g k) = PReview \<Longrightarrow> yk_status k = PReview" for k
    using assms(2) by (cases "p k"; auto simp: only_closes_def g_def)+
  have rows: "sql_update p f ks = map g ks" by (simp add: sql_update_def g_def)
  have "distinct (map yk_id (map g ks))" using assms(1) by (simp add: comp_def g overlap_free_def)
  then show ?thesis using assms(1) unfolding rows overlap_free_def by (auto simp: g(1-3) dest!: g(4))
qed

lemma overlap_free_expire: "overlap_free (yd_packages db) \<Longrightarrow> overlap_free (yd_packages (snd (expire_packages now ex db)))"
  by (simp add: expire_packages_def Let_def overlap_free_update only_closes_def)

lemma overlap_free_close: "overlap_free (yd_packages db) \<Longrightarrow> overlap_free (yd_packages (snd (close_package now i db)))"
  by (simp add: close_package_def Let_def overlap_free_update overlap_free_expire only_closes_def)

lemma overlap_free_add:
  assumes "overlap_free ks" "yk_id k \<notin> set (map yk_id ks)"
    and "\<And>x. x \<in> set ks \<Longrightarrow> yk_status x = PReview \<Longrightarrow> yk_tenant x = yk_tenant k \<Longrightarrow> set (yk_signals x) \<inter> set (yk_signals k) = {}"
  shows "overlap_free (ks @ [k])"
  using assms unfolding overlap_free_def by (auto simp: disjoint_iff eq_commute)

lemma packages_notification [simp]: "yd_packages (snd (add_notification now i run s c t d db)) = yd_packages db"
  by (simp add: add_notification_def Let_def split: option.split)

lemma overlap_free_validations:
  "overlap_free (yd_packages db) \<Longrightarrow> overlap_free (yd_packages (snd (update_package_validations now i ids db)))"
  by (simp add: update_package_validations_def Let_def overlap_free_update only_closes_def)

lemma overlap_free_create:
  assumes "overlap_free (yd_packages db)" "create_package now i run sev title m fs ex db = Inr (k, db')"
    and "\<And>x f. x \<in> set (yd_packages db) \<Longrightarrow> yk_status x = PReview \<Longrightarrow> yk_tenant x = yb_tenant (package_binding run fs db) \<Longrightarrow>
      f \<in> set fs \<Longrightarrow> f \<notin> set (yk_signals x)"
  shows "overlap_free (yd_packages db')"
proof -
  have k: "yd_packages db' = yd_packages db @ [k]" "yk_id k \<notin> set (map yk_id (yd_packages db))" "yk_signals k = sorted_set fs"
    "yk_tenant k = yb_tenant (package_binding run fs db)"
    using assms(2) by (auto simp: create_package_def Let_def list_ex_iff split: if_splits)
  show ?thesis unfolding k(1) by (rule overlap_free_add [OF assms(1) k(2)]) (use assms(3) k(3,4) in \<open>fastforce simp: sorted_set_def\<close>)
qed

lemma overlap_free_open_package:
  assumes ok: "overlap_free (yd_packages (rw_db w))" and o': "open_package env run result sigs w = (r, w')"
    and new: "\<And>fs x f. x \<in> set (yd_packages (rw_db w)) \<Longrightarrow> yk_status x = PReview \<Longrightarrow>
      yk_tenant x = yb_tenant (package_binding run fs (rw_db w)) \<Longrightarrow> f \<in> set (map ys_fingerprint sigs) \<Longrightarrow> f \<notin> set (yk_signals x)"
  shows "overlap_free (yd_packages (rw_db w'))"
proof -
  let ?sigs = "take 12 (sort_signals sigs)"
  have sub: "set (map ys_fingerprint ?sigs) \<subseteq> set (map ys_fingerprint sigs)"
    using set_take_subset [of 12 "sort_signals sigs"] by (auto simp: sort_signals_def)
  have made: "overlap_free (yd_packages db1)"
    if "create_package now i run sev title m (map ys_fingerprint ?sigs) ex (rw_db w) = Inr (k, db1)" for now i sev title m ex k db1
    by (rule overlap_free_create [OF ok that]) (use new sub in blast)
  have "overlap_free (yd_packages db3)"
    if "overlap_free (yd_packages db1)" "update_package_validations now i ids db1 = (x, db2)"
      "add_notification now2 i2 run2 s c t d db2 = (y, db3)" for db1 now i ids x db2 now2 i2 run2 s c t d y db3
    using overlap_free_validations [OF that(1), of now i ids] that(2) packages_notification [of now2 i2 run2 s c t d db2] that(3) by simp
  note later = this
  show ?thesis
    using o' ok by (auto simp: open_package_def Let_def split: sum.splits prod.splits dest: made later [OF made])
qed

lemma packages_correlate [simp]: "yd_packages (snd (correlate_signals dg now run obs a ks key db)) = yd_packages db"
  by (simp add: correlate_signals_def Let_def)

lemma overlap_free_process:
  assumes ok: "overlap_free (yd_packages (rw_db w))" and p: "process_response env run result key w = (r, w')"
  shows "overlap_free (yd_packages (rw_db w'))"
proof (cases "try_bind (result_signals env result) (\<lambda>obs. try_bind (failed_calls env result) (\<lambda>n. Inr (obs, n)))")
  case (Inl e)
  then show ?thesis using p ok by (simp add: process_response_def)
next
  case (Inr x)
  obtain obs failed where x: "x = (obs, failed)" by fastforce
  obtain correlated db1 where c: "correlate_signals (rx_digest env) (rx_now env) run obs (failed = 0)
      (Some (authoritative_kinds (text_of (rx_repr env) ''standard'' ''depth'' result))) key (rw_db w) = (correlated, db1)" by fastforce
  let ?tenant = "case find_run run db1 of None \<Rightarrow> [] | Some r \<Rightarrow> yr_tenant r"
  obtain covered db2 where cov: "covered_fingerprints (rx_now env) ?tenant db1 = (covered, db2)" by fastforce
  have db1: "yd_packages db1 = yd_packages (rw_db w)" using c packages_correlate by (metis snd_conv)
  have db2: "db2 = snd (expire_packages (rx_now env) [] db1)" and covered: "covered = concat (map yk_signals
      (filter (\<lambda>k. yk_status k = PReview \<and> (?tenant = [] \<or> yk_tenant k = ?tenant)) (yd_packages db2)))"
    using cov by (auto simp: covered_fingerprints_def Let_def)
  have ok2: "overlap_free (yd_packages db2)" unfolding db2 by (rule overlap_free_expire) (simp add: db1 ok)
  have run: "find_run run db2 = find_run run db1" by (simp add: db2 find_run_def)
  let ?auth = "rev (map (\<lambda>ob. (scoped_fingerprint (rx_digest env) key (ob_fingerprint ob), ob_authoritative ob)) obs)"
  let ?eligible = "eligible_signals covered ?auth correlated"
  have new: "f \<notin> set (yk_signals x)" if "x \<in> set (yd_packages db2)" "yk_status x = PReview"
    "yk_tenant x = yb_tenant (package_binding run fs db2)" "f \<in> set (map ys_fingerprint ?eligible)" for fs x f
  proof
    assume f: "f \<in> set (yk_signals x)"
    have "?tenant = [] \<or> yk_tenant x = ?tenant"
      using that(3) run by (cases "find_run run db1") (simp_all add: package_binding_def)
    then have "f \<in> set covered" using f that(1,2) unfolding covered by auto
    then show False using that(4) by (auto simp: eligible_signals_def)
  qed
  show ?thesis
  proof (cases "?eligible = []")
    case True
    then show ?thesis using p Inr x c cov ok2 by (auto simp: process_response_def Let_def)
  next
    case False
    then have "open_package env run result ?eligible (w\<lparr>rw_db := db2\<rparr>) = (r, w')"
      using p Inr x c cov by (simp add: process_response_def Let_def)
    then show ?thesis using overlap_free_open_package [of "w\<lparr>rw_db := db2\<rparr>"] ok2 new by simp
  qed
qed

lemma packages_tables [simp]:
  "yd_packages (update_runs p f db) = yd_packages db" "yd_packages (update_run_progress now i e n db) = yd_packages db"
  "yd_packages (complete_run repr now i s v n db) = yd_packages db" "yd_packages (fail_run now i s m n db) = yd_packages db"
  "yd_packages (requeue_run now i db) = yd_packages db" "yd_packages (advance_schedule now db) = yd_packages db"
  "yd_packages (update_assurance_policy now pu db) = yd_packages db" "yd_packages (snd (acknowledge i db)) = yd_packages db"
  "yd_packages (snd (recover_interrupted_runs now db)) = yd_packages db" "yd_packages (snd (rebind_policy now b fp u db)) = yd_packages db"
  "yd_packages (snd (mark_run_running now i db)) = yd_packages db" "yd_packages (snd (request_run_cancel now i db)) = yd_packages db"
  by (simp_all add: update_runs_def update_run_progress_def complete_run_def fail_run_def requeue_run_def advance_schedule_def
      update_assurance_policy_def acknowledge_def recover_interrupted_runs_def rebind_policy_def mark_run_running_def
      request_run_cancel_def Let_def split: option.split)

lemma packages_notify [simp]: "yd_packages (aw_db (notify env i s c t d w)) = yd_packages (aw_db w)"
  by (simp add: notify_def)

lemma packages_kept [simp]:
  "yd_packages (aw_db (assurance_stopped env e w)) = yd_packages (aw_db w)"
  "yd_packages (aw_db (assurance_broke env e m w)) = yd_packages (aw_db w)"
  "yd_packages (aw_db (assurance_blocked env e s ti d w)) = yd_packages (aw_db w)"
  by (simp_all add: assurance_stopped_def assurance_broke_def assurance_blocked_def)

lemma packages_progress: "assurance_progress env e ev w = Inr w' \<Longrightarrow> yd_packages (aw_db w') = yd_packages (aw_db w)"
  by (auto simp: assurance_progress_def Let_def split: if_splits)

lemma packages_mark: "mark_run_running now i db = (r, db') \<Longrightarrow> yd_packages db' = yd_packages db"
  using packages_tables(11) [of now i db] by simp

lemma packages_start: "yd_packages (aw_db (start_assurance env e w)) = yd_packages (aw_db w)"
  by (auto simp: start_assurance_def Let_def packages_progress packages_mark split: option.split prod.split sum.split)

lemma packages_preflight: "yd_packages (aw_db (after_run_preflight env e v w)) = yd_packages (aw_db w)"
  by (auto simp: after_run_preflight_def packages_progress split: option.split sum.split)

lemma packages_enqueue: "yd_packages (aw_db (snd (enqueue_run env d t w))) = yd_packages (aw_db w)"
proof -
  have "create_run now i tr dp b db = Inr (r, db') \<Longrightarrow> yd_packages db' = yd_packages db" for now i tr dp b db r db'
    by (auto simp: create_run_def Let_def split: if_splits option.splits)
  then show ?thesis by (auto simp: enqueue_run_def Let_def split: prod.split sum.split)
qed

lemma packages_schedule: "yd_packages (aw_db (schedule_due env w)) = yd_packages (aw_db w)"
proof -
  have "enqueue_run env d t w = (r, w1) \<Longrightarrow> yd_packages (aw_db w1) = yd_packages (aw_db w)" for d t r w1
    using packages_enqueue [of env d t w] by simp
  then show ?thesis by (auto simp: schedule_due_def Let_def split: option.split sum.split prod.split)
qed

lemma packages_rebind: "rebind_policy now b fp u db = (r, db') \<Longrightarrow> yd_packages db' = yd_packages db"
  using packages_tables(10) [of now b fp u db] by simp

lemma packages_policy:
  "yd_packages (aw_db (snd (change_policy env b v u w))) = yd_packages (aw_db w)"
  "yd_packages (aw_db (snd (rebind_assurance env b f u w))) = yd_packages (aw_db w)"
  by (auto simp: change_policy_def rebind_assurance_def set_policy_def Let_def packages_rebind split: prod.split sum.split)

lemma packages_cancel: "request_run_cancel now i db = (r, db') \<Longrightarrow> yd_packages db' = yd_packages db"
  using packages_tables(12) [of now i db] by simp

lemma overlap_free_step:
  assumes ok: "overlap_free (yd_packages (aw_db w))"
  shows "overlap_free (yd_packages (aw_db (assurance_step (env, op) w)))"
proof (cases "ends_collection op w")
  case True
  show ?thesis
    by (rule collection_end [OF True, where env = env and
          P = "\<lambda>rw rw'. overlap_free (yd_packages (rw_db rw)) \<longrightarrow> overlap_free (yd_packages (rw_db rw'))"])
      (use ok overlap_free_process in auto)
next
  case False
  show ?thesis
  proof (cases op)
    case (ResumeAssurance out)
    then show ?thesis using False ok
      by (cases out; cases "aw_exec w"; cases "xe_phase (the (aw_exec w))")
        (auto simp: ends_collection_def resume_assurance_def packages_start packages_preflight)
  next
    case (ReportRun ev)
    then show ?thesis using ok by (auto simp: packages_progress split: option.split sum.split)
  next
    case AssuranceRound
    then show ?thesis using ok by (auto simp: assurance_round_def Let_def packages_schedule split: option.split)
  next
    case ViewAssurance
    have "overlap_free (yd_packages db1)" if "list_packages now n t (aw_db w) = (x, db1)" for now n t x db1
      using that overlap_free_expire [OF ok] by (auto simp: list_packages_def Let_def)
    then show ?thesis using ViewAssurance by (auto simp: assurance_overview_def Let_def split: prod.split)
  next
    case (CancelRun i)
    then show ?thesis using ok by (auto simp: cancel_run_def Let_def packages_cancel split: option.split prod.split)
  qed (use ok in \<open>auto simp: packages_policy packages_enqueue assurance_call_def overlap_free_close overlap_free_expire
      stop_assurance_def start_service_def open_assurance_def split: option.split\<close>)
qed

interpretation assurance_packages: invariant_machine assurance_step "\<lambda>w. overlap_free (yd_packages (aw_db w))"
proof
  fix w :: assurance_world and e :: "assurance_env \<times> assurance_op"
  assume "overlap_free (yd_packages (aw_db w))"
  then show "overlap_free (yd_packages (aw_db (assurance_step e w)))"
    using overlap_free_step [where env = "fst e" and op = "snd e"] by simp
qed

text \<open>C37. Over every history, a signal is in at most one open package of a tenant: recurring signals do not open a second
  package while the first is under review.\<close>

theorem open_packages_never_overlap:
  "length (filter (\<lambda>k. yk_status k = PReview \<and> yk_tenant k = tenant \<and> List.member (yk_signals k) f)
     (yd_packages (aw_db (run_ops assurance_step (new_assurance now tasks) es)))) \<le> 1"
proof (rule filter_at_most_one [where key = yk_id])
  have "overlap_free (yd_packages (aw_db (new_assurance now tasks)))"
    by (simp add: new_assurance_def initial_assurance_def overlap_free_def)
  then have ok: "overlap_free (yd_packages (aw_db (run_ops assurance_step (new_assurance now tasks) es)))"
    by (rule assurance_packages.inv_run)
  then show "distinct (map yk_id (yd_packages (aw_db (run_ops assurance_step (new_assurance now tasks) es))))"
    by (simp add: overlap_free_def)
  show "yk_id a = yk_id b"
    if "a \<in> set (yd_packages (aw_db (run_ops assurance_step (new_assurance now tasks) es)))"
      "b \<in> set (yd_packages (aw_db (run_ops assurance_step (new_assurance now tasks) es)))"
      "yk_status a = PReview \<and> yk_tenant a = tenant \<and> List.member (yk_signals a) f"
      "yk_status b = PReview \<and> yk_tenant b = tenant \<and> List.member (yk_signals b) f" for a b
  proof -
    have "yk_status a = PReview" "yk_status b = PReview" "yk_tenant a = yk_tenant b" "f \<in> set (yk_signals a)" "f \<in> set (yk_signals b)"
      using that(3,4) by auto
    with ok that(1,2) show ?thesis unfolding overlap_free_def by blast
  qed
qed


section \<open>A small workspace for the witnesses\<close>

definition sample_validation :: validation_env where
  "sample_validation = \<lparr>vx_digest = (\<lambda>s. s), vx_now = ''t'', vx_task_id = ''v'', vx_binding = (\<lambda>a f t. (True, [])),
     vx_shape = (\<lambda>t rows. JNull), vx_repr = (\<lambda>v. [])\<rparr>"

definition sample_assurance :: "instant \<Rightarrow> string \<Rightarrow> assurance_env" where
  "sample_assurance now i = \<lparr>ax_now = now, ax_run_id = i, ax_notice_id = (\<lambda>n. replicate n (CHR ''n'')), ax_repr = (\<lambda>v. []),
     ax_binding = (\<lambda>a f t. (True, [])), ax_client_error = None, ax_pipeline_error = None, ax_lane_busy = False,
     ax_response = \<lparr>rx_now = now, rx_iso = int_text, rx_package_id = i, rx_notice_id = i, rx_task_id = (\<lambda>n. replicate n (CHR ''v'')),
       rx_validation = sample_validation, rx_error = [], rx_schema_error = []\<rparr>,
     ax_delivery_error = None, ax_error = []\<rparr>"

definition limited_policy :: policy_update where
  "limited_policy = \<lparr>yu_enabled = True, yu_interval_minutes = 60, yu_depth = ''quick'', yu_max_calls = 4, yu_max_runs = 5,
     yu_notify_drift = True, yu_notify_high = True\<rparr>"

definition limited_ops :: "(assurance_env \<times> assurance_op) list" where
  "limited_ops = [(sample_assurance 0 ''a'', ChangePolicy \<lparr>yb_alias = ''primary'', yb_fingerprint = [], yb_tenant = []\<rparr> limited_policy 0),
     (sample_assurance 1 ''a'', StartAssurance), (sample_assurance 2 ''a'', EnqueueRun []), (sample_assurance 3 ''a'', AssuranceRound),
     (sample_assurance 4 ''a'', ResumeAssurance (Got JNull)), (sample_assurance 5 ''a'', CancelRun ''a'')]"

theorem daily_run_limit_witness:
  "int (length (filter (\<lambda>r. utc_day (yr_created_at r) = 0 \<and> (yr_status r \<noteq> JCancelled \<or> 0 < yr_calls_used r))
     (yd_runs (aw_db (run_ops assurance_step (new_assurance 0 []) limited_ops))))) \<le> 5"
  by (rule daily_run_limit) (simp_all add: limited_ops_def limited_policy_def)

definition open_signal :: signal where
  "open_signal = \<lparr>ys_fingerprint = ''f'', ys_kind = ''coverage'', ys_severity = ''medium'', ys_title = [], ys_detail = [],
     ys_subject = [], ys_source_ref = [], ys_status = SWatching, ys_occurrences = 1, ys_consecutive = 1, ys_first_run = ''r'',
     ys_last_run = ''r'', ys_first_seen_at = 0, ys_last_seen_at = 0, ys_resolved_at = None, ys_alias = ''primary'',
     ys_connection = [], ys_tenant = ''workspace-primary''\<rparr>"

theorem signal_resolution_witness:
  "map_option ys_status (find_signal ''f'' (snd (correlate_signals (\<lambda>s. s) 1 ''s'' [] True (Some [''inventory'']) []
     ((initial_assurance 0)\<lparr>yd_signals := [open_signal]\<rparr>)))) \<noteq> Some SResolved"
proof -
  let ?db = "(initial_assurance 0)\<lparr>yd_signals := [open_signal]\<rparr>"
  have "distinct (map ys_fingerprint (yd_signals ?db))" "find_signal ''f'' ?db = Some open_signal" "ys_status open_signal \<noteq> SResolved"
    by (simp_all add: open_signal_def find_signal_def sql_first_def)
  from signal_resolution [OF this refl refl, of "\<lambda>s. s" 1 "''s''" "[]" True "Some [''inventory'']" "[]"]
  show ?thesis by (simp add: open_signal_def)
qed

end
