(* ===== verification/Spec2Isabelle.thy ===== *)
theory Spec2Isabelle
  imports Json_Text Guardrails Audit_Chain Workload_Admission Audit_Export Connections Oidc_Admission Validation_Lifecycle Case_Store
    Discovery_Lifecycle Assurance_Review
begin

text \<open>
  SignalRoom (\<open>src/src/splunk_security_agent\<close>) is a security workbench that lets analysts and language models
  query Splunk through an MCP server. This development models the parts of it that decide what may run, who may
  ask for it, on which connection, at what cost, and what is remembered of it.

  \<^bold>\<open>Foundations.\<close> \<open>Prelude\<close>: errors as values, instants, the text primitives, SQLite tables as lists of rows, and the
  machine locales \<open>invariant_machine\<close>, \<open>timed_machine\<close>, \<open>lifecycle\<close> and \<open>event_source\<close> that the stores interpret.
  \<open>Json_Text\<close>: JSON values and the canonical text that digests are computed over, with its unambiguity.
  \<open>Regex_Match\<close>: the regular expressions of the code. \<open>Python_Values\<close>: the built-in values shared by later components.

  \<^bold>\<open>Queries.\<close> \<open>Guardrails\<close> models \<open>splunk/guardrails.py\<close> (\<open>validate_read_only_spl\<close>), \<open>workload/estimator.py\<close> and the
  contract check of a validation: which SPL text is accepted, what it is estimated to cost, and that an
  accepted contract is bounded. \<open>Workload_Store\<close> is \<open>workload/store.py\<close> (policy and event history) and
  \<open>Workload_Admission\<close> is \<open>workload/service.py\<close>: the assessment of a call and the admission controller as a step
  machine over all interleavings of its awaits, with the daily budget (over restarts and midnights) and the
  concurrency limits as invariants, and the slot that a failed admission report loses.

  \<^bold>\<open>Audit.\<close> \<open>Audit_Chain\<close> is \<open>audit/store.py\<close>: redaction, the hash chain and its verification; tampering with a
  verified log needs a collision of the digest. \<open>Audit_Export_Store\<close> and \<open>Audit_Export\<close> are \<open>audit_export\<close>: the
  delivery of the log to a Splunk HTTP event collector, which skips and repeats nothing while its policy stands.

  \<^bold>\<open>Connections.\<close> \<open>Connections\<close> is \<open>connections/store.py\<close>: revisions, aliases, admission of additional connections and
  the check of a workflow's binding.

  \<^bold>\<open>Access.\<close> \<open>Auth_Store\<close>, \<open>Auth_Service\<close> and \<open>Auth_Oidc\<close> are \<open>auth/store.py\<close>, \<open>auth/service.py\<close> with the request
  middleware \<open>access_control\<close> of \<open>app.py\<close>, and \<open>auth/oidc.py\<close>. \<open>Access_Control\<close> runs them as one machine and proves
  what holds over every history, among it which operations end a user's sessions; \<open>Oidc_Admission\<close> states what an
  enterprise sign-in promises, and that it ends no earlier session.

  \<^bold>\<open>Validation.\<close> \<open>Validation_Store\<close> is \<open>validation/store.py\<close>, the queue of queries that an analyst approves before
  they run, and \<open>Validation_Service\<close> is \<open>validation/service.py\<close>, each request split at its awaits.
  \<open>Validation_Lifecycle\<close> runs them as one machine over every interleaving and proves what an approval promises: only
  approved contracts run and stored tasks stay well formed - and how overlapping executions break the first.

  \<^bold>\<open>Cases and evidence.\<close> \<open>Case_Store\<close> is \<open>cases/store.py\<close>: cases with their items, their isolation by tenant scope and
  their export. \<open>Evidence_Store\<close> is \<open>rag/store.py\<close>: the artifacts, the chunks they are cut into and the index that
  follows them. \<open>Json_Parse\<close> is the writer and the reader of the JSON texts of cases and manifests, with their round trip \<open>loads_writes\<close>.

  \<^bold>\<open>Background jobs.\<close> \<open>Job_Lane\<close> specifies a queue that runs one job at a time under a ceiling of Splunk calls, and the
  contract \<open>lane_machine\<close> of an implementation. \<open>Discovery_Store\<close> is \<open>discovery/job_store.py\<close> and \<open>Discovery_Service\<close> is
  \<open>discovery/job_service.py\<close>, its executor split at its awaits; \<open>Discovery_Lifecycle\<close> proves that they implement the lane
  over every interleaving of requests, cancellations, crashes and restarts, and states where they lose a job or the worker.

  \<^bold>\<open>Continuous assurance.\<close> \<open>Assurance_Store\<close> and \<open>Assurance_Signals\<close> are \<open>assurance/store.py\<close>, \<open>Assurance_Response\<close> is
  \<open>assurance/response.py\<close> over the validation queue and \<open>Assurance_Service\<close> is \<open>assurance/service.py\<close> with the routes that
  change its policy. \<open>Job_Rows\<close> says which statement on a table of jobs is which step of \<open>Job_Lane\<close>;
  \<open>Assurance_Lifecycle\<close> proves the lane and the daily limit, \<open>Signal_Correlation\<close> what a run resolves, and
  \<open>Assurance_Review\<close> that assurance drafts and never runs a query and that open packages do not overlap.

  \<^bold>\<open>How they fit.\<close> A request passes \<open>access_control\<close>; its handler binds a connection (\<open>validate_binding\<close>) and runs Splunk
  calls through the admission controller, which assesses each query with \<open>estimate_query\<close>, whose first step is the
  guardrail. Every operation records its audit event with \<open>record_event\<close>; the export reads that log
  (\<open>event_source\<close>). The state of a component is a record with one field per table; an operation takes the state
  and what the environment supplies (clock, random texts, digests) and returns a result and the new state. An
  exception is a value \<open>Inl e\<close>; what was written before it stays written. Code that awaits is split at its awaits
  into steps of a machine, so that the theorems hold for every interleaving.

  \<^bold>\<open>Parameters.\<close> SHA-256, scrypt, base 64, URL parsing, \<open>ipaddress\<close>, PyJWT, the HTTP transports, the clock and the
  random texts are arguments of the definitions that use them. Where a theorem needs that a digest separates two
  texts, it says so in its statement.

  \<^bold>\<open>Bounds.\<close> No fuel is used: loops are structural recursions or recursions with a proved measure. Text ranges over
  the code points 0 to 255, instants are integral microseconds, and SQLite integers are unbounded.

  \<^bold>\<open>Not modelled.\<close> The rest of \<open>app.py\<close> (routes and wiring), the discovery pipeline and its prompts, the detection
  repository, delivery, tenancy, recovery, retention, benchmarks, model trust and setup, forecasting and the model
  providers are separate subsystems or glue over HTTP, files and model calls; the manifest lists each of them with
  its reason.
\<close>

end
